(* ===== verification/Prelude.thy ===== *)
theory Prelude
  imports Main "HOL-Library.Word"
begin

text \<open>
  What the components share: the machine integers and identifiers of the code, the Rust
  standard library operations the modelled code calls (saturating addition, decimal
  display, \<open>str::trim\<close>, \<open>Iterator::find_map\<close>), and the generic lemmas and
  automation the component theories rest on.

  Conventions. A Rust \<open>String\<close> is the list of its UTF-8 bytes, one \<^typ>\<open>char\<close> per
  byte. A \<open>Uuid\<close> is its 128-bit value; random generation (\<open>Uuid::new_v4\<close>) and the
  clock (\<open>Utc::now\<close>) are inputs of the operation that reads them. A fallible operation
  returns \<open>error + value\<close>, with \<open>Inl\<close> for the error.
\<close>

section \<open>Machine integers and identifiers\<close>

type_synonym u8 = "8 word"
type_synonym u32 = "32 word"
type_synonym u64 = "64 word"
type_synonym uuid = "128 word"
type_synonym bytes = "u8 list"
type_synonym timestamp = int
type_synonym session_id = uuid

text \<open>An \<open>f64\<close> that is only stored and passed on is its bit pattern.\<close>

type_synonym f64_bits = "64 word"

text \<open>\<open>saturating_add\<close> on unsigned words: the maximum value instead of a wrap-around.\<close>

definition saturating_add :: "'a::len word \<Rightarrow> 'a word \<Rightarrow> 'a word" where
  "saturating_add x y = (if x \<le> x + y then x + y else - 1)"

lemma saturating_add_no_overflow:
  "unat x + unat y < 2 ^ LENGTH('a) \<Longrightarrow> saturating_add x y = x + y"
  for x y :: "'a::len word"
  by (simp add: saturating_add_def word_le_nat_alt unat_word_ariths)

lemma unat_max_word: "unat (- 1 :: 'a::len word) = 2 ^ LENGTH('a) - 1"
  by (simp add: unsigned_minus_1_eq_mask mask_eq_exp_minus_1)

lemma saturating_add_overflow:
  fixes x y :: "'a::len word"
  assumes over: "2 ^ LENGTH('a) \<le> unat x + unat y"
  shows "saturating_add x y = - 1"
proof -
  have lt: "unat x < 2 ^ LENGTH('a)" "unat y < 2 ^ LENGTH('a)" by (rule unsigned_less)+
  then have "unat x + unat y - 2 ^ LENGTH('a) < 2 ^ LENGTH('a)" by linarith
  then have "(unat x + unat y) mod 2 ^ LENGTH('a) = unat x + unat y - 2 ^ LENGTH('a)"
    using over by (simp add: le_mod_geq)
  then have "unat (x + y) < unat x" using over lt by (simp only: unat_word_ariths)
  then have "\<not> x \<le> x + y" by (simp only: word_le_nat_alt not_le)
  then show ?thesis by (simp only: saturating_add_def if_False)
qed

lemma unat_saturating_add:
  "unat (saturating_add x y) = min (unat x + unat y) (2 ^ LENGTH('a) - 1)"
  for x y :: "'a::len word"
proof (cases "unat x + unat y < 2 ^ LENGTH('a)")
  case True
  then show ?thesis by (simp add: saturating_add_no_overflow unat_word_ariths)
next
  case False
  then have "saturating_add x y = - 1" by (intro saturating_add_overflow) (simp only: not_less)
  then have "unat (saturating_add x y) = 2 ^ LENGTH('a) - 1" by (simp only: unat_max_word)
  moreover have "2 ^ LENGTH('a) - 1 \<le> unat x + unat y"
    using False by linarith
  ultimately show ?thesis by (simp only: min_absorb2)
qed

lemma saturating_add_ge: "x \<le> saturating_add x y"
  by (simp add: saturating_add_def)

text \<open>The length of a Rust vector as a 64-bit word: exact below \<open>2 ^ 64\<close>.\<close>

lemma unat_of_nat_64: "n < 2 ^ 64 \<Longrightarrow> unat (of_nat n :: u64) = n"
  by (simp add: unsigned_of_nat take_bit_nat_eq_self)

lemma of_nat_inj_64: "m < 2 ^ 64 \<Longrightarrow> n < 2 ^ 64 \<Longrightarrow> (of_nat m :: u64) = of_nat n \<longleftrightarrow> m = n"
  by (metis unat_of_nat_64)

section \<open>Strings\<close>

text \<open>
  \<open>str::trim\<close> removes Unicode white space, so \<open>s.trim().is_empty()\<close> holds exactly when
  \<open>s\<close> is a sequence of white-space characters. On UTF-8 bytes these are one byte
  (U+0009 to U+000D and U+0020), two bytes (U+0085, U+00A0) or three bytes (U+1680,
  U+2000 to U+200A, U+2028, U+2029, U+202F, U+205F, U+3000).
\<close>

definition whitespace1 :: "char \<Rightarrow> bool" where
  "whitespace1 a = (of_char a \<in> {9, 10, 11, 12, 13, 32 :: nat})"

definition whitespace2 :: "char \<Rightarrow> char \<Rightarrow> bool" where
  "whitespace2 a b = (of_char a = (194 :: nat) \<and> of_char b \<in> {133, 160 :: nat})"

definition whitespace3 :: "char \<Rightarrow> char \<Rightarrow> char \<Rightarrow> bool" where
  "whitespace3 a b c =
     ((of_char a, of_char b, of_char c) \<in>
        {(225, 154, 128), (226, 129, 159), (227, 128, 128 :: nat)} \<union>
        {(226, 128, 168), (226, 128, 169), (226 :: nat, 128 :: nat, 175)} \<or>
      of_char a = (226 :: nat) \<and> of_char b = (128 :: nat) \<and> 128 \<le> (of_char c :: nat)
        \<and> (of_char c :: nat) \<le> 138)"

fun is_blank :: "string \<Rightarrow> bool" where
  "is_blank [] = True"
| "is_blank (a # r) =
     (if whitespace1 a then is_blank r
      else case r of [] \<Rightarrow> False
      | b # r2 \<Rightarrow>
          if whitespace2 a b then is_blank r2
          else case r2 of [] \<Rightarrow> False
          | c # r3 \<Rightarrow> whitespace3 a b c \<and> is_blank r3)"

text \<open>\<open>str::strip_prefix\<close>.\<close>

fun strip_prefix :: "string \<Rightarrow> string \<Rightarrow> string option" where
  "strip_prefix [] s = Some s"
| "strip_prefix (c # cs) [] = None"
| "strip_prefix (c # cs) (d # ds) = (if c = d then strip_prefix cs ds else None)"

lemma strip_prefix_Some: "strip_prefix p s = Some r \<longleftrightarrow> s = p @ r"
  by (induction p s rule: strip_prefix.induct) auto

lemma strip_prefix_append [simp]: "strip_prefix p (p @ t) = Some t"
  by (simp add: strip_prefix_Some)

text \<open>The \<open>Display\<close> of an unsigned integer: its decimal digits.\<close>

definition show_digit :: "nat \<Rightarrow> char" where
  "show_digit d = char_of (48 + d)"

fun show_nat :: "nat \<Rightarrow> string" where
  "show_nat n = (if n < 10 then [show_digit n] else show_nat (n div 10) @ [show_digit (n mod 10)])"

declare show_nat.simps [simp del]

definition show_u64 :: "u64 \<Rightarrow> string" where
  "show_u64 w = show_nat (unat w)"

lemma show_digit_inj: "d < 10 \<Longrightarrow> e < 10 \<Longrightarrow> show_digit d = show_digit e \<Longrightarrow> d = e"
proof -
  assume "d < 10" "e < 10" "show_digit d = show_digit e"
  then have "of_char (char_of (48 + d) :: char) = (of_char (char_of (48 + e) :: char) :: nat)"
    by (simp add: show_digit_def)
  with \<open>d < 10\<close> \<open>e < 10\<close> show "d = e" by (simp add: of_char_of)
qed

lemma show_nat_nonempty: "show_nat n \<noteq> []"
  by (subst show_nat.simps) simp

lemma show_nat_inj: "show_nat m = show_nat n \<Longrightarrow> m = n"
proof (induction m arbitrary: n rule: show_nat.induct)
  case (1 m)
  show ?case
  proof (cases "m < 10"; cases "n < 10")
    assume "m < 10" "n < 10"
    with "1.prems" show ?thesis
      by (simp add: show_nat.simps [of m] show_nat.simps [of n] show_digit_inj)
  next
    assume "m < 10" "\<not> n < 10"
    with "1.prems" show ?thesis
      by (simp add: show_nat.simps [of m] show_nat.simps [of n] show_nat_nonempty Cons_eq_append_conv)
  next
    assume "\<not> m < 10" "n < 10"
    with "1.prems" show ?thesis
      by (simp add: show_nat.simps [of m] show_nat.simps [of n] show_nat_nonempty append_eq_Cons_conv)
  next
    assume big: "\<not> m < 10" "\<not> n < 10"
    with "1.prems" have "show_nat (m div 10) = show_nat (n div 10)"
      and "show_digit (m mod 10) = show_digit (n mod 10)"
      by (simp_all add: show_nat.simps [of m] show_nat.simps [of n])
    then have "m div 10 = n div 10" and "m mod 10 = n mod 10"
      using big "1.IH" by (auto intro: show_digit_inj)
    then show ?thesis by (metis div_mult_mod_eq)
  qed
qed

lemma show_u64_inj: "show_u64 v = show_u64 w \<longleftrightarrow> v = w"
  unfolding show_u64_def by (metis show_nat_inj word_unat_eq_iff)

section \<open>Iterators and results\<close>

text \<open>\<open>Iterator::find_map\<close>: the first value that is present.\<close>

fun find_map :: "('a \<Rightarrow> 'b option) \<Rightarrow> 'a list \<Rightarrow> 'b option" where
  "find_map f [] = None"
| "find_map f (x # xs) = (case f x of None \<Rightarrow> find_map f xs | Some y \<Rightarrow> Some y)"

lemma find_map_SomeD: "find_map f xs = Some y \<Longrightarrow> \<exists>x \<in> set xs. f x = Some y"
  by (induction xs) (auto split: option.splits)

lemma find_map_None_iff: "find_map f xs = None \<longleftrightarrow> (\<forall>x \<in> set xs. f x = None)"
  by (induction xs) (auto split: option.splits)

lemma find_map_append:
  "find_map f (xs @ ys) = (case find_map f xs of None \<Rightarrow> find_map f ys | Some y \<Rightarrow> Some y)"
  by (induction xs) (auto split: option.splits)

text \<open>A predicate that no two positions of a list share holds of one element at most.\<close>

lemma filter_at_most_one:
  assumes "\<And>pre x mid y post. xs = pre @ x # mid @ y # post \<Longrightarrow> P x \<Longrightarrow> P y \<Longrightarrow> False"
  shows "length (filter P xs) \<le> 1"
proof (rule ccontr)
  assume "\<not> length (filter P xs) \<le> 1"
  then obtain x y zs where xyz: "filter P xs = x # y # zs"
    by (cases "filter P xs" rule: remdups_adj.cases) auto
  from filter_eq_ConsD [OF this] obtain pre rest where
    "xs = pre @ x # rest" "P x" and yz: "y # zs = filter P rest" by blast
  moreover from filter_eq_ConsD [OF yz [symmetric]] obtain mid post where
    "rest = mid @ y # post" "P y" by blast
  ultimately show False using assms by blast
qed

text \<open>The \<open>?\<close> operator: an error returns early, a value goes on.\<close>

definition bind_result :: "'e + 'a \<Rightarrow> ('a \<Rightarrow> 'e + 'b) \<Rightarrow> 'e + 'b" where
  "bind_result r f = (case r of Inl e \<Rightarrow> Inl e | Inr a \<Rightarrow> f a)"

lemma bind_result_simps [simp]:
  "bind_result (Inl e) f = Inl e"
  "bind_result (Inr a) f = f a"
  by (simp_all add: bind_result_def)

lemma bind_result_eq_Inr [simp]:
  "bind_result r f = Inr b \<longleftrightarrow> (\<exists>a. r = Inr a \<and> f a = Inr b)"
  by (cases r) auto

text \<open>A sequence of guards: the first one that holds gives the error.\<close>

fun check_all :: "(bool \<times> 'e) list \<Rightarrow> 'e + unit" where
  "check_all [] = Inr ()"
| "check_all ((bad, e) # gs) = (if bad then Inl e else check_all gs)"

lemma check_all_Inr: "check_all gs = Inr u \<longleftrightarrow> (\<forall>(bad, e) \<in> set gs. \<not> bad)"
  by (induction gs rule: check_all.induct) auto

lemma check_all_Inl: "check_all gs = Inl e \<Longrightarrow> (True, e) \<in> set gs"
  by (induction gs rule: check_all.induct) (auto split: if_splits)

end
