(* ===== verification/Protocol.thy ===== *)
theory Protocol
  imports Prelude
begin

text \<open>
  The wire vocabulary shared by every component (\<open>src/crates/protocol/src\<close>): the opaque
  semantic references, the three orthogonal results of a dispatched action (transport,
  dispatch, world), event continuity, and the receipts a provider returns. Serialization
  attributes are not modelled; the equality of the types is the code's derived equality.
\<close>

section \<open>Semantic references\<close>

text \<open>The \<open>semantic_ref!\<close> macro wraps a string; its three instances stay distinct types.\<close>

datatype principal_ref = PrincipalRef (principal_as_str: string)
datatype provider_incarnation_ref = ProviderIncarnationRef (provider_as_str: string)
datatype target_incarnation_ref = TargetIncarnationRef (target_as_str: string)

type_synonym element_ref = string

section \<open>Results of a dispatched action\<close>

datatype transport_result =
    DeliveredToExecutor | RejectedBeforeExecutor | TransportTimeout
  | TransportDisconnected | TransportAuthFailed | TransportSchemaUnsupported

datatype dispatch_result =
    NotDispatched | DispatchedFull | DispatchedPartial | DispatchRejected
  | DispatchAmbiguous | DispatchBlockedPermission | DispatchBlockedIdentity
  | DispatchBlockedFocus | DispatchBlockedProvider

text \<open>
  Constructors that other enums of the code also use carry a prefix here: \<open>W\<close> for a
  \<open>WorldOutcome\<close>, \<open>C\<close> for an \<open>EventContinuityState\<close>, \<open>S\<close> for a
  \<open>ReconciliationCompleteness\<close>.
\<close>

datatype world_outcome =
    WVerifiedExpected | WVerifiedUnexpected | WFailedKnown | WUnknownOutcome
  | WReconciliationRequired | WCompensatedVerified | WCompensationFailed

section \<open>Event continuity and reconciliation\<close>

datatype event_continuity_state =
    CContinuous | CGapDetected | CSequenceReset | CProviderReincarnated
  | COrderingOpaque | CReconciliationRequired | CReconnectedUnreconciled | CBroken

datatype reconciliation_completeness =
    SEstablished | SIncomplete | SInconclusive | SUnsupported

record reconciliation_snapshot_receipt =
  snap_receipt_id :: string
  snap_provider_incarnation_ref :: provider_incarnation_ref
  snap_target_incarnation_ref :: target_incarnation_ref
  snap_snapshot_cut_ref :: string
  snap_surface_scope :: string
  snap_completeness :: reconciliation_completeness
  snap_cache_profile_revision :: string
  snap_permission_visibility_revision :: string
  snap_capture_sequence :: u64
  snap_observed_digest :: string
  snap_incompleteness_debt :: "string list"

end
