(* ===== verification/Envelope.thy ===== *)
theory Envelope
  imports Protocol
begin

text \<open>
  The canonical action envelope (\<open>src/crates/live-bridge/src/action_envelope.rs\<close>) and the
  transport action it points to (\<open>src/crates/live-bridge/src/lib.rs\<close>): the risk and
  idempotency taxonomies, the payload-free operation identity, the authority metadata, and
  the admission checks that are common to direct and queued canonical binding.
\<close>

section \<open>Transport actions\<close>

datatype bridge_action_kind =
    Click
  | TypeText (text_of: string) (clear_first: bool)
  | Key (key_of: string) (modifiers: "string list")
  | Scroll (scroll_x: f64_bits) (scroll_y: f64_bits)
  | Focus
  | Snapshot
  | Measure
  | FreezeVisuals
  | RestoreVisuals uuid
  | CaptureScrollTo uuid f64_bits
  | CaptureTileProbe uuid

fun is_internal_capture_action :: "bridge_action_kind \<Rightarrow> bool" where
  "is_internal_capture_action FreezeVisuals = True"
| "is_internal_capture_action (RestoreVisuals _) = True"
| "is_internal_capture_action (CaptureScrollTo _ _) = True"
| "is_internal_capture_action (CaptureTileProbe _) = True"
| "is_internal_capture_action _ = False"

record bridge_action =
  act_id :: uuid
  act_session_id :: session_id
  act_reference :: "element_ref option"
  act_action :: bridge_action_kind
  act_created_at :: timestamp

section \<open>Canonical authority metadata\<close>

datatype action_risk_class =
    ObserveOnly | ReversibleUiState | LocalDataMutation | ExternalSideEffect
  | DestructiveOrIrreversible | CredentialOrAuthorityChange | RiskUnknown

datatype action_idempotency_class =
    PureRead | IdempotentWriteWithKey | IdempotentByObservedState
  | CompensatableNonIdempotent | Irreversible | IdempotencyUnknown

datatype canonical_action_operation =
    OpActivate | OpSelect | OpToggle | OpExpand | OpCollapse | OpSetValue
  | OpInputText | OpKeyInput | OpScroll | OpFocus | OpSnapshot

fun from_bridge_action_kind :: "bridge_action_kind \<Rightarrow> canonical_action_operation option" where
  "from_bridge_action_kind Click = Some OpActivate"
| "from_bridge_action_kind (TypeText _ _) = Some OpInputText"
| "from_bridge_action_kind (Key _ _) = Some OpKeyInput"
| "from_bridge_action_kind (Scroll _ _) = Some OpScroll"
| "from_bridge_action_kind Focus = Some OpFocus"
| "from_bridge_action_kind Snapshot = Some OpSnapshot"
| "from_bridge_action_kind Measure = None"
| "from_bridge_action_kind FreezeVisuals = None"
| "from_bridge_action_kind (RestoreVisuals _) = None"
| "from_bridge_action_kind (CaptureScrollTo _ _) = None"
| "from_bridge_action_kind (CaptureTileProbe _) = None"

record action_envelope_metadata =
  decision_principal_ref :: principal_ref
  acting_principal_ref :: principal_ref
  authorization_revision :: string
  precondition_snapshot_cut_ref :: string
  provider_incarnation_ref :: provider_incarnation_ref
  target_incarnation_ref :: target_incarnation_ref
  risk_class :: action_risk_class
  idempotency_class :: action_idempotency_class
  expected_postcondition_contract_refs :: "string list"

record canonical_action_envelope =
  envelope_id :: uuid
  transport_action_id :: uuid
  env_session_id :: session_id
  metadata :: action_envelope_metadata

record canonical_queued_action =
  q_action :: bridge_action
  q_envelope :: canonical_action_envelope

datatype action_envelope_binding_error =
    MissingProviderObservation | ProviderIncarnationMismatch | TargetIncarnationMismatch
  | MissingDecisionPrincipal | MissingActingPrincipal | MissingAuthorizationRevision
  | MissingPreconditionSnapshotCut | MissingExpectedPostcondition
  | InternalCaptureActionUnsupported

text \<open>
  The admission-time guards of \<open>bind_direct_canonical_action\<close> and
  \<open>enqueue_canonical_action\<close>, which are the same code in both: in the order the code
  tests them, before the action gate is taken.
\<close>

definition validate_envelope_metadata ::
  "bridge_action_kind \<Rightarrow> action_envelope_metadata \<Rightarrow> action_envelope_binding_error + unit" where
  "validate_envelope_metadata action md = check_all
     [(is_internal_capture_action action, InternalCaptureActionUnsupported),
      (is_blank (principal_as_str (decision_principal_ref md)), MissingDecisionPrincipal),
      (is_blank (principal_as_str (acting_principal_ref md)), MissingActingPrincipal),
      (is_blank (authorization_revision md), MissingAuthorizationRevision),
      (is_blank (precondition_snapshot_cut_ref md), MissingPreconditionSnapshotCut),
      (risk_class md \<noteq> ObserveOnly \<and> expected_postcondition_contract_refs md = [],
       MissingExpectedPostcondition)]"

lemma validate_envelope_metadata_ok:
  "validate_envelope_metadata a md = Inr () \<longleftrightarrow>
     \<not> is_internal_capture_action a
     \<and> \<not> is_blank (principal_as_str (decision_principal_ref md))
     \<and> \<not> is_blank (principal_as_str (acting_principal_ref md))
     \<and> \<not> is_blank (authorization_revision md)
     \<and> \<not> is_blank (precondition_snapshot_cut_ref md)
     \<and> (risk_class md = ObserveOnly \<or> expected_postcondition_contract_refs md \<noteq> [])"
  by (auto simp: validate_envelope_metadata_def check_all_Inr)

lemma canonical_operation_iff_public:
  "from_bridge_action_kind a = None \<longleftrightarrow> is_internal_capture_action a \<or> a = Measure"
  by (cases a) auto

end
