(* ===== verification/Journal_Types.thy ===== *)
theory Journal_Types
  imports Envelope
begin

text \<open>
  The data of the consequential journal
  (\<open>src/crates/live-bridge/src/consequential_journal/base.rs\<close>): the durable receipts, the
  journal transitions and entries, the recovery states they are replayed into, the opaque
  process-local capabilities and permits, the live grants they are matched against, and the
  errors. A recovery state is written with a prefix \<open>R\<close>, because four of its names are
  also names of transitions.
\<close>

section \<open>Receipts\<close>

record dispatch_preparation_receipt =
  prep_receipt_ref :: string
  prep_authorization_journal_sequence :: u64
  prep_precondition_snapshot_cut_ref :: string
  prep_provider_incarnation_ref :: provider_incarnation_ref
  prep_target_incarnation_ref :: target_incarnation_ref

record dispatch_linearization_receipt =
  lin_receipt_ref :: string
  lin_transport_result :: transport_result
  lin_dispatch_result :: dispatch_result

datatype action_postcondition_verdict =
    VerifiedExpected | VerifiedUnexpected | ReconciliationRequired

fun verdict_world_outcome :: "action_postcondition_verdict \<Rightarrow> world_outcome" where
  "verdict_world_outcome VerifiedExpected = WVerifiedExpected"
| "verdict_world_outcome VerifiedUnexpected = WVerifiedUnexpected"
| "verdict_world_outcome ReconciliationRequired = WReconciliationRequired"

definition postconditions_verified :: "action_postcondition_verdict \<Rightarrow> bool" where
  "postconditions_verified v = (v = VerifiedExpected)"

datatype postcondition_observation_cause =
    CauseDispatchLinearized u64 string
  | CauseDispatchPreparedUncertain u64 string

fun causal_journal_sequence :: "postcondition_observation_cause \<Rightarrow> u64" where
  "causal_journal_sequence (CauseDispatchLinearized s _) = s"
| "causal_journal_sequence (CauseDispatchPreparedUncertain s _) = s"

record action_postcondition_evidence_binding =
  evb_contract_ref :: string
  evb_receipt_ref :: string

record action_postcondition_receipt =
  pc_receipt_ref :: string
  pc_action_id :: uuid
  pc_session_id :: session_id
  pc_provider_incarnation_ref :: provider_incarnation_ref
  pc_target_incarnation_ref :: target_incarnation_ref
  pc_expected_postcondition_contract_refs :: "string list"
  pc_observation_snapshot_cut_ref :: string
  pc_reconciliation_receipt_ref :: string
  pc_evidence_receipt_refs :: "string list"
  pc_evidence_bindings :: "action_postcondition_evidence_binding list"
  pc_verified_contract_refs :: "string list"
  pc_failed_contract_refs :: "string list"
  pc_verdict :: action_postcondition_verdict
  pc_unresolved_unknown_contract_refs :: "string list"
  pc_causal_assurance :: postcondition_observation_cause
  pc_completion_journal_sequence :: u64

text \<open>The draft: a receipt without the identity and the completion order the journal mints.\<close>

record action_postcondition_receipt_draft =
  dr_action_id :: uuid
  dr_session_id :: session_id
  dr_provider_incarnation_ref :: provider_incarnation_ref
  dr_target_incarnation_ref :: target_incarnation_ref
  dr_expected_postcondition_contract_refs :: "string list"
  dr_observation_snapshot_cut_ref :: string
  dr_reconciliation_receipt_ref :: string
  dr_evidence_receipt_refs :: "string list"
  dr_evidence_bindings :: "action_postcondition_evidence_binding list"
  dr_verified_contract_refs :: "string list"
  dr_failed_contract_refs :: "string list"
  dr_verdict :: action_postcondition_verdict
  dr_unresolved_unknown_contract_refs :: "string list"
  dr_causal_assurance :: postcondition_observation_cause

section \<open>Transitions, entries and recovery states\<close>

datatype journal_transition =
    IntentAdmitted canonical_action_envelope
  | AuthorizationRecorded string bool
  | DispatchPrepared dispatch_preparation_receipt
  | DispatchLinearized dispatch_linearization_receipt
  | PostconditionReceiptRecorded action_postcondition_receipt
  | ReconciliationOutcome world_outcome "string option" "string list" bool
  | CompensationRecorded string world_outcome
  | Committed

record journal_entry =
  schema_version :: u32
  journal_sequence :: u64
  action_id :: uuid
  recorded_at :: timestamp
  transition :: journal_transition

datatype recovery_state =
    RAdmitted | RAuthorizedNotDispatched | RDispatchPrepared | RKnownNotDispatched
  | RPossiblyDispatched | ROutcomeObservedUnverified | RVerifiedUncommitted
  | RCompensated | RCompensationFailed | RCommitted

section \<open>Process-local authority\<close>

text \<open>
  The opaque tokens handed to a caller. In the code they are neither clonable nor
  serializable; here they are values, so that a theorem may also speak of a token that is
  presented twice.
\<close>

record dispatch_prepared_capability =
  cap_journal_instance_ref :: uuid
  cap_action_id :: uuid
  cap_preparation_journal_sequence :: u64
  cap_preparation_receipt_ref :: string
  cap_capability_ref :: uuid

record dispatch_prepared_admission =
  adm_entry :: journal_entry
  adm_capability :: dispatch_prepared_capability

record dispatch_execution_permit =
  perm_journal_instance_ref :: uuid
  perm_action_id :: uuid
  perm_preparation_journal_sequence :: u64
  perm_preparation_receipt_ref :: string
  perm_permit_ref :: uuid

record postcondition_observation_permit =
  obs_journal_instance_ref :: uuid
  obs_observation_ref :: uuid
  obs_action_id :: uuid
  obs_session_id :: session_id
  obs_provider_incarnation_ref :: provider_incarnation_ref
  obs_target_incarnation_ref :: target_incarnation_ref
  obs_snapshot_cut_ref :: string
  obs_cause :: postcondition_observation_cause

record postcondition_observation_receipt =
  obr_action_id :: uuid
  obr_session_id :: session_id
  obr_provider_incarnation_ref :: provider_incarnation_ref
  obr_target_incarnation_ref :: target_incarnation_ref
  obr_snapshot_cut_ref :: string
  obr_reconciliation_receipt_ref :: string
  obr_cause :: postcondition_observation_cause

text \<open>The grants the journal keeps, which a presented token must match field by field.\<close>

record live_prepared_grant =
  lpg_capability_ref :: uuid
  lpg_preparation_journal_sequence :: u64
  lpg_preparation_receipt_ref :: string

record live_execution_grant =
  leg_permit_ref :: uuid
  leg_preparation_journal_sequence :: u64
  leg_preparation_receipt_ref :: string

record live_observation_grant =
  log_observation_ref :: uuid
  log_session_id :: session_id
  log_provider_incarnation_ref :: provider_incarnation_ref
  log_target_incarnation_ref :: target_incarnation_ref
  log_snapshot_cut_ref :: string
  log_cause :: postcondition_observation_cause

section \<open>Errors\<close>

datatype journal_error =
    Io string string
  | Serialization string
  | Worker string
  | CorruptRecord nat string
  | UnknownAction uuid
  | DuplicateIntent uuid
  | InvalidTransition uuid string "recovery_state option"
  | InvalidDispatchCapability uuid string
  | InvalidDispatchPermit uuid string

datatype observation_error =
    InvalidRecoveryState uuid "recovery_state option"
  | DispatchAuthorityStillLive uuid
  | ObservationAlreadyLive uuid
  | InvalidPermit uuid string
  | ObsProviderIncarnationMismatch uuid
  | ObsTargetIncarnationMismatch uuid
  | SnapshotCutMismatch uuid string string
  | MissingReconciliationReceipt uuid

end
