(* ===== verification/Lifecycle_Log.thy ===== *)
theory Lifecycle_Log
  imports Main
begin

text \<open>
  The interface of an append-only log whose entries move keys through a lifecycle: what the
  provider of a log promises (the state of a key is the label of its last entry, and a valid
  entry moves its key along a step of the lifecycle), and what a client may conclude (the
  last entry of a key, terminal states are absorbing, a state is entered only through its
  predecessors). The consequential journal interprets it twice, for appending and for
  replaying.
\<close>

locale lifecycle_log =
  fixes state_of :: "'e list \<Rightarrow> 'k \<Rightarrow> 's option"
    and key :: "'e \<Rightarrow> 'k"
    and label :: "'e \<Rightarrow> 's"
    and valid :: "'e list \<Rightarrow> 'e \<Rightarrow> bool"
    and valid_log :: "'e list \<Rightarrow> bool"
    and step :: "'s option \<Rightarrow> 's \<Rightarrow> bool"
  assumes state_nil: "state_of [] k = None"
    and state_snoc: "state_of (es @ [e]) k = (if key e = k then Some (label e) else state_of es k)"
    and valid_log_nil: "valid_log []"
    and valid_log_snoc: "valid_log (es @ [e]) \<longleftrightarrow> valid_log es \<and> valid es e"
    and step_ok: "valid es e \<Longrightarrow> step (state_of es (key e)) (label e)"
begin

lemma log_prefix: "valid_log (es @ fs) \<Longrightarrow> valid_log es"
proof (induction fs rule: rev_induct)
  case (snoc f fs)
  then show ?case by (metis append_assoc valid_log_snoc)
qed simp

lemma log_valid_at: "valid_log (pre @ e # post) \<Longrightarrow> valid pre e"
  using log_prefix [of "pre @ [e]" post] valid_log_snoc by simp

lemma state_skip: "(\<And>e. e \<in> set fs \<Longrightarrow> key e \<noteq> k) \<Longrightarrow> state_of (es @ fs) k = state_of es k"
proof (induction fs rule: rev_induct)
  case (snoc f fs)
  then show ?case by (simp flip: append_assoc add: state_snoc)
qed simp

lemma last_entry:
  "state_of es k = Some s \<Longrightarrow>
     \<exists>pre e post. es = pre @ e # post \<and> key e = k \<and> label e = s
       \<and> (\<forall>e' \<in> set post. key e' \<noteq> k)"
proof (induction es rule: rev_induct)
  case Nil
  then show ?case by (simp add: state_nil)
next
  case (snoc f es)
  show ?case
  proof (cases "key f = k")
    case True
    with snoc.prems have "es @ [f] = es @ f # [] \<and> key f = k \<and> label f = s"
      by (simp add: state_snoc)
    then show ?thesis by force
  next
    case False
    with snoc.prems have "state_of es k = Some s" by (simp add: state_snoc)
    with snoc.IH obtain pre e post where
      "es = pre @ e # post" "key e = k" "label e = s" "\<forall>e' \<in> set post. key e' \<noteq> k"
      by blast
    with False have "es @ [f] = pre @ e # (post @ [f]) \<and> key e = k \<and> label e = s
      \<and> (\<forall>e' \<in> set (post @ [f]). key e' \<noteq> k)" by auto
    then show ?thesis by blast
  qed
qed

text \<open>The entry that put a key in its state was valid, and came from a predecessor state.\<close>

lemma entered_by:
  assumes "valid_log es" "state_of es k = Some s"
  obtains pre e post where "es = pre @ e # post" "key e = k" "label e = s"
    "\<forall>e' \<in> set post. key e' \<noteq> k" "valid_log pre" "valid pre e" "step (state_of pre k) s"
proof -
  from last_entry [OF assms(2)] obtain pre e post where
    *: "es = pre @ e # post" "key e = k" "label e = s" "\<forall>e' \<in> set post. key e' \<noteq> k"
    by blast
  with assms(1) have "valid pre e" "valid_log pre"
    by (auto intro: log_valid_at log_prefix)
  with * that show thesis using step_ok by blast
qed

lemma absorbing:
  assumes "\<And>s'. \<not> step (Some s) s'"
  shows "valid_log (es @ fs) \<Longrightarrow> state_of es k = Some s \<Longrightarrow> state_of (es @ fs) k = Some s"
proof (induction fs rule: rev_induct)
  case (snoc f fs)
  from snoc.prems(1) have v: "valid_log (es @ fs)" "valid (es @ fs) f"
    by (simp_all flip: append_assoc add: valid_log_snoc)
  with snoc have "state_of (es @ fs) k = Some s" by simp
  moreover from v(2) have "step (state_of (es @ fs) (key f)) (label f)" by (rule step_ok)
  ultimately have "key f \<noteq> k" using assms by auto
  with \<open>state_of (es @ fs) k = Some s\<close> show ?case
    by (simp flip: append_assoc add: state_snoc)
qed simp

lemma state_known: "e \<in> set es \<Longrightarrow> state_of es (key e) \<noteq> None"
proof (induction es rule: rev_induct)
  case (snoc f es)
  then show ?case by (auto simp: state_snoc)
qed simp

lemma state_Some_entry: "state_of es k \<noteq> None \<longleftrightarrow> k \<in> key ` set es"
  using last_entry state_known by fastforce

text \<open>A property of states that every step keeps holds of the final state of a key.\<close>

lemma forward_invariant:
  assumes step_keeps: "\<And>s s'. P s \<Longrightarrow> step (Some s) s' \<Longrightarrow> P s'"
  shows "valid_log (es @ fs) \<Longrightarrow> state_of es k = Some s \<Longrightarrow> P s \<Longrightarrow>
    \<exists>s'. state_of (es @ fs) k = Some s' \<and> P s'"
proof (induction fs rule: rev_induct)
  case (snoc f fs)
  from snoc.prems(1) have v: "valid_log (es @ fs)" "valid (es @ fs) f"
    by (simp_all flip: append_assoc add: valid_log_snoc)
  with snoc obtain s' where s': "state_of (es @ fs) k = Some s'" "P s'" by auto
  from v(2) have "step (state_of (es @ fs) (key f)) (label f)" by (rule step_ok)
  with s' step_keeps show ?case by (auto simp flip: append_assoc simp: state_snoc)
qed simp

text \<open>
  Two entries of one key: the later one steps from a state in any set that the lifecycle
  never leaves and that the label of the earlier one belongs to.
\<close>

lemma later_step:
  assumes step_keeps: "\<And>s s'. P s \<Longrightarrow> step (Some s) s' \<Longrightarrow> P s'"
    and log: "valid_log (pre @ e # mid @ e' # post)"
    and keys: "key e' = key e" and label: "P (label e)"
  obtains s where "P s" "step (Some s) (label e')"
    "state_of (pre @ e # mid) (key e) = Some s"
proof -
  have "valid_log ((pre @ [e]) @ mid)" "valid (pre @ e # mid) e'"
    using log_prefix [of "(pre @ [e]) @ mid" "e' # post"] log_valid_at [of "pre @ e # mid" e' post]
      log by simp_all
  moreover have "state_of (pre @ [e]) (key e) = Some (label e)" by (simp add: state_snoc)
  ultimately obtain s where "state_of (pre @ e # mid) (key e) = Some s" "P s"
    using forward_invariant [of P "pre @ [e]" mid "key e" "label e"] step_keeps label by auto
  moreover have "step (state_of (pre @ e # mid) (key e')) (label e')"
    by (rule step_ok) fact
  ultimately show thesis using keys that by simp
qed

end

end
