(* ===== verification/Journal_Log.thy ===== *)
theory Journal_Log
  imports Journal_Types Lifecycle_Log
begin

text \<open>
  The pure part of the consequential journal: replaying a history into the recovery state
  of an action, the lookups into a history, and the validation of a transition against the
  history before it (\<open>recovery_state_for\<close>, \<open>admitted_envelope_for\<close>,
  \<open>postcondition_observation_cause_for\<close>, \<open>durable_preparation_matches\<close>,
  \<open>validate_transition\<close> and its two helpers). \<open>us\<close> is the \<open>Display\<close> of a
  \<open>Uuid\<close>, which belongs to a library outside the repository.
\<close>

section \<open>Replaying a history\<close>

fun dispatch_state :: "dispatch_result \<Rightarrow> recovery_state" where
  "dispatch_state DispatchedFull = RPossiblyDispatched"
| "dispatch_state DispatchedPartial = RPossiblyDispatched"
| "dispatch_state DispatchAmbiguous = RPossiblyDispatched"
| "dispatch_state NotDispatched = RKnownNotDispatched"
| "dispatch_state DispatchRejected = RKnownNotDispatched"
| "dispatch_state DispatchBlockedPermission = RKnownNotDispatched"
| "dispatch_state DispatchBlockedIdentity = RKnownNotDispatched"
| "dispatch_state DispatchBlockedFocus = RKnownNotDispatched"
| "dispatch_state DispatchBlockedProvider = RKnownNotDispatched"

fun transition_state :: "journal_transition \<Rightarrow> recovery_state" where
  "transition_state (IntentAdmitted _) = RAdmitted"
| "transition_state (AuthorizationRecorded _ _) = RAuthorizedNotDispatched"
| "transition_state (DispatchPrepared _) = RDispatchPrepared"
| "transition_state (DispatchLinearized r) = dispatch_state (lin_dispatch_result r)"
| "transition_state (PostconditionReceiptRecorded r) =
     (if pc_verdict r = VerifiedExpected then RVerifiedUncommitted
      else ROutcomeObservedUnverified)"
| "transition_state (ReconciliationOutcome w _ _ verified) =
     (if verified \<and> w = WVerifiedExpected then RVerifiedUncommitted
      else ROutcomeObservedUnverified)"
| "transition_state (CompensationRecorded _ w) =
     (if w = WCompensatedVerified then RCompensated else RCompensationFailed)"
| "transition_state Committed = RCommitted"

definition recovery_state_for :: "journal_entry list \<Rightarrow> uuid \<Rightarrow> recovery_state option" where
  "recovery_state_for es aid =
     fold (\<lambda>e state. Some (transition_state (transition e)))
       (filter (\<lambda>e. action_id e = aid) es) None"

definition admitted_envelope_for ::
  "journal_entry list \<Rightarrow> uuid \<Rightarrow> canonical_action_envelope option" where
  "admitted_envelope_for es aid = find_map
     (\<lambda>e. if action_id e \<noteq> aid then None
          else case transition e of IntentAdmitted envelope \<Rightarrow> Some envelope | _ \<Rightarrow> None) es"

definition latest_authorization_for ::
  "journal_entry list \<Rightarrow> uuid \<Rightarrow> (u64 \<times> string \<times> bool) option" where
  "latest_authorization_for es aid = find_map
     (\<lambda>e. if action_id e \<noteq> aid then None
          else case transition e of
            AuthorizationRecorded revision revalidated \<Rightarrow>
              Some (journal_sequence e, revision, revalidated)
          | _ \<Rightarrow> None) (rev es)"

definition postcondition_observation_cause_for ::
  "journal_entry list \<Rightarrow> uuid \<Rightarrow> postcondition_observation_cause option" where
  "postcondition_observation_cause_for es aid = find_map
     (\<lambda>e. if action_id e \<noteq> aid then None
          else case transition e of
            DispatchLinearized r \<Rightarrow>
              Some (CauseDispatchLinearized (journal_sequence e) (lin_receipt_ref r))
          | DispatchPrepared r \<Rightarrow>
              Some (CauseDispatchPreparedUncertain (journal_sequence e) (prep_receipt_ref r))
          | _ \<Rightarrow> None) (rev es)"

definition durable_preparation_matches ::
  "journal_entry list \<Rightarrow> uuid \<Rightarrow> u64 \<Rightarrow> string \<Rightarrow> bool" where
  "durable_preparation_matches es aid seq rref = list_ex
     (\<lambda>e. action_id e = aid \<and> journal_sequence e = seq
          \<and> (case transition e of DispatchPrepared r \<Rightarrow> prep_receipt_ref r = rref | _ \<Rightarrow> False)) es"

section \<open>Validation\<close>

datatype transition_validation_mode = Append | Replay

definition validate_dispatch_preparation ::
  "journal_entry list \<Rightarrow> uuid \<Rightarrow> dispatch_preparation_receipt \<Rightarrow> recovery_state option
    \<Rightarrow> journal_error + unit" where
  "validate_dispatch_preparation es aid r current =
     (case admitted_envelope_for es aid of
        None \<Rightarrow> Inl (UnknownAction aid)
      | Some envelope \<Rightarrow>
          (case latest_authorization_for es aid of
             None \<Rightarrow>
               Inl (InvalidTransition aid ''dispatch_prepared_without_authorization'' current)
           | Some (authorization_sequence, revision, revalidated) \<Rightarrow>
               let md = metadata envelope; invalid = (\<lambda>a. InvalidTransition aid a current)
               in check_all
                 [(\<not> revalidated,
                   invalid ''dispatch_prepared_without_revalidated_authority''),
                  (revision \<noteq> authorization_revision md,
                   invalid ''dispatch_prepared_with_stale_authorization_revision''),
                  (is_blank (prep_receipt_ref r),
                   invalid ''dispatch_prepared_without_receipt_ref''),
                  (prep_authorization_journal_sequence r \<noteq> authorization_sequence,
                   invalid ''dispatch_prepared_with_stale_authorization_sequence''),
                  (prep_precondition_snapshot_cut_ref r \<noteq> precondition_snapshot_cut_ref md,
                   invalid ''dispatch_prepared_with_mismatched_precondition_cut''),
                  (prep_provider_incarnation_ref r \<noteq> provider_incarnation_ref md,
                   invalid ''dispatch_prepared_with_mismatched_provider_incarnation''),
                  (prep_target_incarnation_ref r \<noteq> target_incarnation_ref md,
                   invalid ''dispatch_prepared_with_mismatched_target_incarnation'')]))"

text \<open>The two loops of the receipt validation: the contract partition and the evidence.\<close>

fun classify_contracts :: "string set \<Rightarrow> string set \<Rightarrow> string list \<Rightarrow> string set option" where
  "classify_contracts expected classified [] = Some classified"
| "classify_contracts expected classified (c # cs) =
     (if c \<notin> expected \<or> c \<in> classified then None
      else classify_contracts expected (insert c classified) cs)"

fun bind_evidence ::
  "string set \<Rightarrow> string set \<Rightarrow> string list \<Rightarrow> action_postcondition_evidence_binding list
    \<Rightarrow> (string set \<times> string list) option" where
  "bind_evidence expected bound refs [] = Some (bound, refs)"
| "bind_evidence expected bound refs (b # bs) =
     (if evb_contract_ref b \<notin> expected \<or> evb_contract_ref b \<in> bound
         \<or> is_blank (evb_receipt_ref b) then None
      else bind_evidence expected (insert (evb_contract_ref b) bound)
             (refs @ [evb_receipt_ref b]) bs)"

definition partition_verdict ::
  "string list \<Rightarrow> string list \<Rightarrow> action_postcondition_verdict" where
  "partition_verdict failed unresolved =
     (if failed \<noteq> [] then VerifiedUnexpected
      else if unresolved = [] then VerifiedExpected
      else ReconciliationRequired)"

definition postcondition_receipt_ref :: "(uuid \<Rightarrow> string) \<Rightarrow> uuid \<Rightarrow> u64 \<Rightarrow> string" where
  "postcondition_receipt_ref us aid seq =
     ''postcondition:'' @ us aid @ '':'' @ show_u64 seq"

definition validate_receipt_contracts ::
  "uuid \<Rightarrow> action_postcondition_receipt \<Rightarrow> recovery_state option \<Rightarrow> journal_error + unit" where
  "validate_receipt_contracts aid r current =
     (let invalid = (\<lambda>a. InvalidTransition aid a current);
          expected = set (pc_expected_postcondition_contract_refs r)
      in case classify_contracts expected {}
             (pc_verified_contract_refs r @ pc_failed_contract_refs r
               @ pc_unresolved_unknown_contract_refs r) of
           None \<Rightarrow> Inl (invalid ''postcondition_receipt_invalid_contract_partition'')
         | Some classified \<Rightarrow>
             if classified \<noteq> expected then
               Inl (invalid ''postcondition_receipt_incomplete_contract_partition'')
             else if pc_verdict r \<noteq> partition_verdict (pc_failed_contract_refs r)
                       (pc_unresolved_unknown_contract_refs r) then
               Inl (invalid ''postcondition_receipt_verdict_partition_mismatch'')
             else
               (case bind_evidence expected {} [] (pc_evidence_bindings r) of
                  None \<Rightarrow> Inl (invalid ''postcondition_receipt_invalid_evidence_binding'')
                | Some (bound_contracts, bound_receipt_refs) \<Rightarrow> check_all
                    [(bound_receipt_refs \<noteq> pc_evidence_receipt_refs r,
                      invalid ''postcondition_receipt_evidence_summary_mismatch''),
                     (list_ex (\<lambda>c. c \<notin> bound_contracts)
                        (pc_verified_contract_refs r @ pc_failed_contract_refs r),
                      invalid ''postcondition_receipt_decisive_contract_without_evidence'')]))"

definition validate_action_postcondition_receipt ::
  "(uuid \<Rightarrow> string) \<Rightarrow> journal_entry list \<Rightarrow> uuid \<Rightarrow> action_postcondition_receipt
    \<Rightarrow> recovery_state option \<Rightarrow> journal_error + unit" where
  "validate_action_postcondition_receipt us es aid r current =
     (case admitted_envelope_for es aid of
        None \<Rightarrow> Inl (UnknownAction aid)
      | Some envelope \<Rightarrow>
          let md = metadata envelope; invalid = (\<lambda>a. InvalidTransition aid a current);
              expected_sequence = of_nat (length es) + 1;
              expected = set (pc_expected_postcondition_contract_refs r)
          in bind_result (check_all
            [(pc_action_id r \<noteq> aid, invalid ''postcondition_receipt_action_mismatch''),
             (pc_session_id r \<noteq> env_session_id envelope,
              invalid ''postcondition_receipt_session_mismatch''),
             (pc_provider_incarnation_ref r \<noteq> provider_incarnation_ref md,
              invalid ''postcondition_receipt_provider_mismatch''),
             (pc_target_incarnation_ref r \<noteq> target_incarnation_ref md,
              invalid ''postcondition_receipt_target_mismatch''),
             (pc_expected_postcondition_contract_refs r
                \<noteq> expected_postcondition_contract_refs md,
              invalid ''postcondition_receipt_expected_contracts_mismatch''),
             (is_blank (pc_observation_snapshot_cut_ref r)
                \<or> pc_observation_snapshot_cut_ref r = precondition_snapshot_cut_ref md,
              invalid ''postcondition_receipt_observation_cut_not_fresh''),
             (is_blank (pc_reconciliation_receipt_ref r),
              invalid ''postcondition_receipt_missing_reconciliation_ref''),
             (pc_completion_journal_sequence r \<noteq> expected_sequence,
              invalid ''postcondition_receipt_completion_sequence_mismatch''),
             (pc_receipt_ref r \<noteq> postcondition_receipt_ref us aid expected_sequence,
              invalid ''postcondition_receipt_identity_mismatch''),
             (expected_sequence \<le> causal_journal_sequence (pc_causal_assurance r),
              invalid ''postcondition_receipt_causal_sequence_not_prior''),
             (postcondition_observation_cause_for es aid \<noteq> Some (pc_causal_assurance r),
              invalid ''postcondition_receipt_causal_history_mismatch''),
             (card expected \<noteq> length (pc_expected_postcondition_contract_refs r)
                \<or> expected = {},
              invalid ''postcondition_receipt_invalid_expected_contract_set'')])
            (\<lambda>_. validate_receipt_contracts aid r current))"

definition validate_transition ::
  "(uuid \<Rightarrow> string) \<Rightarrow> journal_entry list \<Rightarrow> uuid \<Rightarrow> journal_transition
    \<Rightarrow> transition_validation_mode \<Rightarrow> journal_error + unit" where
  "validate_transition us es aid t mode =
     (let current = recovery_state_for es aid;
          invalid = (\<lambda>a. Inl (InvalidTransition aid a current))
      in case t of
        IntentAdmitted envelope \<Rightarrow>
          if current \<noteq> None then Inl (DuplicateIntent aid)
          else if transport_action_id envelope \<noteq> aid then
            invalid ''intent_admitted_with_mismatched_transport_action''
          else Inr ()
      | AuthorizationRecorded _ _ \<Rightarrow>
          (case current of
             None \<Rightarrow> Inl (UnknownAction aid)
           | Some s \<Rightarrow>
               if s \<in> {RAdmitted, RAuthorizedNotDispatched} then Inr ()
               else invalid ''authorization_recorded'')
      | DispatchPrepared r \<Rightarrow>
          if current = None then Inl (UnknownAction aid)
          else if current \<noteq> Some RAuthorizedNotDispatched then invalid ''dispatch_prepared''
          else validate_dispatch_preparation es aid r current
      | DispatchLinearized _ \<Rightarrow>
          (case current of
             None \<Rightarrow> Inl (UnknownAction aid)
           | Some s \<Rightarrow>
               if s = RDispatchPrepared then Inr ()
               else if s = RAuthorizedNotDispatched \<and> mode = Replay then Inr ()
               else invalid ''dispatch_linearized_without_durable_prepare'')
      | PostconditionReceiptRecorded r \<Rightarrow>
          if current = None then Inl (UnknownAction aid)
          else if current \<notin> {Some RDispatchPrepared, Some RPossiblyDispatched,
                               Some ROutcomeObservedUnverified} then
            invalid ''postcondition_receipt_recorded''
          else validate_action_postcondition_receipt us es aid r current
      | ReconciliationOutcome _ _ _ _ \<Rightarrow>
          if mode \<noteq> Replay then invalid ''legacy_reconciliation_outcome_append_forbidden''
          else (case current of
             None \<Rightarrow> Inl (UnknownAction aid)
           | Some s \<Rightarrow>
               if s \<in> {RDispatchPrepared, RPossiblyDispatched, RKnownNotDispatched,
                        ROutcomeObservedUnverified} then Inr ()
               else invalid ''reconciliation_outcome'')
      | CompensationRecorded _ _ \<Rightarrow>
          (case current of
             None \<Rightarrow> Inl (UnknownAction aid)
           | Some s \<Rightarrow>
               if s = ROutcomeObservedUnverified then Inr ()
               else invalid ''compensation_recorded'')
      | Committed \<Rightarrow>
          (case current of
             None \<Rightarrow> Inl (UnknownAction aid)
           | Some s \<Rightarrow>
               if s = RVerifiedUncommitted then Inr () else invalid ''committed''))"

end
