(* ===== verification/Journal_History.thy ===== *)
theory Journal_History
  imports Journal_Log
begin

text \<open>
  What the validation of the journal guarantees about a history: the exact meaning of an
  accepted preparation and of an accepted postcondition receipt, the lifecycle automaton of
  an action, and the two interpretations of \<open>lifecycle_log\<close> (for a history written by
  appends and for one accepted by replay), from which the facts about whole histories follow.
\<close>

section \<open>Accepted receipts\<close>

lemma classify_contracts_eq:
  "classify_contracts E acc cs =
     (if set cs \<subseteq> E \<and> distinct cs \<and> set cs \<inter> acc = {} then Some (acc \<union> set cs) else None)"
  by (induction cs arbitrary: acc) auto

lemma bind_evidence_eq:
  "bind_evidence E bound refs bs =
     (if evb_contract_ref ` set bs \<subseteq> E \<and> distinct (map evb_contract_ref bs)
         \<and> evb_contract_ref ` set bs \<inter> bound = {}
         \<and> (\<forall>b \<in> set bs. \<not> is_blank (evb_receipt_ref b))
      then Some (bound \<union> evb_contract_ref ` set bs, refs @ map evb_receipt_ref bs) else None)"
  by (induction bs arbitrary: bound refs) auto

text \<open>The contracts of a receipt, as the specification reads them.\<close>

definition receipt_contracts_sound :: "action_postcondition_receipt \<Rightarrow> bool" where
  "receipt_contracts_sound r \<longleftrightarrow>
     (let expected = set (pc_expected_postcondition_contract_refs r);
          classified = pc_verified_contract_refs r @ pc_failed_contract_refs r
            @ pc_unresolved_unknown_contract_refs r;
          bound = map evb_contract_ref (pc_evidence_bindings r)
      in distinct classified \<and> set classified = expected
         \<and> pc_verdict r = partition_verdict (pc_failed_contract_refs r)
             (pc_unresolved_unknown_contract_refs r)
         \<and> distinct bound \<and> set bound \<subseteq> expected
         \<and> (\<forall>b \<in> set (pc_evidence_bindings r). \<not> is_blank (evb_receipt_ref b))
         \<and> pc_evidence_receipt_refs r = map evb_receipt_ref (pc_evidence_bindings r)
         \<and> set (pc_verified_contract_refs r) \<union> set (pc_failed_contract_refs r) \<subseteq> set bound)"

lemma validate_receipt_contracts_ok:
  "validate_receipt_contracts aid r current = Inr () \<longleftrightarrow> receipt_contracts_sound r"
  unfolding validate_receipt_contracts_def receipt_contracts_sound_def Let_def
  by (auto split: if_splits
        simp: check_all_Inr classify_contracts_eq bind_evidence_eq list_ex_iff)

text \<open>
  A receipt is bound to its action when it repeats the admitted lineage, observes a cut
  other than the precondition cut, and names the latest dispatch record as its cause.
\<close>

definition receipt_bound ::
  "(uuid \<Rightarrow> string) \<Rightarrow> journal_entry list \<Rightarrow> uuid \<Rightarrow> canonical_action_envelope
    \<Rightarrow> action_postcondition_receipt \<Rightarrow> bool" where
  "receipt_bound us es aid envelope r \<longleftrightarrow>
     pc_action_id r = aid \<and> pc_session_id r = env_session_id envelope
     \<and> pc_provider_incarnation_ref r = provider_incarnation_ref (metadata envelope)
     \<and> pc_target_incarnation_ref r = target_incarnation_ref (metadata envelope)
     \<and> pc_expected_postcondition_contract_refs r
         = expected_postcondition_contract_refs (metadata envelope)
     \<and> \<not> is_blank (pc_observation_snapshot_cut_ref r)
     \<and> pc_observation_snapshot_cut_ref r \<noteq> precondition_snapshot_cut_ref (metadata envelope)
     \<and> \<not> is_blank (pc_reconciliation_receipt_ref r)
     \<and> pc_completion_journal_sequence r = of_nat (length es) + 1
     \<and> pc_receipt_ref r = postcondition_receipt_ref us aid (of_nat (length es) + 1)
     \<and> causal_journal_sequence (pc_causal_assurance r) < of_nat (length es) + 1
     \<and> postcondition_observation_cause_for es aid = Some (pc_causal_assurance r)
     \<and> distinct (pc_expected_postcondition_contract_refs r)
     \<and> pc_expected_postcondition_contract_refs r \<noteq> []"

lemma card_set_eq_length: "card (set xs) = length xs \<longleftrightarrow> distinct xs"
  using card_distinct distinct_card by blast

lemma validate_action_postcondition_receipt_ok:
  "validate_action_postcondition_receipt us es aid r current = Inr () \<longleftrightarrow>
     (\<exists>envelope. admitted_envelope_for es aid = Some envelope
       \<and> receipt_bound us es aid envelope r \<and> receipt_contracts_sound r)"
  unfolding validate_action_postcondition_receipt_def receipt_bound_def Let_def
  by (auto split: option.splits
        simp: check_all_Inr validate_receipt_contracts_ok card_set_eq_length)

definition preparation_sound ::
  "journal_entry list \<Rightarrow> uuid \<Rightarrow> dispatch_preparation_receipt \<Rightarrow> bool" where
  "preparation_sound es aid r \<longleftrightarrow>
     (\<exists>envelope. admitted_envelope_for es aid = Some envelope
       \<and> latest_authorization_for es aid =
           Some (prep_authorization_journal_sequence r,
                 authorization_revision (metadata envelope), True)
       \<and> \<not> is_blank (prep_receipt_ref r)
       \<and> prep_precondition_snapshot_cut_ref r = precondition_snapshot_cut_ref (metadata envelope)
       \<and> prep_provider_incarnation_ref r = provider_incarnation_ref (metadata envelope)
       \<and> prep_target_incarnation_ref r = target_incarnation_ref (metadata envelope))"

lemma validate_dispatch_preparation_ok:
  "validate_dispatch_preparation es aid r current = Inr () \<longleftrightarrow> preparation_sound es aid r"
  unfolding validate_dispatch_preparation_def preparation_sound_def Let_def
  by (auto split: option.splits prod.splits simp: check_all_Inr)

section \<open>The lifecycle of an action\<close>

text \<open>
  The automaton of recovery states. \<open>append_step\<close> holds of the transitions a running
  journal may write; \<open>replay_step\<close> adds the two historical shortcuts that are accepted
  from disk and never written again.
\<close>

inductive append_step :: "recovery_state option \<Rightarrow> recovery_state \<Rightarrow> bool" where
  step_admit: "append_step None RAdmitted"
| step_authorize:
    "s \<in> {RAdmitted, RAuthorizedNotDispatched} \<Longrightarrow> append_step (Some s) RAuthorizedNotDispatched"
| step_prepare: "append_step (Some RAuthorizedNotDispatched) RDispatchPrepared"
| step_linearize:
    "s' \<in> {RPossiblyDispatched, RKnownNotDispatched} \<Longrightarrow> append_step (Some RDispatchPrepared) s'"
| step_observe:
    "s \<in> {RDispatchPrepared, RPossiblyDispatched, ROutcomeObservedUnverified} \<Longrightarrow>
     s' \<in> {RVerifiedUncommitted, ROutcomeObservedUnverified} \<Longrightarrow> append_step (Some s) s'"
| step_compensate:
    "s' \<in> {RCompensated, RCompensationFailed} \<Longrightarrow>
     append_step (Some ROutcomeObservedUnverified) s'"
| step_commit: "append_step (Some RVerifiedUncommitted) RCommitted"

inductive replay_step :: "recovery_state option \<Rightarrow> recovery_state \<Rightarrow> bool" where
  replay_append: "append_step s s' \<Longrightarrow> replay_step s s'"
| replay_unprepared_dispatch:
    "s' \<in> {RPossiblyDispatched, RKnownNotDispatched} \<Longrightarrow>
     replay_step (Some RAuthorizedNotDispatched) s'"
| replay_aggregate_outcome:
    "s' \<in> {RVerifiedUncommitted, ROutcomeObservedUnverified} \<Longrightarrow>
     replay_step (Some RKnownNotDispatched) s'"

inductive_simps append_step_iff: "append_step s s'"
inductive_simps replay_step_iff: "replay_step s s'"
inductive_cases append_step_from: "append_step (Some s) s'"
inductive_cases append_step_to: "append_step s RCommitted"

lemma dispatch_state_cases:
  "dispatch_state d = RPossiblyDispatched \<or> dispatch_state d = RKnownNotDispatched"
  by (cases d) auto

lemma validate_append_step:
  "validate_transition us es aid t Append = Inr () \<Longrightarrow>
     append_step (recovery_state_for es aid) (transition_state t)"
  using dispatch_state_cases unfolding validate_transition_def Let_def
  by (cases t) (auto simp: append_step_iff split: option.splits if_splits)

lemma validate_replay_step:
  "validate_transition us es aid t Replay = Inr () \<Longrightarrow>
     replay_step (recovery_state_for es aid) (transition_state t)"
  using dispatch_state_cases unfolding validate_transition_def Let_def
  by (cases t) (auto simp: append_step_iff replay_step_iff split: option.splits if_splits)

lemma validate_append_replay:
  "validate_transition us es aid t Append = Inr () \<Longrightarrow>
     validate_transition us es aid t Replay = Inr ()"
  unfolding validate_transition_def Let_def
  by (cases t) (auto split: option.splits if_splits)

section \<open>Histories\<close>

definition journal_schema_version :: u32 where
  "journal_schema_version = 1"

definition entry_ok ::
  "(uuid \<Rightarrow> string) \<Rightarrow> transition_validation_mode \<Rightarrow> journal_entry list \<Rightarrow> journal_entry
    \<Rightarrow> bool" where
  "entry_ok us mode es e \<longleftrightarrow>
     schema_version e = journal_schema_version
     \<and> journal_sequence e = of_nat (length es) + 1
     \<and> validate_transition us es (action_id e) (transition e) mode = Inr ()"

fun history_from ::
  "(uuid \<Rightarrow> string) \<Rightarrow> transition_validation_mode \<Rightarrow> journal_entry list \<Rightarrow> journal_entry list
    \<Rightarrow> bool" where
  "history_from us mode acc [] = True"
| "history_from us mode acc (e # es) =
     (entry_ok us mode acc e \<and> history_from us mode (acc @ [e]) es)"

abbreviation history_ok ::
  "(uuid \<Rightarrow> string) \<Rightarrow> transition_validation_mode \<Rightarrow> journal_entry list \<Rightarrow> bool" where
  "history_ok us mode es \<equiv> history_from us mode [] es"

lemma history_from_append:
  "history_from us mode acc (es @ fs) \<longleftrightarrow>
     history_from us mode acc es \<and> history_from us mode (acc @ es) fs"
  by (induction es arbitrary: acc) auto

lemma history_ok_snoc [simp]:
  "history_ok us mode (es @ [e]) \<longleftrightarrow> history_ok us mode es \<and> entry_ok us mode es e"
  by (simp add: history_from_append)

lemma entry_ok_replay: "entry_ok us Append es e \<Longrightarrow> entry_ok us Replay es e"
  by (auto simp: entry_ok_def validate_append_replay)

lemma history_from_replay: "history_from us Append acc es \<Longrightarrow> history_from us Replay acc es"
  by (induction es arbitrary: acc) (auto simp: entry_ok_replay)

lemma recovery_state_for_snoc [simp]:
  "recovery_state_for (es @ [e]) aid =
     (if action_id e = aid then Some (transition_state (transition e))
      else recovery_state_for es aid)"
  by (simp add: recovery_state_for_def)

lemma recovery_state_for_Nil [simp]: "recovery_state_for [] aid = None"
  by (simp add: recovery_state_for_def)

interpretation appended: lifecycle_log recovery_state_for action_id
    "\<lambda>e. transition_state (transition e)" "entry_ok us Append" "history_ok us Append" append_step
  for us :: "uuid \<Rightarrow> string"
  by unfold_locales (auto simp: entry_ok_def validate_append_step)

interpretation replayed: lifecycle_log recovery_state_for action_id
    "\<lambda>e. transition_state (transition e)" "entry_ok us Replay" "history_ok us Replay" replay_step
  for us :: "uuid \<Rightarrow> string"
  by unfold_locales (auto simp: entry_ok_def validate_replay_step)

lemma history_sequence:
  "history_ok us mode es \<Longrightarrow> i < length es \<Longrightarrow>
     journal_sequence (es ! i) = of_nat i + 1 \<and> schema_version (es ! i) = journal_schema_version"
  by (induction es rule: rev_induct) (auto simp: nth_append entry_ok_def less_Suc_eq)

end
