(* ===== verification/Journal_Store.thy ===== *)
theory Journal_Store
  imports Journal_History
begin

text \<open>
  The file under the journal: \<open>append_durable\<close>, \<open>load_and_repair\<close> and the texts of the
  errors a corrupt record carries. A file system is a map from paths to contents. Every call
  into the operating system may fail; which one fails, with which message and after how many
  bytes, is an argument of the operation, so that a theorem about all arguments is a theorem
  about all faults. The encoder and decoder of a record (\<open>serde_json\<close>) and the text of a
  \<open>Uuid\<close> belong to libraries outside the repository and are the fields of \<open>externals\<close>.
\<close>

section \<open>The libraries the journal calls\<close>

record externals =
  uuid_display :: "uuid \<Rightarrow> string"
  entry_to_vec :: "journal_entry \<Rightarrow> string + bytes"
  entry_from_slice :: "bytes \<Rightarrow> string + journal_entry"

type_synonym path = string
type_synonym file_system = "path \<rightharpoonup> bytes"

text \<open>The calls of an append that fail, and the bytes that reached the file before.\<close>

record append_faults =
  append_open_fault :: "string option"
  append_write_fault :: "(nat \<times> string) option"
  append_flush_fault :: "string option"
  append_sync_fault :: "string option"
  append_worker_fault :: "(nat \<times> string) option"

definition no_append_faults :: append_faults where
  "no_append_faults = \<lparr>append_open_fault = None, append_write_fault = None,
     append_flush_fault = None, append_sync_fault = None, append_worker_fault = None\<rparr>"

record load_faults =
  create_parent_fault :: "string option"
  open_fault :: "string option"
  read_fault :: "string option"
  set_len_fault :: "string option"
  sync_fault :: "string option"
  load_worker_fault :: "string option"

definition no_load_faults :: load_faults where
  "no_load_faults = \<lparr>create_parent_fault = None, open_fault = None, read_fault = None,
     set_len_fault = None, sync_fault = None, load_worker_fault = None\<rparr>"

definition newline :: u8 where
  "newline = 0x0A"

definition file_contents :: "file_system \<Rightarrow> path \<Rightarrow> bytes" where
  "file_contents fs p = (case fs p of None \<Rightarrow> [] | Some c \<Rightarrow> c)"

section \<open>Error texts\<close>

fun recovery_state_debug :: "recovery_state \<Rightarrow> string" where
  "recovery_state_debug RAdmitted = ''Admitted''"
| "recovery_state_debug RAuthorizedNotDispatched = ''AuthorizedNotDispatched''"
| "recovery_state_debug RDispatchPrepared = ''DispatchPrepared''"
| "recovery_state_debug RKnownNotDispatched = ''KnownNotDispatched''"
| "recovery_state_debug RPossiblyDispatched = ''PossiblyDispatched''"
| "recovery_state_debug ROutcomeObservedUnverified = ''OutcomeObservedUnverified''"
| "recovery_state_debug RVerifiedUncommitted = ''VerifiedUncommitted''"
| "recovery_state_debug RCompensated = ''Compensated''"
| "recovery_state_debug RCompensationFailed = ''CompensationFailed''"
| "recovery_state_debug RCommitted = ''Committed''"

fun option_debug :: "('a \<Rightarrow> string) \<Rightarrow> 'a option \<Rightarrow> string" where
  "option_debug f None = ''None''"
| "option_debug f (Some x) = ''Some('' @ f x @ '')''"

fun journal_error_display :: "(uuid \<Rightarrow> string) \<Rightarrow> journal_error \<Rightarrow> string" where
  "journal_error_display us (Io operation message) =
     ''journal I/O failed during '' @ operation @ '': '' @ message"
| "journal_error_display us (Serialization message) =
     ''journal serialization failed: '' @ message"
| "journal_error_display us (Worker message) = ''journal worker failed: '' @ message"
| "journal_error_display us (CorruptRecord line message) =
     ''corrupt journal record at line '' @ show_nat line @ '': '' @ message"
| "journal_error_display us (UnknownAction aid) = ''unknown consequential action '' @ us aid"
| "journal_error_display us (DuplicateIntent aid) =
     ''consequential action '' @ us aid @ '' was admitted more than once''"
| "journal_error_display us (InvalidTransition aid attempted current) =
     ''invalid journal transition '' @ [CHR 0x27] @ attempted @ [CHR 0x27] @ '' for action ''
       @ us aid @ '' from '' @ option_debug recovery_state_debug current"
| "journal_error_display us (InvalidDispatchCapability aid reason) =
     ''invalid prepared dispatch capability for action '' @ us aid @ '': '' @ reason"
| "journal_error_display us (InvalidDispatchPermit aid reason) =
     ''invalid dispatch execution permit for action '' @ us aid @ '': '' @ reason"

section \<open>Appending a record\<close>

definition append_durable ::
  "path \<Rightarrow> bytes \<Rightarrow> append_faults \<Rightarrow> file_system \<Rightarrow> (journal_error + unit) \<times> file_system" where
  "append_durable p encoded faults fs =
     (case append_open_fault faults of
        Some message \<Rightarrow> (Inl (Io ''append_open'' message), fs)
      | None \<Rightarrow>
          let before = file_contents fs p; after = fs(p \<mapsto> before @ encoded)
          in case append_write_fault faults of
               Some (n, message) \<Rightarrow>
                 (Inl (Io ''append_write'' message), fs(p \<mapsto> before @ take n encoded))
             | None \<Rightarrow>
                 (case append_flush_fault faults of
                    Some message \<Rightarrow> (Inl (Io ''append_flush'' message), after)
                  | None \<Rightarrow>
                      (case append_sync_fault faults of
                         Some message \<Rightarrow> (Inl (Io ''append_sync'' message), after)
                       | None \<Rightarrow> (Inr (), after))))"

text \<open>
  The same on the blocking worker pool: a lost worker is an error of its own, after which a
  prefix of the record, perhaps all of it, is in the file.
\<close>

definition append_on_worker ::
  "path \<Rightarrow> bytes \<Rightarrow> append_faults \<Rightarrow> file_system \<Rightarrow> (journal_error + unit) \<times> file_system" where
  "append_on_worker p encoded faults fs =
     (case append_worker_fault faults of
        Some (n, message) \<Rightarrow>
          (Inl (Worker message), fs(p \<mapsto> file_contents fs p @ take n encoded))
      | None \<Rightarrow> append_durable p encoded faults fs)"

lemma append_on_worker_outcome:
  obtains (ok) "append_on_worker p encoded faults fs
      = (Inr (), fs(p \<mapsto> file_contents fs p @ encoded))"
  | (unopened) err where "append_on_worker p encoded faults fs = (Inl err, fs)"
  | (partly) n err where "append_on_worker p encoded faults fs
      = (Inl err, fs(p \<mapsto> file_contents fs p @ take n encoded))"
proof -
  show thesis
  proof (cases "append_worker_fault faults")
    case (Some w)
    then show thesis using partly [of "Worker (snd w)" "fst w"]
      by (simp add: append_on_worker_def split: prod.split)
  next
    case worker: None
    show thesis
    proof (cases "append_open_fault faults")
      case (Some m)
      with worker show thesis using unopened [of "Io ''append_open'' m"]
        by (simp add: append_on_worker_def append_durable_def)
    next
      case opened: None
      show thesis
      proof (cases "append_write_fault faults")
        case (Some w)
        with worker opened show thesis using partly [of "Io ''append_write'' (snd w)" "fst w"]
          by (simp add: append_on_worker_def append_durable_def split: prod.split)
      next
        case None
        with worker opened show thesis
          using ok partly [of "Io ''append_flush'' (the (append_flush_fault faults))" "length encoded"]
            partly [of "Io ''append_sync'' (the (append_sync_fault faults))" "length encoded"]
          by (cases "append_flush_fault faults"; cases "append_sync_fault faults")
             (simp_all add: append_on_worker_def append_durable_def)
      qed
    qed
  qed
qed

section \<open>Loading and repairing\<close>

text \<open>The length of the contents up to and including the last newline.\<close>

definition durable_len :: "bytes \<Rightarrow> nat" where
  "durable_len bs = length (dropWhile (\<lambda>b. b \<noteq> newline) (rev bs))"

text \<open>The slices between newlines; what follows the last newline is no record.\<close>

fun split_records :: "bytes \<Rightarrow> bytes \<Rightarrow> bytes list" where
  "split_records line [] = []"
| "split_records line (b # bs) =
     (if b = newline then line # split_records [] bs else split_records (line @ [b]) bs)"

fun replay_records ::
  "externals \<Rightarrow> nat \<Rightarrow> journal_entry list \<Rightarrow> bytes list \<Rightarrow> journal_error + journal_entry list"
  where
  "replay_records ext n es [] = Inr es"
| "replay_records ext n es (line # lines) =
     (if line = [] then Inl (CorruptRecord n ''empty durable record'')
      else case entry_from_slice ext line of
        Inl message \<Rightarrow> Inl (CorruptRecord n message)
      | Inr e \<Rightarrow>
          let expected_sequence = of_nat (length es) + 1 :: u64
          in if schema_version e \<noteq> journal_schema_version then
               Inl (CorruptRecord n (''unsupported schema version ''
                 @ show_nat (unat (schema_version e)) @ ''; expected ''
                 @ show_nat (unat journal_schema_version)))
             else if journal_sequence e \<noteq> expected_sequence then
               Inl (CorruptRecord n (''journal sequence '' @ show_u64 (journal_sequence e)
                 @ ''; expected '' @ show_u64 expected_sequence))
             else case validate_transition (uuid_display ext) es (action_id e) (transition e)
                         Replay of
               Inl err \<Rightarrow> Inl (CorruptRecord n (journal_error_display (uuid_display ext) err))
             | Inr _ \<Rightarrow> replay_records ext (n + 1) (es @ [e]) lines)"

definition load_and_repair ::
  "externals \<Rightarrow> path \<Rightarrow> load_faults \<Rightarrow> file_system
    \<Rightarrow> (journal_error + journal_entry list) \<times> file_system" where
  "load_and_repair ext p faults fs =
     (case create_parent_fault faults of
        Some message \<Rightarrow> (Inl (Io ''create_parent'' message), fs)
      | None \<Rightarrow>
     (case open_fault faults of
        Some message \<Rightarrow> (Inl (Io ''open'' message), fs)
      | None \<Rightarrow>
     (let bytes = file_contents fs p; opened = fs(p \<mapsto> bytes)
      in case read_fault faults of
           Some message \<Rightarrow> (Inl (Io ''read'' message), opened)
         | None \<Rightarrow>
     (let len = (if bytes = [] \<or> last bytes = newline then length bytes else durable_len bytes)
      in if len \<noteq> length bytes then
           (case set_len_fault faults of
              Some message \<Rightarrow> (Inl (Io ''truncate_incomplete_tail'' message), opened)
            | None \<Rightarrow>
                let repaired = fs(p \<mapsto> take len bytes)
                in case sync_fault faults of
                     Some message \<Rightarrow> (Inl (Io ''sync_truncated_tail'' message), repaired)
                   | None \<Rightarrow>
                       (replay_records ext 1 [] (split_records [] (take len bytes)), repaired))
         else if bytes = [] then
           (case sync_fault faults of
              Some message \<Rightarrow> (Inl (Io ''sync_created_journal'' message), opened)
            | None \<Rightarrow> (replay_records ext 1 [] (split_records [] bytes), opened))
         else (replay_records ext 1 [] (split_records [] bytes), opened)))))"

section \<open>What a log on disk looks like\<close>

definition encode_record :: "externals \<Rightarrow> journal_entry \<Rightarrow> bytes" where
  "encode_record ext e = (case entry_to_vec ext e of Inr bs \<Rightarrow> bs @ [newline] | Inl _ \<Rightarrow> [])"

definition encode_log :: "externals \<Rightarrow> journal_entry list \<Rightarrow> bytes" where
  "encode_log ext es = concat (map (encode_record ext) es)"

text \<open>
  What the code relies on of the JSON library, for the entries at hand: an entry is encoded
  as a non-empty text without a raw newline, which is decoded to the same entry.
\<close>

definition encodes :: "externals \<Rightarrow> journal_entry list \<Rightarrow> bool" where
  "encodes ext es \<longleftrightarrow> list_all
     (\<lambda>e. case entry_to_vec ext e of
        Inl _ \<Rightarrow> False
      | Inr bs \<Rightarrow> bs \<noteq> [] \<and> newline \<notin> set bs \<and> entry_from_slice ext bs = Inr e) es"

lemma encode_log_simps [simp]:
  "encode_log ext [] = []"
  "encode_log ext (e # es) = encode_record ext e @ encode_log ext es"
  "encode_log ext (es @ fs) = encode_log ext es @ encode_log ext fs"
  by (simp_all add: encode_log_def)

lemma encodes_simps [simp]:
  "encodes ext []"
  "encodes ext (es @ fs) \<longleftrightarrow> encodes ext es \<and> encodes ext fs"
  by (simp_all add: encodes_def)

lemma encodes_Cons:
  "encodes ext (e # es) \<longleftrightarrow>
     (\<exists>bs. entry_to_vec ext e = Inr bs \<and> bs \<noteq> [] \<and> newline \<notin> set bs
       \<and> entry_from_slice ext bs = Inr e) \<and> encodes ext es"
  by (auto simp: encodes_def split: sum.splits)

lemma split_records_line:
  "newline \<notin> set l \<Longrightarrow> split_records pre (l @ newline # rest) = (pre @ l) # split_records [] rest"
  by (induction l arbitrary: pre) auto

lemma split_records_tail: "newline \<notin> set l \<Longrightarrow> split_records pre l = []"
  by (induction l arbitrary: pre) auto

lemma split_records_log:
  "encodes ext es \<Longrightarrow> split_records [] (encode_log ext es @ rest) =
     map (\<lambda>e. projr (entry_to_vec ext e)) es @ split_records [] rest"
  by (induction es) (auto simp: encodes_Cons encode_record_def split_records_line)

lemma encode_log_complete: "encodes ext es \<Longrightarrow> es \<noteq> [] \<Longrightarrow> last (encode_log ext es) = newline"
  by (cases es rule: rev_cases) (auto simp: encodes_Cons encode_record_def)

lemma encode_log_empty: "encodes ext es \<Longrightarrow> encode_log ext es = [] \<longleftrightarrow> es = []"
  by (cases es) (auto simp: encodes_Cons encode_record_def)

lemma replay_records_ok:
  "encodes ext es \<Longrightarrow> history_from (uuid_display ext) Replay acc es \<Longrightarrow>
     replay_records ext n acc (map (\<lambda>e. projr (entry_to_vec ext e)) es @ lines)
       = replay_records ext (n + length es) (acc @ es) lines"
  by (induction es arbitrary: acc n) (auto simp: encodes_Cons entry_ok_def Let_def)

lemma replay_records_sound:
  "replay_records ext n acc lines = Inr es \<Longrightarrow>
     \<exists>new. es = acc @ new \<and> history_from (uuid_display ext) Replay acc new
       \<and> map (entry_from_slice ext) lines = map Inr new \<and> [] \<notin> set lines"
proof (induction lines arbitrary: acc n)
  case (Cons line lines)
  then obtain e where e: "entry_from_slice ext line = Inr e" "line \<noteq> []"
    "entry_ok (uuid_display ext) Replay acc e"
    "replay_records ext (n + 1) (acc @ [e]) lines = Inr es"
    by (auto simp: Let_def entry_ok_def split: if_splits sum.splits)
  from Cons.IH [OF e(4)] obtain new where
    "es = (acc @ [e]) @ new" "history_from (uuid_display ext) Replay (acc @ [e]) new"
    "map (entry_from_slice ext) lines = map Inr new" "[] \<notin> set lines" by blast
  with e show ?case by (intro exI [of _ "e # new"]) auto
qed simp

lemma durable_len_append:
  assumes "newline \<notin> set tail" "c = [] \<or> last c = newline"
  shows "durable_len (c @ tail) = length c"
proof -
  have "dropWhile (\<lambda>b. b \<noteq> newline) (rev tail @ rev c) = dropWhile (\<lambda>b. b \<noteq> newline) (rev c)"
    using assms(1) by (intro dropWhile_append2) auto
  also have "\<dots> = rev c" using assms(2) by (cases c rule: rev_cases) auto
  finally show ?thesis by (simp add: durable_len_def)
qed

text \<open>
  Without faults, loading keeps the complete records of a file and cuts off an incomplete
  tail, whatever it holds.
\<close>

lemma load_and_repair_complete:
  assumes "newline \<notin> set tail" "c = [] \<or> last c = newline" "fs p = Some (c @ tail)"
  shows "load_and_repair ext p no_load_faults fs
    = (replay_records ext 1 [] (split_records [] c), fs(p \<mapsto> c))"
proof (cases "tail = []")
  case True
  then show ?thesis
    using assms by (auto simp: load_and_repair_def no_load_faults_def Let_def file_contents_def)
next
  case False
  then have "last (c @ tail) \<noteq> newline" using assms(1) by (auto dest: last_in_set)
  with False show ?thesis
    using durable_len_append [OF assms(1,2)] assms
    by (auto simp: load_and_repair_def no_load_faults_def Let_def file_contents_def)
qed

lemma load_encoded_log:
  assumes "encodes ext es" "history_ok (uuid_display ext) Replay es"
    and "newline \<notin> set tail" "fs p = Some (encode_log ext es @ tail)"
  shows "load_and_repair ext p no_load_faults fs = (Inr es, fs(p \<mapsto> encode_log ext es))"
proof -
  have "encode_log ext es = [] \<or> last (encode_log ext es) = newline"
    using encode_log_complete assms(1) encode_log_empty by blast
  from load_and_repair_complete [where p = p and ext = ext and fs = fs, OF assms(3) this assms(4)]
  show ?thesis
    using split_records_log [OF assms(1), of "[]"]
      replay_records_ok [OF assms(1,2), of 1 "[]"] by simp
qed

lemma load_and_repair_sound:
  assumes "load_and_repair ext p faults fs = (Inr es, fs')"
  shows "history_ok (uuid_display ext) Replay es"
    and "\<exists>c. fs' = fs(p \<mapsto> c) \<and> (c = [] \<or> last c = newline)
      \<and> map (entry_from_slice ext) (split_records [] c) = map Inr es
      \<and> (\<exists>tail. file_contents fs p = c @ tail \<and> newline \<notin> set tail)"
proof -
  let ?c = "file_contents fs p"
  let ?n = "if ?c = [] \<or> last ?c = newline then length ?c else durable_len ?c"
  have r: "replay_records ext 1 [] (split_records [] (take ?n ?c)) = Inr es"
    and fs': "fs' = fs(p \<mapsto> take ?n ?c)"
    using assms unfolding load_and_repair_def Let_def
    by (auto split: option.splits if_splits)
  from replay_records_sound [OF r] have
    "history_ok (uuid_display ext) Replay es"
    and m: "map (entry_from_slice ext) (split_records [] (take ?n ?c)) = map Inr es" by auto
  then show "history_ok (uuid_display ext) Replay es" by simp
  define t where "t = rev (takeWhile (\<lambda>b. b \<noteq> newline) (rev ?c))"
  define d where "d = rev (dropWhile (\<lambda>b. b \<noteq> newline) (rev ?c))"
  have dt: "?c = d @ t" unfolding t_def d_def by (simp flip: rev_append)
  have "newline \<notin> set t" unfolding t_def by (auto dest: set_takeWhileD)
  moreover have d: "d = [] \<or> last d = newline"
    unfolding d_def using hd_dropWhile [of "\<lambda>b. b \<noteq> newline" "rev ?c"]
    by (auto simp: last_rev)
  moreover have "take ?n ?c = d"
    using dt d durable_len_append [OF \<open>newline \<notin> set t\<close> d] \<open>newline \<notin> set t\<close>
    by (auto simp: last_append split: if_splits dest: last_in_set)
  ultimately show "\<exists>c. fs' = fs(p \<mapsto> c) \<and> (c = [] \<or> last c = newline)
      \<and> map (entry_from_slice ext) (split_records [] c) = map Inr es
      \<and> (\<exists>tail. file_contents fs p = c @ tail \<and> newline \<notin> set tail)"
    using m fs' dt by (intro exI [of _ d]) (auto intro: exI [of _ t])
qed

end
