(* ===== verification/One_Shot.thy ===== *)
theory One_Shot
  imports Main
begin

text \<open>
  The interface of a one-shot authority: a token is spent by its first use, whatever the use
  returns, and a token that is not live changes nothing. The journal provides it three
  times, with exactly one live token for a key: for prepared capabilities, for execution
  permits (spent by abandoning or by linearizing) and for observation permits (spent by
  abandoning or by completing). The bridge provides it for bound canonical envelopes.
\<close>

locale spendable =
  fixes live :: "'s \<Rightarrow> 't \<Rightarrow> bool"
    and token_key :: "'t \<Rightarrow> 'k"
    and consume :: "'t \<Rightarrow> 'i \<Rightarrow> 's \<Rightarrow> ('e + 'r) \<times> 's"
  assumes rejected: "\<not> live s t \<Longrightarrow> \<exists>err. consume t i s = (Inl err, s)"
    and spent: "live s t \<Longrightarrow> token_key t' = token_key t \<Longrightarrow> \<not> live (snd (consume t i s)) t'"
    and others: "token_key t' \<noteq> token_key t \<Longrightarrow> live (snd (consume t i s)) t' = live s t'"
begin

lemma success_live: "fst (consume t i s) = Inr r \<Longrightarrow> live s t"
  by (metis rejected fst_conv sum.distinct(1))

lemma dead_stays_dead: "\<not> live s t \<Longrightarrow> \<not> live (snd (consume t' i s)) t"
  using rejected [of s t' i] spent [of s t' t i] others [of t t' i s]
  by (cases "live s t'"; cases "token_key t = token_key t'") auto

lemma key_dead_stays_dead:
  "(\<And>t. token_key t = k \<Longrightarrow> \<not> live s t) \<Longrightarrow> token_key t = k \<Longrightarrow>
     \<not> live (snd (consume t' i s)) t"
  using dead_stays_dead by blast

lemma no_second_use:
  assumes "fst (consume t i s) = Inr r" "token_key t' = token_key t"
  shows "\<exists>err. consume t' i' (snd (consume t i s)) = (Inl err, snd (consume t i s))"
  by (rule rejected) (rule spent [OF success_live [OF assms(1)] assms(2)])

text \<open>A run of uses, in which every use sees the state the one before it left.\<close>

fun run_uses :: "('t \<times> 'i) list \<Rightarrow> 's \<Rightarrow> ('e + 'r) list" where
  "run_uses [] s = []"
| "run_uses ((t, i) # uses) s = fst (consume t i s) # run_uses uses (snd (consume t i s))"

definition successes :: "'k \<Rightarrow> ('t \<times> 'i) list \<Rightarrow> 's \<Rightarrow> nat" where
  "successes k uses s = length (filter (\<lambda>((t, i), res). token_key t = k \<and> \<not> isl res)
     (zip uses (run_uses uses s)))"

lemma no_success_when_dead:
  "(\<And>t. token_key t = k \<Longrightarrow> \<not> live s t) \<Longrightarrow> successes k uses s = 0"
proof (induction uses arbitrary: s)
  case (Cons u uses)
  obtain t i where u: "u = (t, i)" by force
  have "token_key t = k \<Longrightarrow> isl (fst (consume t i s))"
    using rejected [of s t i] Cons.prems by fastforce
  moreover have "successes k uses (snd (consume t i s)) = 0"
    by (rule Cons.IH) (rule key_dead_stays_dead, use Cons.prems in auto)
  ultimately show ?case by (auto simp: successes_def u)
qed (simp add: successes_def)

theorem at_most_one_success: "successes k uses s \<le> 1"
proof (induction uses arbitrary: s)
  case (Cons u uses)
  obtain t i where u: "u = (t, i)" by force
  show ?case
  proof (cases "token_key t = k \<and> \<not> isl (fst (consume t i s))")
    case True
    then have "live s t" using rejected [of s t i] by (metis fst_conv isl_def)
    then have "successes k uses (snd (consume t i s)) = 0"
      using True by (intro no_success_when_dead) (use spent in auto)
    with True show ?thesis by (simp add: successes_def u)
  next
    case False
    then show ?thesis using Cons.IH [of "snd (consume t i s)"] by (auto simp: successes_def u)
  qed
qed (simp add: successes_def)

end

text \<open>
  When the live token is determined by its key, a forged token neither succeeds nor spends
  the live one.
\<close>

locale one_shot = spendable live token_key consume
  for live :: "'s \<Rightarrow> 't \<Rightarrow> bool"
    and token_key :: "'t \<Rightarrow> 'k"
    and consume :: "'t \<Rightarrow> 'i \<Rightarrow> 's \<Rightarrow> ('e + 'r) \<times> 's" +
  assumes exact: "live s t \<Longrightarrow> live s t' \<Longrightarrow> token_key t = token_key t' \<Longrightarrow> t = t'"
begin

lemma forged:
  assumes "live s t" "token_key t' = token_key t" "t' \<noteq> t"
  shows "\<exists>err. consume t' i s = (Inl err, s)"
  using rejected exact assms by metis

lemma forged_keeps_live:
  assumes "live s t" "token_key t' = token_key t" "t' \<noteq> t"
  shows "live (snd (consume t' i s)) t"
  using forged [OF assms] assms(1) by (metis snd_conv)

end

end
