(* ===== verification/Journal_Ops.thy ===== *)
theory Journal_Ops
  imports Journal_Store One_Shot
begin

text \<open>
  The operations of \<open>ConsequentialJournal\<close>, one definition per method, in the order of the
  source. The state is the journal record and the file system; the mutex of the journal is
  held throughout a method, so a method is one step. The identifiers a method mints
  (\<open>Uuid::new_v4\<close>) and the clock (\<open>Utc::now\<close>) are arguments.
\<close>

section \<open>The journal\<close>

record consequential_journal =
  journal_path :: path
  journal_instance_ref :: uuid
  next_sequence :: u64
  journal_entries :: "journal_entry list"
  live_dispatch_prepared :: "uuid \<rightharpoonup> live_prepared_grant"
  live_dispatch_execution :: "uuid \<rightharpoonup> live_execution_grant"
  live_postcondition_observation :: "uuid \<rightharpoonup> live_observation_grant"

type_synonym 'a journal_result =
  "(journal_error + 'a) \<times> consequential_journal \<times> file_system"

definition open_journal ::
  "externals \<Rightarrow> path \<Rightarrow> uuid \<Rightarrow> load_faults \<Rightarrow> file_system
    \<Rightarrow> (journal_error + consequential_journal) \<times> file_system" where
  "open_journal ext p instance_ref faults fs =
     (case load_worker_fault faults of
        Some message \<Rightarrow> (Inl (Worker message), fs)
      | None \<Rightarrow>
          (case load_and_repair ext p faults fs of
             (Inl err, fs') \<Rightarrow> (Inl err, fs')
           | (Inr es, fs') \<Rightarrow>
               (Inr \<lparr>journal_path = p, journal_instance_ref = instance_ref,
                     next_sequence =
                       (if es = [] then 1 else saturating_add (journal_sequence (last es)) 1),
                     journal_entries = es,
                     live_dispatch_prepared = (\<lambda>_. None),
                     live_dispatch_execution = (\<lambda>_. None),
                     live_postcondition_observation = (\<lambda>_. None)\<rparr>, fs')))"

section \<open>Reading\<close>

definition entries_for :: "consequential_journal \<Rightarrow> uuid \<Rightarrow> journal_entry list" where
  "entries_for j aid = filter (\<lambda>e. action_id e = aid) (journal_entries j)"

definition recovery_state_of :: "consequential_journal \<Rightarrow> uuid \<Rightarrow> recovery_state option" where
  "recovery_state_of j aid = recovery_state_for (journal_entries j) aid"

definition latest_action_postcondition_receipt ::
  "consequential_journal \<Rightarrow> uuid \<Rightarrow> action_postcondition_receipt option" where
  "latest_action_postcondition_receipt j aid = find_map
     (\<lambda>e. if action_id e \<noteq> aid then None
          else case transition e of PostconditionReceiptRecorded r \<Rightarrow> Some r | _ \<Rightarrow> None)
     (rev (journal_entries j))"

definition requires_reconciliation :: "consequential_journal \<Rightarrow> uuid \<Rightarrow> bool option" where
  "requires_reconciliation j aid = map_option
     (\<lambda>s. s \<in> {RDispatchPrepared, RPossiblyDispatched, ROutcomeObservedUnverified,
               RCompensationFailed}) (recovery_state_of j aid)"

section \<open>Appending\<close>

definition append_validated_locked ::
  "externals \<Rightarrow> consequential_journal \<Rightarrow> uuid \<Rightarrow> journal_transition \<Rightarrow> timestamp
    \<Rightarrow> append_faults \<Rightarrow> file_system \<Rightarrow> journal_entry journal_result" where
  "append_validated_locked ext j aid t now faults fs =
     (case validate_transition (uuid_display ext) (journal_entries j) aid t Append of
        Inl err \<Rightarrow> (Inl err, j, fs)
      | Inr _ \<Rightarrow>
          let e = \<lparr>schema_version = journal_schema_version, journal_sequence = next_sequence j,
                   action_id = aid, recorded_at = now, transition = t\<rparr>
          in case entry_to_vec ext e of
               Inl message \<Rightarrow> (Inl (Serialization message), j, fs)
             | Inr encoded \<Rightarrow>
                 (case append_on_worker (journal_path j) (encoded @ [newline]) faults fs of
                    (Inl err, fs') \<Rightarrow> (Inl err, j, fs')
                  | (Inr _, fs') \<Rightarrow>
                      (Inr e,
                       j\<lparr>next_sequence := saturating_add (next_sequence j) 1,
                         journal_entries := journal_entries j @ [e]\<rparr>, fs')))"

definition record_intent_admitted ::
  "externals \<Rightarrow> consequential_journal \<Rightarrow> canonical_action_envelope \<Rightarrow> timestamp
    \<Rightarrow> append_faults \<Rightarrow> file_system \<Rightarrow> journal_entry journal_result" where
  "record_intent_admitted ext j envelope =
     append_validated_locked ext j (transport_action_id envelope) (IntentAdmitted envelope)"

definition record_authorization ::
  "externals \<Rightarrow> consequential_journal \<Rightarrow> uuid \<Rightarrow> string \<Rightarrow> bool \<Rightarrow> timestamp
    \<Rightarrow> append_faults \<Rightarrow> file_system \<Rightarrow> journal_entry journal_result" where
  "record_authorization ext j aid revision revalidated =
     append_validated_locked ext j aid (AuthorizationRecorded revision revalidated)"

definition record_compensation ::
  "externals \<Rightarrow> consequential_journal \<Rightarrow> uuid \<Rightarrow> string \<Rightarrow> world_outcome \<Rightarrow> timestamp
    \<Rightarrow> append_faults \<Rightarrow> file_system \<Rightarrow> journal_entry journal_result" where
  "record_compensation ext j aid compensation_ref outcome =
     append_validated_locked ext j aid (CompensationRecorded compensation_ref outcome)"

definition record_committed ::
  "externals \<Rightarrow> consequential_journal \<Rightarrow> uuid \<Rightarrow> timestamp
    \<Rightarrow> append_faults \<Rightarrow> file_system \<Rightarrow> journal_entry journal_result" where
  "record_committed ext j aid = append_validated_locked ext j aid Committed"

section \<open>Dispatch authority\<close>

definition record_dispatch_prepared ::
  "externals \<Rightarrow> consequential_journal \<Rightarrow> uuid \<Rightarrow> dispatch_preparation_receipt \<Rightarrow> uuid
    \<Rightarrow> timestamp \<Rightarrow> append_faults \<Rightarrow> file_system
    \<Rightarrow> dispatch_prepared_admission journal_result" where
  "record_dispatch_prepared ext j aid receipt capability_ref now faults fs =
     (case append_validated_locked ext j aid (DispatchPrepared receipt) now faults fs of
        (Inl err, j', fs') \<Rightarrow> (Inl err, j', fs')
      | (Inr e, j', fs') \<Rightarrow>
          (Inr \<lparr>adm_entry = e,
                adm_capability =
                  \<lparr>cap_journal_instance_ref = journal_instance_ref j,
                   cap_action_id = aid,
                   cap_preparation_journal_sequence = journal_sequence e,
                   cap_preparation_receipt_ref = prep_receipt_ref receipt,
                   cap_capability_ref = capability_ref\<rparr>\<rparr>,
           j'\<lparr>live_dispatch_prepared := (live_dispatch_prepared j')(aid \<mapsto>
               \<lparr>lpg_capability_ref = capability_ref,
                lpg_preparation_journal_sequence = journal_sequence e,
                lpg_preparation_receipt_ref = prep_receipt_ref receipt\<rparr>)\<rparr>,
           fs'))"

definition prepared_grant_matches ::
  "live_prepared_grant \<Rightarrow> dispatch_prepared_capability \<Rightarrow> bool" where
  "prepared_grant_matches grant capability \<longleftrightarrow>
     lpg_capability_ref grant = cap_capability_ref capability
     \<and> lpg_preparation_journal_sequence grant = cap_preparation_journal_sequence capability
     \<and> lpg_preparation_receipt_ref grant = cap_preparation_receipt_ref capability"

definition begin_dispatch ::
  "consequential_journal \<Rightarrow> dispatch_prepared_capability \<Rightarrow> uuid
    \<Rightarrow> (journal_error + dispatch_execution_permit) \<times> consequential_journal" where
  "begin_dispatch j capability permit_ref =
     (let aid = cap_action_id capability;
          invalid = (\<lambda>reason. Inl (InvalidDispatchCapability aid reason))
      in if cap_journal_instance_ref capability \<noteq> journal_instance_ref j then
           (invalid ''journal_instance_mismatch'', j)
         else case live_dispatch_prepared j aid of
           None \<Rightarrow> (invalid ''live_prepared_grant_missing'', j)
         | Some grant \<Rightarrow>
             if \<not> prepared_grant_matches grant capability then
               (invalid ''prepared_grant_binding_mismatch'', j)
             else
               let consumed = j\<lparr>live_dispatch_prepared :=
                     (live_dispatch_prepared j)(aid := None)\<rparr>
               in if recovery_state_for (journal_entries j) aid \<noteq> Some RDispatchPrepared then
                    (invalid ''durable_state_is_not_prepared'', consumed)
                  else if \<not> durable_preparation_matches (journal_entries j) aid
                             (cap_preparation_journal_sequence capability)
                             (cap_preparation_receipt_ref capability) then
                    (invalid ''durable_prepared_entry_mismatch'', consumed)
                  else
                    (Inr \<lparr>perm_journal_instance_ref = journal_instance_ref j,
                          perm_action_id = aid,
                          perm_preparation_journal_sequence =
                            cap_preparation_journal_sequence capability,
                          perm_preparation_receipt_ref = cap_preparation_receipt_ref capability,
                          perm_permit_ref = permit_ref\<rparr>,
                     consumed\<lparr>live_dispatch_execution :=
                       (live_dispatch_execution j)(aid \<mapsto>
                         \<lparr>leg_permit_ref = permit_ref,
                          leg_preparation_journal_sequence =
                            cap_preparation_journal_sequence capability,
                          leg_preparation_receipt_ref =
                            cap_preparation_receipt_ref capability\<rparr>)\<rparr>))"

definition execution_grant_matches ::
  "live_execution_grant \<Rightarrow> dispatch_execution_permit \<Rightarrow> bool" where
  "execution_grant_matches grant permit \<longleftrightarrow>
     leg_permit_ref grant = perm_permit_ref permit
     \<and> leg_preparation_journal_sequence grant = perm_preparation_journal_sequence permit
     \<and> leg_preparation_receipt_ref grant = perm_preparation_receipt_ref permit"

definition abandon_dispatch_execution ::
  "consequential_journal \<Rightarrow> dispatch_execution_permit
    \<Rightarrow> (journal_error + unit) \<times> consequential_journal" where
  "abandon_dispatch_execution j permit =
     (let aid = perm_action_id permit;
          invalid = (\<lambda>reason. Inl (InvalidDispatchPermit aid reason))
      in if perm_journal_instance_ref permit \<noteq> journal_instance_ref j then
           (invalid ''journal_instance_mismatch'', j)
         else case live_dispatch_execution j aid of
           None \<Rightarrow> (invalid ''live_execution_grant_missing'', j)
         | Some grant \<Rightarrow>
             if \<not> execution_grant_matches grant permit then
               (invalid ''execution_grant_binding_mismatch'', j)
             else
               let consumed = j\<lparr>live_dispatch_execution :=
                     (live_dispatch_execution j)(aid := None)\<rparr>
               in if recovery_state_for (journal_entries j) aid \<noteq> Some RDispatchPrepared then
                    (invalid ''durable_state_is_not_prepared'', consumed)
                  else if \<not> durable_preparation_matches (journal_entries j) aid
                             (perm_preparation_journal_sequence permit)
                             (perm_preparation_receipt_ref permit) then
                    (invalid ''durable_prepared_entry_mismatch'', consumed)
                  else (Inr (), consumed))"

definition record_dispatch_linearized ::
  "externals \<Rightarrow> consequential_journal \<Rightarrow> dispatch_execution_permit
    \<Rightarrow> dispatch_linearization_receipt \<Rightarrow> timestamp \<Rightarrow> append_faults \<Rightarrow> file_system
    \<Rightarrow> journal_entry journal_result" where
  "record_dispatch_linearized ext j permit receipt now faults fs =
     (let aid = perm_action_id permit;
          invalid = (\<lambda>reason. Inl (InvalidDispatchPermit aid reason))
      in if perm_journal_instance_ref permit \<noteq> journal_instance_ref j then
           (invalid ''journal_instance_mismatch'', j, fs)
         else case live_dispatch_execution j aid of
           None \<Rightarrow> (invalid ''live_execution_grant_missing'', j, fs)
         | Some grant \<Rightarrow>
             if \<not> execution_grant_matches grant permit then
               (invalid ''execution_grant_binding_mismatch'', j, fs)
             else
               let consumed = j\<lparr>live_dispatch_execution :=
                     (live_dispatch_execution j)(aid := None)\<rparr>
               in if recovery_state_for (journal_entries j) aid \<noteq> Some RDispatchPrepared then
                    (invalid ''durable_state_is_not_prepared'', consumed, fs)
                  else if \<not> durable_preparation_matches (journal_entries j) aid
                             (perm_preparation_journal_sequence permit)
                             (perm_preparation_receipt_ref permit) then
                    (invalid ''durable_prepared_entry_mismatch'', consumed, fs)
                  else append_validated_locked ext consumed aid (DispatchLinearized receipt)
                         now faults fs)"

section \<open>Observation authority\<close>

text \<open>The cut a new observation must be captured at.\<close>

definition postdispatch_cut ::
  "(uuid \<Rightarrow> string) \<Rightarrow> uuid \<Rightarrow> uuid \<Rightarrow> postcondition_observation_cause \<Rightarrow> uuid \<Rightarrow> string" where
  "postdispatch_cut us instance_ref aid cause observation_ref =
     ''postdispatch:'' @ us instance_ref @ '':'' @ us aid @ '':''
       @ show_u64 (causal_journal_sequence cause) @ '':'' @ us observation_ref"

definition begin_postcondition_observation ::
  "externals \<Rightarrow> consequential_journal \<Rightarrow> uuid \<Rightarrow> uuid
    \<Rightarrow> (observation_error + postcondition_observation_permit) \<times> consequential_journal" where
  "begin_postcondition_observation ext j aid observation_ref =
     (let current = recovery_state_for (journal_entries j) aid
      in if live_dispatch_prepared j aid \<noteq> None \<or> live_dispatch_execution j aid \<noteq> None then
           (Inl (DispatchAuthorityStillLive aid), j)
         else if live_postcondition_observation j aid \<noteq> None then
           (Inl (ObservationAlreadyLive aid), j)
         else if current \<notin> {Some RDispatchPrepared, Some RPossiblyDispatched,
                             Some ROutcomeObservedUnverified} then
           (Inl (InvalidRecoveryState aid current), j)
         else case admitted_envelope_for (journal_entries j) aid of
           None \<Rightarrow> (Inl (InvalidRecoveryState aid current), j)
         | Some envelope \<Rightarrow>
             (case postcondition_observation_cause_for (journal_entries j) aid of
                None \<Rightarrow> (Inl (InvalidRecoveryState aid current), j)
              | Some cause \<Rightarrow>
                  let md = metadata envelope;
                      cut = postdispatch_cut (uuid_display ext) (journal_instance_ref j) aid
                        cause observation_ref
                  in (Inr \<lparr>obs_journal_instance_ref = journal_instance_ref j,
                           obs_observation_ref = observation_ref,
                           obs_action_id = aid,
                           obs_session_id = env_session_id envelope,
                           obs_provider_incarnation_ref = provider_incarnation_ref md,
                           obs_target_incarnation_ref = target_incarnation_ref md,
                           obs_snapshot_cut_ref = cut,
                           obs_cause = cause\<rparr>,
                      j\<lparr>live_postcondition_observation :=
                        (live_postcondition_observation j)(aid \<mapsto>
                          \<lparr>log_observation_ref = observation_ref,
                           log_session_id = env_session_id envelope,
                           log_provider_incarnation_ref = provider_incarnation_ref md,
                           log_target_incarnation_ref = target_incarnation_ref md,
                           log_snapshot_cut_ref = cut,
                           log_cause = cause\<rparr>)\<rparr>)))"

definition observation_grant_matches ::
  "live_observation_grant \<Rightarrow> postcondition_observation_permit \<Rightarrow> bool" where
  "observation_grant_matches grant permit \<longleftrightarrow>
     log_observation_ref grant = obs_observation_ref permit
     \<and> log_session_id grant = obs_session_id permit
     \<and> log_provider_incarnation_ref grant = obs_provider_incarnation_ref permit
     \<and> log_target_incarnation_ref grant = obs_target_incarnation_ref permit
     \<and> log_snapshot_cut_ref grant = obs_snapshot_cut_ref permit
     \<and> log_cause grant = obs_cause permit"

definition abandon_postcondition_observation ::
  "consequential_journal \<Rightarrow> postcondition_observation_permit
    \<Rightarrow> (observation_error + unit) \<times> consequential_journal" where
  "abandon_postcondition_observation j permit =
     (let aid = obs_action_id permit
      in if obs_journal_instance_ref permit \<noteq> journal_instance_ref j then
           (Inl (InvalidPermit aid ''journal_instance_mismatch''), j)
         else case live_postcondition_observation j aid of
           None \<Rightarrow> (Inl (InvalidPermit aid ''live_observation_grant_missing''), j)
         | Some grant \<Rightarrow>
             if \<not> observation_grant_matches grant permit then
               (Inl (InvalidPermit aid ''observation_grant_binding_mismatch''), j)
             else (Inr (), j\<lparr>live_postcondition_observation :=
                     (live_postcondition_observation j)(aid := None)\<rparr>))"

definition complete_postcondition_observation ::
  "consequential_journal \<Rightarrow> postcondition_observation_permit
    \<Rightarrow> reconciliation_snapshot_receipt
    \<Rightarrow> (observation_error + postcondition_observation_receipt) \<times> consequential_journal" where
  "complete_postcondition_observation j permit snapshot =
     (let aid = obs_action_id permit
      in if obs_journal_instance_ref permit \<noteq> journal_instance_ref j then
           (Inl (InvalidPermit aid ''journal_instance_mismatch''), j)
         else case live_postcondition_observation j aid of
           None \<Rightarrow> (Inl (InvalidPermit aid ''live_observation_grant_missing''), j)
         | Some grant \<Rightarrow>
             if \<not> observation_grant_matches grant permit then
               (Inl (InvalidPermit aid ''observation_grant_binding_mismatch''), j)
             else
               let consumed = j\<lparr>live_postcondition_observation :=
                     (live_postcondition_observation j)(aid := None)\<rparr>
               in if snap_provider_incarnation_ref snapshot
                       \<noteq> obs_provider_incarnation_ref permit then
                    (Inl (ObsProviderIncarnationMismatch aid), consumed)
                  else if snap_target_incarnation_ref snapshot
                       \<noteq> obs_target_incarnation_ref permit then
                    (Inl (ObsTargetIncarnationMismatch aid), consumed)
                  else if snap_snapshot_cut_ref snapshot \<noteq> obs_snapshot_cut_ref permit then
                    (Inl (SnapshotCutMismatch aid (obs_snapshot_cut_ref permit)
                            (snap_snapshot_cut_ref snapshot)), consumed)
                  else if is_blank (snap_receipt_id snapshot) then
                    (Inl (MissingReconciliationReceipt aid), consumed)
                  else
                    (Inr \<lparr>obr_action_id = aid,
                          obr_session_id = obs_session_id permit,
                          obr_provider_incarnation_ref = obs_provider_incarnation_ref permit,
                          obr_target_incarnation_ref = obs_target_incarnation_ref permit,
                          obr_snapshot_cut_ref = snap_snapshot_cut_ref snapshot,
                          obr_reconciliation_receipt_ref = snap_receipt_id snapshot,
                          obr_cause = obs_cause permit\<rparr>, consumed))"

text \<open>The receipt the journal mints from a draft, at the next place of the journal.\<close>

definition receipt_of_draft ::
  "(uuid \<Rightarrow> string) \<Rightarrow> u64 \<Rightarrow> action_postcondition_receipt_draft
    \<Rightarrow> action_postcondition_receipt" where
  "receipt_of_draft us seq d =
     \<lparr>pc_receipt_ref = postcondition_receipt_ref us (dr_action_id d) seq,
      pc_action_id = dr_action_id d,
      pc_session_id = dr_session_id d,
      pc_provider_incarnation_ref = dr_provider_incarnation_ref d,
      pc_target_incarnation_ref = dr_target_incarnation_ref d,
      pc_expected_postcondition_contract_refs = dr_expected_postcondition_contract_refs d,
      pc_observation_snapshot_cut_ref = dr_observation_snapshot_cut_ref d,
      pc_reconciliation_receipt_ref = dr_reconciliation_receipt_ref d,
      pc_evidence_receipt_refs = dr_evidence_receipt_refs d,
      pc_evidence_bindings = dr_evidence_bindings d,
      pc_verified_contract_refs = dr_verified_contract_refs d,
      pc_failed_contract_refs = dr_failed_contract_refs d,
      pc_verdict = dr_verdict d,
      pc_unresolved_unknown_contract_refs = dr_unresolved_unknown_contract_refs d,
      pc_causal_assurance = dr_causal_assurance d,
      pc_completion_journal_sequence = seq\<rparr>"

definition record_action_postcondition_receipt ::
  "externals \<Rightarrow> consequential_journal \<Rightarrow> action_postcondition_receipt_draft \<Rightarrow> timestamp
    \<Rightarrow> append_faults \<Rightarrow> file_system
    \<Rightarrow> (journal_entry \<times> action_postcondition_receipt) journal_result" where
  "record_action_postcondition_receipt ext j draft now faults fs =
     (let receipt = receipt_of_draft (uuid_display ext) (next_sequence j) draft
      in case append_validated_locked ext j (dr_action_id draft)
                (PostconditionReceiptRecorded receipt) now faults fs of
           (Inl err, j', fs') \<Rightarrow> (Inl err, j', fs')
         | (Inr e, j', fs') \<Rightarrow> (Inr (e, receipt), j', fs'))"

end
