(* ===== verification/Journal_Authority.thy ===== *)
theory Journal_Authority
  imports Journal_Ops
begin

text \<open>
  The three one-shot authorities of the journal as interpretations of \<open>one_shot\<close>: the
  prepared capability (spent by \<open>begin_dispatch\<close>), the execution permit (spent by
  \<open>abandon_dispatch_execution\<close> or \<open>record_dispatch_linearized\<close>) and the observation permit
  (spent by \<open>abandon_postcondition_observation\<close> or \<open>complete_postcondition_observation\<close>).
\<close>

section \<open>What an append does to the journal\<close>

definition next_entry ::
  "consequential_journal \<Rightarrow> uuid \<Rightarrow> journal_transition \<Rightarrow> timestamp \<Rightarrow> journal_entry" where
  "next_entry j aid t now =
     \<lparr>schema_version = journal_schema_version, journal_sequence = next_sequence j,
      action_id = aid, recorded_at = now, transition = t\<rparr>"

lemma next_entry_simps [simp]:
  "schema_version (next_entry j aid t now) = journal_schema_version"
  "journal_sequence (next_entry j aid t now) = next_sequence j"
  "action_id (next_entry j aid t now) = aid"
  "recorded_at (next_entry j aid t now) = now"
  "transition (next_entry j aid t now) = t"
  by (simp_all add: next_entry_def)

definition push_entry :: "consequential_journal \<Rightarrow> journal_entry \<Rightarrow> consequential_journal" where
  "push_entry j e = j\<lparr>next_sequence := saturating_add (next_sequence j) 1,
     journal_entries := journal_entries j @ [e]\<rparr>"

lemma push_entry_simps [simp]:
  "journal_path (push_entry j e) = journal_path j"
  "journal_instance_ref (push_entry j e) = journal_instance_ref j"
  "next_sequence (push_entry j e) = saturating_add (next_sequence j) 1"
  "journal_entries (push_entry j e) = journal_entries j @ [e]"
  "live_dispatch_prepared (push_entry j e) = live_dispatch_prepared j"
  "live_dispatch_execution (push_entry j e) = live_dispatch_execution j"
  "live_postcondition_observation (push_entry j e) = live_postcondition_observation j"
  by (simp_all add: push_entry_def)

text \<open>An append either adds the next entry to memory and file, or leaves memory as it was.\<close>

lemma append_validated_locked_cases:
  assumes "append_validated_locked ext j aid t now faults fs = (r, j', fs')"
  obtains (appended) encoded where
      "validate_transition (uuid_display ext) (journal_entries j) aid t Append = Inr ()"
      "entry_to_vec ext (next_entry j aid t now) = Inr encoded"
      "r = Inr (next_entry j aid t now)" "j' = push_entry j (next_entry j aid t now)"
      "fs' = fs(journal_path j \<mapsto> file_contents fs (journal_path j) @ encoded @ [newline])"
  | (refused) err where "r = Inl err" "j' = j" "fs' = fs"
  | (torn) err n encoded where "r = Inl err" "j' = j"
      "validate_transition (uuid_display ext) (journal_entries j) aid t Append = Inr ()"
      "entry_to_vec ext (next_entry j aid t now) = Inr encoded"
      "fs' = fs(journal_path j \<mapsto>
         file_contents fs (journal_path j) @ take n (encoded @ [newline]))"
proof (cases "validate_transition (uuid_display ext) (journal_entries j) aid t Append")
  case (Inl err)
  with assms show thesis by (auto simp: append_validated_locked_def intro: refused)
next
  case valid: (Inr u)
  show thesis
  proof (cases "entry_to_vec ext (next_entry j aid t now)")
    case (Inl m)
    with valid assms show thesis
      by (auto simp: append_validated_locked_def Let_def next_entry_def intro: refused)
  next
    case (Inr encoded)
    show thesis
    proof (cases rule: append_on_worker_outcome
        [of "journal_path j" "encoded @ [newline]" faults fs])
      case ok
      with valid Inr assms show thesis
        by (auto simp: append_validated_locked_def Let_def next_entry_def push_entry_def
              intro: appended)
    next
      case (unopened err)
      with valid Inr assms show thesis
        by (auto simp: append_validated_locked_def Let_def next_entry_def intro: refused)
    next
      case (partly n err)
      with valid Inr assms show thesis
        by (auto simp: append_validated_locked_def Let_def next_entry_def intro: torn)
    qed
  qed
qed

lemma append_validated_locked_frame:
  assumes "append_validated_locked ext j aid t now faults fs = (r, j', fs')"
  shows "live_dispatch_prepared j' = live_dispatch_prepared j"
    "live_dispatch_execution j' = live_dispatch_execution j"
    "live_postcondition_observation j' = live_postcondition_observation j"
    "journal_instance_ref j' = journal_instance_ref j" "journal_path j' = journal_path j"
  by (rule append_validated_locked_cases [OF assms]; simp)+

section \<open>Prepared capabilities\<close>

definition prepared_live ::
  "consequential_journal \<Rightarrow> dispatch_prepared_capability \<Rightarrow> bool" where
  "prepared_live j capability \<longleftrightarrow>
     cap_journal_instance_ref capability = journal_instance_ref j
     \<and> (case live_dispatch_prepared j (cap_action_id capability) of
          None \<Rightarrow> False | Some grant \<Rightarrow> prepared_grant_matches grant capability)"

lemma begin_dispatch_rejected:
  "\<not> prepared_live j capability \<Longrightarrow>
     \<exists>err. begin_dispatch j capability permit_ref = (Inl err, j)"
  by (auto simp: begin_dispatch_def prepared_live_def Let_def split: option.splits)

lemma begin_dispatch_spends:
  "prepared_live j capability \<Longrightarrow>
     live_dispatch_prepared (snd (begin_dispatch j capability permit_ref))
       = (live_dispatch_prepared j)(cap_action_id capability := None)"
  by (auto simp: begin_dispatch_def prepared_live_def Let_def split: option.splits)

lemma begin_dispatch_instance [simp]:
  "journal_instance_ref (snd (begin_dispatch j capability permit_ref)) = journal_instance_ref j"
  by (auto simp: begin_dispatch_def Let_def split: option.splits)

interpretation prepared: one_shot prepared_live cap_action_id
    "\<lambda>capability permit_ref j. begin_dispatch j capability permit_ref"
proof unfold_locales
  fix j :: consequential_journal and t t' :: dispatch_prepared_capability and i :: uuid
  show "\<not> prepared_live j t \<Longrightarrow> \<exists>err. begin_dispatch j t i = (Inl err, j)"
    by (rule begin_dispatch_rejected)
  show "prepared_live j t \<Longrightarrow> cap_action_id t' = cap_action_id t \<Longrightarrow>
      \<not> prepared_live (snd (begin_dispatch j t i)) t'"
    by (simp add: begin_dispatch_spends prepared_live_def [of "snd _"])
  show "cap_action_id t' \<noteq> cap_action_id t \<Longrightarrow>
      prepared_live (snd (begin_dispatch j t i)) t' = prepared_live j t'"
    using begin_dispatch_rejected [of j t i] begin_dispatch_spends [of j t i]
    by (cases "prepared_live j t") (auto simp: prepared_live_def [of _ t'])
  show "prepared_live j t \<Longrightarrow> prepared_live j t' \<Longrightarrow> cap_action_id t = cap_action_id t' \<Longrightarrow> t = t'"
    by (auto simp: prepared_live_def prepared_grant_matches_def split: option.splits
        intro!: dispatch_prepared_capability.equality)
qed

section \<open>Execution permits\<close>

text \<open>The two ways to use an execution permit, on the journal and the file system.\<close>

datatype execution_use =
    AbandonExecution
  | LinearizeExecution externals dispatch_linearization_receipt timestamp append_faults

fun use_execution_permit ::
  "dispatch_execution_permit \<Rightarrow> execution_use \<Rightarrow> consequential_journal \<times> file_system
    \<Rightarrow> (journal_error + journal_entry option) \<times> consequential_journal \<times> file_system" where
  "use_execution_permit permit AbandonExecution (j, fs) =
     (case abandon_dispatch_execution j permit of
        (Inl err, j') \<Rightarrow> (Inl err, j', fs)
      | (Inr _, j') \<Rightarrow> (Inr None, j', fs))"
| "use_execution_permit permit (LinearizeExecution ext receipt now faults) (j, fs) =
     (case record_dispatch_linearized ext j permit receipt now faults fs of
        (Inl err, j', fs') \<Rightarrow> (Inl err, j', fs')
      | (Inr e, j', fs') \<Rightarrow> (Inr (Some e), j', fs'))"

definition execution_live ::
  "consequential_journal \<times> file_system \<Rightarrow> dispatch_execution_permit \<Rightarrow> bool" where
  "execution_live c permit \<longleftrightarrow>
     perm_journal_instance_ref permit = journal_instance_ref (fst c)
     \<and> (case live_dispatch_execution (fst c) (perm_action_id permit) of
          None \<Rightarrow> False | Some grant \<Rightarrow> execution_grant_matches grant permit)"

lemma use_execution_permit_rejected:
  "\<not> execution_live (j, fs) permit \<Longrightarrow>
     \<exists>err. use_execution_permit permit i (j, fs) = (Inl err, j, fs)"
  by (cases i) (auto simp: abandon_dispatch_execution_def record_dispatch_linearized_def
      execution_live_def Let_def split: option.splits)

lemma use_execution_permit_spends:
  assumes "execution_live (j, fs) permit"
  shows "live_dispatch_execution (fst (snd (use_execution_permit permit i (j, fs))))
      = (live_dispatch_execution j)(perm_action_id permit := None)
    \<and> journal_instance_ref (fst (snd (use_execution_permit permit i (j, fs))))
      = journal_instance_ref j"
proof (cases i)
  case AbandonExecution
  with assms show ?thesis
    by (auto simp: abandon_dispatch_execution_def execution_live_def Let_def split: option.splits)
next
  case (LinearizeExecution ext receipt now faults)
  let ?j = "j\<lparr>live_dispatch_execution :=
    (live_dispatch_execution j)(perm_action_id permit := None)\<rparr>"
  obtain r j' fs' where a: "append_validated_locked ext ?j (perm_action_id permit)
      (DispatchLinearized receipt) now faults fs = (r, j', fs')" by (metis prod_cases3)
  from append_validated_locked_frame [OF this] assms show ?thesis
    by (cases r) (auto simp: LinearizeExecution record_dispatch_linearized_def a Let_def
        execution_live_def split: option.splits)
qed

interpretation execution: one_shot execution_live perm_action_id use_execution_permit
proof unfold_locales
  fix c :: "consequential_journal \<times> file_system" and t t' :: dispatch_execution_permit
    and i :: execution_use
  obtain j fs where c: "c = (j, fs)" by force
  show "\<not> execution_live c t \<Longrightarrow> \<exists>err. use_execution_permit t i c = (Inl err, c)"
    using use_execution_permit_rejected c by simp
  show "execution_live c t \<Longrightarrow> perm_action_id t' = perm_action_id t \<Longrightarrow>
      \<not> execution_live (snd (use_execution_permit t i c)) t'"
    using use_execution_permit_spends [of j fs t i] c
    by (simp add: execution_live_def [of "snd _"])
  show "perm_action_id t' \<noteq> perm_action_id t \<Longrightarrow>
      execution_live (snd (use_execution_permit t i c)) t' = execution_live c t'"
    using use_execution_permit_rejected [of j fs t i] use_execution_permit_spends [of j fs t i] c
    by (cases "execution_live c t") (auto simp: execution_live_def [of _ t'])
  show "execution_live c t \<Longrightarrow> execution_live c t' \<Longrightarrow> perm_action_id t = perm_action_id t' \<Longrightarrow>
      t = t'"
    by (auto simp: execution_live_def execution_grant_matches_def split: option.splits
        intro!: dispatch_execution_permit.equality)
qed

section \<open>Observation permits\<close>

datatype observation_use =
    AbandonObservation
  | CompleteObservation reconciliation_snapshot_receipt

fun use_observation_permit ::
  "postcondition_observation_permit \<Rightarrow> observation_use \<Rightarrow> consequential_journal
    \<Rightarrow> (observation_error + postcondition_observation_receipt option) \<times> consequential_journal"
  where
  "use_observation_permit permit AbandonObservation j =
     (case abandon_postcondition_observation j permit of
        (Inl err, j') \<Rightarrow> (Inl err, j') | (Inr _, j') \<Rightarrow> (Inr None, j'))"
| "use_observation_permit permit (CompleteObservation snapshot) j =
     (case complete_postcondition_observation j permit snapshot of
        (Inl err, j') \<Rightarrow> (Inl err, j') | (Inr r, j') \<Rightarrow> (Inr (Some r), j'))"

definition observation_live ::
  "consequential_journal \<Rightarrow> postcondition_observation_permit \<Rightarrow> bool" where
  "observation_live j permit \<longleftrightarrow>
     obs_journal_instance_ref permit = journal_instance_ref j
     \<and> (case live_postcondition_observation j (obs_action_id permit) of
          None \<Rightarrow> False | Some grant \<Rightarrow> observation_grant_matches grant permit)"

lemma use_observation_permit_rejected:
  "\<not> observation_live j permit \<Longrightarrow> \<exists>err. use_observation_permit permit i j = (Inl err, j)"
  by (cases i) (auto simp: abandon_postcondition_observation_def
      complete_postcondition_observation_def observation_live_def Let_def split: option.splits)

lemma use_observation_permit_spends:
  "observation_live j permit \<Longrightarrow>
     snd (use_observation_permit permit i j) = j\<lparr>live_postcondition_observation :=
       (live_postcondition_observation j)(obs_action_id permit := None)\<rparr>"
  by (cases i) (auto simp: abandon_postcondition_observation_def
      complete_postcondition_observation_def observation_live_def Let_def split: option.splits)

interpretation observation: one_shot observation_live obs_action_id use_observation_permit
proof unfold_locales
  fix j :: consequential_journal and t t' :: postcondition_observation_permit
    and i :: observation_use
  show "\<not> observation_live j t \<Longrightarrow> \<exists>err. use_observation_permit t i j = (Inl err, j)"
    by (rule use_observation_permit_rejected)
  show "observation_live j t \<Longrightarrow> obs_action_id t' = obs_action_id t \<Longrightarrow>
      \<not> observation_live (snd (use_observation_permit t i j)) t'"
    using use_observation_permit_spends [of j t i] by (simp add: observation_live_def)
  show "obs_action_id t' \<noteq> obs_action_id t \<Longrightarrow>
      observation_live (snd (use_observation_permit t i j)) t' = observation_live j t'"
    using use_observation_permit_rejected [of j t i] use_observation_permit_spends [of j t i]
    by (cases "observation_live j t") (auto simp: observation_live_def [of _ t'])
  show "observation_live j t \<Longrightarrow> observation_live j t' \<Longrightarrow> obs_action_id t = obs_action_id t' \<Longrightarrow>
      t = t'"
    by (auto simp: observation_live_def observation_grant_matches_def split: option.splits
        intro!: postcondition_observation_permit.equality)
qed

end
