(* ===== verification/Journal_Safety.thy ===== *)
theory Journal_Safety
  imports Journal_History
begin

text \<open>
  Safety of whole histories. Everything here follows from the two interpretations of
  \<open>lifecycle_log\<close> and from the characterizations of accepted records: what the lookups of
  the journal return in a valid history, which entries must come before which, and how often
  an entry of a kind can occur for one action.
\<close>

section \<open>The lookups in a growing history\<close>

lemma admitted_envelope_for_snoc:
  "admitted_envelope_for (es @ [e]) aid =
     (case admitted_envelope_for es aid of
        Some envelope \<Rightarrow> Some envelope
      | None \<Rightarrow> (if action_id e \<noteq> aid then None
                else case transition e of IntentAdmitted envelope \<Rightarrow> Some envelope | _ \<Rightarrow> None))"
  by (simp add: admitted_envelope_for_def find_map_append split: option.split)

lemma latest_authorization_for_snoc:
  "latest_authorization_for (es @ [e]) aid =
     (if action_id e \<noteq> aid then latest_authorization_for es aid
      else case transition e of
        AuthorizationRecorded revision revalidated \<Rightarrow>
          Some (journal_sequence e, revision, revalidated)
      | _ \<Rightarrow> latest_authorization_for es aid)"
  by (simp add: latest_authorization_for_def split: journal_transition.split)

lemma postcondition_observation_cause_for_snoc:
  "postcondition_observation_cause_for (es @ [e]) aid =
     (if action_id e \<noteq> aid then postcondition_observation_cause_for es aid
      else case transition e of
        DispatchLinearized r \<Rightarrow>
          Some (CauseDispatchLinearized (journal_sequence e) (lin_receipt_ref r))
      | DispatchPrepared r \<Rightarrow>
          Some (CauseDispatchPreparedUncertain (journal_sequence e) (prep_receipt_ref r))
      | _ \<Rightarrow> postcondition_observation_cause_for es aid)"
  by (simp add: postcondition_observation_cause_for_def split: journal_transition.split)

lemma admitted_envelope_for_mono:
  "admitted_envelope_for es aid = Some envelope \<Longrightarrow>
     admitted_envelope_for (es @ fs) aid = Some envelope"
  by (simp add: admitted_envelope_for_def find_map_append)

lemma latest_authorization_for_SomeD:
  assumes "latest_authorization_for es aid = Some (n, revision, revalidated)"
  shows "\<exists>e \<in> set es. action_id e = aid \<and> journal_sequence e = n
    \<and> transition e = AuthorizationRecorded revision revalidated"
  using assms
proof (induction es rule: rev_induct)
  case (snoc e es)
  then show ?case
    by (auto simp: latest_authorization_for_snoc split: if_splits journal_transition.splits)
qed (simp add: latest_authorization_for_def)

text \<open>A state in which a dispatch was at least prepared; the lifecycle never leaves these.\<close>

definition dispatch_begun :: "recovery_state \<Rightarrow> bool" where
  "dispatch_begun s \<longleftrightarrow> s \<notin> {RAdmitted, RAuthorizedNotDispatched}"

definition dispatch_settled :: "recovery_state \<Rightarrow> bool" where
  "dispatch_settled s \<longleftrightarrow> s \<notin> {RAdmitted, RAuthorizedNotDispatched, RDispatchPrepared}"

lemma dispatch_begun_step: "dispatch_begun s \<Longrightarrow> replay_step (Some s) s' \<Longrightarrow> dispatch_begun s'"
  by (auto simp: dispatch_begun_def replay_step_iff append_step_iff)

lemma dispatch_settled_step:
  "dispatch_settled s \<Longrightarrow> replay_step (Some s) s' \<Longrightarrow> dispatch_settled s'"
  by (auto simp: dispatch_settled_def replay_step_iff append_step_iff)

lemma history_to_replay: "history_ok us mode es \<Longrightarrow> history_ok us Replay es"
  by (cases mode) (auto simp: history_from_replay)

section \<open>What a state tells about the lookups\<close>

lemma admitted_envelope_known:
  "history_ok us Replay es \<Longrightarrow> recovery_state_for es aid \<noteq> None \<Longrightarrow>
     \<exists>envelope. admitted_envelope_for es aid = Some envelope
       \<and> transport_action_id envelope = aid"
proof (induction es rule: rev_induct)
  case (snoc e es)
  show ?case
  proof (cases "action_id e = aid \<and> recovery_state_for es aid = None")
    case True
    with snoc.prems have "entry_ok us Replay es e" by simp
    moreover have "admitted_envelope_for es aid = None"
    proof (rule ccontr)
      assume "admitted_envelope_for es aid \<noteq> None"
      then obtain e' where "e' \<in> set es" "action_id e' = aid"
        by (auto simp: admitted_envelope_for_def split: if_splits dest!: find_map_SomeD)
      with True replayed.state_known [of e' es] show False by simp
    qed
    ultimately show ?thesis using True
      by (auto simp: entry_ok_def validate_transition_def admitted_envelope_for_snoc Let_def
            split: journal_transition.splits if_splits)
  next
    case False
    with snoc show ?thesis by (auto simp: admitted_envelope_for_snoc split: if_splits)
  qed
qed simp

lemma observation_cause_known:
  "history_ok us Replay es \<Longrightarrow> recovery_state_for es aid = Some s \<Longrightarrow> dispatch_begun s \<Longrightarrow>
     postcondition_observation_cause_for es aid \<noteq> None"
proof (induction es arbitrary: s rule: rev_induct)
  case (snoc e es)
  then have "replay_step (recovery_state_for es (action_id e)) (transition_state (transition e))"
    by (auto intro: replayed.step_ok)
  with snoc show ?case
    by (cases "transition e")
       (auto simp: postcondition_observation_cause_for_snoc replay_step_iff append_step_iff
          dispatch_begun_def split: if_splits)
qed simp

lemma observation_cause_earlier:
  "postcondition_observation_cause_for es aid = Some c \<Longrightarrow>
     \<exists>e \<in> set es. action_id e = aid \<and> causal_journal_sequence c = journal_sequence e"
proof (induction es rule: rev_induct)
  case (snoc e es)
  then show ?case
    by (auto simp: postcondition_observation_cause_for_snoc
          split: if_splits journal_transition.splits)
qed (simp add: postcondition_observation_cause_for_def)

lemma dispatch_state_neq [simp]:
  "dispatch_state d \<noteq> RAdmitted" "dispatch_state d \<noteq> RAuthorizedNotDispatched"
  "dispatch_state d \<noteq> RDispatchPrepared" "dispatch_state d \<noteq> RVerifiedUncommitted"
  "dispatch_state d \<noteq> ROutcomeObservedUnverified" "dispatch_state d \<noteq> RCommitted"
  by (cases d; simp)+

section \<open>Order and multiplicity of the entries of an action\<close>

fun is_preparation :: "journal_transition \<Rightarrow> bool" where
  "is_preparation (DispatchPrepared _) = True"
| "is_preparation _ = False"

fun is_linearization :: "journal_transition \<Rightarrow> bool" where
  "is_linearization (DispatchLinearized _) = True"
| "is_linearization _ = False"

lemma preparation_step:
  "entry_ok us Replay es e \<Longrightarrow> is_preparation (transition e) \<Longrightarrow>
     recovery_state_for es (action_id e) = Some RAuthorizedNotDispatched"
  by (cases "transition e")
     (auto simp: entry_ok_def validate_transition_def Let_def split: if_splits)

lemma linearization_step:
  "entry_ok us Replay es e \<Longrightarrow> is_linearization (transition e) \<Longrightarrow>
     recovery_state_for es (action_id e) \<in> {Some RAuthorizedNotDispatched, Some RDispatchPrepared}"
  by (cases "transition e")
     (auto simp: entry_ok_def validate_transition_def Let_def split: if_splits option.splits)

lemma preparation_not_repeated:
  assumes "history_ok us Replay (pre @ e # mid @ e' # post)" "action_id e' = action_id e"
    and "is_preparation (transition e)" "is_preparation (transition e')"
  shows False
proof -
  have "dispatch_begun (transition_state (transition e))"
    using assms(3) by (cases "transition e") (auto simp: dispatch_begun_def)
  then obtain s where "recovery_state_for (pre @ e # mid) (action_id e) = Some s" "dispatch_begun s"
    using replayed.later_step [of dispatch_begun us pre e mid e' post] assms(1,2)
      dispatch_begun_step by metis
  moreover have "entry_ok us Replay (pre @ e # mid) e'"
    using replayed.log_valid_at [of us "pre @ e # mid" e' post] assms(1) by simp
  ultimately show False
    using preparation_step [of us "pre @ e # mid" e'] assms by (simp add: dispatch_begun_def)
qed

lemma linearization_not_repeated:
  assumes "history_ok us Replay (pre @ e # mid @ e' # post)" "action_id e' = action_id e"
    and "is_linearization (transition e)"
    and "is_preparation (transition e') \<or> is_linearization (transition e')"
  shows False
proof -
  have "dispatch_settled (transition_state (transition e))"
    using assms(3)
    by (cases "transition e") (auto simp: dispatch_settled_def)
  then obtain s where "recovery_state_for (pre @ e # mid) (action_id e) = Some s" "dispatch_settled s"
    using replayed.later_step [of dispatch_settled us pre e mid e' post] assms(1,2)
      dispatch_settled_step by metis
  moreover have "entry_ok us Replay (pre @ e # mid) e'"
    using replayed.log_valid_at [of us "pre @ e # mid" e' post] assms(1) by simp
  ultimately show False
    using preparation_step [of us "pre @ e # mid" e'] linearization_step [of us "pre @ e # mid" e']
      assms by (auto simp: dispatch_settled_def)
qed

lemma entry_before:
  assumes "history_ok us mode (pre @ e # post)"
  shows "entry_ok us mode pre e" "history_ok us mode pre"
  using assms by (auto simp: history_from_append)

lemma admitted_envelope_for_SomeD:
  "admitted_envelope_for es aid = Some envelope \<Longrightarrow>
     \<exists>e \<in> set es. action_id e = aid \<and> transition e = IntentAdmitted envelope"
  by (auto simp: admitted_envelope_for_def dest!: find_map_SomeD
        split: if_splits journal_transition.splits)

text \<open>A receipt whose verdict is the expected one leaves no expected contract unverified.\<close>

lemma verified_expected_receipt:
  assumes "receipt_contracts_sound r" "pc_verdict r = VerifiedExpected"
  shows "pc_failed_contract_refs r = []" "pc_unresolved_unknown_contract_refs r = []"
    "set (pc_verified_contract_refs r) = set (pc_expected_postcondition_contract_refs r)"
    "set (pc_expected_postcondition_contract_refs r)
       \<subseteq> evb_contract_ref ` set (pc_evidence_bindings r)"
proof -
  have *: "pc_failed_contract_refs r = [] \<and> pc_unresolved_unknown_contract_refs r = []"
    using assms by (auto simp: receipt_contracts_sound_def partition_verdict_def Let_def
        split: if_splits)
  then show "pc_failed_contract_refs r = []" "pc_unresolved_unknown_contract_refs r = []"
    "set (pc_verified_contract_refs r) = set (pc_expected_postcondition_contract_refs r)"
    "set (pc_expected_postcondition_contract_refs r)
       \<subseteq> evb_contract_ref ` set (pc_evidence_bindings r)"
    using assms(1) by (auto simp: receipt_contracts_sound_def Let_def)
qed

lemma committed_after_receipt:
  assumes "history_ok us Append (pre @ e # post)" "transition e = Committed"
  obtains pre' c mid r where "pre = pre' @ c # mid" "action_id c = action_id e"
    "transition c = PostconditionReceiptRecorded r" "pc_verdict r = VerifiedExpected"
    "validate_action_postcondition_receipt us pre' (action_id e) r
       (recovery_state_for pre' (action_id e)) = Inr ()"
proof -
  note e = entry_before [OF assms(1)]
  from e(1) assms(2) have "recovery_state_for pre (action_id e) = Some RVerifiedUncommitted"
    by (auto simp: entry_ok_def validate_transition_def Let_def split: if_splits option.splits)
  with e(2) obtain pre' c mid where c: "pre = pre' @ c # mid" "action_id c = action_id e"
    "transition_state (transition c) = RVerifiedUncommitted" "entry_ok us Append pre' c"
    by (rule appended.entered_by)
  then obtain r where r: "transition c = PostconditionReceiptRecorded r"
    by (cases "transition c")
       (auto simp: entry_ok_def validate_transition_def Let_def split: if_splits)
  moreover from c r have "validate_action_postcondition_receipt us pre' (action_id e) r
       (recovery_state_for pre' (action_id e)) = Inr ()"
    by (auto simp: entry_ok_def validate_transition_def Let_def split: if_splits)
  moreover from c r have "pc_verdict r = VerifiedExpected" by (simp split: if_splits)
  ultimately show thesis using c that by blast
qed

text \<open>A durable preparation is backed by the intent and the revalidated authorization before it.\<close>

lemma preparation_backed:
  assumes "history_ok us Replay es" "e \<in> set es" "transition e = DispatchPrepared r"
  shows "\<exists>envelope a. admitted_envelope_for es (action_id e) = Some envelope
    \<and> a \<in> set es \<and> action_id a = action_id e
    \<and> transition a = AuthorizationRecorded (authorization_revision (metadata envelope)) True
    \<and> journal_sequence a = prep_authorization_journal_sequence r
    \<and> prep_precondition_snapshot_cut_ref r = precondition_snapshot_cut_ref (metadata envelope)
    \<and> prep_provider_incarnation_ref r = provider_incarnation_ref (metadata envelope)
    \<and> prep_target_incarnation_ref r = target_incarnation_ref (metadata envelope)"
proof -
  from assms(2) obtain pre post where es: "es = pre @ e # post" by (auto simp: in_set_conv_decomp)
  with assms(1) have "entry_ok us Replay pre e" using entry_before(1) by blast
  with assms(3) have "preparation_sound pre (action_id e) r"
    by (auto simp: entry_ok_def validate_transition_def Let_def validate_dispatch_preparation_ok
        split: if_splits)
  then obtain envelope where p: "admitted_envelope_for pre (action_id e) = Some envelope"
    "latest_authorization_for pre (action_id e) = Some (prep_authorization_journal_sequence r,
       authorization_revision (metadata envelope), True)"
    "prep_precondition_snapshot_cut_ref r = precondition_snapshot_cut_ref (metadata envelope)"
    "prep_provider_incarnation_ref r = provider_incarnation_ref (metadata envelope)"
    "prep_target_incarnation_ref r = target_incarnation_ref (metadata envelope)"
    unfolding preparation_sound_def by blast
  from latest_authorization_for_SomeD [OF p(2)] obtain a where a: "a \<in> set pre"
    "action_id a = action_id e" "journal_sequence a = prep_authorization_journal_sequence r"
    "transition a = AuthorizationRecorded (authorization_revision (metadata envelope)) True"
    by blast
  then show ?thesis using p(3-5) admitted_envelope_for_mono [OF p(1), of "e # post"]
    unfolding es by (intro exI [of _ envelope] exI [of _ a]) simp
qed

end
