(* ===== verification/Journal_Invariant.thy ===== *)
theory Journal_Invariant
  imports Journal_Authority Journal_Safety
begin

text \<open>
  The invariant of a running journal, the step relation of its operations under every fault,
  and the proof that each step keeps the invariant: the history in memory is one that replay
  accepts, the next sequence number is the next place of the history, and for each action at
  most one authority is live, bound to the durable entry it was minted from.
\<close>

section \<open>The invariant\<close>

definition observation_grant_ok ::
  "journal_entry list \<Rightarrow> uuid \<Rightarrow> live_observation_grant \<Rightarrow> bool" where
  "observation_grant_ok es aid g \<longleftrightarrow>
     (case admitted_envelope_for es aid of
        None \<Rightarrow> False
      | Some envelope \<Rightarrow>
          log_session_id g = env_session_id envelope
          \<and> log_provider_incarnation_ref g = provider_incarnation_ref (metadata envelope)
          \<and> log_target_incarnation_ref g = target_incarnation_ref (metadata envelope))
     \<and> postcondition_observation_cause_for es aid = Some (log_cause g)
     \<and> (case recovery_state_for es aid of None \<Rightarrow> False | Some s \<Rightarrow> dispatch_begun s)"

fun authority_ok ::
  "journal_entry list \<Rightarrow> uuid \<Rightarrow> live_prepared_grant option \<Rightarrow> live_execution_grant option
    \<Rightarrow> live_observation_grant option \<Rightarrow> bool" where
  "authority_ok es aid None None None = True"
| "authority_ok es aid (Some g) None None =
     durable_preparation_matches es aid (lpg_preparation_journal_sequence g)
       (lpg_preparation_receipt_ref g)"
| "authority_ok es aid None (Some g) None =
     durable_preparation_matches es aid (leg_preparation_journal_sequence g)
       (leg_preparation_receipt_ref g)"
| "authority_ok es aid None None (Some g) = observation_grant_ok es aid g"
| "authority_ok es aid _ _ _ = False"

definition action_authority_ok :: "consequential_journal \<Rightarrow> uuid \<Rightarrow> bool" where
  "action_authority_ok j aid = authority_ok (journal_entries j) aid (live_dispatch_prepared j aid)
     (live_dispatch_execution j aid) (live_postcondition_observation j aid)"

definition journal_wf :: "(uuid \<Rightarrow> string) \<Rightarrow> consequential_journal \<Rightarrow> bool" where
  "journal_wf us j \<longleftrightarrow>
     history_ok us Replay (journal_entries j)
     \<and> next_sequence j = of_nat (length (journal_entries j)) + 1
     \<and> (\<forall>aid. action_authority_ok j aid)"

text \<open>The number of entries for which sequence numbers do not saturate.\<close>

definition within_capacity :: "consequential_journal \<Rightarrow> bool" where
  "within_capacity j \<longleftrightarrow> length (journal_entries j) < 2 ^ 64 - 1"

lemma authority_ok_iff:
  "authority_ok es aid p x ob \<longleftrightarrow>
     (\<forall>g. p = Some g \<longrightarrow> x = None \<and> ob = None \<and> durable_preparation_matches es aid
        (lpg_preparation_journal_sequence g) (lpg_preparation_receipt_ref g))
     \<and> (\<forall>g. x = Some g \<longrightarrow> ob = None \<and> durable_preparation_matches es aid
        (leg_preparation_journal_sequence g) (leg_preparation_receipt_ref g))
     \<and> (\<forall>g. ob = Some g \<longrightarrow> observation_grant_ok es aid g)"
  by (cases p; cases x; cases ob) auto

lemma case_DispatchPrepared_iff:
  "(case t of DispatchPrepared r \<Rightarrow> P r | _ \<Rightarrow> False) \<longleftrightarrow> (\<exists>r. t = DispatchPrepared r \<and> P r)"
  by (cases t) auto

lemma durable_preparation_matches_iff:
  "durable_preparation_matches es aid n ref \<longleftrightarrow>
     (\<exists>e \<in> set es. \<exists>r. action_id e = aid \<and> journal_sequence e = n
        \<and> transition e = DispatchPrepared r \<and> prep_receipt_ref r = ref)"
  by (simp add: durable_preparation_matches_def list_ex_iff case_DispatchPrepared_iff)

lemma durable_preparation_begun:
  assumes "history_ok us Replay es" "durable_preparation_matches es aid n ref"
  shows "\<exists>s. recovery_state_for es aid = Some s \<and> dispatch_begun s"
proof -
  from assms(2) obtain e r where e: "e \<in> set es" "action_id e = aid" "transition e = DispatchPrepared r"
    unfolding durable_preparation_matches_iff by blast
  then obtain pre post where es: "es = pre @ e # post" by (auto simp: in_set_conv_decomp)
  have "recovery_state_for (pre @ [e]) aid = Some RDispatchPrepared"
    using e by simp
  moreover have "history_ok us Replay ((pre @ [e]) @ post)" using assms(1) es by simp
  moreover have "dispatch_begun RDispatchPrepared" by (simp add: dispatch_begun_def)
  ultimately have "\<exists>s. recovery_state_for ((pre @ [e]) @ post) aid = Some s \<and> dispatch_begun s"
    using replayed.forward_invariant [of dispatch_begun us "pre @ [e]" post aid RDispatchPrepared]
      dispatch_begun_step by blast
  then show ?thesis using es by simp
qed

lemma durable_preparation_mono:
  "durable_preparation_matches es aid n ref \<Longrightarrow> durable_preparation_matches (es @ fs) aid n ref"
  by (auto simp: durable_preparation_matches_def)

lemma begun_after_entry:
  assumes "entry_ok us Append es e" "recovery_state_for es aid = Some s" "dispatch_begun s"
  shows "\<exists>s'. recovery_state_for (es @ [e]) aid = Some s' \<and> dispatch_begun s'"
  using appended.step_ok [OF assms(1)] assms(2,3) dispatch_begun_step replay_append
  by (cases "action_id e = aid") fastforce+

lemma no_preparation_when_begun:
  "entry_ok us Append es e \<Longrightarrow> recovery_state_for es (action_id e) = Some s \<Longrightarrow>
     dispatch_begun s \<Longrightarrow> \<not> is_preparation (transition e)"
  using preparation_step [OF entry_ok_replay] by (fastforce simp: dispatch_begun_def)

lemma observation_grant_ok_append:
  assumes e: "entry_ok us Append es e" and g: "observation_grant_ok es aid g"
    and "\<not> (action_id e = aid \<and> is_linearization (transition e))"
  shows "observation_grant_ok (es @ [e]) aid g"
proof -
  from g obtain s where s: "recovery_state_for es aid = Some s" "dispatch_begun s"
    by (auto simp: observation_grant_ok_def split: option.splits)
  have "postcondition_observation_cause_for (es @ [e]) aid
      = postcondition_observation_cause_for es aid"
    using no_preparation_when_begun [OF e] s assms(3)
    by (cases "transition e") (auto simp: postcondition_observation_cause_for_snoc)
  with begun_after_entry [OF e s] g show ?thesis
    by (auto simp: observation_grant_ok_def admitted_envelope_for_snoc split: option.splits
        simp del: recovery_state_for_snoc)
qed

lemma authority_ok_append:
  assumes "entry_ok us Append es e" "authority_ok es aid p x ob"
    and "action_id e = aid \<Longrightarrow> is_linearization (transition e) \<Longrightarrow> ob = None"
  shows "authority_ok (es @ [e]) aid p x ob"
  using assms(2,3) observation_grant_ok_append [OF assms(1)] durable_preparation_mono
  unfolding authority_ok_iff by blast

lemma next_entry_ok:
  assumes "journal_wf us j" "validate_transition us (journal_entries j) aid t Append = Inr ()"
  shows "entry_ok us Append (journal_entries j) (next_entry j aid t now)"
  using assms by (simp add: entry_ok_def journal_wf_def)

lemma push_entry_wf:
  assumes wf: "journal_wf us j"
    and v: "validate_transition us (journal_entries j) aid t Append = Inr ()"
    and cap: "within_capacity (push_entry j (next_entry j aid t now))"
    and lin: "is_linearization t \<Longrightarrow> live_postcondition_observation j aid = None"
  shows "journal_wf us (push_entry j (next_entry j aid t now))"
proof -
  let ?n = "length (journal_entries j)"
  note e = next_entry_ok [OF wf v, of now]
  from cap have "?n + 1 < 2 ^ 64 - 1" by (simp add: within_capacity_def)
  then have "unat (of_nat ?n + 1 :: u64) = ?n + 1"
    using unat_of_nat_64 [of "?n + 1"] by (simp add: add.commute)
  then have "saturating_add (of_nat ?n + 1 :: u64) 1 = of_nat ?n + 1 + 1"
    using \<open>?n + 1 < 2 ^ 64 - 1\<close> by (intro saturating_add_no_overflow) simp
  moreover have "action_authority_ok (push_entry j (next_entry j aid t now)) aid'" for aid'
    unfolding action_authority_ok_def push_entry_simps
    by (rule authority_ok_append [OF e])
      (use wf lin in \<open>auto simp: journal_wf_def action_authority_ok_def\<close>)
  ultimately show ?thesis
    using wf entry_ok_replay [OF e] by (simp add: journal_wf_def add.commute)
qed

lemma append_wf:
  assumes wf: "journal_wf (uuid_display ext) j"
    and a: "append_validated_locked ext j aid t now faults fs = (r, j', fs')"
    and cap: "within_capacity j'"
    and lin: "is_linearization t \<Longrightarrow> live_postcondition_observation j aid = None"
  shows "journal_wf (uuid_display ext) j'"
  using a
proof (cases rule: append_validated_locked_cases)
  case (appended encoded)
  with push_entry_wf [OF wf appended(1)] cap lin show ?thesis by simp
qed (use wf in simp_all)

section \<open>Every operation keeps the invariant\<close>

lemma journal_wf_grants:
  assumes "journal_wf us j"
    and "journal_entries j' = journal_entries j" "next_sequence j' = next_sequence j"
    and "\<And>aid. authority_ok (journal_entries j) aid (live_dispatch_prepared j' aid)
        (live_dispatch_execution j' aid) (live_postcondition_observation j' aid)"
  shows "journal_wf us j'"
  using assms by (simp add: journal_wf_def action_authority_ok_def)

lemma journal_wf_authority:
  "journal_wf us j \<Longrightarrow> authority_ok (journal_entries j) aid (live_dispatch_prepared j aid)
     (live_dispatch_execution j aid) (live_postcondition_observation j aid)"
  by (simp add: journal_wf_def action_authority_ok_def)

lemma no_authority_before_begin:
  assumes "journal_wf us j"
    and "\<And>s. recovery_state_for (journal_entries j) aid = Some s \<Longrightarrow> \<not> dispatch_begun s"
  shows "live_dispatch_prepared j aid = None" "live_dispatch_execution j aid = None"
    "live_postcondition_observation j aid = None"
proof -
  have h: "history_ok us Replay (journal_entries j)" using assms(1) by (simp add: journal_wf_def)
  have "\<not> durable_preparation_matches (journal_entries j) aid n ref" for n ref
    using durable_preparation_begun [OF h] assms(2) by blast
  moreover have "\<not> observation_grant_ok (journal_entries j) aid g" for g
    using assms(2) by (auto simp: observation_grant_ok_def split: option.splits)
  ultimately show "live_dispatch_prepared j aid = None" "live_dispatch_execution j aid = None"
    "live_postcondition_observation j aid = None"
    using journal_wf_authority [OF assms(1), of aid] unfolding authority_ok_iff by auto
qed

lemma record_dispatch_prepared_wf:
  assumes wf: "journal_wf (uuid_display ext) j"
    and op: "record_dispatch_prepared ext j aid receipt capability_ref now faults fs = (r, j', fs')"
    and cap: "within_capacity j'"
  shows "journal_wf (uuid_display ext) j'"
proof -
  obtain r1 j1 fs1 where a: "append_validated_locked ext j aid (DispatchPrepared receipt) now
      faults fs = (r1, j1, fs1)" by (metis prod_cases3)
  show ?thesis
  proof (cases r1)
    case (Inl err)
    with a op have "j' = j1" by (simp add: record_dispatch_prepared_def)
    with append_wf [OF wf a] cap show ?thesis by simp
  next
    case (Inr e)
    from a Inr have v: "validate_transition (uuid_display ext) (journal_entries j) aid
        (DispatchPrepared receipt) Append = Inr ()"
      and e: "e = next_entry j aid (DispatchPrepared receipt) now" "j1 = push_entry j e"
      by (auto elim: append_validated_locked_cases)
    from op a Inr have j': "j' = j1\<lparr>live_dispatch_prepared := (live_dispatch_prepared j1)(aid \<mapsto>
        \<lparr>lpg_capability_ref = capability_ref, lpg_preparation_journal_sequence = journal_sequence e,
         lpg_preparation_receipt_ref = prep_receipt_ref receipt\<rparr>)\<rparr>"
      by (simp add: record_dispatch_prepared_def)
    have wf1: "journal_wf (uuid_display ext) j1"
      using append_wf [OF wf a] cap j' by (simp add: within_capacity_def)
    have "recovery_state_for (journal_entries j) aid = Some RAuthorizedNotDispatched"
      using preparation_step [OF entry_ok_replay [OF next_entry_ok [OF wf v]]] by simp
    then have "live_dispatch_execution j aid = None" "live_postcondition_observation j aid = None"
      using no_authority_before_begin [OF wf, of aid] by (auto simp: dispatch_begun_def)
    moreover have "durable_preparation_matches (journal_entries j1) aid (journal_sequence e)
        (prep_receipt_ref receipt)" unfolding durable_preparation_matches_iff e by simp
    ultimately show ?thesis
      by (intro journal_wf_grants [OF wf1])
        (use journal_wf_authority [OF wf1] in \<open>auto simp: j' e\<close>)
  qed
qed

lemma begin_dispatch_wf:
  assumes "journal_wf us j"
  shows "journal_wf us (snd (begin_dispatch j capability permit_ref))"
proof (rule journal_wf_grants [OF assms])
  let ?j = "snd (begin_dispatch j capability permit_ref)"
  show "journal_entries ?j = journal_entries j" "next_sequence ?j = next_sequence j"
    by (auto simp: begin_dispatch_def Let_def split: option.split)
  fix aid
  show "authority_ok (journal_entries j) aid (live_dispatch_prepared ?j aid)
      (live_dispatch_execution ?j aid) (live_postcondition_observation ?j aid)"
    using journal_wf_authority [OF assms, of aid] unfolding authority_ok_iff
    by (auto simp: begin_dispatch_def Let_def prepared_grant_matches_def split: option.split)
qed

lemma drop_execution_wf:
  assumes "journal_wf us j"
  shows "journal_wf us (j\<lparr>live_dispatch_execution := (live_dispatch_execution j)(aid := None)\<rparr>)"
  by (rule journal_wf_grants [OF assms])
    (use journal_wf_authority [OF assms] in \<open>auto simp: authority_ok_iff\<close>)

lemma drop_observation_wf:
  assumes "journal_wf us j"
  shows "journal_wf us (j\<lparr>live_postcondition_observation :=
    (live_postcondition_observation j)(aid := None)\<rparr>)"
  by (rule journal_wf_grants [OF assms])
    (use journal_wf_authority [OF assms] in \<open>auto simp: authority_ok_iff\<close>)

lemma abandon_dispatch_execution_wf:
  "journal_wf us j \<Longrightarrow> journal_wf us (snd (abandon_dispatch_execution j permit))"
  by (auto simp: abandon_dispatch_execution_def Let_def drop_execution_wf split: option.split)

lemma record_dispatch_linearized_wf:
  assumes wf: "journal_wf (uuid_display ext) j"
    and op: "record_dispatch_linearized ext j permit receipt now faults fs = (r, j', fs')"
    and cap: "within_capacity j'"
  shows "journal_wf (uuid_display ext) j'"
proof (cases "execution_live (j, fs) permit")
  case False
  then have "j' = j" using op
    by (auto simp: record_dispatch_linearized_def execution_live_def Let_def
        split: option.splits if_splits)
  with wf show ?thesis by simp
next
  case True
  let ?aid = "perm_action_id permit"
  let ?j = "j\<lparr>live_dispatch_execution := (live_dispatch_execution j)(?aid := None)\<rparr>"
  note wf' = drop_execution_wf [OF wf, of ?aid]
  have "live_postcondition_observation j ?aid = None"
    using journal_wf_authority [OF wf, of ?aid] True
    by (auto simp: authority_ok_iff execution_live_def split: option.splits)
  moreover have "j' = ?j \<or> append_validated_locked ext ?j ?aid (DispatchLinearized receipt) now
      faults fs = (r, j', fs')"
    using op True by (auto simp: record_dispatch_linearized_def execution_live_def Let_def
        split: option.splits if_splits)
  ultimately show ?thesis using wf' append_wf [OF wf' _ cap] by auto
qed

lemma begin_postcondition_observation_wf:
  assumes wf: "journal_wf us j"
  shows "journal_wf us (snd (begin_postcondition_observation ext j aid observation_ref))"
proof (rule journal_wf_grants [OF wf])
  let ?j = "snd (begin_postcondition_observation ext j aid observation_ref)"
  show "journal_entries ?j = journal_entries j" "next_sequence ?j = next_sequence j"
    by (auto simp: begin_postcondition_observation_def Let_def split: option.split)
  fix aid'
  show "authority_ok (journal_entries j) aid' (live_dispatch_prepared ?j aid')
      (live_dispatch_execution ?j aid') (live_postcondition_observation ?j aid')"
    using journal_wf_authority [OF wf, of aid'] unfolding authority_ok_iff
    by (auto simp: begin_postcondition_observation_def Let_def observation_grant_ok_def
          dispatch_begun_def split: option.split)
qed

lemma use_observation_permit_wf:
  assumes "journal_wf us j"
  shows "journal_wf us (snd (use_observation_permit permit i j))"
  using use_observation_permit_rejected [of j permit i] use_observation_permit_spends [of j permit i]
    drop_observation_wf [OF assms, of "obs_action_id permit"] assms
  by (cases "observation_live j permit") auto

lemma record_action_postcondition_receipt_wf:
  assumes wf: "journal_wf (uuid_display ext) j"
    and op: "record_action_postcondition_receipt ext j draft now faults fs = (r, j', fs')"
    and cap: "within_capacity j'"
  shows "journal_wf (uuid_display ext) j'"
proof -
  obtain r1 where "append_validated_locked ext j (dr_action_id draft) (PostconditionReceiptRecorded
      (receipt_of_draft (uuid_display ext) (next_sequence j) draft)) now faults fs = (r1, j', fs')"
    using op by (auto simp: record_action_postcondition_receipt_def Let_def
        split: prod.splits sum.splits)
  from append_wf [OF wf this cap] show ?thesis by simp
qed

section \<open>Opening\<close>

lemma open_journal_Inr:
  assumes "open_journal ext p instance_ref faults fs = (Inr j, fs')"
  shows "load_and_repair ext p faults fs = (Inr (journal_entries j), fs')"
    "journal_path j = p" "journal_instance_ref j = instance_ref"
    "live_dispatch_prepared j = (\<lambda>_. None)" "live_dispatch_execution j = (\<lambda>_. None)"
    "live_postcondition_observation j = (\<lambda>_. None)"
    "next_sequence j = (if journal_entries j = [] then 1
       else saturating_add (journal_sequence (last (journal_entries j))) 1)"
  using assms by (auto simp: open_journal_def split: option.splits prod.splits sum.splits)

lemma next_sequence_of_history:
  assumes "history_ok us mode es" "length es < 2 ^ 64 - 1"
  shows "(if es = [] then 1 else saturating_add (journal_sequence (last es)) 1)
    = (of_nat (length es) + 1 :: u64)"
proof (cases es rule: rev_cases)
  case (snoc pre e)
  with assms(1) have "journal_sequence e = of_nat (length pre) + 1" by (simp add: entry_ok_def)
  then have "journal_sequence e = of_nat (length es)" using snoc by (simp add: add.commute)
  moreover have "unat (of_nat (length es) :: u64) = length es"
    using assms(2) by (intro unat_of_nat_64) simp
  ultimately have "saturating_add (journal_sequence e) 1 = of_nat (length es) + 1"
    using assms(2) by (simp add: saturating_add_no_overflow)
  with snoc show ?thesis by simp
qed simp

lemma open_journal_wf:
  assumes "open_journal ext p instance_ref faults fs = (Inr j, fs')" "within_capacity j"
  shows "journal_wf (uuid_display ext) j"
  using open_journal_Inr [OF assms(1)] assms(2)
    load_and_repair_sound(1) [of ext p faults fs "journal_entries j" fs']
    next_sequence_of_history [of "uuid_display ext" Replay "journal_entries j"]
  by (simp add: journal_wf_def action_authority_ok_def within_capacity_def)

section \<open>The step relation\<close>

text \<open>
  One step is one operation with any arguments, any minted identifier, any time and any
  faults. Every state of a running journal is reached from an \<open>open_journal\<close> by steps.
\<close>

inductive journal_step ::
  "externals \<Rightarrow> consequential_journal \<times> file_system \<Rightarrow> consequential_journal \<times> file_system \<Rightarrow> bool"
  for ext where
  step_intent_admitted:
    "record_intent_admitted ext j envelope now faults fs = (r, c) \<Longrightarrow> journal_step ext (j, fs) c"
| step_authorization:
    "record_authorization ext j aid revision revalidated now faults fs = (r, c) \<Longrightarrow>
     journal_step ext (j, fs) c"
| step_dispatch_prepared:
    "record_dispatch_prepared ext j aid preparation capability_ref now faults fs = (a, c) \<Longrightarrow>
     journal_step ext (j, fs) c"
| step_begin_dispatch:
    "begin_dispatch j capability permit_ref = (p, j') \<Longrightarrow> journal_step ext (j, fs) (j', fs)"
| step_abandon_dispatch_execution:
    "abandon_dispatch_execution j permit = (u, j') \<Longrightarrow> journal_step ext (j, fs) (j', fs)"
| step_dispatch_linearized:
    "record_dispatch_linearized ext j permit linearization now faults fs = (r, c) \<Longrightarrow>
     journal_step ext (j, fs) c"
| step_begin_observation:
    "begin_postcondition_observation ext j aid observation_ref = (b, j') \<Longrightarrow>
     journal_step ext (j, fs) (j', fs)"
| step_abandon_observation:
    "abandon_postcondition_observation j observation = (w, j') \<Longrightarrow>
     journal_step ext (j, fs) (j', fs)"
| step_complete_observation:
    "complete_postcondition_observation j observation snapshot = (d, j') \<Longrightarrow>
     journal_step ext (j, fs) (j', fs)"
| step_postcondition_receipt:
    "record_action_postcondition_receipt ext j draft now faults fs = (q, c) \<Longrightarrow>
     journal_step ext (j, fs) c"
| step_compensation:
    "record_compensation ext j aid compensation_ref outcome now faults fs = (r, c) \<Longrightarrow>
     journal_step ext (j, fs) c"
| step_committed:
    "record_committed ext j aid now faults fs = (r, c) \<Longrightarrow> journal_step ext (j, fs) c"

inductive_cases journal_stepE: "journal_step ext (j, fs) (j', fs')"

inductive journal_steps ::
  "externals \<Rightarrow> consequential_journal \<times> file_system \<Rightarrow> consequential_journal \<times> file_system \<Rightarrow> bool"
  for ext where
  steps_refl: "journal_steps ext c c"
| steps_step: "journal_steps ext c c' \<Longrightarrow> journal_step ext c' c'' \<Longrightarrow> journal_steps ext c c''"

end
