(* ===== verification/Journal_Run.thy ===== *)
theory Journal_Run
  imports Journal_Invariant
begin

text \<open>
  Runs of a journal: the invariant in every state that operations reach from an opened
  journal, the growth of the history along a run, and the facts about authority that hold
  for the rest of a run once they hold (a begun action is never given dispatch authority
  again).
\<close>

section \<open>The effect of one step\<close>

lemma append_entries:
  assumes "append_validated_locked ext j aid t now faults fs = (r, j', fs')"
  shows "journal_entries j' = journal_entries j
    \<or> journal_entries j' = journal_entries j @ [next_entry j aid t now]
      \<and> validate_transition (uuid_display ext) (journal_entries j) aid t Append = Inr ()"
  by (rule append_validated_locked_cases [OF assms]) auto

text \<open>An operation that only appends, or appends and mints a prepared grant.\<close>

definition appends ::
  "externals \<Rightarrow> consequential_journal \<Rightarrow> consequential_journal \<Rightarrow> bool" where
  "appends ext j j' \<longleftrightarrow>
     journal_instance_ref j' = journal_instance_ref j \<and> journal_path j' = journal_path j
     \<and> (journal_entries j' = journal_entries j
        \<or> (\<exists>aid t now. journal_entries j' = journal_entries j @ [next_entry j aid t now]
             \<and> validate_transition (uuid_display ext) (journal_entries j) aid t Append = Inr ()))"

lemma appends_refl: "appends ext j j"
  by (simp add: appends_def)

lemma append_appends:
  "append_validated_locked ext j aid t now faults fs = (r, j', fs') \<Longrightarrow> appends ext j j'"
  using append_entries [of ext j aid t now faults fs r j' fs']
    append_validated_locked_frame [of ext j aid t now faults fs r j' fs']
  by (auto simp: appends_def)

lemmas record_defs = record_intent_admitted_def record_authorization_def
  record_compensation_def record_committed_def

lemma record_dispatch_prepared_cases:
  assumes "record_dispatch_prepared ext j aid receipt capability_ref now faults fs = (r, j', fs')"
  obtains (minted) j1 e where
    "append_validated_locked ext j aid (DispatchPrepared receipt) now faults fs = (Inr e, j1, fs')"
    "e = next_entry j aid (DispatchPrepared receipt) now" "j1 = push_entry j e"
    "validate_transition (uuid_display ext) (journal_entries j) aid (DispatchPrepared receipt)
       Append = Inr ()"
    "j' = j1\<lparr>live_dispatch_prepared := (live_dispatch_prepared j)(aid \<mapsto>
        \<lparr>lpg_capability_ref = capability_ref, lpg_preparation_journal_sequence = journal_sequence e,
         lpg_preparation_receipt_ref = prep_receipt_ref receipt\<rparr>)\<rparr>"
    "r = Inr \<lparr>adm_entry = e, adm_capability =
        \<lparr>cap_journal_instance_ref = journal_instance_ref j, cap_action_id = aid,
         cap_preparation_journal_sequence = journal_sequence e,
         cap_preparation_receipt_ref = prep_receipt_ref receipt,
         cap_capability_ref = capability_ref\<rparr>\<rparr>"
  | (refused) err where "r = Inl err" "j' = j"
proof -
  obtain r1 j1 fs1 where a: "append_validated_locked ext j aid (DispatchPrepared receipt) now
      faults fs = (r1, j1, fs1)" by (metis prod_cases3)
  show thesis
    using a
  proof (cases rule: append_validated_locked_cases)
    case (appended encoded)
    with a assms show thesis by (intro minted) (auto simp: record_dispatch_prepared_def)
  qed (use a assms refused in \<open>auto simp: record_dispatch_prepared_def\<close>)
qed

lemma begin_dispatch_cases:
  assumes "begin_dispatch j capability permit_ref = (r, j')"
  obtains (begun) permit where "r = Inr permit" "prepared_live j capability"
    "recovery_state_for (journal_entries j) (cap_action_id capability) = Some RDispatchPrepared"
    "permit = \<lparr>perm_journal_instance_ref = journal_instance_ref j,
       perm_action_id = cap_action_id capability,
       perm_preparation_journal_sequence = cap_preparation_journal_sequence capability,
       perm_preparation_receipt_ref = cap_preparation_receipt_ref capability,
       perm_permit_ref = permit_ref\<rparr>"
    "durable_preparation_matches (journal_entries j) (cap_action_id capability)
       (cap_preparation_journal_sequence capability) (cap_preparation_receipt_ref capability)"
    "j' = j\<lparr>live_dispatch_prepared := (live_dispatch_prepared j)(cap_action_id capability := None),
            live_dispatch_execution := (live_dispatch_execution j)(cap_action_id capability \<mapsto>
              \<lparr>leg_permit_ref = permit_ref,
               leg_preparation_journal_sequence = cap_preparation_journal_sequence capability,
               leg_preparation_receipt_ref = cap_preparation_receipt_ref capability\<rparr>)\<rparr>"
  | (spent) err where "prepared_live j capability" "r = Inl err"
      "j' = j\<lparr>live_dispatch_prepared :=
         (live_dispatch_prepared j)(cap_action_id capability := None)\<rparr>"
  | (refused) err where "r = Inl err" "j' = j" "\<not> prepared_live j capability"
proof (cases "prepared_live j capability")
  case True
  let ?aid = "cap_action_id capability"
  from True obtain g where g: "live_dispatch_prepared j ?aid = Some g"
    "prepared_grant_matches g capability" "cap_journal_instance_ref capability = journal_instance_ref j"
    by (auto simp: prepared_live_def split: option.splits)
  show thesis
  proof (cases "recovery_state_for (journal_entries j) ?aid = Some RDispatchPrepared
      \<and> durable_preparation_matches (journal_entries j) ?aid
          (cap_preparation_journal_sequence capability) (cap_preparation_receipt_ref capability)")
    case ok: True
    show thesis
      by (rule begun [OF _ True]) (use assms g ok in \<open>auto simp: begin_dispatch_def Let_def\<close>)
  next
    case False
    then obtain err where "r = Inl err" "j' = j\<lparr>live_dispatch_prepared :=
         (live_dispatch_prepared j)(?aid := None)\<rparr>"
      using assms g by (auto simp: begin_dispatch_def Let_def split: if_splits)
    with spent [OF True] show thesis by blast
  qed
next
  case False
  with begin_dispatch_rejected [OF this, of permit_ref] assms show thesis by (auto intro: refused)
qed

lemma record_dispatch_linearized_appends:
  assumes "record_dispatch_linearized ext j permit receipt now faults fs = (r, j', fs')"
  shows "appends ext j j'" "live_dispatch_prepared j' = live_dispatch_prepared j"
    "live_dispatch_execution j' = live_dispatch_execution j
     \<or> live_dispatch_execution j' = (live_dispatch_execution j)(perm_action_id permit := None)"
proof -
  let ?aid = "perm_action_id permit"
  let ?j = "j\<lparr>live_dispatch_execution := (live_dispatch_execution j)(?aid := None)\<rparr>"
  consider (kept) "j' = j" | (dropped) "j' = ?j"
    | (appended) "append_validated_locked ext ?j ?aid (DispatchLinearized receipt) now
        faults fs = (r, j', fs')"
    using assms by (auto simp: record_dispatch_linearized_def Let_def
        split: option.splits if_splits)
  then have "j' = j \<or> appends ext ?j j' \<and> live_dispatch_prepared j' = live_dispatch_prepared j
    \<and> live_dispatch_execution j' = (live_dispatch_execution j)(?aid := None)"
  proof cases
    case dropped
    then show ?thesis by (simp add: appends_refl)
  next
    case appended
    from append_appends [OF this] append_validated_locked_frame [OF this] show ?thesis by simp
  qed simp
  moreover have "appends ext ?j j' \<Longrightarrow> appends ext j j'"
    by (auto simp: appends_def next_entry_def)
  ultimately show "appends ext j j'" "live_dispatch_prepared j' = live_dispatch_prepared j"
    "live_dispatch_execution j' = live_dispatch_execution j
     \<or> live_dispatch_execution j' = (live_dispatch_execution j)(?aid := None)"
    using appends_refl [of ext j] by blast+
qed

lemma journal_step_appends:
  assumes "journal_step ext (j, fs) (j', fs')"
  shows "appends ext j j'"
  using assms
proof (cases rule: journal_step.cases)
  case step_dispatch_prepared
  then obtain aid preparation capability_ref now faults a where
    "record_dispatch_prepared ext j aid preparation capability_ref now faults fs = (a, j', fs')"
    by blast
  then show ?thesis
    by (cases rule: record_dispatch_prepared_cases)
      (auto simp: appends_def next_entry_def intro!: exI)
next
  case step_postcondition_receipt
  then show ?thesis
    by (auto simp: record_action_postcondition_receipt_def Let_def
        split: prod.splits sum.splits dest!: append_appends)
next
  case step_dispatch_linearized
  then show ?thesis using record_dispatch_linearized_appends by blast
qed (auto simp: record_defs begin_dispatch_def abandon_dispatch_execution_def
      begin_postcondition_observation_def abandon_postcondition_observation_def
      complete_postcondition_observation_def Let_def appends_def
      split: option.splits if_splits dest!: append_appends)

lemma append_frame:
  "append_validated_locked ext j aid t now faults fs = (r, j', fs') \<Longrightarrow>
     live_dispatch_prepared j' = live_dispatch_prepared j
     \<and> live_dispatch_execution j' = live_dispatch_execution j
     \<and> live_postcondition_observation j' = live_postcondition_observation j"
  by (simp add: append_validated_locked_frame)

section \<open>The invariant along a run\<close>

lemma plain_append_wf:
  "append_validated_locked ext j aid t now faults fs = (r, j', fs') \<Longrightarrow>
     journal_wf (uuid_display ext) j \<longrightarrow> within_capacity j' \<longrightarrow> \<not> is_linearization t \<longrightarrow>
     journal_wf (uuid_display ext) j'"
  using append_wf by blast

lemma journal_step_wf:
  assumes "journal_step ext (j, fs) (j', fs')" "journal_wf (uuid_display ext) j"
    and "within_capacity j'"
  shows "journal_wf (uuid_display ext) j'"
  using assms(1)
proof (cases rule: journal_step.cases)
  case step_dispatch_prepared
  then show ?thesis using record_dispatch_prepared_wf assms(2,3) by blast
next
  case step_begin_dispatch
  then show ?thesis using begin_dispatch_wf [OF assms(2)] by (metis snd_conv)
next
  case step_abandon_dispatch_execution
  then show ?thesis using abandon_dispatch_execution_wf [OF assms(2)] by (metis snd_conv)
next
  case step_dispatch_linearized
  then show ?thesis using record_dispatch_linearized_wf assms(2,3) by blast
next
  case step_begin_observation
  then show ?thesis using begin_postcondition_observation_wf [OF assms(2)] by (metis snd_conv)
next
  case (step_abandon_observation permit)
  then show ?thesis using use_observation_permit_wf [OF assms(2), of permit AbandonObservation]
    by (auto split: prod.splits sum.splits)
next
  case (step_complete_observation permit snapshot)
  then show ?thesis
    using use_observation_permit_wf [OF assms(2), of permit "CompleteObservation snapshot"]
    by (auto split: prod.splits sum.splits)
next
  case step_postcondition_receipt
  then show ?thesis using record_action_postcondition_receipt_wf assms(2,3) by blast
qed (use assms(2,3) in \<open>auto simp: record_defs dest!: plain_append_wf\<close>)

lemma journal_step_monotone:
  assumes "journal_step ext c c'"
  shows "\<exists>new. journal_entries (fst c') = journal_entries (fst c) @ new \<and> length new \<le> 1"
  using journal_step_appends [of ext "fst c" "snd c" "fst c'" "snd c'"] assms
  by (fastforce simp: appends_def)

lemma journal_steps_monotone:
  "journal_steps ext c c' \<Longrightarrow> \<exists>new. journal_entries (fst c') = journal_entries (fst c) @ new"
proof (induction rule: journal_steps.induct)
  case (steps_step c c' c'')
  then show ?case using journal_step_monotone [of ext c' c''] by fastforce
qed simp

lemma journal_steps_instance:
  "journal_steps ext c c' \<Longrightarrow> journal_instance_ref (fst c') = journal_instance_ref (fst c)
     \<and> journal_path (fst c') = journal_path (fst c)"
proof (induction rule: journal_steps.induct)
  case (steps_step c c' c'')
  then show ?case using journal_step_appends [of ext "fst c'" "snd c'" "fst c''" "snd c''"]
    by (simp add: appends_def)
qed simp

lemma within_capacity_earlier:
  "journal_step ext c c' \<Longrightarrow> within_capacity (fst c') \<Longrightarrow> within_capacity (fst c)"
  using journal_step_monotone [of ext c c'] by (auto simp: within_capacity_def)

lemma journal_steps_wf:
  "journal_steps ext c c' \<Longrightarrow> journal_wf (uuid_display ext) (fst c) \<Longrightarrow>
     within_capacity (fst c') \<Longrightarrow> journal_wf (uuid_display ext) (fst c')"
proof (induction rule: journal_steps.induct)
  case (steps_step c c' c'')
  then show ?case
    using journal_step_wf [of ext "fst c'" "snd c'" "fst c''" "snd c''"]
      within_capacity_earlier by (metis prod.collapse)
qed

lemma journal_steps_within_capacity:
  "journal_steps ext c c' \<Longrightarrow> within_capacity (fst c') \<Longrightarrow> within_capacity (fst c)"
  using journal_steps_monotone [of ext c c'] by (auto simp: within_capacity_def)

section \<open>Authority is not regained\<close>

lemma journal_step_prepared:
  assumes "journal_step ext (j, fs) (j', fs')" "live_dispatch_prepared j' aid = Some g"
  shows "live_dispatch_prepared j aid = Some g
    \<or> (\<exists>receipt. validate_transition (uuid_display ext) (journal_entries j) aid
          (DispatchPrepared receipt) Append = Inr ())"
  using assms(1)
proof (cases rule: journal_step.cases)
  case step_dispatch_prepared
  then obtain aid' preparation capability_ref now faults a where
    "record_dispatch_prepared ext j aid' preparation capability_ref now faults fs = (a, j', fs')"
    by blast
  then show ?thesis using assms(2)
    by (cases rule: record_dispatch_prepared_cases) (auto split: if_splits)
next
  case step_postcondition_receipt
  then show ?thesis using assms(2)
    by (auto simp: record_action_postcondition_receipt_def Let_def
        split: prod.splits sum.splits dest!: append_frame)
next
  case step_dispatch_linearized
  then show ?thesis using record_dispatch_linearized_appends assms(2) by metis
qed (use assms(2) in \<open>auto simp: record_defs begin_dispatch_def abandon_dispatch_execution_def
      begin_postcondition_observation_def abandon_postcondition_observation_def
      complete_postcondition_observation_def Let_def
      split: option.splits if_splits dest!: append_frame\<close>)

lemma journal_step_execution:
  assumes "journal_step ext (j, fs) (j', fs')" "live_dispatch_execution j' aid = Some g"
  shows "live_dispatch_execution j aid = Some g
    \<or> (\<exists>g'. live_dispatch_prepared j aid = Some g'
         \<and> leg_preparation_journal_sequence g = lpg_preparation_journal_sequence g'
         \<and> leg_preparation_receipt_ref g = lpg_preparation_receipt_ref g')"
  using assms(1)
proof (cases rule: journal_step.cases)
  case step_dispatch_prepared
  then obtain aid' preparation capability_ref now faults a where
    "record_dispatch_prepared ext j aid' preparation capability_ref now faults fs = (a, j', fs')"
    by blast
  then show ?thesis using assms(2)
    by (cases rule: record_dispatch_prepared_cases) auto
next
  case step_postcondition_receipt
  then show ?thesis using assms(2)
    by (auto simp: record_action_postcondition_receipt_def Let_def
        split: prod.splits sum.splits dest!: append_frame)
next
  case step_dispatch_linearized
  then have "live_dispatch_execution j' aid \<in> {None, live_dispatch_execution j aid}"
    using record_dispatch_linearized_appends(3) by (metis fun_upd_apply insertI1 insertI2 singletonI)
  then show ?thesis using assms(2) by auto
qed (use assms(2) in \<open>auto simp: record_defs begin_dispatch_def prepared_grant_matches_def
      abandon_dispatch_execution_def
      begin_postcondition_observation_def abandon_postcondition_observation_def
      complete_postcondition_observation_def Let_def
      split: option.splits if_splits dest!: append_frame\<close>)

text \<open>An action that was begun and has no prepared grant gets none for the rest of the run.\<close>

definition begun_in :: "consequential_journal \<Rightarrow> uuid \<Rightarrow> bool" where
  "begun_in j aid \<longleftrightarrow>
     (case recovery_state_for (journal_entries j) aid of None \<Rightarrow> False | Some s \<Rightarrow> dispatch_begun s)"

lemma journal_step_begun:
  assumes "journal_step ext (j, fs) (j', fs')" "journal_wf (uuid_display ext) j" "begun_in j aid"
  shows "begun_in j' aid"
proof -
  have "appends ext j j'" by (rule journal_step_appends) fact
  then consider "journal_entries j' = journal_entries j"
    | aid' t now where "journal_entries j' = journal_entries j @ [next_entry j aid' t now]"
      "validate_transition (uuid_display ext) (journal_entries j) aid' t Append = Inr ()"
    by (auto simp: appends_def)
  then show ?thesis
  proof cases
    case 1
    with assms(3) show ?thesis by (simp add: begun_in_def)
  next
    case 2
    then show ?thesis using begun_after_entry [OF next_entry_ok [OF assms(2)]] assms(3)
      by (fastforce simp: begun_in_def split: option.splits)
  qed
qed

lemma begun_not_prepared:
  assumes "journal_wf us j" "begun_in j aid"
  shows "validate_transition us (journal_entries j) aid (DispatchPrepared receipt) Append \<noteq> Inr ()"
proof
  assume "validate_transition us (journal_entries j) aid (DispatchPrepared receipt) Append = Inr ()"
  from preparation_step [OF entry_ok_replay [OF next_entry_ok [OF assms(1) this]]] assms(2)
  show False by (simp add: begun_in_def dispatch_begun_def)
qed

lemma spent_capability_step:
  assumes "journal_step ext (j, fs) (j', fs')" "journal_wf (uuid_display ext) j"
    and "begun_in j aid" "live_dispatch_prepared j aid = None"
  shows "live_dispatch_prepared j' aid = None"
proof (rule ccontr)
  assume "live_dispatch_prepared j' aid \<noteq> None"
  then obtain g where "live_dispatch_prepared j' aid = Some g" by blast
  from journal_step_prepared [OF assms(1) this] assms(4) begun_not_prepared [OF assms(2,3)]
  show False by auto
qed

lemma spent_permit_step:
  assumes "journal_step ext (j, fs) (j', fs')"
    and "live_dispatch_prepared j aid = None" "live_dispatch_execution j aid = None"
  shows "live_dispatch_execution j' aid = None"
  using journal_step_execution [OF assms(1), of aid] assms(2,3) by fastforce

lemma no_capability_later:
  assumes "journal_steps ext c c'" "journal_wf (uuid_display ext) (fst c)"
    and "within_capacity (fst c')" "begun_in (fst c) aid"
    and "live_dispatch_prepared (fst c) aid = None"
  shows "begun_in (fst c') aid \<and> live_dispatch_prepared (fst c') aid = None
    \<and> (live_dispatch_execution (fst c) aid = None \<longrightarrow> live_dispatch_execution (fst c') aid = None)"
  using assms
proof (induction rule: journal_steps.induct)
  case (steps_step c c' c'')
  have cap: "within_capacity (fst c')"
    using within_capacity_earlier steps_step.hyps(2) steps_step.prems(2) .
  with steps_step have IH: "begun_in (fst c') aid" "live_dispatch_prepared (fst c') aid = None"
    "live_dispatch_execution (fst c) aid = None \<longrightarrow> live_dispatch_execution (fst c') aid = None"
    by simp_all
  have wf: "journal_wf (uuid_display ext) (fst c')"
    using journal_steps_wf steps_step.hyps(1) steps_step.prems(1) cap .
  have st: "journal_step ext (fst c', snd c') (fst c'', snd c'')" using steps_step.hyps(2) by simp
  show ?case
    using journal_step_begun [OF st wf IH(1)] spent_capability_step [OF st wf IH(1,2)]
      spent_permit_step [OF st IH(2)] IH(3) by auto
qed simp

text \<open>Without dispatch authority, the cause an observation is bound to does not change.\<close>

lemma journal_step_linearization:
  assumes "journal_step ext (j, fs) (j', fs')"
    and "journal_entries j' = journal_entries j @ [e]" "is_linearization (transition e)"
  shows "live_dispatch_execution j (action_id e) \<noteq> None"
  using assms(1)
proof (cases rule: journal_step.cases)
  case step_dispatch_linearized
  then obtain permit lin now faults r where l:
    "record_dispatch_linearized ext j permit lin now faults fs = (r, j', fs')" by blast
  let ?j = "j\<lparr>live_dispatch_execution :=
    (live_dispatch_execution j)(perm_action_id permit := None)\<rparr>"
  have "journal_entries j' \<noteq> journal_entries j" using assms(2) by simp
  then have "live_dispatch_execution j (perm_action_id permit) \<noteq> None"
    and a: "append_validated_locked ext ?j (perm_action_id permit) (DispatchLinearized lin) now
      faults fs = (r, j', fs')"
    using l by (auto simp: record_dispatch_linearized_def Let_def split: option.splits if_splits)
  with append_entries [OF a] assms(2) show ?thesis by auto
next
  case step_dispatch_prepared
  then obtain aid preparation capability_ref now faults a where
    "record_dispatch_prepared ext j aid preparation capability_ref now faults fs = (a, j', fs')"
    by blast
  then show ?thesis using assms(2,3)
    by (cases rule: record_dispatch_prepared_cases) auto
next
  case step_postcondition_receipt
  then show ?thesis using assms(2,3)
    by (auto simp: record_action_postcondition_receipt_def Let_def
        split: prod.splits sum.splits dest!: append_entries)
qed (use assms(2,3) in \<open>auto simp: record_defs begin_dispatch_def abandon_dispatch_execution_def
      begin_postcondition_observation_def abandon_postcondition_observation_def
      complete_postcondition_observation_def Let_def
      split: option.splits if_splits dest!: append_entries\<close>)

lemma cause_step:
  assumes "journal_step ext (j, fs) (j', fs')" "journal_wf (uuid_display ext) j"
    and "begun_in j aid" "live_dispatch_execution j aid = None"
  shows "postcondition_observation_cause_for (journal_entries j') aid
    = postcondition_observation_cause_for (journal_entries j) aid"
proof -
  have "appends ext j j'" by (rule journal_step_appends) fact
  then consider "journal_entries j' = journal_entries j"
    | aid' t now where "journal_entries j' = journal_entries j @ [next_entry j aid' t now]"
      "validate_transition (uuid_display ext) (journal_entries j) aid' t Append = Inr ()"
    by (auto simp: appends_def)
  then show ?thesis
  proof cases
    case 2
    let ?e = "next_entry j aid' t now"
    have "\<not> is_linearization t" if "aid' = aid"
      using journal_step_linearization [OF assms(1) 2(1)] assms(4) that by auto
    moreover have "\<not> is_preparation t" if "aid' = aid"
      using no_preparation_when_begun [OF next_entry_ok [OF assms(2) 2(2)]] assms(3) that
      by (auto simp: begun_in_def split: option.splits)
    ultimately show ?thesis unfolding 2(1)
      by (cases t) (auto simp: postcondition_observation_cause_for_snoc)
  qed simp
qed

lemma cause_is_frozen:
  assumes "journal_steps ext c c'" "journal_wf (uuid_display ext) (fst c)"
    and "within_capacity (fst c')" "begun_in (fst c) aid"
    and "live_dispatch_prepared (fst c) aid = None" "live_dispatch_execution (fst c) aid = None"
  shows "postcondition_observation_cause_for (journal_entries (fst c')) aid
    = postcondition_observation_cause_for (journal_entries (fst c)) aid"
  using assms
proof (induction rule: journal_steps.induct)
  case (steps_step c c' c'')
  have cap: "within_capacity (fst c')"
    using within_capacity_earlier steps_step.hyps(2) steps_step.prems(2) .
  have wf: "journal_wf (uuid_display ext) (fst c')"
    using journal_steps_wf steps_step.hyps(1) steps_step.prems(1) cap .
  have st: "journal_step ext (fst c', snd c') (fst c'', snd c'')" using steps_step.hyps(2) by simp
  show ?case
    using cause_step [OF st wf] no_capability_later [OF steps_step.hyps(1)] steps_step cap by simp
qed simp

end
