(* ===== verification/Journal_Crash.thy ===== *)
theory Journal_Crash
  imports Journal_Run
begin

text \<open>
  Memory and file. A journal is in step with its file when the file holds the encoding of the
  history; opening the file then gives the history back. An append that fails at any point,
  followed by a restart, loses at most the entry it was about to write. A failed append that
  is \<open>not\<close> followed by a restart leaves bytes of a refused record in the file, and the
  next append then makes the file one that no restart accepts.
\<close>

section \<open>Memory in step with the file\<close>

definition in_sync :: "externals \<Rightarrow> consequential_journal \<Rightarrow> file_system \<Rightarrow> bool" where
  "in_sync ext j fs \<longleftrightarrow>
     fs (journal_path j) = Some (encode_log ext (journal_entries j))
     \<and> encodes ext (journal_entries j)"

lemma encodes_single:
  "encodes ext [e] \<Longrightarrow> entry_to_vec ext e = Inr bs \<Longrightarrow>
     bs \<noteq> [] \<and> newline \<notin> set bs \<and> entry_from_slice ext bs = Inr e"
  by (auto simp: encodes_Cons)

lemma in_sync_append:
  assumes "in_sync ext j fs" "encodes ext [next_entry j aid t now]"
    and "append_validated_locked ext j aid t now faults fs = (Inr e, j', fs')"
  shows "in_sync ext j' fs'"
  using assms(3)
proof (cases rule: append_validated_locked_cases)
  case (appended encoded)
  with assms(1,2) show ?thesis
    by (auto simp: in_sync_def encode_record_def file_contents_def)
qed simp_all

lemma open_of_history:
  assumes "history_ok (uuid_display ext) Replay es" "encodes ext es" "length es < 2 ^ 64 - 1"
    and "newline \<notin> set tail" "fs p = Some (encode_log ext es @ tail)"
  shows "open_journal ext p instance_ref no_load_faults fs =
    (Inr \<lparr>journal_path = p, journal_instance_ref = instance_ref,
          next_sequence = of_nat (length es) + 1, journal_entries = es,
          live_dispatch_prepared = (\<lambda>_. None), live_dispatch_execution = (\<lambda>_. None),
          live_postcondition_observation = (\<lambda>_. None)\<rparr>,
     fs(p \<mapsto> encode_log ext es))"
  using load_encoded_log [where ext = ext and fs = fs and p = p, OF assms(2,1,4,5)] next_sequence_of_history [OF assms(1,3)]
  by (simp add: open_journal_def no_load_faults_def)

section \<open>Crashes\<close>

text \<open>The history a restart finds after an append under any faults.\<close>

lemma reopen_after_append:
  assumes wf: "journal_wf (uuid_display ext) j" and sync: "in_sync ext j fs"
    and enc: "encodes ext [next_entry j aid t now]"
    and cap: "within_capacity (push_entry j (next_entry j aid t now))"
    and a: "append_validated_locked ext j aid t now faults fs = (r, j', fs')"
  shows "\<exists>j2 fs2. open_journal ext (journal_path j) instance_ref no_load_faults fs' = (Inr j2, fs2)
    \<and> in_sync ext j2 fs2
    \<and> (case r of Inr e \<Rightarrow> journal_entries j2 = journal_entries j @ [e]
       | Inl _ \<Rightarrow> journal_entries j2 = journal_entries j
           \<or> journal_entries j2 = journal_entries j @ [next_entry j aid t now])"
proof -
  let ?es = "journal_entries j" and ?e = "next_entry j aid t now" and ?p = "journal_path j"
  have h: "history_ok (uuid_display ext) Replay ?es" "encodes ext ?es"
    and f: "fs ?p = Some (encode_log ext ?es)"
    using wf sync by (auto simp: journal_wf_def in_sync_def)
  have n: "length ?es < 2 ^ 64 - 1" "length (?es @ [?e]) < 2 ^ 64 - 1"
    using cap by (simp_all add: within_capacity_def)
  have reopen: "\<exists>j2 fs2. open_journal ext ?p instance_ref no_load_faults gs = (Inr j2, fs2)
      \<and> in_sync ext j2 fs2 \<and> journal_entries j2 = es"
    if "history_ok (uuid_display ext) Replay es" "encodes ext es" "length es < 2 ^ 64 - 1"
      "newline \<notin> set tail" "gs ?p = Some (encode_log ext es @ tail)" for es tail gs
    using open_of_history [OF that(1-4), of gs ?p instance_ref] that by (simp add: in_sync_def)
  show ?thesis
    using a
  proof (cases rule: append_validated_locked_cases)
    case (appended encoded)
    have "history_ok (uuid_display ext) Replay (?es @ [?e])"
      using h entry_ok_replay [OF next_entry_ok [OF wf appended(1)]] by simp
    then show ?thesis
      using reopen [of "?es @ [?e]" "[]" fs'] h n enc appended f
      by (simp add: encode_record_def file_contents_def)
  next
    case (refused err)
    with reopen [of ?es "[]" fs'] h n f show ?thesis by auto
  next
    case (torn err k encoded)
    have e: "encoded \<noteq> []" "newline \<notin> set encoded"
      using encodes_single [OF enc torn(4)] by simp_all
    show ?thesis
    proof (cases "k \<le> length encoded")
      case True
      then have "newline \<notin> set (take k encoded)" using e(2) by (meson in_set_takeD)
      with reopen [of ?es "take k encoded" fs'] h n True f torn show ?thesis
        by (auto simp: file_contents_def)
    next
      case False
      then have "take k (encoded @ [newline]) = encode_record ext ?e"
        using torn(4) by (simp add: encode_record_def)
      moreover have "history_ok (uuid_display ext) Replay (?es @ [?e])"
        using h entry_ok_replay [OF next_entry_ok [OF wf torn(3)]] by simp
      ultimately show ?thesis
        using reopen [of "?es @ [?e]" "[]" fs'] h n enc torn f
        by (auto simp: file_contents_def)
    qed
  qed
qed

section \<open>A failed append without a restart\<close>

text \<open>
  A second record with the sequence number of the first: what replay says of a file to which
  an append was written but not acknowledged, and then another one was acknowledged.
\<close>

lemma replay_duplicate_sequence:
  assumes "history_ok (uuid_display ext) Replay (es @ [e1])" "encodes ext (es @ [e1, e2])"
    and "schema_version e2 = journal_schema_version" "journal_sequence e2 = journal_sequence e1"
  shows "\<exists>message. replay_records ext 1 [] (split_records [] (encode_log ext (es @ [e1, e2])))
    = Inl (CorruptRecord (length es + 2) message)"
proof -
  have enc: "encodes ext (es @ [e1])" "encodes ext [e2]" using assms(2)
    by (simp_all add: encodes_Cons)
  have "journal_sequence e1 = of_nat (length es) + 1" using assms(1) by (simp add: entry_ok_def)
  then have "journal_sequence e2 \<noteq> of_nat (length (es @ [e1])) + 1" using assms(4) by simp
  then show ?thesis
    using split_records_log [OF assms(2), of "[]"] assms(3) enc(2)
      replay_records_ok [OF enc(1) assms(1), of 1 "map (\<lambda>e. projr (entry_to_vec ext e)) [e2]"]
    by (auto simp: encodes_Cons Let_def)
qed

lemma written_but_refused:
  assumes "append_validated_locked ext j aid t now
      (no_append_faults\<lparr>append_sync_fault := Some message\<rparr>) fs = (r, j', fs')"
    and "validate_transition (uuid_display ext) (journal_entries j) aid t Append = Inr ()"
    and "encodes ext [next_entry j aid t now]" "fs (journal_path j) = Some c"
  shows "r = Inl (Io ''append_sync'' message) \<and> j' = j
    \<and> fs' = fs(journal_path j \<mapsto> c @ encode_record ext (next_entry j aid t now))"
  using assms by (auto simp: append_validated_locked_def next_entry_def [symmetric] Let_def
      append_on_worker_def append_durable_def no_append_faults_def encodes_Cons encode_record_def
      file_contents_def split: sum.splits)

lemma reopen_after_refused_append:
  assumes wf: "journal_wf (uuid_display ext) j" and sync: "in_sync ext j fs"
    and enc: "encodes ext [next_entry j aid1 t1 now1, next_entry j aid2 t2 now2]"
    and v1: "validate_transition (uuid_display ext) (journal_entries j) aid1 t1 Append = Inr ()"
    and a1: "append_validated_locked ext j aid1 t1 now1
      (no_append_faults\<lparr>append_sync_fault := Some message\<rparr>) fs = (r1, j1, fs1)"
    and a2: "append_validated_locked ext j1 aid2 t2 now2 faults fs1 = (Inr e2, j2, fs2)"
  shows "\<exists>cause fs3. open_journal ext (journal_path j) instance_ref no_load_faults fs2
    = (Inl (CorruptRecord (length (journal_entries j) + 2) cause), fs3)"
proof -
  let ?es = "journal_entries j" and ?p = "journal_path j"
  let ?e1 = "next_entry j aid1 t1 now1" and ?e2 = "next_entry j aid2 t2 now2"
  have enc1: "encodes ext [?e1]" "encodes ext [?e2]" "encodes ext (?es @ [?e1, ?e2])"
    using enc sync by (simp_all add: encodes_Cons in_sync_def)
  have f: "fs ?p = Some (encode_log ext ?es)" using sync by (simp add: in_sync_def)
  from written_but_refused [OF a1 v1 enc1(1) f] have
    j1: "j1 = j" and f1: "fs1 ?p = Some (encode_log ext (?es @ [?e1]))" by auto
  have f2: "fs2 ?p = Some (encode_log ext (?es @ [?e1, ?e2]))"
    using a2 by (cases rule: append_validated_locked_cases)
      (use j1 f1 in \<open>auto simp: encode_record_def file_contents_def\<close>)
  have "history_ok (uuid_display ext) Replay (?es @ [?e1])"
    using wf entry_ok_replay [OF next_entry_ok [OF wf v1]] by (simp add: journal_wf_def)
  from replay_duplicate_sequence [OF this enc1(3)] obtain cause where
    "replay_records ext 1 [] (split_records [] (encode_log ext (?es @ [?e1, ?e2])))
       = Inl (CorruptRecord (length ?es + 2) cause)" by auto
  moreover have "last (encode_log ext (?es @ [?e1, ?e2])) = newline"
    using encode_log_complete [OF enc1(3)] by simp
  ultimately show ?thesis
    using load_and_repair_complete [where tail = "[]" and p = ?p and fs = fs2 and ext = ext
        and c = "encode_log ext (?es @ [?e1, ?e2])"] f2
    by (simp add: open_journal_def no_load_faults_def)
qed

end
