(* ===== verification/Reconciliation.thy ===== *)
theory Reconciliation
  imports Journal_Crash
begin

text \<open>
  \<open>src/crates/live-bridge/src/postcondition_reconciliation.rs\<close>: predicate evidence for the
  declared postconditions of an action, together with an observation receipt minted by the
  journal and the snapshot the bridge currently holds for the session, becomes a durable
  postcondition receipt with a verdict. The bridge query
  \<open>current_reconciliation_snapshot\<close> is the argument \<open>current_snapshot\<close>.
\<close>

section \<open>Data\<close>

datatype postcondition_status = VerifiedPass | VerifiedFail | StatusUnknown

record postcondition_evidence =
  ev_contract_ref :: string
  ev_status :: postcondition_status
  ev_receipt_ref :: string

record reconciliation_receipt =
  rr_observation :: postcondition_observation_receipt
  rr_postconditions :: "postcondition_evidence list"

record reconciliation_result =
  res_world_outcome :: world_outcome
  res_postconditions_verified :: bool
  res_journal_entry :: journal_entry
  res_postcondition_receipt :: action_postcondition_receipt

datatype reconciliation_error =
    ReconUnknownAction uuid
  | ReconProviderIncarnationMismatch
  | ReconTargetIncarnationMismatch
  | ReconciliationSnapshotMismatch
  | ReconciliationSnapshotIncomplete
  | MissingExpectedPostconditions
  | DuplicateExpectedPostcondition string
  | DuplicatePostconditionEvidence string
  | UnexpectedPostconditionEvidence string
  | MissingPostconditionReceipt string
  | ReconJournal journal_error

section \<open>The evidence\<close>

definition admitted_envelope ::
  "consequential_journal \<Rightarrow> uuid \<Rightarrow> canonical_action_envelope option" where
  "admitted_envelope j aid = find_map
     (\<lambda>e. case transition e of IntentAdmitted envelope \<Rightarrow> Some envelope | _ \<Rightarrow> None)
     (entries_for j aid)"

fun collect_expected ::
  "string set \<Rightarrow> string list \<Rightarrow> reconciliation_error + string set" where
  "collect_expected expected [] = Inr expected"
| "collect_expected expected (c # cs) =
     (if c \<in> expected then Inl (DuplicateExpectedPostcondition c)
      else collect_expected (insert c expected) cs)"

definition exact_expected_postconditions ::
  "canonical_action_envelope \<Rightarrow> reconciliation_error + string set" where
  "exact_expected_postconditions envelope =
     (let refs = expected_postcondition_contract_refs (metadata envelope)
      in if refs = [] then Inl MissingExpectedPostconditions else collect_expected {} refs)"

fun exact_observed_postconditions ::
  "string set \<Rightarrow> (string \<rightharpoonup> postcondition_evidence) \<Rightarrow> postcondition_evidence list
    \<Rightarrow> reconciliation_error + (string \<rightharpoonup> postcondition_evidence)" where
  "exact_observed_postconditions expected observed [] = Inr observed"
| "exact_observed_postconditions expected observed (item # items) =
     (if ev_contract_ref item \<notin> expected then
        Inl (UnexpectedPostconditionEvidence (ev_contract_ref item))
      else if is_blank (ev_receipt_ref item) then
        Inl (MissingPostconditionReceipt (ev_contract_ref item))
      else if observed (ev_contract_ref item) \<noteq> None then
        Inl (DuplicatePostconditionEvidence (ev_contract_ref item))
      else exact_observed_postconditions expected (observed(ev_contract_ref item \<mapsto> item)) items)"

definition has_status ::
  "(string \<rightharpoonup> postcondition_evidence) \<Rightarrow> postcondition_status \<Rightarrow> string \<Rightarrow> bool" where
  "has_status observed status c =
     (case observed c of None \<Rightarrow> False | Some ev \<Rightarrow> ev_status ev = status)"

definition evidence_bindings_of ::
  "(string \<rightharpoonup> postcondition_evidence) \<Rightarrow> string list
    \<Rightarrow> action_postcondition_evidence_binding list" where
  "evidence_bindings_of observed refs = List.map_filter
     (\<lambda>c. map_option (\<lambda>ev. \<lparr>evb_contract_ref = c, evb_receipt_ref = ev_receipt_ref ev\<rparr>)
            (observed c)) refs"

definition draft_of_evidence ::
  "postcondition_observation_receipt \<Rightarrow> string list \<Rightarrow> (string \<rightharpoonup> postcondition_evidence)
    \<Rightarrow> action_postcondition_receipt_draft" where
  "draft_of_evidence obs expected_order observed =
     (let verified = filter (has_status observed VerifiedPass) expected_order;
          failed = filter (has_status observed VerifiedFail) expected_order;
          unresolved = filter (\<lambda>c. observed c = None \<or> has_status observed StatusUnknown c)
            expected_order;
          bindings = evidence_bindings_of observed expected_order;
          verdict =
            (if failed \<noteq> [] then VerifiedUnexpected
             else if unresolved = [] then VerifiedExpected
             else ReconciliationRequired)
      in \<lparr>dr_action_id = obr_action_id obs,
          dr_session_id = obr_session_id obs,
          dr_provider_incarnation_ref = obr_provider_incarnation_ref obs,
          dr_target_incarnation_ref = obr_target_incarnation_ref obs,
          dr_expected_postcondition_contract_refs = expected_order,
          dr_observation_snapshot_cut_ref = obr_snapshot_cut_ref obs,
          dr_reconciliation_receipt_ref = obr_reconciliation_receipt_ref obs,
          dr_evidence_receipt_refs = map evb_receipt_ref bindings,
          dr_evidence_bindings = bindings,
          dr_verified_contract_refs = verified,
          dr_failed_contract_refs = failed,
          dr_verdict = verdict,
          dr_unresolved_unknown_contract_refs = unresolved,
          dr_causal_assurance = obr_cause obs\<rparr>)"

section \<open>Reconciling\<close>

definition check_observation ::
  "(session_id \<Rightarrow> reconciliation_snapshot_receipt option) \<Rightarrow> canonical_action_envelope
    \<Rightarrow> postcondition_observation_receipt \<Rightarrow> reconciliation_error + unit" where
  "check_observation current_snapshot envelope obs =
     (if obr_provider_incarnation_ref obs \<noteq> provider_incarnation_ref (metadata envelope) then
        Inl ReconProviderIncarnationMismatch
      else if obr_target_incarnation_ref obs \<noteq> target_incarnation_ref (metadata envelope) then
        Inl ReconTargetIncarnationMismatch
      else if obr_session_id obs \<noteq> env_session_id envelope then
        Inl ReconciliationSnapshotMismatch
      else case current_snapshot (env_session_id envelope) of
        None \<Rightarrow> Inl ReconciliationSnapshotMismatch
      | Some snapshot \<Rightarrow>
          if snap_receipt_id snapshot \<noteq> obr_reconciliation_receipt_ref obs
             \<or> snap_snapshot_cut_ref snapshot \<noteq> obr_snapshot_cut_ref obs
             \<or> snap_provider_incarnation_ref snapshot \<noteq> obr_provider_incarnation_ref obs
             \<or> snap_target_incarnation_ref snapshot \<noteq> obr_target_incarnation_ref obs then
            Inl ReconciliationSnapshotMismatch
          else if snap_completeness snapshot \<noteq> SEstablished
             \<or> snap_incompleteness_debt snapshot \<noteq> [] then
            Inl ReconciliationSnapshotIncomplete
          else Inr ())"

definition reconcile_consequential_postconditions ::
  "externals \<Rightarrow> (session_id \<Rightarrow> reconciliation_snapshot_receipt option) \<Rightarrow> consequential_journal
    \<Rightarrow> reconciliation_receipt \<Rightarrow> timestamp \<Rightarrow> append_faults \<Rightarrow> file_system
    \<Rightarrow> (reconciliation_error + reconciliation_result) \<times> consequential_journal \<times> file_system"
  where
  "reconcile_consequential_postconditions ext current_snapshot j receipt now faults fs =
     (let obs = rr_observation receipt; aid = obr_action_id obs
      in case admitted_envelope j aid of
        None \<Rightarrow> (Inl (ReconUnknownAction aid), j, fs)
      | Some envelope \<Rightarrow>
     (case check_observation current_snapshot envelope obs of
        Inl err \<Rightarrow> (Inl err, j, fs)
      | Inr _ \<Rightarrow>
     (case exact_expected_postconditions envelope of
        Inl err \<Rightarrow> (Inl err, j, fs)
      | Inr expected \<Rightarrow>
     (case exact_observed_postconditions expected Map.empty (rr_postconditions receipt) of
        Inl err \<Rightarrow> (Inl err, j, fs)
      | Inr observed \<Rightarrow>
          let draft = draft_of_evidence obs
                (expected_postcondition_contract_refs (metadata envelope)) observed
          in case record_action_postcondition_receipt ext j draft now faults fs of
               (Inl err, j', fs') \<Rightarrow> (Inl (ReconJournal err), j', fs')
             | (Inr (entry, postcondition_receipt), j', fs') \<Rightarrow>
                 (Inr \<lparr>res_world_outcome = verdict_world_outcome (dr_verdict draft),
                       res_postconditions_verified = postconditions_verified (dr_verdict draft),
                       res_journal_entry = entry,
                       res_postcondition_receipt = postcondition_receipt\<rparr>, j', fs')))))"

section \<open>The evidence is exact\<close>

lemma collect_expected_Inr:
  "collect_expected E cs = Inr E' \<longleftrightarrow> distinct cs \<and> set cs \<inter> E = {} \<and> E' = E \<union> set cs"
  by (induction cs arbitrary: E) auto

lemma exact_expected_Inr:
  "exact_expected_postconditions envelope = Inr E \<longleftrightarrow>
     (let refs = expected_postcondition_contract_refs (metadata envelope)
      in refs \<noteq> [] \<and> distinct refs \<and> E = set refs)"
  by (auto simp: exact_expected_postconditions_def Let_def collect_expected_Inr)

text \<open>What holds of evidence that was collected: it is declared, receipted and filed under its contract.\<close>

definition evidence_ok :: "string set \<Rightarrow> string \<Rightarrow> postcondition_evidence \<Rightarrow> bool" where
  "evidence_ok E c ev \<longleftrightarrow> c \<in> E \<and> ev_contract_ref ev = c \<and> \<not> is_blank (ev_receipt_ref ev)"

lemma exact_observed_Cons:
  assumes "exact_observed_postconditions E ob (item # items) = Inr ob'"
  shows "evidence_ok E (ev_contract_ref item) item" "ob (ev_contract_ref item) = None"
    "exact_observed_postconditions E (ob(ev_contract_ref item \<mapsto> item)) items = Inr ob'"
  using assms by (auto simp: evidence_ok_def split: if_splits)

lemma exact_observed_ok:
  "exact_observed_postconditions E ob items = Inr ob' \<Longrightarrow>
     (\<And>c ev. ob c = Some ev \<Longrightarrow> evidence_ok E c ev) \<Longrightarrow> ob' c = Some ev \<Longrightarrow> evidence_ok E c ev"
proof (induction items arbitrary: ob)
  case (Cons item items)
  note step = exact_observed_Cons [OF Cons.prems(1)]
  show ?case
    by (rule Cons.IH [OF step(3) _ Cons.prems(3)])
      (use step(1) Cons.prems(2) in \<open>auto split: if_splits\<close>)
qed simp

lemma exact_observed_mono:
  "exact_observed_postconditions E ob items = Inr ob' \<Longrightarrow> ob c = Some ev \<Longrightarrow> ob' c = Some ev"
proof (induction items arbitrary: ob)
  case (Cons item items)
  note step = exact_observed_Cons [OF Cons.prems(1)]
  show ?case by (rule Cons.IH [OF step(3)]) (use step(2) Cons.prems(2) in auto)
qed simp

lemma exact_observed_items:
  "exact_observed_postconditions E ob items = Inr ob' \<Longrightarrow> ev \<in> set items \<Longrightarrow>
     ob' (ev_contract_ref ev) = Some ev"
proof (induction items arbitrary: ob)
  case (Cons item items)
  note step = exact_observed_Cons [OF Cons.prems(1)]
  show ?case
    using Cons.IH [OF step(3)] exact_observed_mono [OF step(3), of "ev_contract_ref item" item]
      Cons.prems(2) by auto
qed simp

lemma exact_observed_from_items:
  "exact_observed_postconditions E ob items = Inr ob' \<Longrightarrow> ob' c = Some ev \<Longrightarrow>
     ob c = Some ev \<or> ev \<in> set items"
proof (induction items arbitrary: ob)
  case (Cons item items)
  note step = exact_observed_Cons [OF Cons.prems(1)]
  show ?case using Cons.IH [OF step(3) Cons.prems(2)] by (auto split: if_splits)
qed simp

lemma exact_observed_iff:
  assumes "exact_observed_postconditions E Map.empty items = Inr ob"
  shows "ob c = Some ev \<longleftrightarrow> ev \<in> set items \<and> ev_contract_ref ev = c"
  using exact_observed_items [OF assms] exact_observed_from_items [OF assms]
    exact_observed_ok [OF assms, of c ev] by (auto simp: evidence_ok_def)

lemma evidence_bindings_contracts:
  "map evb_contract_ref (evidence_bindings_of ob cs) = filter (\<lambda>c. ob c \<noteq> None) cs"
  by (induction cs) (auto simp: evidence_bindings_of_def List.map_filter_def)

lemma evidence_bindings_receipts:
  "b \<in> set (evidence_bindings_of ob cs) \<Longrightarrow>
     \<exists>ev. ob (evb_contract_ref b) = Some ev \<and> evb_receipt_ref b = ev_receipt_ref ev"
  by (auto simp: evidence_bindings_of_def List.map_filter_def)

text \<open>The contracts of the receipt that the evidence leads to are always sound.\<close>

lemma draft_of_evidence_sound:
  assumes "distinct refs" "\<And>c ev. ob c = Some ev \<Longrightarrow> \<not> is_blank (ev_receipt_ref ev)"
  shows "receipt_contracts_sound (receipt_of_draft us seq (draft_of_evidence obs refs ob))"
proof -
  let ?p = "filter (has_status ob VerifiedPass) refs"
  let ?f = "filter (has_status ob VerifiedFail) refs"
  let ?u = "filter (\<lambda>c. ob c = None \<or> has_status ob StatusUnknown c) refs"
  let ?b = "evidence_bindings_of ob refs"
  have total: "ob c = None \<or> has_status ob VerifiedPass c \<or> has_status ob VerifiedFail c
      \<or> has_status ob StatusUnknown c" for c
    by (cases "ob c"; cases "ev_status (the (ob c))") (auto simp: has_status_def)
  have d: "distinct (?p @ ?f @ ?u)" using assms(1)
    by (auto simp: has_status_def split: option.splits)
  have s: "set (?p @ ?f @ ?u) = set refs" by (simp add: set_eq_iff) (use total in blast)
  have b: "map evb_contract_ref ?b = filter (\<lambda>c. ob c \<noteq> None) refs"
    by (rule evidence_bindings_contracts)
  have r: "\<forall>x \<in> set ?b. \<not> is_blank (evb_receipt_ref x)"
    using evidence_bindings_receipts assms(2) by metis
  have pb: "set ?p \<union> set ?f \<subseteq> set (map evb_contract_ref ?b)" 
    by (auto simp: b has_status_def split: option.splits)
  show ?thesis
    using d s r pb assms(1)
    unfolding receipt_contracts_sound_def receipt_of_draft_def draft_of_evidence_def Let_def
    by (simp add: b partition_verdict_def)
qed

section \<open>Reconciliation and the journal\<close>

lemma find_map_filter:
  "find_map f (filter P xs) = find_map (\<lambda>x. if P x then f x else None) xs"
  by (induction xs) (auto split: option.splits)

lemma admitted_envelope_eq: "admitted_envelope j aid = admitted_envelope_for (journal_entries j) aid"
  unfolding admitted_envelope_def admitted_envelope_for_def entries_for_def find_map_filter
  by (rule arg_cong [where f = "\<lambda>f. find_map f _"]) auto

lemma check_observation_Inr:
  "check_observation current_snapshot envelope obs = Inr () \<longleftrightarrow>
     obr_provider_incarnation_ref obs = provider_incarnation_ref (metadata envelope)
     \<and> obr_target_incarnation_ref obs = target_incarnation_ref (metadata envelope)
     \<and> obr_session_id obs = env_session_id envelope
     \<and> (\<exists>snapshot. current_snapshot (env_session_id envelope) = Some snapshot
          \<and> snap_receipt_id snapshot = obr_reconciliation_receipt_ref obs
          \<and> snap_snapshot_cut_ref snapshot = obr_snapshot_cut_ref obs
          \<and> snap_provider_incarnation_ref snapshot = obr_provider_incarnation_ref obs
          \<and> snap_target_incarnation_ref snapshot = obr_target_incarnation_ref obs
          \<and> snap_completeness snapshot = SEstablished \<and> snap_incompleteness_debt snapshot = [])"
  by (auto simp: check_observation_def split: option.splits)

lemma draft_of_evidence_simps:
  "dr_action_id (draft_of_evidence obs refs ob) = obr_action_id obs"
  "dr_session_id (draft_of_evidence obs refs ob) = obr_session_id obs"
  "dr_provider_incarnation_ref (draft_of_evidence obs refs ob) = obr_provider_incarnation_ref obs"
  "dr_target_incarnation_ref (draft_of_evidence obs refs ob) = obr_target_incarnation_ref obs"
  "dr_expected_postcondition_contract_refs (draft_of_evidence obs refs ob) = refs"
  "dr_observation_snapshot_cut_ref (draft_of_evidence obs refs ob) = obr_snapshot_cut_ref obs"
  "dr_reconciliation_receipt_ref (draft_of_evidence obs refs ob) = obr_reconciliation_receipt_ref obs"
  "dr_causal_assurance (draft_of_evidence obs refs ob) = obr_cause obs"
  by (simp_all add: draft_of_evidence_def Let_def)

text \<open>
  An observation receipt that is still current: its cause is the last dispatch record of the
  action, and its cut is not the one the action was planned on.
\<close>

definition observation_current ::
  "consequential_journal \<Rightarrow> canonical_action_envelope \<Rightarrow> postcondition_observation_receipt \<Rightarrow> bool"
  where
  "observation_current j envelope obs \<longleftrightarrow>
     postcondition_observation_cause_for (journal_entries j) (obr_action_id obs)
       = Some (obr_cause obs)
     \<and> recovery_state_of j (obr_action_id obs)
         \<in> {Some RDispatchPrepared, Some RPossiblyDispatched, Some ROutcomeObservedUnverified}
     \<and> \<not> is_blank (obr_snapshot_cut_ref obs)
     \<and> obr_snapshot_cut_ref obs \<noteq> precondition_snapshot_cut_ref (metadata envelope)
     \<and> \<not> is_blank (obr_reconciliation_receipt_ref obs)"

lemma cause_sequence_bound:
  assumes "history_ok us Replay es" "length es < 2 ^ 64 - 1"
    and "postcondition_observation_cause_for es aid = Some c"
  shows "causal_journal_sequence c < of_nat (length es) + 1"
proof -
  from observation_cause_earlier [OF assms(3)] obtain e where
    e: "e \<in> set es" "causal_journal_sequence c = journal_sequence e" by blast
  then obtain i where i: "i < length es" "es ! i = e" by (auto simp: in_set_conv_nth)
  then have "journal_sequence e = of_nat i + 1" using history_sequence [OF assms(1) i(1)] by simp
  moreover have "unat (of_nat i + 1 :: u64) = i + 1"
    using unat_of_nat_64 [of "i + 1"] i(1) assms(2) by (simp add: add.commute)
  moreover have "unat (of_nat (length es) + 1 :: u64) = length es + 1"
    using unat_of_nat_64 [of "length es + 1"] assms(2) by (simp add: add.commute)
  ultimately show ?thesis using e(2) i(1) by (simp add: word_less_nat_alt)
qed

text \<open>The journal accepts the receipt that current evidence leads to.\<close>

lemma reconciled_receipt_accepted:
  assumes wf: "journal_wf us j" and cap: "within_capacity j"
    and env: "admitted_envelope_for (journal_entries j) (obr_action_id obs) = Some envelope"
    and chk: "check_observation current_snapshot envelope obs = Inr ()"
    and exp: "exact_expected_postconditions envelope = Inr expected"
    and ev: "exact_observed_postconditions expected Map.empty items = Inr observed"
    and cur: "observation_current j envelope obs"
  defines "draft \<equiv> draft_of_evidence obs
    (expected_postcondition_contract_refs (metadata envelope)) observed"
  shows "validate_transition us (journal_entries j) (obr_action_id obs)
    (PostconditionReceiptRecorded (receipt_of_draft us (next_sequence j) draft)) Append = Inr ()"
proof -
  let ?es = "journal_entries j" and ?aid = "obr_action_id obs"
  let ?r = "receipt_of_draft us (next_sequence j) draft"
  have refs: "expected_postcondition_contract_refs (metadata envelope) \<noteq> []"
    "distinct (expected_postcondition_contract_refs (metadata envelope))"
    using exp by (simp_all add: exact_expected_Inr Let_def)
  have seq: "next_sequence j = of_nat (length ?es) + 1" and h: "history_ok us Replay ?es"
    using wf by (simp_all add: journal_wf_def)
  have "\<not> is_blank (ev_receipt_ref e)" if "observed c = Some e" for c e
    using exact_observed_ok [OF ev _ that] by (simp add: evidence_ok_def)
  then have "receipt_contracts_sound ?r"
    unfolding draft_def by (rule draft_of_evidence_sound [OF refs(2)])
  moreover have "causal_journal_sequence (obr_cause obs) < of_nat (length ?es) + 1"
    by (intro cause_sequence_bound [OF h])
      (use cur cap in \<open>auto simp: observation_current_def within_capacity_def\<close>)
  then have "receipt_bound us ?es ?aid envelope ?r"
    using chk refs cur
    by (simp add: receipt_bound_def receipt_of_draft_def draft_def draft_of_evidence_simps seq
        check_observation_Inr observation_current_def)
  ultimately have "validate_action_postcondition_receipt us ?es ?aid ?r
      (recovery_state_for ?es ?aid) = Inr ()"
    using validate_action_postcondition_receipt_ok env by blast
  then show ?thesis using cur
    by (auto simp: validate_transition_def Let_def observation_current_def recovery_state_of_def)
qed

lemma append_without_faults:
  assumes "validate_transition (uuid_display ext) (journal_entries j) aid t Append = Inr ()"
    and "entry_to_vec ext (next_entry j aid t now) = Inr encoded"
  shows "append_validated_locked ext j aid t now no_append_faults fs
    = (Inr (next_entry j aid t now), push_entry j (next_entry j aid t now),
       fs(journal_path j \<mapsto> file_contents fs (journal_path j) @ encoded @ [newline]))"
  using assms by (simp add: append_validated_locked_def next_entry_def [symmetric] Let_def
      append_on_worker_def append_durable_def no_append_faults_def push_entry_def)

lemma postdispatch_cut_not_blank: "\<not> is_blank (postdispatch_cut us i aid cause ref)"
  by (simp add: postdispatch_cut_def whitespace1_def whitespace2_def whitespace3_def)

lemma begin_observation_Inr:
  assumes "begin_postcondition_observation ext j aid observation_ref = (Inr permit, j')"
  obtains envelope cause where
    "live_dispatch_prepared j aid = None" "live_dispatch_execution j aid = None"
    "live_postcondition_observation j aid = None"
    "recovery_state_for (journal_entries j) aid
       \<in> {Some RDispatchPrepared, Some RPossiblyDispatched, Some ROutcomeObservedUnverified}"
    "admitted_envelope_for (journal_entries j) aid = Some envelope"
    "postcondition_observation_cause_for (journal_entries j) aid = Some cause"
    "obs_action_id permit = aid" "obs_cause permit = cause"
    "obs_session_id permit = env_session_id envelope"
    "obs_provider_incarnation_ref permit = provider_incarnation_ref (metadata envelope)"
    "obs_target_incarnation_ref permit = target_incarnation_ref (metadata envelope)"
    "\<not> is_blank (obs_snapshot_cut_ref permit)"
    "journal_entries j' = journal_entries j" "observation_live j' permit"
    "live_dispatch_prepared j' = live_dispatch_prepared j"
    "live_dispatch_execution j' = live_dispatch_execution j"
proof -
  let ?es = "journal_entries j"
  from assms have free: "live_dispatch_prepared j aid = None" "live_dispatch_execution j aid = None"
    "live_postcondition_observation j aid = None"
    and st: "recovery_state_for ?es aid
       \<in> {Some RDispatchPrepared, Some RPossiblyDispatched, Some ROutcomeObservedUnverified}"
    unfolding begin_postcondition_observation_def Let_def by (auto split: if_splits)
  from assms free st obtain envelope cause where
    env: "admitted_envelope_for ?es aid = Some envelope"
    and cause: "postcondition_observation_cause_for ?es aid = Some cause"
    unfolding begin_postcondition_observation_def Let_def
    by (cases "admitted_envelope_for ?es aid"; cases "postcondition_observation_cause_for ?es aid")
       (simp_all split: if_splits)
  note result = assms [unfolded begin_postcondition_observation_def Let_def]
  show thesis
    by (rule that [OF free st env cause])
      (use result free st env cause in \<open>auto simp: observation_live_def
        observation_grant_matches_def postdispatch_cut_not_blank\<close>)
qed

lemma complete_observation_Inr:
  assumes "complete_postcondition_observation j permit snapshot = (Inr obs, j')"
  shows "observation_live j permit"
    "journal_entries j' = journal_entries j" "next_sequence j' = next_sequence j"
    "obs = \<lparr>obr_action_id = obs_action_id permit, obr_session_id = obs_session_id permit,
       obr_provider_incarnation_ref = obs_provider_incarnation_ref permit,
       obr_target_incarnation_ref = obs_target_incarnation_ref permit,
       obr_snapshot_cut_ref = obs_snapshot_cut_ref permit,
       obr_reconciliation_receipt_ref = snap_receipt_id snapshot, obr_cause = obs_cause permit\<rparr>"
    "\<not> is_blank (snap_receipt_id snapshot)"
    "snap_provider_incarnation_ref snapshot = obs_provider_incarnation_ref permit"
    "snap_target_incarnation_ref snapshot = obs_target_incarnation_ref permit"
    "snap_snapshot_cut_ref snapshot = obs_snapshot_cut_ref permit"
  using assms by (auto simp: complete_postcondition_observation_def Let_def observation_live_def
      split: if_splits option.splits)

end
