(* ===== verification/Scenario.thy ===== *)
theory Scenario
  imports Reconciliation
begin

text \<open>
  One action from admission to commit, as concrete data: the history the journal writes, the
  receipts and tokens on the way, and an encoder and decoder for its entries. The witnesses
  of the properties are evaluated on it.
\<close>

definition demo_display :: "uuid \<Rightarrow> string" where
  "demo_display u = show_nat (unat u)"

definition demo_metadata :: action_envelope_metadata where
  "demo_metadata = \<lparr>decision_principal_ref = PrincipalRef ''alice'',
     acting_principal_ref = PrincipalRef ''agent'', authorization_revision = ''rev'',
     precondition_snapshot_cut_ref = ''cut'',
     provider_incarnation_ref = ProviderIncarnationRef ''provider'',
     target_incarnation_ref = TargetIncarnationRef ''target'',
     risk_class = ExternalSideEffect, idempotency_class = CompensatableNonIdempotent,
     expected_postcondition_contract_refs = [''c'']\<rparr>"

definition demo_envelope :: canonical_action_envelope where
  "demo_envelope = \<lparr>envelope_id = 3, transport_action_id = 7, env_session_id = 5,
     metadata = demo_metadata\<rparr>"

definition demo_preparation :: dispatch_preparation_receipt where
  "demo_preparation = \<lparr>prep_receipt_ref = ''prep'', prep_authorization_journal_sequence = 2,
     prep_precondition_snapshot_cut_ref = ''cut'',
     prep_provider_incarnation_ref = ProviderIncarnationRef ''provider'',
     prep_target_incarnation_ref = TargetIncarnationRef ''target''\<rparr>"

definition demo_linearization :: dispatch_linearization_receipt where
  "demo_linearization = \<lparr>lin_receipt_ref = ''lin'', lin_transport_result = DeliveredToExecutor,
     lin_dispatch_result = DispatchedFull\<rparr>"

definition demo_receipt :: action_postcondition_receipt where
  "demo_receipt = \<lparr>pc_receipt_ref = ''postcondition:7:5'', pc_action_id = 7, pc_session_id = 5,
     pc_provider_incarnation_ref = ProviderIncarnationRef ''provider'',
     pc_target_incarnation_ref = TargetIncarnationRef ''target'',
     pc_expected_postcondition_contract_refs = [''c''],
     pc_observation_snapshot_cut_ref = ''postdispatch:9:7:4:12'',
     pc_reconciliation_receipt_ref = ''snap'',
     pc_evidence_receipt_refs = [''ev''],
     pc_evidence_bindings = [\<lparr>evb_contract_ref = ''c'', evb_receipt_ref = ''ev''\<rparr>],
     pc_verified_contract_refs = [''c''], pc_failed_contract_refs = [],
     pc_verdict = VerifiedExpected, pc_unresolved_unknown_contract_refs = [],
     pc_causal_assurance = CauseDispatchLinearized 4 ''lin'',
     pc_completion_journal_sequence = 5\<rparr>"

definition demo_entry :: "u64 \<Rightarrow> journal_transition \<Rightarrow> journal_entry" where
  "demo_entry n t = \<lparr>schema_version = 1, journal_sequence = n, action_id = 7,
     recorded_at = 0, transition = t\<rparr>"

definition demo_history :: "journal_entry list" where
  "demo_history =
     [demo_entry 1 (IntentAdmitted demo_envelope),
      demo_entry 2 (AuthorizationRecorded ''rev'' True),
      demo_entry 3 (DispatchPrepared demo_preparation),
      demo_entry 4 (DispatchLinearized demo_linearization),
      demo_entry 5 (PostconditionReceiptRecorded demo_receipt),
      demo_entry 6 Committed]"

text \<open>An encoder for the entries of the history and of one more: a byte for each.\<close>

definition demo_universe :: "journal_entry list" where
  "demo_universe = demo_history @ [demo_entry 3 (AuthorizationRecorded ''rev'' False)]"

fun demo_index :: "'a \<Rightarrow> nat \<Rightarrow> 'a list \<Rightarrow> nat option" where
  "demo_index x n [] = None"
| "demo_index x n (y # ys) = (if x = y then Some n else demo_index x (n + 1) ys)"

definition demo_externals :: externals where
  "demo_externals = \<lparr>uuid_display = demo_display,
     entry_to_vec = (\<lambda>e. case demo_index e 65 demo_universe of
        None \<Rightarrow> Inl ''unknown'' | Some n \<Rightarrow> Inr [of_nat n]),
     entry_from_slice = (\<lambda>bs. case bs of
        [b] \<Rightarrow> (if 65 \<le> unat b \<and> unat b - 65 < length demo_universe
                then Inr (demo_universe ! (unat b - 65)) else Inl ''unknown'')
      | _ \<Rightarrow> Inl ''unknown'')\<rparr>"

definition demo_journal :: "nat \<Rightarrow> consequential_journal" where
  "demo_journal n = \<lparr>journal_path = ''journal'', journal_instance_ref = 9,
     next_sequence = of_nat n + 1, journal_entries = take n demo_history,
     live_dispatch_prepared = (\<lambda>_. None), live_dispatch_execution = (\<lambda>_. None),
     live_postcondition_observation = (\<lambda>_. None)\<rparr>"

definition demo_fs :: "nat \<Rightarrow> file_system" where
  "demo_fs n = [''journal'' \<mapsto> encode_log demo_externals (take n demo_history)]"

lemma demo_journal_simps [simp]:
  "journal_path (demo_journal n) = ''journal''" "journal_instance_ref (demo_journal n) = 9"
  "next_sequence (demo_journal n) = of_nat n + 1"
  "journal_entries (demo_journal n) = take n demo_history"
  "live_dispatch_prepared (demo_journal n) = (\<lambda>_. None)"
  "live_dispatch_execution (demo_journal n) = (\<lambda>_. None)"
  "live_postcondition_observation (demo_journal n) = (\<lambda>_. None)"
  by (simp_all add: demo_journal_def)

lemma demo_display_of [simp]: "uuid_display demo_externals = demo_display"
  by (simp add: demo_externals_def)

lemma demo_history_length [simp]: "length demo_history = 6"
  by (simp add: demo_history_def)

lemmas demo_defs = demo_display_def demo_metadata_def demo_envelope_def demo_preparation_def
  demo_linearization_def demo_receipt_def demo_entry_def demo_history_def

lemma demo_history_ok: "history_ok demo_display Append demo_history"
  by code_simp

lemma demo_encodes: "encodes demo_externals demo_universe"
  by code_simp

lemma demo_prefix:
  "history_ok (uuid_display demo_externals) Append (take n demo_history)"
  "history_ok (uuid_display demo_externals) Replay (take n demo_history)"
  "encodes demo_externals (take n demo_history)"
  "length (take n demo_history) < 2 ^ 64 - 1"
proof -
  have "history_ok demo_display Append (take n demo_history @ drop n demo_history)"
    using demo_history_ok by simp
  then have "history_ok demo_display Append (take n demo_history)"
    unfolding history_from_append by blast
  then show "history_ok (uuid_display demo_externals) Append (take n demo_history)"
    "history_ok (uuid_display demo_externals) Replay (take n demo_history)"
    using history_from_replay by simp_all
  have "encodes demo_externals (take n demo_history @ drop n demo_history)"
    using demo_encodes by (simp add: demo_universe_def)
  then show "encodes demo_externals (take n demo_history)" unfolding encodes_simps by blast
qed simp

lemma demo_open:
  "open_journal demo_externals ''journal'' 9 no_load_faults (demo_fs 2)
     = (Inr (demo_journal 2), demo_fs 2)"
  using open_of_history [where ext = demo_externals and tail = "[]" and fs = "demo_fs 2"
      and p = "''journal''" and instance_ref = 9, OF demo_prefix(2-4) [of 2]]
  by (simp add: demo_fs_def demo_journal_def)

lemma demo_wf:
  assumes "n \<le> 6"
  shows "journal_wf demo_display (demo_journal n)" "within_capacity (demo_journal n)"
  using demo_prefix(2) [of n] assms
  by (simp_all add: journal_wf_def action_authority_ok_def within_capacity_def)

lemma demo_sync: "in_sync demo_externals (demo_journal 2) (demo_fs 2)"
  using demo_prefix(3) [of 2] by (simp add: in_sync_def demo_fs_def)

lemma demo_next: "next_entry (demo_journal 2) 7 (DispatchPrepared demo_preparation) 0
    = demo_entry 3 (DispatchPrepared demo_preparation)"
  by (simp add: next_entry_def demo_journal_def demo_entry_def journal_schema_version_def)

lemma demo_next_encodes:
  "encodes demo_externals [demo_entry 3 (DispatchPrepared demo_preparation)]"
  by code_simp

lemma demo_next_capacity: "within_capacity (push_entry (demo_journal 2) e)"
  by (simp add: within_capacity_def demo_journal_def demo_history_def)

text \<open>The journal right after the preparation was recorded, and its capability.\<close>

definition demo_prepared :: consequential_journal where
  "demo_prepared = (demo_journal 3)\<lparr>live_dispatch_prepared :=
     [7 \<mapsto> \<lparr>lpg_capability_ref = 20, lpg_preparation_journal_sequence = 3,
            lpg_preparation_receipt_ref = ''prep''\<rparr>]\<rparr>"

definition demo_capability :: dispatch_prepared_capability where
  "demo_capability = \<lparr>cap_journal_instance_ref = 9, cap_action_id = 7,
     cap_preparation_journal_sequence = 3, cap_preparation_receipt_ref = ''prep'',
     cap_capability_ref = 20\<rparr>"

lemma demo_state_prepared: "recovery_state_for (take 3 demo_history) 7 = Some RDispatchPrepared"
  by code_simp

lemma demo_durable_preparation: "durable_preparation_matches (take 3 demo_history) 7 3 ''prep''"
  by code_simp

lemma demo_prepared_wf: "journal_wf demo_display demo_prepared"
  by (rule journal_wf_grants [OF demo_wf(1) [of 3]])
    (auto simp: demo_prepared_def demo_durable_preparation)

lemma demo_begin:
  "\<exists>permit j1. begin_dispatch demo_prepared demo_capability 21 = (Inr permit, j1)
     \<and> perm_action_id permit = 7 \<and> journal_entries j1 = take 3 demo_history
     \<and> execution_live (j1, fs) permit"
  by (simp add: begin_dispatch_def demo_prepared_def demo_capability_def Let_def
      prepared_grant_matches_def demo_state_prepared demo_durable_preparation
      execution_live_def execution_grant_matches_def)

lemma demo_admitted: "admitted_envelope_for (take 4 demo_history) 7 = Some demo_envelope"
  by code_simp

lemma demo_cause: "postcondition_observation_cause_for (take 4 demo_history) 7
    = Some (CauseDispatchLinearized 4 ''lin'')"
  by code_simp

lemma demo_state_linearized: "recovery_state_for (take 4 demo_history) 7 = Some RPossiblyDispatched"
  by code_simp

lemma demo_cut: "postdispatch_cut demo_display 9 7 (CauseDispatchLinearized 4 ''lin'') 12
    = ''postdispatch:9:7:4:12''"
  by code_simp

definition demo_snapshot :: reconciliation_snapshot_receipt where
  "demo_snapshot = \<lparr>snap_receipt_id = ''snap'',
     snap_provider_incarnation_ref = ProviderIncarnationRef ''provider'',
     snap_target_incarnation_ref = TargetIncarnationRef ''target'',
     snap_snapshot_cut_ref = ''postdispatch:9:7:4:12'', snap_surface_scope = ''scope'',
     snap_completeness = SEstablished, snap_cache_profile_revision = ''r'',
     snap_permission_visibility_revision = ''v'', snap_capture_sequence = 1,
     snap_observed_digest = ''d'', snap_incompleteness_debt = []\<rparr>"

lemmas demo_begin_observation = begin_postcondition_observation_def demo_state_linearized
  demo_admitted demo_cause demo_cut demo_envelope_def demo_metadata_def

lemma demo_observe:
  "\<exists>permit j1. begin_postcondition_observation demo_externals (demo_journal 4) 7 12
     = (Inr permit, j1) \<and> journal_entries j1 = take 4 demo_history"
  by (simp add: demo_begin_observation Let_def)

lemma demo_observe_complete:
  "\<exists>permit j1 obs j2. begin_postcondition_observation demo_externals (demo_journal 4) 7 12
       = (Inr permit, j1)
     \<and> complete_postcondition_observation j1 permit demo_snapshot = (Inr obs, j2)
     \<and> obs_snapshot_cut_ref permit \<noteq> precondition_snapshot_cut_ref (metadata demo_envelope)
     \<and> journal_entries j2 = take 4 demo_history"
  by (simp add: demo_begin_observation Let_def complete_postcondition_observation_def
      observation_grant_matches_def demo_snapshot_def whitespace1_def whitespace2_def)

text \<open>The observation receipt of that cycle, and passing evidence for the declared contract.\<close>

definition demo_reconciliation :: reconciliation_receipt where
  "demo_reconciliation = \<lparr>rr_observation =
       \<lparr>obr_action_id = 7, obr_session_id = 5,
        obr_provider_incarnation_ref = ProviderIncarnationRef ''provider'',
        obr_target_incarnation_ref = TargetIncarnationRef ''target'',
        obr_snapshot_cut_ref = ''postdispatch:9:7:4:12'',
        obr_reconciliation_receipt_ref = ''snap'',
        obr_cause = CauseDispatchLinearized 4 ''lin''\<rparr>,
     rr_postconditions =
       [\<lparr>ev_contract_ref = ''c'', ev_status = VerifiedPass, ev_receipt_ref = ''ev''\<rparr>]\<rparr>"

definition demo_observed :: "string \<rightharpoonup> postcondition_evidence" where
  "demo_observed = [''c'' \<mapsto>
     \<lparr>ev_contract_ref = ''c'', ev_status = VerifiedPass, ev_receipt_ref = ''ev''\<rparr>]"

lemma demo_observation_current:
  "observation_current (demo_journal 4) demo_envelope (rr_observation demo_reconciliation)"
  by (simp add: observation_current_def demo_reconciliation_def demo_cause recovery_state_of_def
      demo_state_linearized demo_envelope_def demo_metadata_def whitespace1_def whitespace2_def
      whitespace3_def)

lemma demo_check_observation:
  "check_observation (\<lambda>_. Some demo_snapshot) demo_envelope (rr_observation demo_reconciliation)
     = Inr ()"
  by (simp add: check_observation_def demo_reconciliation_def demo_envelope_def demo_metadata_def
      demo_snapshot_def)

lemma demo_expected: "exact_expected_postconditions demo_envelope = Inr {''c''}"
  by (simp add: exact_expected_postconditions_def demo_envelope_def demo_metadata_def)

lemma demo_evidence:
  "exact_observed_postconditions {''c''} Map.empty (rr_postconditions demo_reconciliation)
     = Inr demo_observed"
  by (simp add: demo_reconciliation_def demo_observed_def whitespace1_def whitespace2_def
      whitespace3_def)

lemma demo_draft: "receipt_of_draft demo_display 5 (draft_of_evidence (rr_observation
    demo_reconciliation) [''c''] demo_observed) = demo_receipt"
proof -
  have "show_u64 5 = ''5''" "demo_display 7 = ''7''" by code_simp+
  then show ?thesis
    by (simp add: receipt_of_draft_def draft_of_evidence_def demo_reconciliation_def
        demo_observed_def has_status_def evidence_bindings_of_def List.map_filter_def
        postcondition_receipt_ref_def demo_receipt_def)
qed

lemma demo_receipt_encodes:
  "\<exists>bs. entry_to_vec demo_externals (demo_entry 5 (PostconditionReceiptRecorded demo_receipt))
     = Inr bs"
proof -
  have "encodes demo_externals [demo_entry 5 (PostconditionReceiptRecorded demo_receipt)]"
    by code_simp
  then show ?thesis by (auto simp: encodes_Cons)
qed

end
