(* ===== verification/Journal_Properties.thy ===== *)
theory Journal_Properties
  imports Scenario
begin

text \<open>
  The properties of the consequential journal, each with a witness on the scenario: what a
  running journal keeps under every fault, what a restart finds, which authority a token
  stands for and how often it can be used, and what the history of an action must contain.
\<close>

section \<open>A running journal\<close>

text \<open>C1. In every state that operations, with any arguments and under any faults, reach
  from a journal that was opened, the history is one that replay accepts, the next sequence
  number is the next place of the history, and of each action at most one authority is live
  and bound to the durable entry it was minted from.\<close>

theorem running_journal_invariant:
  assumes "open_journal ext p instance_ref faults fs = (Inr j, fs1)"
    and "journal_steps ext (j, fs1) (j', fs2)" and "within_capacity j'"
  shows "journal_wf (uuid_display ext) j'"
  using journal_steps_wf [OF assms(2)] open_journal_wf [OF assms(1)]
    journal_steps_within_capacity [OF assms(2)] assms(3) by simp

theorem running_journal_invariant_witness:
  "journal_wf demo_display (snd (abandon_dispatch_execution (demo_journal 2)
     \<lparr>perm_journal_instance_ref = 9, perm_action_id = 7, perm_preparation_journal_sequence = 3,
      perm_preparation_receipt_ref = ''prep'', perm_permit_ref = 1\<rparr>))"
proof -
  let ?permit = "\<lparr>perm_journal_instance_ref = 9, perm_action_id = 7,
    perm_preparation_journal_sequence = 3, perm_preparation_receipt_ref = ''prep'',
    perm_permit_ref = 1\<rparr>"
  have a: "abandon_dispatch_execution (demo_journal 2) ?permit
    = (Inl (InvalidDispatchPermit 7 ''live_execution_grant_missing''), demo_journal 2)"
    by (simp add: abandon_dispatch_execution_def demo_journal_def)
  have "journal_steps demo_externals (demo_journal 2, demo_fs 2) (demo_journal 2, demo_fs 2)"
    by (rule steps_step [OF steps_refl step_abandon_dispatch_execution [OF a]])
  from running_journal_invariant [OF demo_open this demo_wf(2) [of 2]] a
  show ?thesis by simp
qed



text \<open>C9. Opening a file that holds an encoded valid history followed by any incomplete
  record gives back exactly that history, removes the incomplete record from the file, sets
  the next sequence number to the next place, and restores no authority.\<close>

theorem reopen_restores_history:
  assumes "history_ok (uuid_display ext) Replay es" and "encodes ext es"
    and "length es < 2 ^ 64 - 1" and "newline \<notin> set tail"
    and "fs p = Some (encode_log ext es @ tail)"
  shows "open_journal ext p instance_ref no_load_faults fs =
    (Inr \<lparr>journal_path = p, journal_instance_ref = instance_ref,
          next_sequence = of_nat (length es) + 1, journal_entries = es,
          live_dispatch_prepared = (\<lambda>_. None), live_dispatch_execution = (\<lambda>_. None),
          live_postcondition_observation = (\<lambda>_. None)\<rparr>,
     fs(p \<mapsto> encode_log ext es))"
  using open_of_history [where ext = ext and fs = fs and p = p] assms by blast

theorem reopen_restores_history_witness:
  "\<exists>j. fst (open_journal demo_externals ''journal'' 9 no_load_faults
     [''journal'' \<mapsto> encode_log demo_externals (take 2 demo_history) @ [67]]) = Inr j
     \<and> journal_entries j = take 2 demo_history"
proof -
  have t: "newline \<notin> set [67]" by code_simp
  from reopen_restores_history [where ext = demo_externals and fs = "[''journal'' \<mapsto>
      encode_log demo_externals (take 2 demo_history) @ [67]]" and p = "''journal''"
      and instance_ref = 9, OF demo_prefix(2-4) t] show ?thesis by simp
qed

text \<open>Loading is sound for any contents of the file: when it succeeds, the history it
  returns is one that replay accepts, every complete record of the file was decoded to one
  entry, in order, and the file keeps its complete records.\<close>

theorem load_sound:
  assumes "load_and_repair ext p faults fs = (Inr es, fs')"
  shows "history_ok (uuid_display ext) Replay es
    \<and> (\<exists>c tail. fs' = fs(p \<mapsto> c) \<and> file_contents fs p = c @ tail \<and> newline \<notin> set tail
        \<and> map (entry_from_slice ext) (split_records [] c) = map Inr es)"
  using load_and_repair_sound [OF assms] by blast

theorem load_sound_witness:
  "history_ok (uuid_display demo_externals) Replay (take 2 demo_history)
    \<and> (\<exists>c tail. demo_fs 2 = (demo_fs 2)(''journal'' \<mapsto> c)
        \<and> file_contents (demo_fs 2) ''journal'' = c @ tail \<and> newline \<notin> set tail
        \<and> map (entry_from_slice demo_externals) (split_records [] c)
            = map Inr (take 2 demo_history))"
proof -
  have "load_and_repair demo_externals ''journal'' no_load_faults (demo_fs 2)
      = (Inr (take 2 demo_history), demo_fs 2)"
    using open_journal_Inr(1) [OF demo_open] by (simp add: demo_journal_def)
  from load_sound [OF this] show ?thesis .
qed

text \<open>C8. When an append wrote its record but its sync failed, the journal stays usable, and the
  next append that succeeds gives the file a second record with the same sequence number: no
  restart opens that file again.\<close>

theorem refused_append_corrupts_journal:
  assumes "journal_wf (uuid_display ext) j" and "in_sync ext j fs"
    and "encodes ext [next_entry j aid1 t1 now1, next_entry j aid2 t2 now2]"
    and "validate_transition (uuid_display ext) (journal_entries j) aid1 t1 Append = Inr ()"
    and "append_validated_locked ext j aid1 t1 now1
      (no_append_faults\<lparr>append_sync_fault := Some message\<rparr>) fs = (r1, j1, fs1)"
    and "append_validated_locked ext j1 aid2 t2 now2 faults fs1 = (Inr e2, j2, fs2)"
  shows "\<exists>cause fs3. open_journal ext (journal_path j) instance_ref no_load_faults fs2
    = (Inl (CorruptRecord (length (journal_entries j) + 2) cause), fs3)"
  by (rule reopen_after_refused_append [OF assms])

theorem refused_append_corrupts_journal_witness:
  "\<exists>j1 fs1 e2 j2 fs2 cause fs3.
     append_validated_locked demo_externals (demo_journal 2) 7 (AuthorizationRecorded ''rev'' False)
       0 (no_append_faults\<lparr>append_sync_fault := Some ''io''\<rparr>) (demo_fs 2)
       = (Inl (Io ''append_sync'' ''io''), j1, fs1)
     \<and> append_validated_locked demo_externals j1 7 (DispatchPrepared demo_preparation)
         0 no_append_faults fs1 = (Inr e2, j2, fs2)
     \<and> open_journal demo_externals ''journal'' 10 no_load_faults fs2
         = (Inl (CorruptRecord 4 cause), fs3)"
proof -
  let ?j = "demo_journal 2" and ?t1 = "AuthorizationRecorded ''rev'' False"
    and ?t2 = "DispatchPrepared demo_preparation"
  let ?e1 = "next_entry ?j 7 ?t1 0" and ?e2 = "next_entry ?j 7 ?t2 0"
  have n: "?e1 = demo_entry 3 ?t1" "?e2 = demo_entry 3 ?t2"
    by (simp_all add: next_entry_def demo_entry_def journal_schema_version_def)
  have "encodes demo_externals [demo_entry 3 ?t1, demo_entry 3 ?t2]" by code_simp
  then have enc: "encodes demo_externals [?e1, ?e2]" "encodes demo_externals [?e1]"
    "encodes demo_externals [?e2]" unfolding n by (simp_all add: encodes_Cons)
  have "validate_transition demo_display (take 2 demo_history) 7 ?t1 Append = Inr ()"
    "validate_transition demo_display (take 2 demo_history) 7 ?t2 Append = Inr ()"
    by code_simp+
  then have v: "validate_transition (uuid_display demo_externals) (journal_entries ?j) 7 ?t1 Append = Inr ()"
    "validate_transition (uuid_display demo_externals) (journal_entries ?j) 7 ?t2 Append = Inr ()"
    by simp_all
  have wf: "journal_wf (uuid_display demo_externals) ?j" using demo_wf(1) [of 2] by simp
  obtain r1 j1 fs1 where a1: "append_validated_locked demo_externals ?j 7 ?t1 0
      (no_append_faults\<lparr>append_sync_fault := Some ''io''\<rparr>) (demo_fs 2) = (r1, j1, fs1)"
    by (metis prod_cases3)
  then have r1: "r1 = Inl (Io ''append_sync'' ''io'')" "j1 = ?j"
    using written_but_refused [OF a1 v(1) enc(2)] demo_sync by (auto simp: in_sync_def)
  obtain bs where "entry_to_vec demo_externals ?e2 = Inr bs"
    using enc(3) by (auto simp: encodes_Cons)
  note a2 = append_without_faults [OF v(2) this, of fs1]
  from refused_append_corrupts_journal [OF wf demo_sync enc(1) v(1) a1 a2 [folded r1(2)], of 10]
  obtain cause fs3 where "open_journal demo_externals ''journal'' 10 no_load_faults
      (fs1(''journal'' \<mapsto> file_contents fs1 ''journal'' @ bs @ [newline]))
      = (Inl (CorruptRecord 4 cause), fs3)" by (auto simp: r1)
  then show ?thesis using a1 a2 unfolding r1 demo_journal_simps by blast
qed

end
