(* ===== verification/Authority_Properties.thy ===== *)
theory Authority_Properties
  imports Scenario
begin

text \<open>
  Properties of the one-shot authorities of the journal and of the histories they lead to.
\<close>

section \<open>Dispatch authority\<close>

text \<open>Once a prepared capability was exchanged for an execution permit, no capability for
  that action is accepted in any later state of the journal, whatever operations run and
  whatever faults they meet; every attempt changes nothing.\<close>

theorem begun_capability_spent:
  assumes "journal_wf (uuid_display ext) j"
    and "begin_dispatch j capability permit_ref = (Inr permit, j1)"
    and "journal_steps ext (j1, fs1) (j2, fs2)" and "within_capacity j2"
    and "cap_action_id capability' = cap_action_id capability"
  shows "\<exists>err. begin_dispatch j2 capability' permit_ref' = (Inl err, j2)"
proof -
  from assms(2) have b: "begun_in j1 (cap_action_id capability)"
    "live_dispatch_prepared j1 (cap_action_id capability) = None"
    by (auto elim!: begin_dispatch_cases simp: begun_in_def dispatch_begun_def)
  have "journal_wf (uuid_display ext) j1"
    using begin_dispatch_wf [OF assms(1)] assms(2) by (metis snd_conv)
  with b no_capability_later [OF assms(3)] assms(4)
  have "live_dispatch_prepared j2 (cap_action_id capability') = None" by (simp add: assms(5))
  then show ?thesis by (intro begin_dispatch_rejected) (simp add: prepared_live_def)
qed

theorem begun_capability_spent_witness:
  "\<exists>permit j1 err. begin_dispatch demo_prepared demo_capability 21 = (Inr permit, j1)
     \<and> begin_dispatch j1 demo_capability 22 = (Inl err, j1)"
proof -
  obtain permit j1 where b: "begin_dispatch demo_prepared demo_capability 21 = (Inr permit, j1)"
    and e: "journal_entries j1 = take 3 demo_history"
    using demo_begin by blast
  have "journal_wf (uuid_display demo_externals) demo_prepared" using demo_prepared_wf by simp
  from begun_capability_spent [OF this b steps_refl [of _ "(j1, demo_fs 3)"], of demo_capability 22] b e
  show ?thesis by (auto simp: within_capacity_def)
qed

text \<open>Of any sequence of uses of prepared capabilities, at most one use succeeds for an
  action; a success therefore decides every later use.\<close>

theorem dispatch_begins_at_most_once:
  "length (filter (\<lambda>((capability, _), res). cap_action_id capability = aid \<and> \<not> isl res)
     (zip uses (prepared.run_uses uses j))) \<le> 1"
  using prepared.at_most_one_success [of aid uses j] by (simp add: prepared.successes_def)

text \<open>Abandoning and linearizing an execution permit spend the same authority: of any
  sequence of both, under any faults, at most one succeeds for an action.\<close>

theorem execution_permit_used_at_most_once:
  "length (filter (\<lambda>((permit, _), res). perm_action_id permit = aid \<and> \<not> isl res)
     (zip uses (execution.run_uses uses c))) \<le> 1"
  using execution.at_most_one_success [of aid uses c] by (simp add: execution.successes_def)

text \<open>C4. The permit to execute an action stands for a durable record: the history holds an
  admitted intent, a revalidated authorization of exactly the revision of that intent, and a
  preparation that binds the authorization, the precondition cut and the two incarnations.\<close>

theorem permit_is_backed_by_history:
  assumes "journal_wf us j" and "begin_dispatch j capability permit_ref = (Inr permit, j1)"
  shows "\<exists>envelope preparation. \<exists>e \<in> set (journal_entries j). \<exists>a \<in> set (journal_entries j).
    action_id e = perm_action_id permit \<and> transition e = DispatchPrepared preparation
    \<and> journal_sequence e = perm_preparation_journal_sequence permit
    \<and> admitted_envelope_for (journal_entries j) (perm_action_id permit) = Some envelope
    \<and> transport_action_id envelope = perm_action_id permit
    \<and> action_id a = perm_action_id permit
    \<and> transition a = AuthorizationRecorded (authorization_revision (metadata envelope)) True
    \<and> journal_sequence a = prep_authorization_journal_sequence preparation
    \<and> prep_precondition_snapshot_cut_ref preparation
        = precondition_snapshot_cut_ref (metadata envelope)
    \<and> prep_provider_incarnation_ref preparation = provider_incarnation_ref (metadata envelope)
    \<and> prep_target_incarnation_ref preparation = target_incarnation_ref (metadata envelope)"
proof -
  let ?es = "journal_entries j" and ?aid = "cap_action_id capability"
  have h: "history_ok us Replay ?es" using assms(1) by (simp add: journal_wf_def)
  from assms(2) have p: "perm_action_id permit = ?aid"
    "perm_preparation_journal_sequence permit = cap_preparation_journal_sequence capability"
    and d: "durable_preparation_matches ?es ?aid (cap_preparation_journal_sequence capability)
      (cap_preparation_receipt_ref capability)"
    and s: "recovery_state_for ?es ?aid = Some RDispatchPrepared"
    by (auto elim!: begin_dispatch_cases)
  from d obtain e preparation where e: "e \<in> set ?es" "action_id e = ?aid"
    "journal_sequence e = cap_preparation_journal_sequence capability"
    "transition e = DispatchPrepared preparation"
    unfolding durable_preparation_matches_iff by blast
  from preparation_backed [OF h e(1,4), unfolded e(2)] obtain envelope a where
    "admitted_envelope_for ?es ?aid = Some envelope" "a \<in> set ?es" "action_id a = ?aid"
    "transition a = AuthorizationRecorded (authorization_revision (metadata envelope)) True"
    "journal_sequence a = prep_authorization_journal_sequence preparation"
    "prep_precondition_snapshot_cut_ref preparation
        = precondition_snapshot_cut_ref (metadata envelope)"
    "prep_provider_incarnation_ref preparation = provider_incarnation_ref (metadata envelope)"
    "prep_target_incarnation_ref preparation = target_incarnation_ref (metadata envelope)"
    by blast
  moreover from this(1) have "transport_action_id envelope = ?aid"
    using admitted_envelope_known [OF h, of ?aid] s by auto
  ultimately show ?thesis using e p by metis
qed

theorem permit_is_backed_by_history_witness:
  "\<exists>permit j1 envelope. begin_dispatch demo_prepared demo_capability 21 = (Inr permit, j1)
     \<and> admitted_envelope_for (take 3 demo_history) (perm_action_id permit) = Some envelope"
proof -
  obtain permit j1 where b: "begin_dispatch demo_prepared demo_capability 21 = (Inr permit, j1)"
    using demo_begin by blast
  from permit_is_backed_by_history [OF demo_prepared_wf b] b
  show ?thesis by (auto simp: demo_prepared_def)
qed

text \<open>Linearizing is fail-closed: when it returns an error for a live permit, no
  authority over the action is left, memory has the history it had, and the action, whose
  last durable record still is the preparation, is one that requires reconciliation.\<close>

theorem failed_linearization_is_fail_closed:
  assumes "journal_wf us j" and "execution_live (j, fs) permit"
    and "record_dispatch_linearized ext j permit receipt now faults fs = (Inl err, j', fs')"
    and "recovery_state_of j (perm_action_id permit) = Some RDispatchPrepared"
  shows "live_dispatch_prepared j' (perm_action_id permit) = None
    \<and> live_dispatch_execution j' (perm_action_id permit) = None
    \<and> journal_entries j' = journal_entries j
    \<and> requires_reconciliation j' (perm_action_id permit) = Some True"
proof -
  let ?aid = "perm_action_id permit"
  let ?j = "j\<lparr>live_dispatch_execution := (live_dispatch_execution j)(?aid := None)\<rparr>"
  have "live_dispatch_prepared j ?aid = None"
    using journal_wf_authority [OF assms(1), of ?aid] assms(2)
    by (auto simp: authority_ok_iff execution_live_def split: option.splits)
  moreover have "j' = ?j \<or> append_validated_locked ext ?j ?aid (DispatchLinearized receipt) now
      faults fs = (Inl err, j', fs')"
    using assms(2,3) by (auto simp: record_dispatch_linearized_def execution_live_def Let_def
        split: option.splits if_splits)
  then have "j' = ?j" by (auto elim: append_validated_locked_cases)
  ultimately show ?thesis
    using assms(4) by (simp add: requires_reconciliation_def recovery_state_of_def)
qed

theorem failed_linearization_is_fail_closed_witness:
  "\<exists>permit j1 err j2 fs2. begin_dispatch demo_prepared demo_capability 21 = (Inr permit, j1)
     \<and> record_dispatch_linearized demo_externals j1 permit demo_linearization 0
         (no_append_faults\<lparr>append_write_fault := Some (0, ''disk full'')\<rparr>) (demo_fs 3)
         = (Inl err, j2, fs2)
     \<and> requires_reconciliation j2 7 = Some True"
proof -
  obtain permit j1 where b: "begin_dispatch demo_prepared demo_capability 21 = (Inr permit, j1)"
    and live: "execution_live (j1, demo_fs 3) permit" "perm_action_id permit = 7"
    "journal_entries j1 = take 3 demo_history"
    using demo_begin by blast
  have wf: "journal_wf demo_display j1"
    using begin_dispatch_wf [OF demo_prepared_wf] b by (metis snd_conv)
  let ?faults = "no_append_faults\<lparr>append_write_fault := Some (0, ''disk full'')\<rparr>"
  obtain r j2 fs2 where l: "record_dispatch_linearized demo_externals j1 permit demo_linearization 0
      ?faults (demo_fs 3) = (r, j2, fs2)" by (metis prod_cases3)
  have r: "recovery_state_of j1 7 = Some RDispatchPrepared"
    unfolding recovery_state_of_def live(3) by code_simp
  have "append_on_worker p bs ?faults fs = (Inl (Io ''append_write'' ''disk full''),
      fs(p \<mapsto> file_contents fs p))" for p bs fs
    by (simp add: append_on_worker_def append_durable_def no_append_faults_def)
  then have "isl (fst (append_validated_locked ext j aid t now ?faults fs))" for ext j aid t now fs
    by (auto simp: append_validated_locked_def Let_def split: sum.split)
  then have "isl (fst (record_dispatch_linearized demo_externals j1 permit demo_linearization 0
      ?faults (demo_fs 3)))"
    by (auto simp: record_dispatch_linearized_def Let_def split: option.split)
  then obtain err where "r = Inl err" using l by (auto simp: isl_def)
  with failed_linearization_is_fail_closed [OF wf live(1), of demo_externals demo_linearization 0
      ?faults err j2 fs2] l r live(2) b show ?thesis by auto
qed

section \<open>Observation authority\<close>

text \<open>C3. Observing an outcome never races dispatching it: once an observation of an action was
  permitted, no later state of the journal holds dispatch authority over that action, and
  the durable cause the observation was bound to stays the last one.\<close>

theorem observation_excludes_dispatch:
  assumes "journal_wf (uuid_display ext) j"
    and "begin_postcondition_observation ext j aid observation_ref = (Inr permit, j1)"
    and "journal_steps ext (j1, fs1) (j2, fs2)" and "within_capacity j2"
  shows "live_dispatch_prepared j2 aid = None \<and> live_dispatch_execution j2 aid = None
    \<and> postcondition_observation_cause_for (journal_entries j2) aid = Some (obs_cause permit)"
proof -
  from assms(2) obtain cause where b:
    "live_dispatch_prepared j1 aid = None" "live_dispatch_execution j1 aid = None"
    "postcondition_observation_cause_for (journal_entries j1) aid = Some (obs_cause permit)"
    "begun_in j1 aid"
    by (rule begin_observation_Inr) (auto simp: begun_in_def dispatch_begun_def)
  have wf1: "journal_wf (uuid_display ext) j1"
    using begin_postcondition_observation_wf [OF assms(1)] assms(2) by (metis snd_conv)
  show ?thesis
    using cause_is_frozen [OF assms(3)] no_capability_later [OF assms(3)] wf1 b assms(4) by simp
qed

theorem observation_excludes_dispatch_witness:
  "\<exists>permit j1. begin_postcondition_observation demo_externals (demo_journal 4) 7 12
       = (Inr permit, j1)
     \<and> live_dispatch_execution j1 7 = None
     \<and> postcondition_observation_cause_for (journal_entries j1) 7 = Some (obs_cause permit)"
proof -
  obtain permit j1 where b: "begin_postcondition_observation demo_externals (demo_journal 4) 7 12
      = (Inr permit, j1)" "journal_entries j1 = take 4 demo_history"
    using demo_observe by blast
  have wf: "journal_wf (uuid_display demo_externals) (demo_journal 4)"
    using demo_wf(1) [of 4] by simp
  from observation_excludes_dispatch [OF wf b(1) steps_refl] b show ?thesis
    by (auto simp: within_capacity_def)
qed

text \<open>A permitted observation that is completed with the snapshot it asked for yields a
  receipt that is current for the journal: it is bound to the last dispatch record and to
  the admitted lineage, and a completion or abandonment can be repeated by nobody.\<close>

theorem observation_cycle:
  assumes "begin_postcondition_observation ext j aid observation_ref = (Inr permit, j1)"
    and "complete_postcondition_observation j1 permit snapshot = (Inr obs, j2)"
    and "admitted_envelope_for (journal_entries j) aid = Some envelope"
    and "obs_snapshot_cut_ref permit \<noteq> precondition_snapshot_cut_ref (metadata envelope)"
  shows "observation_current j2 envelope obs
    \<and> obr_session_id obs = env_session_id envelope
    \<and> obr_provider_incarnation_ref obs = provider_incarnation_ref (metadata envelope)
    \<and> obr_target_incarnation_ref obs = target_incarnation_ref (metadata envelope)
    \<and> (\<exists>err. use_observation_permit permit i j2 = (Inl err, j2))"
proof -
  note c = complete_observation_Inr [OF assms(2)]
  have "snd (use_observation_permit permit (CompleteObservation snapshot) j1) = j2"
    "fst (use_observation_permit permit (CompleteObservation snapshot) j1) = Inr (Some obs)"
    using assms(2) by simp_all
  then have once: "\<exists>err. use_observation_permit permit i j2 = (Inl err, j2)"
    using observation.no_second_use [of permit "CompleteObservation snapshot" j1 "Some obs" permit i]
    by simp
  from assms(1) show ?thesis
    by (rule begin_observation_Inr)
      (use c once assms(3,4) in \<open>auto simp: observation_current_def recovery_state_of_def\<close>)
qed

theorem observation_cycle_witness:
  "\<exists>permit j1 obs j2. begin_postcondition_observation demo_externals (demo_journal 4) 7 12
       = (Inr permit, j1)
     \<and> complete_postcondition_observation j1 permit demo_snapshot = (Inr obs, j2)
     \<and> observation_current j2 demo_envelope obs"
proof -
  obtain permit j1 obs j2 where b: "begin_postcondition_observation demo_externals
      (demo_journal 4) 7 12 = (Inr permit, j1)"
    "complete_postcondition_observation j1 permit demo_snapshot = (Inr obs, j2)"
    "obs_snapshot_cut_ref permit \<noteq> precondition_snapshot_cut_ref (metadata demo_envelope)"
    using demo_observe_complete by blast
  have "admitted_envelope_for (journal_entries (demo_journal 4)) 7 = Some demo_envelope"
    using demo_admitted by simp
  from observation_cycle [OF b(1,2) this b(3)] b show ?thesis by blast
qed

end
