(* ===== verification/History_Properties.thy ===== *)
theory History_Properties
  imports Scenario
begin

text \<open>
  Properties of the durable history of an action and of the receipts it accepts, and of the
  reconciliation that writes them.
\<close>

section \<open>The lifecycle\<close>

text \<open>C10. Every transition a running journal accepts moves its action along the lifecycle
  automaton, and the recovery state replay computes after it is the state the transition
  leads to; what an append accepts, a replay accepts.\<close>

theorem accepted_transition_steps:
  assumes "validate_transition us es (action_id e) (transition e) Append = Inr ()"
  shows "append_step (recovery_state_for es (action_id e)) (transition_state (transition e))
    \<and> recovery_state_for (es @ [e]) (action_id e) = Some (transition_state (transition e))
    \<and> validate_transition us es (action_id e) (transition e) Replay = Inr ()"
  using validate_append_step [OF assms] validate_append_replay [OF assms] by simp

theorem accepted_transition_steps_witness:
  "append_step (recovery_state_for (take 3 demo_history) 7) RPossiblyDispatched"
proof -
  have v: "validate_transition demo_display (take 3 demo_history) (action_id (demo_history ! 3))
      (transition (demo_history ! 3)) Append = Inr ()" by code_simp
  have s: "transition_state (transition (demo_history ! 3)) = RPossiblyDispatched"
    "action_id (demo_history ! 3) = 7" by code_simp+
  from accepted_transition_steps [OF v] s show ?thesis by simp
qed

text \<open>C6. An action is prepared for dispatch at most once in a history, and at most one outcome
  of a dispatch is recorded for it, also in histories with the shortcuts of old versions.\<close>

theorem dispatched_at_most_once:
  assumes "history_ok us mode es"
  shows "length (filter (\<lambda>e. action_id e = aid \<and> is_preparation (transition e)) es) \<le> 1
    \<and> length (filter (\<lambda>e. action_id e = aid \<and> is_linearization (transition e)) es) \<le> 1"
proof -
  note h = history_to_replay [OF assms]
  show ?thesis
  proof (intro conjI filter_at_most_one)
    fix pre e mid e' post
    assume es: "es = pre @ e # mid @ e' # post"
    show "action_id e = aid \<and> is_preparation (transition e) \<Longrightarrow>
        action_id e' = aid \<and> is_preparation (transition e') \<Longrightarrow> False"
      using preparation_not_repeated [of us pre e mid e' post] h es by auto
    show "action_id e = aid \<and> is_linearization (transition e) \<Longrightarrow>
        action_id e' = aid \<and> is_linearization (transition e') \<Longrightarrow> False"
      using linearization_not_repeated [of us pre e mid e' post] h es by auto
  qed
qed

theorem dispatched_at_most_once_witness:
  "length (filter (\<lambda>e. action_id e = 7 \<and> is_preparation (transition e)) demo_history) \<le> 1"
  using dispatched_at_most_once [OF demo_history_ok, of 7] by simp



text \<open>Committed, compensated, failed-compensated and known-not-dispatched actions are final:
  whatever a running journal appends later, the recovery state of the action stays.\<close>

theorem final_states_are_final:
  assumes "history_ok us Append (es @ fs)" and "recovery_state_for es aid = Some s"
    and "s \<in> {RCommitted, RCompensated, RCompensationFailed, RKnownNotDispatched}"
  shows "recovery_state_for (es @ fs) aid = Some s"
  by (rule appended.absorbing [OF _ assms(1,2)]) (use assms(3) in \<open>auto simp: append_step_iff\<close>)

theorem final_states_are_final_witness:
  "recovery_state_for (demo_history @ []) 7 = Some RCommitted"
proof -
  have s: "recovery_state_for demo_history 7 = Some RCommitted" by code_simp
  show ?thesis using final_states_are_final [OF _ s, of demo_display "[]"] demo_history_ok by simp
qed

text \<open>A postcondition receipt is accepted exactly when it repeats the admitted lineage, is
  minted for the next place of the journal, names the last dispatch record as its cause,
  observes a fresh cut, and partitions the declared contracts into verified, failed and
  unresolved ones with a matching verdict and with evidence for every decided contract.\<close>

theorem receipt_accepted_iff:
  "validate_action_postcondition_receipt us es aid r current = Inr () \<longleftrightarrow>
     (\<exists>envelope. admitted_envelope_for es aid = Some envelope
       \<and> receipt_bound us es aid envelope r \<and> receipt_contracts_sound r)"
  by (rule validate_action_postcondition_receipt_ok)

text \<open>A preparation is accepted exactly when the last authorization of the action is the one
  it names, was revalidated, carries the revision of the admitted envelope, and the
  preparation repeats the precondition cut and the two incarnations of that envelope.\<close>

theorem preparation_accepted_iff:
  "validate_dispatch_preparation es aid r current = Inr () \<longleftrightarrow> preparation_sound es aid r"
  by (rule validate_dispatch_preparation_ok)

section \<open>Reconciliation\<close>



text \<open>The verdict of reconciliation reads the evidence and nothing else: an outcome is
  reported as expected exactly when every declared postcondition has passing evidence, and
  as unexpected exactly when some declared postcondition has failing evidence.\<close>

theorem verdict_reads_evidence:
  assumes "exact_expected_postconditions envelope = Inr expected"
    and "exact_observed_postconditions expected Map.empty items = Inr observed"
  defines "refs \<equiv> expected_postcondition_contract_refs (metadata envelope)"
  shows "(dr_verdict (draft_of_evidence obs refs observed) = VerifiedExpected \<longleftrightarrow>
      (\<forall>c. c \<in> set refs \<longrightarrow>
         (\<exists>ev. ev \<in> set items \<and> ev_contract_ref ev = c \<and> ev_status ev = VerifiedPass)))
    \<and> (dr_verdict (draft_of_evidence obs refs observed) = VerifiedUnexpected \<longleftrightarrow>
      (\<exists>ev. ev \<in> set items \<and> ev_contract_ref ev \<in> set refs \<and> ev_status ev = VerifiedFail))"
proof -
  have has: "has_status observed s c \<longleftrightarrow>
      (\<exists>ev. ev \<in> set items \<and> ev_contract_ref ev = c \<and> ev_status ev = s)" for s c
  proof -
    have "has_status observed s c \<longleftrightarrow> (\<exists>ev. observed c = Some ev \<and> ev_status ev = s)"
      by (auto simp: has_status_def split: option.split)
    then show ?thesis unfolding exact_observed_iff [OF assms(2)] by blast
  qed
  have total: "has_status observed VerifiedPass c \<longleftrightarrow> \<not> has_status observed VerifiedFail c
      \<and> \<not> (observed c = None \<or> has_status observed StatusUnknown c)" for c
    by (cases "observed c"; cases "ev_status (the (observed c))") (auto simp: has_status_def)
  have "dr_verdict (draft_of_evidence obs refs observed) = VerifiedExpected \<longleftrightarrow>
      (\<forall>c. c \<in> set refs \<longrightarrow> has_status observed VerifiedPass c)"
    unfolding total by (auto simp: draft_of_evidence_def Let_def filter_empty_conv)
  moreover have "dr_verdict (draft_of_evidence obs refs observed) = VerifiedUnexpected \<longleftrightarrow>
      (\<exists>c. c \<in> set refs \<and> has_status observed VerifiedFail c)"
    by (auto simp: draft_of_evidence_def Let_def filter_empty_conv)
  ultimately show ?thesis unfolding has by blast
qed

theorem verdict_reads_evidence_witness:
  "dr_verdict (draft_of_evidence (rr_observation demo_reconciliation) [''c''] demo_observed)
     = VerifiedExpected"
proof -
  have "expected_postcondition_contract_refs (metadata demo_envelope) = [''c'']"
    by (simp add: demo_envelope_def demo_metadata_def)
  then show ?thesis
    using verdict_reads_evidence [OF demo_expected demo_evidence,
        of "rr_observation demo_reconciliation"] by (simp add: demo_reconciliation_def)
qed

end
