(* ===== verification/Bridge_Types.thy ===== *)
theory Bridge_Types
  imports Envelope
begin

text \<open>
  The data of the live bridge (\<open>src/crates/live-bridge/src/lib.rs\<close>): observer events,
  actions and their results, native executor requests, network fault controls, and the state
  the bridge keeps for a session. A JSON value is written as the library has it: an object
  is the list of its members, a number one of the three representations of
  \<open>serde_json::Number\<close>. A deque is a list, with its front at the head.
\<close>

section \<open>JSON\<close>

datatype json_number = PosInt u64 | NegInt "64 word" | Float f64_bits

datatype json =
    JNull | JBool bool | JNumber json_number | JString string
  | JArray "json list" | JObject "(string \<times> json) list"

section \<open>Observer events\<close>

datatype observer_event_kind =
    DomMutation | LayoutEvent | RouteEvent | FocusEvent | ScrollEvent | ConsoleEvent
  | NetworkEvent | RuntimeErrorEvent | PerformanceEvent | HmrEvent | SemanticSnapshotEvent

record observer_event =
  ev_seq :: u64
  ev_captured_at :: timestamp
  ev_kind :: observer_event_kind
  ev_reference :: "element_ref option"
  ev_route :: "string option"
  ev_payload :: json

record observer_batch =
  ob_session_id :: session_id
  ob_generation :: u64
  ob_events :: "observer_event list"

record ingest_report =
  ir_accepted :: nat
  ir_rejected_stale :: nat
  ir_last_seq :: "u64 option"
  ir_generation :: u64

section \<open>Actions\<close>

record private_capture_action_data =
  mask_selectors :: "string list"
  visual_freeze_lease_ms :: "u64 option"

record private_bridge_action =
  pba_id :: uuid
  pba_session_id :: session_id
  pba_reference :: "element_ref option"
  pba_action :: bridge_action_kind
  pba_private_capture :: "private_capture_action_data option"
  pba_created_at :: timestamp

record bridge_action_result =
  bar_action_id :: uuid
  bar_ok :: bool
  bar_error :: "string option"
  bar_payload :: json
  bar_completed_at :: timestamp

record action_execution_boundary =
  aeb_action_id :: uuid
  aeb_session_id :: session_id
  aeb_started_at :: timestamp
  aeb_completed_at :: timestamp

section \<open>Native executor requests\<close>

record viewport_meta =
  css_width :: u32
  css_height :: u32
  device_scale_factor :: f64_bits

record perception_budget =
  latency_ms :: u64
  text_tokens :: nat
  image_regions :: nat
  chromium_spawns :: u32

datatype budget_escalation_reason =
    CriticalIssue | ExplicitDeepMode | InsufficientEvidence | BrowserSpecificSuspicion

datatype native_executor_action =
    VisualPacket "element_ref option" viewport_meta "string option" perception_budget
      "budget_escalation_reason option"
  | VisualDiffCapture viewport_meta "string option"

record native_executor_request =
  ner_id :: uuid
  ner_session_id :: session_id
  ner_action :: native_executor_action
  ner_created_at :: timestamp

record native_executor_result =
  nex_request_id :: uuid
  nex_ok :: bool
  nex_error :: "string option"
  nex_usage :: "perception_budget option"
  nex_payload :: json
  nex_completed_at :: timestamp

section \<open>Network fault controls\<close>

datatype network_fault_control_command =
    InstallFault uuid json
  | ClearFault uuid

record network_fault_control_request =
  nfr_id :: uuid
  nfr_session_id :: session_id
  nfr_command :: network_fault_control_command
  nfr_created_at :: timestamp

record network_fault_control_result =
  nfx_request_id :: uuid
  nfx_ok :: bool
  nfx_error :: "string option"
  nfx_payload :: json
  nfx_completed_at :: timestamp

record network_fault_lease_authority =
  lease_id :: uuid
  lease_token :: uuid
  lease_fingerprint :: string
  lease_rule_count :: nat
  lease_surface_incarnation :: u64
  lease_expires_at :: timestamp

section \<open>The state of a session\<close>

record session_bridge_state =
  sb_generation :: u64
  sb_last_seq :: "u64 option"
  sb_events :: "observer_event list"
  sb_actions :: "bridge_action list"
  sb_capture_actions :: "bridge_action list"
  sb_capture_private :: "(uuid \<times> private_capture_action_data) list"
  sb_inflight :: "bridge_action list"
  sb_capture_inflight :: "bridge_action list"
  sb_claimed :: "bridge_action list"
  sb_capture_claimed :: "bridge_action list"
  sb_action_started_at :: "uuid \<rightharpoonup> timestamp"
  sb_action_boundaries :: "action_execution_boundary list"
  sb_results :: "bridge_action_result list"
  sb_capture_results :: "bridge_action_result list"
  sb_native_requests :: "native_executor_request list"
  sb_native_inflight :: "native_executor_request list"
  sb_native_claimed :: "native_executor_request list"
  sb_native_results :: "native_executor_result list"
  sb_fault_requests :: "network_fault_control_request list"
  sb_fault_inflight :: "network_fault_control_request list"
  sb_fault_claimed :: "network_fault_control_request list"
  sb_fault_results :: "network_fault_control_result list"
  sb_fault_lease :: "network_fault_lease_authority option"

definition empty_session :: session_bridge_state where
  "empty_session = \<lparr>sb_generation = 0, sb_last_seq = None, sb_events = [], sb_actions = [],
     sb_capture_actions = [], sb_capture_private = [], sb_inflight = [],
     sb_capture_inflight = [], sb_claimed = [], sb_capture_claimed = [],
     sb_action_started_at = (\<lambda>_. None), sb_action_boundaries = [], sb_results = [],
     sb_capture_results = [], sb_native_requests = [], sb_native_inflight = [],
     sb_native_claimed = [], sb_native_results = [], sb_fault_requests = [],
     sb_fault_inflight = [], sb_fault_claimed = [], sb_fault_results = [],
     sb_fault_lease = None\<rparr>"

record base_bridge =
  bb_sessions :: "session_id \<rightharpoonup> session_bridge_state"
  bb_event_capacity :: nat
  bb_action_capacity :: nat
  bb_result_capacity :: nat

end
