(* ===== verification/Bridge_Queue.thy ===== *)
theory Bridge_Queue
  imports Bridge_Types
begin

text \<open>
  The operations of the base bridge (\<open>src/crates/live-bridge/src/lib.rs\<close>): the bounded
  observer stream and the queues a session keeps for public actions, internal capture
  actions, native executor requests and network fault controls. The lock of the bridge is
  held throughout an operation. Not modelled are \<open>complete_action\<close> and the sanitizers it
  calls, which read measurements as floating-point numbers.
\<close>

section \<open>Deques\<close>

fun pop_excess :: "nat \<Rightarrow> 'a list \<Rightarrow> 'a list" where
  "pop_excess capacity [] = []"
| "pop_excess capacity (x # xs) =
     (if capacity < length (x # xs) then pop_excess capacity xs else x # xs)"

definition push_bounded :: "'a list \<Rightarrow> 'a \<Rightarrow> nat \<Rightarrow> 'a list" where
  "push_bounded queue v capacity = pop_excess capacity (queue @ [v])"

definition recent_from :: "'a list \<Rightarrow> nat \<Rightarrow> 'a list" where
  "recent_from queue limit = rev (take limit (rev queue))"

text \<open>\<open>position\<close> followed by \<open>remove\<close>: the first match and the deque without it.\<close>

fun take_first :: "('a \<Rightarrow> bool) \<Rightarrow> 'a list \<Rightarrow> ('a \<times> 'a list) option" where
  "take_first p [] = None"
| "take_first p (x # xs) =
     (if p x then Some (x, xs)
      else case take_first p xs of None \<Rightarrow> None | Some (y, ys) \<Rightarrow> Some (y, x # ys))"

lemma pop_excess_drop: "pop_excess c xs = drop (length xs - c) xs"
  by (induction xs) (auto simp: Suc_diff_le not_less drop_Cons')

lemma push_bounded_eq: "push_bounded q v c = drop (length q + 1 - c) (q @ [v])"
  by (simp add: push_bounded_def pop_excess_drop)

lemma length_push_bounded: "length (push_bounded q v c) = min c (length q + 1)"
  by (simp add: push_bounded_eq)

lemma set_push_bounded: "set (push_bounded q v c) \<subseteq> insert v (set q)"
  using set_drop_subset [of "length q + 1 - c" "q @ [v]"] by (auto simp: push_bounded_eq)

lemma map_push_bounded: "map f (push_bounded q v c) = push_bounded (map f q) (f v) c"
  by (simp add: push_bounded_eq drop_map [symmetric])

lemma take_first_None: "take_first p xs = None \<longleftrightarrow> (\<forall>x \<in> set xs. \<not> p x)"
  by (induction xs) (auto split: option.splits)

lemma take_first_Some:
  "take_first p xs = Some (x, ys) \<Longrightarrow> \<exists>us vs. xs = us @ x # vs \<and> ys = us @ vs \<and> p x
     \<and> (\<forall>u \<in> set us. \<not> p u)"
proof (induction xs arbitrary: ys)
  case (Cons a xs)
  show ?case
  proof (cases "p a")
    case True
    with Cons.prems show ?thesis by (intro exI [of _ "[]"] exI [of _ xs]) auto
  next
    case False
    with Cons.prems obtain zs where "take_first p xs = Some (x, zs)" "ys = a # zs"
      by (auto split: option.splits)
    with Cons.IH [of zs] obtain us vs where "xs = us @ x # vs" "ys = a # us @ vs" "p x"
      "\<forall>u \<in> set us. \<not> p u" by auto
    with False show ?thesis by (intro exI [of _ "a # us"] exI [of _ vs]) auto
  qed
qed simp

section \<open>Sessions\<close>

definition session_or_default :: "base_bridge \<Rightarrow> session_id \<Rightarrow> session_bridge_state" where
  "session_or_default b sid = (case bb_sessions b sid of None \<Rightarrow> empty_session | Some st \<Rightarrow> st)"

definition put_session :: "base_bridge \<Rightarrow> session_id \<Rightarrow> session_bridge_state \<Rightarrow> base_bridge" where
  "put_session b sid st = b\<lparr>bb_sessions := (bb_sessions b)(sid \<mapsto> st)\<rparr>"

definition base_new :: "nat \<Rightarrow> nat \<Rightarrow> base_bridge" where
  "base_new event_capacity action_capacity =
     \<lparr>bb_sessions = (\<lambda>_. None), bb_event_capacity = max event_capacity 32,
      bb_action_capacity = max action_capacity 8, bb_result_capacity = max action_capacity 8\<rparr>"

definition base_release_session :: "base_bridge \<Rightarrow> session_id \<Rightarrow> base_bridge" where
  "base_release_session b sid = b\<lparr>bb_sessions := (bb_sessions b)(sid := None)\<rparr>"

section \<open>The observer stream\<close>

text \<open>The loop of \<open>ingest_collect\<close>: accepted events, stale events, and the session.\<close>

fun ingest_events ::
  "nat \<Rightarrow> u64 \<Rightarrow> observer_event list \<Rightarrow> session_bridge_state
    \<Rightarrow> observer_event list \<times> nat \<times> session_bridge_state" where
  "ingest_events capacity batch_generation [] st = ([], 0, st)"
| "ingest_events capacity batch_generation (e # es) st =
     (let stale_generation = batch_generation < sb_generation st;
          stale_sequence = (case sb_last_seq st of None \<Rightarrow> False | Some s \<Rightarrow> ev_seq e \<le> s)
      in if stale_generation \<or> stale_sequence then
           (case ingest_events capacity batch_generation es st of
              (accepted, rejected, st') \<Rightarrow> (accepted, rejected + 1, st'))
         else
           (case ingest_events capacity batch_generation es
                (st\<lparr>sb_last_seq := Some (ev_seq e),
                    sb_events := push_bounded (sb_events st) e capacity\<rparr>) of
              (accepted, rejected, st') \<Rightarrow> (e # accepted, rejected, st')))"

definition base_ingest_collect ::
  "base_bridge \<Rightarrow> observer_batch \<Rightarrow> (ingest_report \<times> observer_event list) \<times> base_bridge" where
  "base_ingest_collect b batch =
     (let sid = ob_session_id batch;
          st0 = session_or_default b sid;
          st1 = (if sb_generation st0 < ob_generation batch then
                   st0\<lparr>sb_generation := ob_generation batch, sb_last_seq := None, sb_events := []\<rparr>
                 else st0)
      in case ingest_events (bb_event_capacity b) (ob_generation batch) (ob_events batch) st1 of
           (accepted, rejected, st2) \<Rightarrow>
             ((\<lparr>ir_accepted = length accepted, ir_rejected_stale = rejected,
                ir_last_seq = sb_last_seq st2, ir_generation = sb_generation st2\<rparr>, accepted),
              put_session b sid st2))"

definition base_recent :: "base_bridge \<Rightarrow> session_id \<Rightarrow> nat \<Rightarrow> observer_event list" where
  "base_recent b sid limit =
     (case bb_sessions b sid of None \<Rightarrow> [] | Some st \<Rightarrow> recent_from (sb_events st) limit)"

section \<open>Enqueueing\<close>

definition base_enqueue_action ::
  "base_bridge \<Rightarrow> session_id \<Rightarrow> element_ref option \<Rightarrow> bridge_action_kind \<Rightarrow> uuid \<Rightarrow> timestamp
    \<Rightarrow> bridge_action \<times> base_bridge" where
  "base_enqueue_action b sid reference kind fresh now =
     (let action = \<lparr>act_id = fresh, act_session_id = sid, act_reference = reference,
            act_action = kind, act_created_at = now\<rparr>;
          st = session_or_default b sid
      in (action, put_session b sid
           (if is_internal_capture_action kind then
              st\<lparr>sb_capture_actions :=
                   push_bounded (sb_capture_actions st) action (bb_action_capacity b)\<rparr>
            else
              st\<lparr>sb_actions := push_bounded (sb_actions st) action (bb_action_capacity b)\<rparr>)))"

definition action_id_seen :: "session_bridge_state \<Rightarrow> uuid \<Rightarrow> bool" where
  "action_id_seen st aid \<longleftrightarrow>
     list_ex (\<lambda>a. act_id a = aid) (sb_actions st)
     \<or> list_ex (\<lambda>a. act_id a = aid) (sb_inflight st)
     \<or> list_ex (\<lambda>a. act_id a = aid) (sb_claimed st)
     \<or> list_ex (\<lambda>a. act_id a = aid) (sb_capture_actions st)
     \<or> list_ex (\<lambda>a. act_id a = aid) (sb_capture_inflight st)
     \<or> list_ex (\<lambda>a. act_id a = aid) (sb_capture_claimed st)
     \<or> list_ex (\<lambda>r. bar_action_id r = aid) (sb_results st)
     \<or> list_ex (\<lambda>r. bar_action_id r = aid) (sb_capture_results st)
     \<or> sb_action_started_at st aid \<noteq> None
     \<or> list_ex (\<lambda>e. aeb_action_id e = aid) (sb_action_boundaries st)"

definition base_enqueue_prebound_public_action ::
  "base_bridge \<Rightarrow> bridge_action \<Rightarrow> bool \<times> base_bridge" where
  "base_enqueue_prebound_public_action b action =
     (if is_internal_capture_action (act_action action) then (False, b)
      else
        let sid = act_session_id action; st = session_or_default b sid
        in if action_id_seen st (act_id action)
              \<or> bb_action_capacity b \<le> length (sb_actions st)
           then (False, put_session b sid st)
           else (True, put_session b sid (st\<lparr>sb_actions := sb_actions st @ [action]\<rparr>)))"

definition sanitize_mask_selectors :: "string list \<Rightarrow> string list" where
  "sanitize_mask_selectors selectors =
     take 16 (filter (\<lambda>s. s \<noteq> [] \<and> length s \<le> 256) selectors)"

definition enqueue_private_capture ::
  "base_bridge \<Rightarrow> session_id \<Rightarrow> bridge_action_kind \<Rightarrow> private_capture_action_data \<Rightarrow> uuid
    \<Rightarrow> timestamp \<Rightarrow> bridge_action \<times> base_bridge" where
  "enqueue_private_capture b sid kind private_data fresh now =
     (let action = \<lparr>act_id = fresh, act_session_id = sid, act_reference = None,
            act_action = kind, act_created_at = now\<rparr>;
          st = session_or_default b sid
      in (action, put_session b sid (st\<lparr>
            sb_capture_actions := push_bounded (sb_capture_actions st) action (bb_action_capacity b),
            sb_capture_private :=
              push_bounded (sb_capture_private st) (fresh, private_data) (bb_action_capacity b)\<rparr>)))"

definition enqueue_capture_freeze_with_lease ::
  "base_bridge \<Rightarrow> session_id \<Rightarrow> string list \<Rightarrow> u64 \<Rightarrow> uuid \<Rightarrow> timestamp
    \<Rightarrow> bridge_action \<times> base_bridge" where
  "enqueue_capture_freeze_with_lease b sid selectors lease_ms =
     enqueue_private_capture b sid FreezeVisuals
       \<lparr>mask_selectors = sanitize_mask_selectors selectors,
        visual_freeze_lease_ms = Some lease_ms\<rparr>"

definition enqueue_capture_freeze ::
  "base_bridge \<Rightarrow> session_id \<Rightarrow> string list \<Rightarrow> uuid \<Rightarrow> timestamp \<Rightarrow> bridge_action \<times> base_bridge"
  where
  "enqueue_capture_freeze b sid selectors = enqueue_capture_freeze_with_lease b sid selectors 8000"

definition enqueue_full_page_capture_freeze ::
  "base_bridge \<Rightarrow> session_id \<Rightarrow> string list \<Rightarrow> uuid \<Rightarrow> timestamp \<Rightarrow> bridge_action \<times> base_bridge"
  where
  "enqueue_full_page_capture_freeze b sid selectors =
     enqueue_capture_freeze_with_lease b sid selectors 30000"

definition enqueue_capture_tile_probe ::
  "base_bridge \<Rightarrow> session_id \<Rightarrow> uuid \<Rightarrow> string list \<Rightarrow> uuid \<Rightarrow> timestamp
    \<Rightarrow> bridge_action \<times> base_bridge" where
  "enqueue_capture_tile_probe b sid token selectors =
     enqueue_private_capture b sid (CaptureTileProbe token)
       \<lparr>mask_selectors = sanitize_mask_selectors selectors, visual_freeze_lease_ms = None\<rparr>"

definition base_enqueue_native_executor ::
  "base_bridge \<Rightarrow> session_id \<Rightarrow> native_executor_action \<Rightarrow> uuid \<Rightarrow> timestamp
    \<Rightarrow> native_executor_request \<times> base_bridge" where
  "base_enqueue_native_executor b sid action fresh now =
     (let request = \<lparr>ner_id = fresh, ner_session_id = sid, ner_action = action,
            ner_created_at = now\<rparr>;
          st = session_or_default b sid
      in (request, put_session b sid (st\<lparr>sb_native_requests :=
            push_bounded (sb_native_requests st) request (bb_action_capacity b)\<rparr>)))"

definition enqueue_network_fault_control ::
  "base_bridge \<Rightarrow> session_id \<Rightarrow> network_fault_control_command \<Rightarrow> uuid \<Rightarrow> timestamp
    \<Rightarrow> network_fault_control_request \<times> base_bridge" where
  "enqueue_network_fault_control b sid command fresh now =
     (let request = \<lparr>nfr_id = fresh, nfr_session_id = sid, nfr_command = command,
            nfr_created_at = now\<rparr>;
          st = session_or_default b sid
      in (request, put_session b sid (st\<lparr>sb_fault_requests :=
            push_bounded (sb_fault_requests st) request (bb_action_capacity b)\<rparr>)))"

section \<open>Taking\<close>

text \<open>\<open>drain_actions\<close>: the front of the queue moves to the bounded in-flight deque.\<close>

definition drain_actions ::
  "bridge_action list \<Rightarrow> bridge_action list \<Rightarrow> nat \<Rightarrow> nat
    \<Rightarrow> bridge_action list \<times> bridge_action list \<times> bridge_action list" where
  "drain_actions queue inflight limit capacity =
     (let count = min limit (length queue); actions = take count queue
      in (actions, drop count queue,
          fold (\<lambda>a inf. push_bounded inf a capacity) actions inflight))"

definition base_take_public_actions ::
  "base_bridge \<Rightarrow> session_id \<Rightarrow> nat \<Rightarrow> timestamp \<Rightarrow> bridge_action list \<times> base_bridge" where
  "base_take_public_actions b sid limit now =
     (case bb_sessions b sid of
        None \<Rightarrow> ([], b)
      | Some st \<Rightarrow>
          (case drain_actions (sb_actions st) (sb_inflight st) limit (bb_action_capacity b) of
             (actions, queue, inflight) \<Rightarrow>
               (actions, put_session b sid (st\<lparr>sb_actions := queue, sb_inflight := inflight,
                  sb_action_started_at :=
                    fold (\<lambda>a started. if started (act_id a) = None
                                     then started(act_id a \<mapsto> now) else started)
                      actions (sb_action_started_at st)\<rparr>))))"

fun take_private_captures ::
  "bridge_action list \<Rightarrow> (uuid \<times> private_capture_action_data) list
    \<Rightarrow> private_bridge_action list \<times> (uuid \<times> private_capture_action_data) list" where
  "take_private_captures [] private_data = ([], private_data)"
| "take_private_captures (a # actions) private_data =
     (let found = take_first (\<lambda>(i, _). i = act_id a) private_data;
          rest = (case found of None \<Rightarrow> private_data | Some (_, ys) \<Rightarrow> ys)
      in case take_private_captures actions rest of
           (taken, left) \<Rightarrow>
             (\<lparr>pba_id = act_id a, pba_session_id = act_session_id a,
               pba_reference = act_reference a, pba_action = act_action a,
               pba_private_capture = map_option (\<lambda>(x, _). snd x) found,
               pba_created_at = act_created_at a\<rparr> # taken, left))"

definition take_internal_capture_actions ::
  "base_bridge \<Rightarrow> session_id \<Rightarrow> nat \<Rightarrow> private_bridge_action list \<times> base_bridge" where
  "take_internal_capture_actions b sid limit =
     (case bb_sessions b sid of
        None \<Rightarrow> ([], b)
      | Some st \<Rightarrow>
          (case drain_actions (sb_capture_actions st) (sb_capture_inflight st) limit
                  (bb_action_capacity b) of
             (actions, queue, inflight) \<Rightarrow>
               (case take_private_captures actions (sb_capture_private st) of
                  (taken, left) \<Rightarrow>
                    (taken, put_session b sid (st\<lparr>sb_capture_actions := queue,
                       sb_capture_inflight := inflight, sb_capture_private := left\<rparr>)))))"

definition base_take_native_executor_requests ::
  "base_bridge \<Rightarrow> session_id \<Rightarrow> nat \<Rightarrow> native_executor_request list \<times> base_bridge" where
  "base_take_native_executor_requests b sid limit =
     (case bb_sessions b sid of
        None \<Rightarrow> ([], b)
      | Some st \<Rightarrow>
          let active = length (sb_native_inflight st) + length (sb_native_claimed st);
              available = bb_action_capacity b - active;
              count = min (min limit (length (sb_native_requests st))) available;
              requests = take count (sb_native_requests st)
          in (requests, put_session b sid (st\<lparr>
               sb_native_requests := drop count (sb_native_requests st),
               sb_native_inflight := sb_native_inflight st @ requests\<rparr>)))"

definition take_network_fault_controls ::
  "base_bridge \<Rightarrow> session_id \<Rightarrow> nat \<Rightarrow> network_fault_control_request list \<times> base_bridge" where
  "take_network_fault_controls b sid limit =
     (case bb_sessions b sid of
        None \<Rightarrow> ([], b)
      | Some st \<Rightarrow>
          let active = length (sb_fault_inflight st) + length (sb_fault_claimed st);
              available = bb_action_capacity b - active;
              count = min (min limit (length (sb_fault_requests st))) available;
              requests = take count (sb_fault_requests st)
          in (requests, put_session b sid (st\<lparr>
               sb_fault_requests := drop count (sb_fault_requests st),
               sb_fault_inflight := fold (\<lambda>r inf. push_bounded inf r (bb_action_capacity b))
                 requests (sb_fault_inflight st)\<rparr>)))"

section \<open>Claiming and discarding\<close>

definition claim_from_scope ::
  "bridge_action list \<Rightarrow> bridge_action list \<Rightarrow> uuid \<Rightarrow> nat
    \<Rightarrow> (bridge_action \<times> bridge_action list \<times> bridge_action list) option" where
  "claim_from_scope inflight claimed aid capacity =
     map_option (\<lambda>(a, inflight'). (a, inflight', push_bounded claimed a capacity))
       (take_first (\<lambda>a. act_id a = aid) inflight)"

definition base_claim_action ::
  "base_bridge \<Rightarrow> session_id \<Rightarrow> uuid \<Rightarrow> bridge_action option \<times> base_bridge" where
  "base_claim_action b sid aid =
     (case bb_sessions b sid of
        None \<Rightarrow> (None, b)
      | Some st \<Rightarrow>
          (case claim_from_scope (sb_capture_inflight st) (sb_capture_claimed st) aid
                  (bb_action_capacity b) of
             Some (a, inflight, claimed) \<Rightarrow>
               (Some a, put_session b sid
                  (st\<lparr>sb_capture_inflight := inflight, sb_capture_claimed := claimed\<rparr>))
           | None \<Rightarrow>
               (case claim_from_scope (sb_inflight st) (sb_claimed st) aid (bb_action_capacity b) of
                  Some (a, inflight, claimed) \<Rightarrow>
                    (Some a, put_session b sid
                       (st\<lparr>sb_inflight := inflight, sb_claimed := claimed\<rparr>))
                | None \<Rightarrow> (None, b))))"

definition base_discard_public_action ::
  "base_bridge \<Rightarrow> session_id \<Rightarrow> uuid \<Rightarrow> bool \<times> base_bridge" where
  "base_discard_public_action b sid aid =
     (case bb_sessions b sid of
        None \<Rightarrow> (False, b)
      | Some st \<Rightarrow>
          (case take_first (\<lambda>a. act_id a = aid) (sb_inflight st) of
             None \<Rightarrow> (False, b)
           | Some (_, inflight) \<Rightarrow>
               (True, put_session b sid (st\<lparr>sb_inflight := inflight,
                  sb_action_started_at := (sb_action_started_at st)(aid := None)\<rparr>))))"

definition base_discard_public_actions_for_session ::
  "base_bridge \<Rightarrow> session_id \<Rightarrow> nat \<times> base_bridge" where
  "base_discard_public_actions_for_session b sid =
     (case bb_sessions b sid of
        None \<Rightarrow> (0, b)
      | Some st \<Rightarrow>
          (length (sb_actions st) + length (sb_inflight st) + length (sb_claimed st),
           put_session b sid (st\<lparr>sb_actions := [], sb_inflight := [], sb_claimed := [],
             sb_action_started_at := (\<lambda>_. None)\<rparr>)))"

definition base_claim_native_executor ::
  "base_bridge \<Rightarrow> session_id \<Rightarrow> uuid \<Rightarrow> native_executor_request option \<times> base_bridge" where
  "base_claim_native_executor b sid rid =
     (case bb_sessions b sid of
        None \<Rightarrow> (None, b)
      | Some st \<Rightarrow>
          (case take_first (\<lambda>r. ner_id r = rid) (sb_native_inflight st) of
             None \<Rightarrow> (None, b)
           | Some (r, inflight) \<Rightarrow>
               (Some r, put_session b sid (st\<lparr>sb_native_inflight := inflight,
                  sb_native_claimed := sb_native_claimed st @ [r]\<rparr>))))"

definition base_expire_native_executor_active_before ::
  "base_bridge \<Rightarrow> session_id \<Rightarrow> timestamp \<Rightarrow> nat \<times> base_bridge" where
  "base_expire_native_executor_active_before b sid cutoff =
     (case bb_sessions b sid of
        None \<Rightarrow> (0, b)
      | Some st \<Rightarrow>
          let inflight = filter (\<lambda>r. cutoff \<le> ner_created_at r) (sb_native_inflight st);
              claimed = filter (\<lambda>r. cutoff \<le> ner_created_at r) (sb_native_claimed st)
          in ((length (sb_native_inflight st) + length (sb_native_claimed st))
                - (length inflight + length claimed),
              put_session b sid (st\<lparr>sb_native_inflight := inflight,
                sb_native_claimed := claimed\<rparr>)))"

definition claim_network_fault_control ::
  "base_bridge \<Rightarrow> session_id \<Rightarrow> uuid \<Rightarrow> network_fault_control_request option \<times> base_bridge" where
  "claim_network_fault_control b sid rid =
     (case bb_sessions b sid of
        None \<Rightarrow> (None, b)
      | Some st \<Rightarrow>
          (case take_first (\<lambda>r. nfr_id r = rid \<and> nfr_session_id r = sid) (sb_fault_inflight st) of
             None \<Rightarrow> (None, b)
           | Some (r, inflight) \<Rightarrow>
               (Some r, put_session b sid (st\<lparr>sb_fault_inflight := inflight,
                  sb_fault_claimed :=
                    push_bounded (sb_fault_claimed st) r (bb_action_capacity b)\<rparr>))))"

section \<open>Results\<close>

text \<open>
  \<open>String::truncate\<close> at the last character boundary that is not past \<open>n\<close> bytes: a byte
  position is a boundary when it is an end of the text or not a continuation byte.
\<close>

definition is_char_boundary :: "string \<Rightarrow> nat \<Rightarrow> bool" where
  "is_char_boundary s i \<longleftrightarrow>
     i = 0 \<or> i = length s
     \<or> i < length s \<and> \<not> (128 \<le> (of_char (s ! i) :: nat) \<and> (of_char (s ! i) :: nat) < 192)"

primrec boundary_before :: "string \<Rightarrow> nat \<Rightarrow> nat" where
  "boundary_before s 0 = 0"
| "boundary_before s (Suc n) =
     (if is_char_boundary s (Suc n) then Suc n else boundary_before s n)"

definition max_native_executor_error_bytes :: nat where
  "max_native_executor_error_bytes = 2 * 1024"

definition max_native_executor_result_payload_bytes :: nat where
  "max_native_executor_result_payload_bytes = 64 * 1024"

text \<open>\<open>payload_len\<close> is the length of \<open>serde_json::to_vec\<close>, when it succeeds.\<close>

definition sanitize_native_executor_result ::
  "(json \<Rightarrow> nat option) \<Rightarrow> native_executor_request \<Rightarrow> native_executor_result
    \<Rightarrow> native_executor_result" where
  "sanitize_native_executor_result payload_len request result =
     (if nex_request_id result \<noteq> ner_id request then
        result\<lparr>nex_ok := False, nex_usage := None, nex_payload := JNull,
          nex_error := Some ''native executor result origin mismatch''\<rparr>
      else
        let oversized = (case payload_len (nex_payload result) of
              None \<Rightarrow> True | Some n \<Rightarrow> max_native_executor_result_payload_bytes < n);
            bounded = (if oversized then
              result\<lparr>nex_ok := False, nex_usage := None, nex_payload := JNull,
                nex_error := Some
                  ''native executor result payload exceeded bounded metadata limit''\<rparr>
              else result)
        in case nex_error bounded of
             None \<Rightarrow> bounded
           | Some err \<Rightarrow>
               if max_native_executor_error_bytes < length err then
                 bounded\<lparr>nex_error :=
                   Some (take (boundary_before err max_native_executor_error_bytes) err)\<rparr>
               else bounded)"

definition base_complete_native_executor ::
  "(json \<Rightarrow> nat option) \<Rightarrow> base_bridge \<Rightarrow> session_id \<Rightarrow> native_executor_result
    \<Rightarrow> bool \<times> base_bridge" where
  "base_complete_native_executor payload_len b sid result =
     (case bb_sessions b sid of
        None \<Rightarrow> (False, b)
      | Some st \<Rightarrow>
          (case take_first (\<lambda>r. ner_id r = nex_request_id result \<and> ner_session_id r = sid)
                  (sb_native_claimed st) of
             None \<Rightarrow> (False, b)
           | Some (request, claimed) \<Rightarrow>
               (True, put_session b sid (st\<lparr>sb_native_claimed := claimed,
                  sb_native_results := push_bounded (sb_native_results st)
                    (sanitize_native_executor_result payload_len request result)
                    (bb_result_capacity b)\<rparr>))))"

text \<open>JSON objects: members are kept in the order of their keys.\<close>

fun bytes_less :: "string \<Rightarrow> string \<Rightarrow> bool" where
  "bytes_less _ [] = False"
| "bytes_less [] (_ # _) = True"
| "bytes_less (a # as) (b # bs) =
     ((of_char a :: nat) < of_char b \<or> a = b \<and> bytes_less as bs)"

fun object_insert :: "string \<Rightarrow> json \<Rightarrow> (string \<times> json) list \<Rightarrow> (string \<times> json) list" where
  "object_insert k v [] = [(k, v)]"
| "object_insert k v ((k', v') # kvs) =
     (if k = k' then (k, v) # kvs
      else if bytes_less k k' then (k, v) # (k', v') # kvs
      else (k', v') # object_insert k v kvs)"

fun as_bool :: "json \<Rightarrow> bool option" where
  "as_bool (JBool v) = Some v"
| "as_bool _ = None"

fun as_str :: "json \<Rightarrow> string option" where
  "as_str (JString v) = Some v"
| "as_str _ = None"

fun as_u64 :: "json \<Rightarrow> u64 option" where
  "as_u64 (JNumber (PosInt n)) = Some n"
| "as_u64 _ = None"

definition is_ascii_hexdigit :: "char \<Rightarrow> bool" where
  "is_ascii_hexdigit c \<longleftrightarrow>
     (let n = of_char c :: nat in 48 \<le> n \<and> n \<le> 57 \<or> 65 \<le> n \<and> n \<le> 70 \<or> 97 \<le> n \<and> n \<le> 102)"

definition to_ascii_lowercase :: "string \<Rightarrow> string" where
  "to_ascii_lowercase = map (\<lambda>c. let n = of_char c :: nat
     in if 65 \<le> n \<and> n \<le> 90 then char_of (n + 32) else c)"

text \<open>The two loops over the members that are copied.\<close>

fun copy_flags :: "(string \<times> json) list \<Rightarrow> string list \<Rightarrow> (string \<times> json) list
    \<Rightarrow> (string \<times> json) list" where
  "copy_flags input [] output = output"
| "copy_flags input (k # ks) output = copy_flags input ks
     (case map_of input k of
        Some v \<Rightarrow> (case as_bool v of Some f \<Rightarrow> object_insert k (JBool f) output | None \<Rightarrow> output)
      | None \<Rightarrow> output)"

fun copy_counters :: "(string \<times> json) list \<Rightarrow> (string \<times> u64) list \<Rightarrow> (string \<times> json) list
    \<Rightarrow> (string \<times> json) list option" where
  "copy_counters input [] output = Some output"
| "copy_counters input ((k, limit) # ks) output =
     (case map_of input k of
        None \<Rightarrow> copy_counters input ks output
      | Some v \<Rightarrow>
          (case as_u64 v of
             None \<Rightarrow> None
           | Some n \<Rightarrow>
               if limit < n then None
               else copy_counters input ks (object_insert k (JNumber (PosInt n)) output)))"

definition fail_network_fault_result ::
  "network_fault_control_result \<Rightarrow> network_fault_control_result" where
  "fail_network_fault_result result = result\<lparr>nfx_ok := False, nfx_payload := JNull,
     nfx_error := Some ''network fault private control failed''\<rparr>"

definition sanitize_network_fault_control_result ::
  "network_fault_control_request \<Rightarrow> network_fault_control_result
    \<Rightarrow> network_fault_control_result" where
  "sanitize_network_fault_control_result request result =
     (let fail = fail_network_fault_result result
      in if nfx_request_id result \<noteq> nfr_id request \<or> \<not> nfx_ok result then fail
         else case nfx_payload result of
           JObject input \<Rightarrow>
             (case Option.bind (map_of input ''active'') as_bool of
                None \<Rightarrow> fail
              | Some active \<Rightarrow>
                  let flags = copy_flags input [''installed'', ''cleared'']
                        (object_insert ''active'' (JBool active) []);
                      fingerprint = Option.bind (map_of input ''fingerprint'') as_str
                  in if (case fingerprint of None \<Rightarrow> False
                         | Some f \<Rightarrow> length f \<noteq> 16 \<or> \<not> list_all is_ascii_hexdigit f) then fail
                     else
                       let marked = (case fingerprint of None \<Rightarrow> flags
                             | Some f \<Rightarrow> object_insert ''fingerprint''
                                 (JString (to_ascii_lowercase f)) flags)
                       in case copy_counters input
                              [(''rule_count'', 16), (''total_hits'', 1024),
                               (''remaining_ms'', 30000), (''expires_in_ms'', 30000),
                               (''surface_incarnation'', - 1)] marked of
                            None \<Rightarrow> fail
                          | Some output \<Rightarrow>
                              result\<lparr>nfx_payload := JObject output, nfx_error := None\<rparr>)
         | _ \<Rightarrow> fail)"

definition complete_network_fault_control ::
  "base_bridge \<Rightarrow> session_id \<Rightarrow> network_fault_control_result \<Rightarrow> bool \<times> base_bridge" where
  "complete_network_fault_control b sid result =
     (case bb_sessions b sid of
        None \<Rightarrow> (False, b)
      | Some st \<Rightarrow>
          (case take_first (\<lambda>r. nfr_id r = nfx_request_id result \<and> nfr_session_id r = sid)
                  (sb_fault_claimed st) of
             None \<Rightarrow> (False, b)
           | Some (request, claimed) \<Rightarrow>
               (True, put_session b sid (st\<lparr>sb_fault_claimed := claimed,
                  sb_fault_results := push_bounded (sb_fault_results st)
                    (sanitize_network_fault_control_result request result)
                    (bb_result_capacity b)\<rparr>))))"

section \<open>Lookups and leases\<close>

definition base_native_executor_result ::
  "base_bridge \<Rightarrow> session_id \<Rightarrow> uuid \<Rightarrow> native_executor_result option" where
  "base_native_executor_result b sid rid =
     Option.bind (bb_sessions b sid) (\<lambda>st. find (\<lambda>r. nex_request_id r = rid) (sb_native_results st))"

definition network_fault_control_result_for ::
  "base_bridge \<Rightarrow> session_id \<Rightarrow> uuid \<Rightarrow> network_fault_control_result option" where
  "network_fault_control_result_for b sid rid =
     Option.bind (bb_sessions b sid)
       (\<lambda>st. find (\<lambda>r. nfx_request_id r = rid) (rev (sb_fault_results st)))"

definition action_execution_boundary_for ::
  "base_bridge \<Rightarrow> session_id \<Rightarrow> uuid \<Rightarrow> action_execution_boundary option" where
  "action_execution_boundary_for b sid aid =
     Option.bind (bb_sessions b sid)
       (\<lambda>st. find (\<lambda>e. aeb_action_id e = aid) (rev (sb_action_boundaries st)))"

definition set_network_fault_lease ::
  "base_bridge \<Rightarrow> session_id \<Rightarrow> network_fault_lease_authority \<Rightarrow> base_bridge" where
  "set_network_fault_lease b sid lease =
     put_session b sid ((session_or_default b sid)\<lparr>sb_fault_lease := Some lease\<rparr>)"

definition network_fault_lease_for ::
  "base_bridge \<Rightarrow> session_id \<Rightarrow> network_fault_lease_authority option" where
  "network_fault_lease_for b sid = Option.bind (bb_sessions b sid) sb_fault_lease"

definition clear_network_fault_lease ::
  "base_bridge \<Rightarrow> session_id \<Rightarrow> uuid \<Rightarrow> bool \<times> base_bridge" where
  "clear_network_fault_lease b sid lid =
     (case bb_sessions b sid of
        None \<Rightarrow> (False, b)
      | Some st \<Rightarrow>
          if (case sb_fault_lease st of None \<Rightarrow> False | Some lease \<Rightarrow> lease_id lease = lid)
          then (True, put_session b sid (st\<lparr>sb_fault_lease := None\<rparr>))
          else (False, b))"

end
