(* ===== verification/Cancellation_Authority.thy ===== *)
theory Cancellation_Authority
  imports Bridge_Queue
begin

text \<open>
  Cancellation (\<open>src/crates/live-bridge/src/cancellable_lib.rs\<close>): the lifecycle of native
  executor requests and of public actions, which the bridge keeps beside the queues of the
  base bridge so that a cancelled item is consumed instead of delivered. The two authorities
  of the code have the same fields and the same methods, written twice; here they are two
  records and two groups of definitions in the same way.
\<close>

definition min_native_executor_capacity :: nat where
  "min_native_executor_capacity = 8"

definition max_cancelled_tombstones :: nat where
  "max_cancelled_tombstones = 256"

lemma take_first_length: "take_first p xs = Some (x, ys) \<Longrightarrow> length xs = Suc (length ys)"
  by (drule take_first_Some) auto

section \<open>Native executor requests\<close>

datatype native_lifecycle = NPending | NInflight | NCancellationRequested | NCancelled

record native_lifecycle_entry =
  na_state :: native_lifecycle
  na_created_at :: timestamp
  na_cancellation_requested_at :: "timestamp option"

record native_authority =
  na_entries :: "session_id \<times> uuid \<rightharpoonup> native_lifecycle_entry"
  na_queued :: "session_id \<rightharpoonup> uuid list"
  na_cancelled_order :: "(session_id \<times> uuid) list"

definition native_authority_default :: native_authority where
  "native_authority_default = \<lparr>na_entries = (\<lambda>_. None), na_queued = (\<lambda>_. None),
     na_cancelled_order = []\<rparr>"

definition native_state_is :: "native_authority \<Rightarrow> session_id \<times> uuid \<Rightarrow> native_lifecycle \<Rightarrow> bool" where
  "native_state_is a key s \<longleftrightarrow>
     (case na_entries a key of None \<Rightarrow> False | Some entry \<Rightarrow> na_state entry = s)"

definition native_set_state ::
  "native_authority \<Rightarrow> session_id \<times> uuid \<Rightarrow> native_lifecycle \<Rightarrow> native_authority" where
  "native_set_state a key s =
     a\<lparr>na_entries := (na_entries a)(key := map_option (\<lambda>e. e\<lparr>na_state := s\<rparr>)
       (na_entries a key))\<rparr>"

definition native_is_queued :: "native_authority \<Rightarrow> session_id \<times> uuid \<Rightarrow> bool" where
  "native_is_queued a key \<longleftrightarrow>
     (case na_queued a (fst key) of None \<Rightarrow> False | Some queue \<Rightarrow> snd key \<in> set queue)"

function native_prune :: "native_authority \<Rightarrow> native_authority" where
  "native_prune a =
     (if max_cancelled_tombstones < length (na_cancelled_order a) then
        (case take_first (\<lambda>key. \<not> native_is_queued a key) (na_cancelled_order a) of
           None \<Rightarrow> a
         | Some (key, order) \<Rightarrow> native_prune (a\<lparr>na_cancelled_order := order,
             na_entries := (if native_state_is a key NCancelled then (na_entries a)(key := None)
                            else na_entries a)\<rparr>))
      else a)"
  by pat_completeness auto
termination
  by (relation "measure (\<lambda>a. length (na_cancelled_order a))") (auto dest: take_first_length)

declare native_prune.simps [simp del]

text \<open>The eviction loop: the queue and the entries.\<close>

fun native_evict ::
  "nat \<Rightarrow> session_id \<Rightarrow> uuid list \<Rightarrow> (session_id \<times> uuid \<rightharpoonup> native_lifecycle_entry)
    \<Rightarrow> uuid list \<times> (session_id \<times> uuid \<rightharpoonup> native_lifecycle_entry)" where
  "native_evict capacity sid [] entries = ([], entries)"
| "native_evict capacity sid (i # queue) entries =
     (if capacity < length (i # queue) then
        native_evict capacity sid queue
          (case entries (sid, i) of
             None \<Rightarrow> entries
           | Some entry \<Rightarrow>
               if na_state entry = NPending then entries((sid, i) := None) else entries)
      else (i # queue, entries))"

definition native_record_enqueued ::
  "native_authority \<Rightarrow> session_id \<Rightarrow> native_executor_request \<Rightarrow> nat \<Rightarrow> native_authority" where
  "native_record_enqueued a sid0 request capacity =
     (let sid = sid0; i = ner_id request;
          entries = (na_entries a)((sid, i) \<mapsto> \<lparr>na_state = NPending, na_created_at = ner_created_at request,
            na_cancellation_requested_at = None\<rparr>);
          queue = (case na_queued a sid of None \<Rightarrow> [] | Some q \<Rightarrow> q) @ [i]
      in case native_evict capacity sid queue entries of
           (queue', entries') \<Rightarrow> native_prune
             (a\<lparr>na_entries := entries', na_queued := (na_queued a)(sid \<mapsto> queue')\<rparr>))"

definition native_remove_queued ::
  "native_authority \<Rightarrow> session_id \<Rightarrow> uuid \<Rightarrow> native_authority" where
  "native_remove_queued a sid i =
     (case na_queued a sid of
        None \<Rightarrow> a
      | Some queue \<Rightarrow>
          a\<lparr>na_queued := (na_queued a)(sid :=
            (if remove1 i queue = [] then None else Some (remove1 i queue)))\<rparr>)"

definition native_mark_cancelled ::
  "native_authority \<Rightarrow> session_id \<times> uuid \<Rightarrow> timestamp \<Rightarrow> native_authority" where
  "native_mark_cancelled a key requested_at =
     (let entries = (case na_entries a key of
            None \<Rightarrow> na_entries a
          | Some entry \<Rightarrow> (na_entries a)(key \<mapsto> entry\<lparr>na_state := NCancelled,
              na_cancellation_requested_at := Some requested_at\<rparr>));
          order = (if native_state_is a key NCancelled then na_cancelled_order a
                   else na_cancelled_order a @ [key])
      in native_prune (a\<lparr>na_entries := entries, na_cancelled_order := order\<rparr>))"

definition native_remove ::
  "native_authority \<Rightarrow> session_id \<times> uuid \<Rightarrow> native_authority" where
  "native_remove a key =
     native_remove_queued (a\<lparr>na_entries := (na_entries a)(key := None)\<rparr>) (fst key) (snd key)"

definition native_release_session :: "native_authority \<Rightarrow> session_id \<Rightarrow> native_authority" where
  "native_release_session a sid =
     a\<lparr>na_entries := (\<lambda>key. if fst key = sid then None else na_entries a key),
       na_queued := (na_queued a)(sid := None),
       na_cancelled_order := filter (\<lambda>key. fst key \<noteq> sid) (na_cancelled_order a)\<rparr>"

section \<open>Public actions\<close>

datatype action_lifecycle = APending | AInflight | ACancellationRequested | ACancelled

record action_lifecycle_entry =
  ac_state :: action_lifecycle
  ac_cancellation_requested_at :: "timestamp option"

record action_authority =
  ac_entries :: "session_id \<times> uuid \<rightharpoonup> action_lifecycle_entry"
  ac_queued :: "session_id \<rightharpoonup> uuid list"
  ac_cancelled_order :: "(session_id \<times> uuid) list"

definition action_authority_default :: action_authority where
  "action_authority_default = \<lparr>ac_entries = (\<lambda>_. None), ac_queued = (\<lambda>_. None),
     ac_cancelled_order = []\<rparr>"

definition action_state_is :: "action_authority \<Rightarrow> session_id \<times> uuid \<Rightarrow> action_lifecycle \<Rightarrow> bool" where
  "action_state_is a key s \<longleftrightarrow>
     (case ac_entries a key of None \<Rightarrow> False | Some entry \<Rightarrow> ac_state entry = s)"

definition action_set_state ::
  "action_authority \<Rightarrow> session_id \<times> uuid \<Rightarrow> action_lifecycle \<Rightarrow> action_authority" where
  "action_set_state a key s =
     a\<lparr>ac_entries := (ac_entries a)(key := map_option (\<lambda>e. e\<lparr>ac_state := s\<rparr>)
       (ac_entries a key))\<rparr>"

definition action_is_queued :: "action_authority \<Rightarrow> session_id \<times> uuid \<Rightarrow> bool" where
  "action_is_queued a key \<longleftrightarrow>
     (case ac_queued a (fst key) of None \<Rightarrow> False | Some queue \<Rightarrow> snd key \<in> set queue)"

function action_prune :: "action_authority \<Rightarrow> action_authority" where
  "action_prune a =
     (if max_cancelled_tombstones < length (ac_cancelled_order a) then
        (case take_first (\<lambda>key. \<not> action_is_queued a key) (ac_cancelled_order a) of
           None \<Rightarrow> a
         | Some (key, order) \<Rightarrow> action_prune (a\<lparr>ac_cancelled_order := order,
             ac_entries := (if action_state_is a key ACancelled then (ac_entries a)(key := None)
                            else ac_entries a)\<rparr>))
      else a)"
  by pat_completeness auto
termination
  by (relation "measure (\<lambda>a. length (ac_cancelled_order a))") (auto dest: take_first_length)

declare action_prune.simps [simp del]

text \<open>The eviction loop: the queue and the entries.\<close>

fun action_evict ::
  "nat \<Rightarrow> session_id \<Rightarrow> uuid list \<Rightarrow> (session_id \<times> uuid \<rightharpoonup> action_lifecycle_entry)
    \<Rightarrow> uuid list \<times> (session_id \<times> uuid \<rightharpoonup> action_lifecycle_entry)" where
  "action_evict capacity sid [] entries = ([], entries)"
| "action_evict capacity sid (i # queue) entries =
     (if capacity < length (i # queue) then
        action_evict capacity sid queue
          (case entries (sid, i) of
             None \<Rightarrow> entries
           | Some entry \<Rightarrow>
               if ac_state entry = APending then entries((sid, i) := None) else entries)
      else (i # queue, entries))"

definition action_record_enqueued ::
  "action_authority \<Rightarrow> bridge_action \<Rightarrow> nat \<Rightarrow> action_authority" where
  "action_record_enqueued a action capacity =
     (let sid = act_session_id action; i = act_id action;
          entries = (ac_entries a)((sid, i) \<mapsto> \<lparr>ac_state = APending,
            ac_cancellation_requested_at = None\<rparr>);
          queue = (case ac_queued a sid of None \<Rightarrow> [] | Some q \<Rightarrow> q) @ [i]
      in case action_evict capacity sid queue entries of
           (queue', entries') \<Rightarrow> action_prune
             (a\<lparr>ac_entries := entries', ac_queued := (ac_queued a)(sid \<mapsto> queue')\<rparr>))"

definition action_remove_queued ::
  "action_authority \<Rightarrow> session_id \<Rightarrow> uuid \<Rightarrow> action_authority" where
  "action_remove_queued a sid i =
     (case ac_queued a sid of
        None \<Rightarrow> a
      | Some queue \<Rightarrow>
          a\<lparr>ac_queued := (ac_queued a)(sid :=
            (if remove1 i queue = [] then None else Some (remove1 i queue)))\<rparr>)"

definition action_mark_cancelled ::
  "action_authority \<Rightarrow> session_id \<times> uuid \<Rightarrow> timestamp \<Rightarrow> action_authority" where
  "action_mark_cancelled a key requested_at =
     (let entries = (case ac_entries a key of
            None \<Rightarrow> ac_entries a
          | Some entry \<Rightarrow> (ac_entries a)(key \<mapsto> entry\<lparr>ac_state := ACancelled,
              ac_cancellation_requested_at := Some requested_at\<rparr>));
          order = (if action_state_is a key ACancelled then ac_cancelled_order a
                   else ac_cancelled_order a @ [key])
      in action_prune (a\<lparr>ac_entries := entries, ac_cancelled_order := order\<rparr>))"

definition action_remove ::
  "action_authority \<Rightarrow> session_id \<times> uuid \<Rightarrow> action_authority" where
  "action_remove a key =
     action_remove_queued (a\<lparr>ac_entries := (ac_entries a)(key := None)\<rparr>) (fst key) (snd key)"

definition action_release_session :: "action_authority \<Rightarrow> session_id \<Rightarrow> action_authority" where
  "action_release_session a sid =
     a\<lparr>ac_entries := (\<lambda>key. if fst key = sid then None else ac_entries a key),
       ac_queued := (ac_queued a)(sid := None),
       ac_cancelled_order := filter (\<lambda>key. fst key \<noteq> sid) (ac_cancelled_order a)\<rparr>"

end
