(* ===== verification/Cancellable_Bridge.thy ===== *)
theory Cancellable_Bridge
  imports Cancellation_Authority
begin

text \<open>
  The cancellable bridge (\<open>src/crates/live-bridge/src/cancellable_lib.rs\<close>): every operation
  that wraps one of the base bridge with the cancellation authorities. The authority's mutex
  is taken before the base bridge is called and held until the end, so each is one step.
\<close>

record cancellable_bridge =
  cb_base :: base_bridge
  cb_native :: native_authority
  cb_actions :: action_authority
  cb_action_capacity :: nat

datatype cancellation_state = CancelRequested | CancelDone

record cancellation_outcome =
  co_id :: uuid
  co_state :: cancellation_state
  co_acknowledged :: bool

record cancellation_signal =
  cs_id :: uuid
  cs_requested_at :: timestamp

definition cancellable_new :: "nat \<Rightarrow> nat \<Rightarrow> cancellable_bridge" where
  "cancellable_new event_capacity action_capacity =
     (let capacity = max action_capacity min_native_executor_capacity
      in \<lparr>cb_base = base_new event_capacity capacity, cb_native = native_authority_default,
          cb_actions = action_authority_default, cb_action_capacity = capacity\<rparr>)"

section \<open>Public actions\<close>

definition enqueue_action ::
  "cancellable_bridge \<Rightarrow> session_id \<Rightarrow> element_ref option \<Rightarrow> bridge_action_kind \<Rightarrow> uuid
    \<Rightarrow> timestamp \<Rightarrow> bridge_action \<times> cancellable_bridge" where
  "enqueue_action b sid reference kind fresh now =
     (case base_enqueue_action (cb_base b) sid reference kind fresh now of
        (action, base) \<Rightarrow>
          (action,
           if is_internal_capture_action kind then b\<lparr>cb_base := base\<rparr>
           else b\<lparr>cb_base := base, cb_actions :=
                  action_record_enqueued (cb_actions b) action (cb_action_capacity b)\<rparr>))"

definition enqueue_prebound_public_action ::
  "cancellable_bridge \<Rightarrow> bridge_action \<Rightarrow> bool \<times> cancellable_bridge" where
  "enqueue_prebound_public_action b action =
     (if is_internal_capture_action (act_action action) then (False, b)
      else case base_enqueue_prebound_public_action (cb_base b) action of
        (accepted, base) \<Rightarrow>
          if \<not> accepted then (False, b\<lparr>cb_base := base\<rparr>)
          else (True, b\<lparr>cb_base := base, cb_actions :=
                  action_record_enqueued (cb_actions b) action (cb_action_capacity b)\<rparr>))"

text \<open>The loop over the drained actions: what is delivered and what is consumed.\<close>

fun sort_taken_actions ::
  "session_id \<Rightarrow> bridge_action list \<Rightarrow> action_authority
    \<Rightarrow> bridge_action list \<times> uuid list \<times> action_authority" where
  "sort_taken_actions sid [] a = ([], [], a)"
| "sort_taken_actions sid (action # actions) a =
     (let key = (sid, act_id action); a1 = action_remove_queued a sid (act_id action)
      in if action_state_is a1 key APending then
           (case sort_taken_actions sid actions
                (action_set_state a1 key AInflight) of
              (deliver, consume, a2) \<Rightarrow> (action # deliver, consume, a2))
         else
           (case sort_taken_actions sid actions a1 of
              (deliver, consume, a2) \<Rightarrow> (deliver, act_id action # consume, a2)))"

definition take_public_actions ::
  "cancellable_bridge \<Rightarrow> session_id \<Rightarrow> nat \<Rightarrow> timestamp
    \<Rightarrow> bridge_action list \<times> cancellable_bridge" where
  "take_public_actions b sid limit now =
     (case base_take_public_actions (cb_base b) sid limit now of
        (taken, base) \<Rightarrow>
          (case sort_taken_actions sid taken (cb_actions b) of
             (deliver, consume, a) \<Rightarrow>
               (deliver, b\<lparr>cb_base :=
                    fold (\<lambda>i base. snd (base_discard_public_action base sid i)) consume base,
                  cb_actions := action_prune a\<rparr>)))"

definition claim_action ::
  "cancellable_bridge \<Rightarrow> session_id \<Rightarrow> uuid \<Rightarrow> bridge_action option \<times> cancellable_bridge" where
  "claim_action b sid aid =
     (case ac_entries (cb_actions b) (sid, aid) of
        None \<Rightarrow>
          (case base_claim_action (cb_base b) sid aid of
             (claimed, base) \<Rightarrow> (claimed, b\<lparr>cb_base := base\<rparr>))
      | Some entry \<Rightarrow>
          if ac_state entry \<noteq> AInflight then (None, b)
          else case base_claim_action (cb_base b) sid aid of
            (None, base) \<Rightarrow> (None, b\<lparr>cb_base := base\<rparr>)
          | (Some claimed, base) \<Rightarrow>
              (Some claimed, b\<lparr>cb_base := base,
                 cb_actions := action_remove (cb_actions b) (sid, aid)\<rparr>))"

definition request_action_cancellation ::
  "cancellable_bridge \<Rightarrow> session_id \<Rightarrow> uuid \<Rightarrow> timestamp
    \<Rightarrow> cancellation_outcome option \<times> cancellable_bridge" where
  "request_action_cancellation b sid aid now =
     (let a = cb_actions b; key = (sid, aid);
          requested = \<lparr>co_id = aid, co_state = CancelRequested, co_acknowledged = False\<rparr>;
          settled = \<lparr>co_id = aid, co_state = CancelDone, co_acknowledged = True\<rparr>
      in case ac_entries a key of
        None \<Rightarrow> (None, b)
      | Some entry \<Rightarrow>
          (case ac_state entry of
             APending \<Rightarrow> (Some settled, b\<lparr>cb_actions := action_mark_cancelled a key now\<rparr>)
           | AInflight \<Rightarrow> (Some requested, b\<lparr>cb_actions := a\<lparr>ac_entries := (ac_entries a)(key \<mapsto>
               entry\<lparr>ac_state := ACancellationRequested,
                     ac_cancellation_requested_at := Some now\<rparr>)\<rparr>\<rparr>)
           | ACancellationRequested \<Rightarrow> (Some requested, b)
           | ACancelled \<Rightarrow> (Some settled, b)))"

definition action_cancellation ::
  "cancellable_bridge \<Rightarrow> session_id \<Rightarrow> uuid \<Rightarrow> cancellation_signal option" where
  "action_cancellation b sid aid =
     (case ac_entries (cb_actions b) (sid, aid) of
        None \<Rightarrow> None
      | Some entry \<Rightarrow>
          if ac_state entry \<noteq> ACancellationRequested then None
          else map_option (\<lambda>at. \<lparr>cs_id = aid, cs_requested_at = at\<rparr>)
                 (ac_cancellation_requested_at entry))"

text \<open>\<open>keys\<close> is the order in which the hash map of the authority is iterated.\<close>

definition action_cancellations ::
  "(session_id \<times> uuid) list \<Rightarrow> cancellable_bridge \<Rightarrow> session_id \<Rightarrow> nat
    \<Rightarrow> cancellation_signal list" where
  "action_cancellations keys b sid limit =
     take limit (sort_key cs_requested_at (List.map_filter
       (\<lambda>key. if fst key \<noteq> sid then None else action_cancellation b sid (snd key)) keys))"

definition acknowledge_action_cancellation ::
  "cancellable_bridge \<Rightarrow> session_id \<Rightarrow> uuid \<Rightarrow> timestamp \<Rightarrow> bool \<times> cancellable_bridge" where
  "acknowledge_action_cancellation b sid aid now =
     (case ac_entries (cb_actions b) (sid, aid) of
        None \<Rightarrow> (False, b)
      | Some entry \<Rightarrow>
          (case ac_state entry of
             ACancelled \<Rightarrow> (True, b)
           | ACancellationRequested \<Rightarrow>
               (True, b\<lparr>cb_base := snd (base_discard_public_action (cb_base b) sid aid),
                  cb_actions := action_mark_cancelled (cb_actions b) (sid, aid)
                    (case ac_cancellation_requested_at entry of None \<Rightarrow> now | Some at \<Rightarrow> at)\<rparr>)
           | _ \<Rightarrow> (False, b)))"

definition discard_public_actions_for_session ::
  "cancellable_bridge \<Rightarrow> session_id \<Rightarrow> nat \<times> cancellable_bridge" where
  "discard_public_actions_for_session b sid =
     (case base_discard_public_actions_for_session (cb_base b) sid of
        (removed, base) \<Rightarrow>
          (removed, b\<lparr>cb_base := base, cb_actions := action_release_session (cb_actions b) sid\<rparr>))"

section \<open>Native executor requests\<close>

definition enqueue_native_executor ::
  "cancellable_bridge \<Rightarrow> session_id \<Rightarrow> native_executor_action \<Rightarrow> uuid \<Rightarrow> timestamp
    \<Rightarrow> native_executor_request \<times> cancellable_bridge" where
  "enqueue_native_executor b sid action fresh now =
     (case base_enqueue_native_executor (cb_base b) sid action fresh now of
        (request, base) \<Rightarrow>
          (request, b\<lparr>cb_base := base, cb_native :=
             native_record_enqueued (cb_native b) sid request (cb_action_capacity b)\<rparr>))"

text \<open>The result a cancelled request is settled with.\<close>

definition settle_cancelled_origin ::
  "(json \<Rightarrow> nat option) \<Rightarrow> base_bridge \<Rightarrow> session_id \<Rightarrow> uuid \<Rightarrow> string \<Rightarrow> timestamp
    \<Rightarrow> bool \<times> base_bridge" where
  "settle_cancelled_origin payload_len base sid rid reason now =
     base_complete_native_executor payload_len (snd (base_claim_native_executor base sid rid)) sid
       \<lparr>nex_request_id = rid, nex_ok = False, nex_error = Some reason, nex_usage = None,
        nex_payload = JNull, nex_completed_at = now\<rparr>"

fun sort_taken_requests ::
  "session_id \<Rightarrow> native_executor_request list \<Rightarrow> native_authority
    \<Rightarrow> native_executor_request list \<times> native_executor_request list \<times> native_authority" where
  "sort_taken_requests sid [] a = ([], [], a)"
| "sort_taken_requests sid (request # requests) a =
     (let key = (sid, ner_id request); a1 = native_remove_queued a sid (ner_id request)
      in case na_entries a1 key of
        Some entry \<Rightarrow>
          if na_state entry = NCancelled then
            (case sort_taken_requests sid requests a1 of
               (deliver, cancelled, a2) \<Rightarrow> (deliver, request # cancelled, a2))
          else
            (case sort_taken_requests sid requests (a1\<lparr>na_entries := (na_entries a1)(key \<mapsto>
                 entry\<lparr>na_state := NInflight\<rparr>)\<rparr>) of
               (deliver, cancelled, a2) \<Rightarrow> (request # deliver, cancelled, a2))
      | None \<Rightarrow>
          (case sort_taken_requests sid requests (a1\<lparr>na_entries := (na_entries a1)(key \<mapsto>
               \<lparr>na_state = NInflight, na_created_at = ner_created_at request,
                na_cancellation_requested_at = None\<rparr>)\<rparr>) of
             (deliver, cancelled, a2) \<Rightarrow> (request # deliver, cancelled, a2)))"

definition take_native_executor_requests ::
  "(json \<Rightarrow> nat option) \<Rightarrow> cancellable_bridge \<Rightarrow> session_id \<Rightarrow> nat \<Rightarrow> timestamp
    \<Rightarrow> native_executor_request list \<times> cancellable_bridge" where
  "take_native_executor_requests payload_len b sid limit now =
     (case base_take_native_executor_requests (cb_base b) sid limit of
        (taken, base) \<Rightarrow>
          (case sort_taken_requests sid taken (cb_native b) of
             (deliver, cancelled, a) \<Rightarrow>
               (deliver, b\<lparr>cb_base :=
                    fold (\<lambda>r base. snd (settle_cancelled_origin payload_len base sid (ner_id r)
                            ''cancelled before native dispatch'' now)) cancelled base,
                  cb_native := native_prune a\<rparr>)))"

definition claim_native_executor ::
  "cancellable_bridge \<Rightarrow> session_id \<Rightarrow> uuid
    \<Rightarrow> native_executor_request option \<times> cancellable_bridge" where
  "claim_native_executor b sid rid =
     (case na_entries (cb_native b) (sid, rid) of
        None \<Rightarrow> (None, b)
      | Some entry \<Rightarrow>
          if na_state entry \<in> {NCancellationRequested, NCancelled} then (None, b)
          else case base_claim_native_executor (cb_base b) sid rid of
            (claimed, base) \<Rightarrow> (claimed, b\<lparr>cb_base := base\<rparr>))"

definition complete_native_executor ::
  "(json \<Rightarrow> nat option) \<Rightarrow> cancellable_bridge \<Rightarrow> session_id \<Rightarrow> native_executor_result
    \<Rightarrow> bool \<times> cancellable_bridge" where
  "complete_native_executor payload_len b sid result =
     (let key = (sid, nex_request_id result)
      in case na_entries (cb_native b) key of
        None \<Rightarrow> (False, b)
      | Some entry \<Rightarrow>
          if na_state entry \<in> {NCancellationRequested, NCancelled} then (False, b)
          else case base_complete_native_executor payload_len (cb_base b) sid result of
            (completed, base) \<Rightarrow>
              (completed, b\<lparr>cb_base := base, cb_native :=
                 if completed then native_remove (cb_native b) key else cb_native b\<rparr>))"

definition request_native_executor_cancellation ::
  "cancellable_bridge \<Rightarrow> session_id \<Rightarrow> uuid \<Rightarrow> timestamp
    \<Rightarrow> cancellation_outcome option \<times> cancellable_bridge" where
  "request_native_executor_cancellation b sid rid now =
     (let a = cb_native b; key = (sid, rid);
          requested = \<lparr>co_id = rid, co_state = CancelRequested, co_acknowledged = False\<rparr>;
          settled = \<lparr>co_id = rid, co_state = CancelDone, co_acknowledged = True\<rparr>
      in case na_entries a key of
        None \<Rightarrow> (None, b)
      | Some entry \<Rightarrow>
          (case na_state entry of
             NPending \<Rightarrow> (Some settled, b\<lparr>cb_native := native_mark_cancelled a key now\<rparr>)
           | NInflight \<Rightarrow> (Some requested, b\<lparr>cb_native := a\<lparr>na_entries := (na_entries a)(key \<mapsto>
               entry\<lparr>na_state := NCancellationRequested,
                     na_cancellation_requested_at := Some now\<rparr>)\<rparr>\<rparr>)
           | NCancellationRequested \<Rightarrow> (Some requested, b)
           | NCancelled \<Rightarrow> (Some settled, b)))"

definition native_executor_cancellation ::
  "cancellable_bridge \<Rightarrow> session_id \<Rightarrow> uuid \<Rightarrow> cancellation_signal option" where
  "native_executor_cancellation b sid rid =
     (case na_entries (cb_native b) (sid, rid) of
        None \<Rightarrow> None
      | Some entry \<Rightarrow>
          if na_state entry \<noteq> NCancellationRequested then None
          else map_option (\<lambda>at. \<lparr>cs_id = rid, cs_requested_at = at\<rparr>)
                 (na_cancellation_requested_at entry))"

definition native_executor_cancellations ::
  "(session_id \<times> uuid) list \<Rightarrow> cancellable_bridge \<Rightarrow> session_id \<Rightarrow> nat
    \<Rightarrow> cancellation_signal list" where
  "native_executor_cancellations keys b sid limit =
     take limit (sort_key cs_requested_at (List.map_filter
       (\<lambda>key. if fst key \<noteq> sid then None else native_executor_cancellation b sid (snd key)) keys))"

definition acknowledge_native_executor_cancellation ::
  "(json \<Rightarrow> nat option) \<Rightarrow> cancellable_bridge \<Rightarrow> session_id \<Rightarrow> uuid \<Rightarrow> timestamp
    \<Rightarrow> bool \<times> cancellable_bridge" where
  "acknowledge_native_executor_cancellation payload_len b sid rid now =
     (case na_entries (cb_native b) (sid, rid) of
        None \<Rightarrow> (False, b)
      | Some entry \<Rightarrow>
          (case na_state entry of
             NCancelled \<Rightarrow> (True, b)
           | NCancellationRequested \<Rightarrow>
               (case settle_cancelled_origin payload_len (cb_base b) sid rid
                       ''native executor cancellation acknowledged'' now of
                  (settled, base) \<Rightarrow>
                    if \<not> settled then (False, b\<lparr>cb_base := base\<rparr>)
                    else (True, b\<lparr>cb_base := base,
                       cb_native := native_mark_cancelled (cb_native b) (sid, rid)
                         (case na_cancellation_requested_at entry of None \<Rightarrow> now | Some at \<Rightarrow> at)\<rparr>))
           | _ \<Rightarrow> (False, b)))"

definition expire_native_executor_active_before ::
  "cancellable_bridge \<Rightarrow> session_id \<Rightarrow> timestamp \<Rightarrow> nat \<times> cancellable_bridge" where
  "expire_native_executor_active_before b sid cutoff =
     (case base_expire_native_executor_active_before (cb_base b) sid cutoff of
        (expired, base) \<Rightarrow>
          (expired, b\<lparr>cb_base := base, cb_native :=
             if 0 < expired then (cb_native b)\<lparr>na_entries := (\<lambda>key.
               case na_entries (cb_native b) key of
                 None \<Rightarrow> None
               | Some entry \<Rightarrow>
                   if fst key = sid \<and> na_state entry \<in> {NInflight, NCancellationRequested}
                      \<and> na_created_at entry < cutoff then None else Some entry)\<rparr>
             else cb_native b\<rparr>))"

definition release_session :: "cancellable_bridge \<Rightarrow> session_id \<Rightarrow> cancellable_bridge" where
  "release_session b sid =
     b\<lparr>cb_base := base_release_session (cb_base b) sid,
       cb_native := native_release_session (cb_native b) sid,
       cb_actions := action_release_session (cb_actions b) sid\<rparr>"

end
