(* ===== verification/Rust_Float.thy ===== *)
theory Rust_Float
  imports Prelude Complex_Main
begin

text \<open>
  The floating point operations the modelled code uses, on values: a float is not a number, an
  infinity, or the rational number it stands for (the code never tells the two zeros
  apart). Every operation rounds its exact result to the nearest float of the format, ties to
  even; a format is its precision, its smallest exponent and its largest exponent.
\<close>

datatype float = NaN | Infinite bool | Finite rat

record float_format =
  ff_precision :: int
  ff_least :: int
  ff_bound :: int

definition binary32 :: float_format where
  "binary32 = \<lparr>ff_precision = 24, ff_least = - 149, ff_bound = 128\<rparr>"

definition binary64 :: float_format where
  "binary64 = \<lparr>ff_precision = 53, ff_least = - 1074, ff_bound = 1024\<rparr>"

definition pow2 :: "int \<Rightarrow> rat" where
  "pow2 e = (if 0 \<le> e then 2 ^ nat e else 1 / 2 ^ nat (- e))"

function bit_length :: "int \<Rightarrow> int" where
  "bit_length n = (if n \<le> 0 then 0 else 1 + bit_length (n div 2))"
  by pat_completeness auto

termination
  by (relation "measure nat") auto

declare bit_length.simps [simp del]

text \<open>The exponent of a positive number: \<open>pow2 e \<le> q < pow2 (e + 1)\<close>.\<close>

definition exponent :: "rat \<Rightarrow> int" where
  "exponent q = (let (a, b) = quotient_of q; e = bit_length a - bit_length b
                 in if pow2 e \<le> q then e else e - 1)"

definition round_half_even :: "rat \<Rightarrow> int" where
  "round_half_even x = (let n = \<lfloor>x\<rfloor>; r = x - of_int n
     in if r < 1 / 2 then n else if 1 / 2 < r then n + 1 else if even n then n else n + 1)"

definition round_float :: "float_format \<Rightarrow> rat \<Rightarrow> float" where
  "round_float f q =
     (if q = 0 then Finite 0
      else let u = pow2 (max (ff_least f) (exponent \<bar>q\<bar> - ff_precision f + 1));
               r = of_int (round_half_even (\<bar>q\<bar> / u)) * u
           in if pow2 (ff_bound f) \<le> r then Infinite (q < 0)
              else Finite (if q < 0 then - r else r))"

definition is_finite :: "float \<Rightarrow> bool" where
  "is_finite x \<longleftrightarrow> (\<exists>q. x = Finite q)"

lemma is_finite_simps [simp, code]:
  "is_finite (Finite q) = True" "is_finite NaN = False" "is_finite (Infinite s) = False"
  by (simp_all add: is_finite_def)

fun float_lt :: "float \<Rightarrow> float \<Rightarrow> bool" where
  "float_lt (Finite x) (Finite y) = (x < y)"
| "float_lt (Infinite s) (Infinite t) = (s \<and> \<not> t)"
| "float_lt (Infinite s) (Finite y) = s"
| "float_lt (Finite x) (Infinite t) = (\<not> t)"
| "float_lt _ _ = False"

fun float_le :: "float \<Rightarrow> float \<Rightarrow> bool" where
  "float_le (Finite x) (Finite y) = (x \<le> y)"
| "float_le (Infinite s) (Infinite t) = (s \<or> \<not> t)"
| "float_le (Infinite s) (Finite y) = s"
| "float_le (Finite x) (Infinite t) = (\<not> t)"
| "float_le _ _ = False"

text \<open>\<open>max\<close> and \<open>min\<close> return the other argument when one is not a number.\<close>

fun float_max :: "float \<Rightarrow> float \<Rightarrow> float" where
  "float_max NaN y = y"
| "float_max x NaN = x"
| "float_max x y = (if float_lt x y then y else x)"

fun float_min :: "float \<Rightarrow> float \<Rightarrow> float" where
  "float_min NaN y = y"
| "float_min x NaN = x"
| "float_min x y = (if float_lt y x then y else x)"

fun float_add :: "float_format \<Rightarrow> float \<Rightarrow> float \<Rightarrow> float" where
  "float_add f (Finite x) (Finite y) = round_float f (x + y)"
| "float_add f (Infinite s) (Infinite t) = (if s = t then Infinite s else NaN)"
| "float_add f (Infinite s) (Finite y) = Infinite s"
| "float_add f (Finite x) (Infinite t) = Infinite t"
| "float_add f _ _ = NaN"

fun float_mul :: "float_format \<Rightarrow> float \<Rightarrow> float \<Rightarrow> float" where
  "float_mul f (Finite x) (Finite y) = round_float f (x * y)"
| "float_mul f (Infinite s) (Infinite t) = Infinite (s \<noteq> t)"
| "float_mul f (Infinite s) (Finite y) = (if y = 0 then NaN else Infinite (s \<noteq> (y < 0)))"
| "float_mul f (Finite x) (Infinite t) = (if x = 0 then NaN else Infinite ((x < 0) \<noteq> t))"
| "float_mul f _ _ = NaN"

text \<open>Division; a zero divisor is taken as the positive zero.\<close>

fun float_div :: "float_format \<Rightarrow> float \<Rightarrow> float \<Rightarrow> float" where
  "float_div f (Finite x) (Finite y) =
     (if y = 0 then (if x = 0 then NaN else Infinite (x < 0)) else round_float f (x / y))"
| "float_div f (Infinite s) (Finite y) = Infinite (s \<noteq> (y < 0))"
| "float_div f (Finite x) (Infinite t) = Finite 0"
| "float_div f _ _ = NaN"

text \<open>Conversions: of an unsigned integer, and from one format to another.\<close>

definition float_of_nat :: "float_format \<Rightarrow> nat \<Rightarrow> float" where
  "float_of_nat f n = round_float f (of_nat n)"

fun float_cast :: "float_format \<Rightarrow> float \<Rightarrow> float" where
  "float_cast f (Finite x) = round_float f x"
| "float_cast f x = x"

definition float_neg :: "float \<Rightarrow> float" where
  "float_neg x = (case x of NaN \<Rightarrow> NaN | Infinite s \<Rightarrow> Infinite (\<not> s) | Finite q \<Rightarrow> Finite (- q))"

definition float_sub :: "float_format \<Rightarrow> float \<Rightarrow> float \<Rightarrow> float" where
  "float_sub f x y = float_add f x (float_neg y)"

definition float_abs :: "float \<Rightarrow> float" where
  "float_abs x = (case x of NaN \<Rightarrow> NaN | Infinite s \<Rightarrow> Infinite False | Finite q \<Rightarrow> Finite \<bar>q\<bar>)"

text \<open>The bit pattern of an \<open>f64\<close>: its value, and the pattern of a rational that is a value.\<close>

definition f64_value :: "64 word \<Rightarrow> float" where
  "f64_value w =
     (let negative = bit w 63;
          biased = uint (drop_bit 52 w) mod 2048;
          fraction = uint w mod 2 ^ 52;
          q = (if biased = 0 then of_int fraction * pow2 (- 1074)
               else of_int (2 ^ 52 + fraction) * pow2 (biased - 1075))
      in if biased = 2047 then (if fraction = 0 then Infinite negative else NaN)
         else Finite (if negative then - q else q))"

definition f64_bits_of :: "rat \<Rightarrow> 64 word" where
  "f64_bits_of q =
     (if q = 0 then 0
      else let a = \<bar>q\<bar>; e = exponent a; sign = (if q < 0 then 2 ^ 63 else 0)
           in if e < - 1022 then word_of_int (sign + \<lfloor>a / pow2 (- 1074)\<rfloor>)
              else word_of_int (sign + (e + 1023) * 2 ^ 52 + (\<lfloor>a / pow2 (e - 52)\<rfloor> - 2 ^ 52)))"

text \<open>\<open>f32::MAX\<close>.\<close>

definition max_binary32 :: rat where
  "max_binary32 = (2 ^ 24 - 1) * 2 ^ 104"

section \<open>Rounding\<close>

lemma round_half_even_mono: "x \<le> y \<Longrightarrow> round_half_even x \<le> round_half_even y"
proof -
  assume xy: "x \<le> y"
  then have f: "\<lfloor>x\<rfloor> \<le> \<lfloor>y\<rfloor>" by (rule floor_mono)
  show ?thesis
  proof (cases "\<lfloor>x\<rfloor> = \<lfloor>y\<rfloor>")
    case True
    with xy show ?thesis by (auto simp: round_half_even_def Let_def)
  next
    case False
    with f have "\<lfloor>x\<rfloor> + 1 \<le> \<lfloor>y\<rfloor>" by simp
    then show ?thesis by (auto simp: round_half_even_def Let_def)
  qed
qed

lemma round_half_even_int [simp]: "round_half_even (of_int n) = n"
  by (simp add: round_half_even_def)

lemma pow2_pos [simp]: "0 < pow2 e"
  by (simp add: pow2_def)

lemma round_float_zero [simp]: "round_float f 0 = Finite 0"
  by (simp add: round_float_def)

text \<open>Rounding a positive number never gives a negative one.\<close>

lemma round_float_nonneg: "0 \<le> q \<Longrightarrow> float_le (Finite 0) (round_float f q)"
proof -
  assume q: "0 \<le> q"
  have "0 \<le> round_half_even x" if "0 \<le> x" for x
    using round_half_even_mono [of 0 x] that round_half_even_int [of 0] by simp
  then have "0 \<le> rat_of_int (round_half_even (\<bar>q\<bar> / u)) * u" if "0 < u" for u
    using that by simp
  with q show ?thesis by (simp add: round_float_def Let_def)
qed

end
