(* ===== verification/Json_Access.thy ===== *)
theory Json_Access
  imports Bridge_Queue Rust_Float
begin

text \<open>Reading and building JSON values as the code does with the library \<open>serde_json\<close>.\<close>

text \<open>\<open>Value::get\<close> of a member, \<open>as_f64\<close> (an integer is converted), \<open>as_array\<close>; \<open>json!\<close> of an \<open>f64\<close>.\<close>

definition json_get :: "json \<Rightarrow> string \<Rightarrow> json option" where
  "json_get v k = (case v of JObject members \<Rightarrow> map_of members k | _ \<Rightarrow> None)"

definition f64_of_int :: "int \<Rightarrow> f64_bits" where
  "f64_of_int n = (case round_float binary64 (of_int n) of Finite q \<Rightarrow> f64_bits_of q | _ \<Rightarrow> 0)"

fun as_f64 :: "json \<Rightarrow> f64_bits option" where
  "as_f64 (JNumber (PosInt n)) = Some (f64_of_int (uint n))"
| "as_f64 (JNumber (NegInt n)) = Some (f64_of_int (sint n))"
| "as_f64 (JNumber (Float x)) = Some x"
| "as_f64 _ = None"

fun as_array :: "json \<Rightarrow> json list option" where
  "as_array (JArray vs) = Some vs"
| "as_array _ = None"

definition json_f64 :: "f64_bits \<Rightarrow> json" where
  "json_f64 x = (if is_finite (f64_value x) then JNumber (Float x) else JNull)"

definition get_f64 :: "json \<Rightarrow> string \<Rightarrow> f64_bits option" where
  "get_f64 v k = Option.bind (json_get v k) as_f64"

definition get_u64 :: "json \<Rightarrow> string \<Rightarrow> u64 option" where
  "get_u64 v k = Option.bind (json_get v k) as_u64"

definition get_bool :: "json \<Rightarrow> string \<Rightarrow> bool option" where
  "get_bool v k = Option.bind (json_get v k) as_bool"

text \<open>An object literal.\<close>

definition json_object :: "(string \<times> json) list \<Rightarrow> json" where
  "json_object members = JObject (fold (\<lambda>(k, v) m. object_insert k v m) members [])"

end
