(* ===== verification/Rust_Net.thy ===== *)
theory Rust_Net
  imports Prelude
begin

text \<open>
  The text functions of the Rust standard library that the modelled code uses on host names
  and messages: parsing an IP address, comparing without case, replacing a pattern. The
  parser is the one of \<open>core::net\<close>: a reader takes a prefix of the text or nothing.
\<close>

section \<open>Numbers\<close>

definition to_digit :: "int \<Rightarrow> char \<Rightarrow> int option" where
  "to_digit radix c =
     (let n = of_char c :: int;
          d = (if 48 \<le> n \<and> n \<le> 57 then n - 48 else if 97 \<le> n \<and> n \<le> 102 then n - 87
               else if 65 \<le> n \<and> n \<le> 70 then n - 55 else radix)
      in if d < radix then Some d else None)"

text \<open>The digits at the front of a text, their value and their number.\<close>

fun read_digits :: "int \<Rightarrow> int \<times> nat \<Rightarrow> string \<Rightarrow> (int \<times> nat) \<times> string" where
  "read_digits radix acc [] = (acc, [])"
| "read_digits radix (v, n) (c # cs) =
     (case to_digit radix c of
        None \<Rightarrow> ((v, n), c # cs)
      | Some d \<Rightarrow> read_digits radix (v * radix + d, n + 1) cs)"

definition read_number :: "int \<Rightarrow> nat \<Rightarrow> bool \<Rightarrow> int \<Rightarrow> string \<Rightarrow> (int \<times> string) option" where
  "read_number radix max_digits allow_zero_prefix bound s =
     (case read_digits radix (0, 0) s of ((v, n), rest) \<Rightarrow>
        if n = 0 \<or> max_digits < n \<or> bound \<le> v
           \<or> \<not> allow_zero_prefix \<and> 1 < n \<and> take 1 s = ''0'' then None
        else Some (v, rest))"

definition read_given_char :: "char \<Rightarrow> string \<Rightarrow> string option" where
  "read_given_char c s = (case s of [] \<Rightarrow> None | d # rest \<Rightarrow> if c = d then Some rest else None)"

text \<open>A separator comes before every item but the first.\<close>

definition read_separator ::
  "char \<Rightarrow> nat \<Rightarrow> (string \<Rightarrow> ('a \<times> string) option) \<Rightarrow> string \<Rightarrow> ('a \<times> string) option" where
  "read_separator c i reader s =
     (if i = 0 then reader s else Option.bind (read_given_char c s) reader)"

section \<open>Addresses\<close>

fun read_octets :: "nat \<Rightarrow> nat \<Rightarrow> string \<Rightarrow> (int list \<times> string) option" where
  "read_octets i 0 s = Some ([], s)"
| "read_octets i (Suc n) s =
     Option.bind (read_separator (CHR ''.'') i (read_number 10 3 False 256) s)
       (\<lambda>(v, rest). map_option (\<lambda>(vs, rest'). (v # vs, rest')) (read_octets (i + 1) n rest))"

definition read_ipv4_addr :: "string \<Rightarrow> (int list \<times> string) option" where
  "read_ipv4_addr s = read_octets 0 4 s"

text \<open>Up to \<open>limit - i\<close> groups; an embedded IPv4 address counts as two and ends them.\<close>

fun read_groups :: "nat \<Rightarrow> nat \<Rightarrow> nat \<Rightarrow> string \<Rightarrow> int list \<times> bool \<times> string" where
  "read_groups 0 limit i s = ([], False, s)"
| "read_groups (Suc n) limit i s =
     (case (if i + 1 < limit then read_separator (CHR '':'') i read_ipv4_addr s else None) of
        Some (octets, rest) \<Rightarrow>
          ([octets ! 0 * 256 + octets ! 1, octets ! 2 * 256 + octets ! 3], True, rest)
      | None \<Rightarrow>
          (case read_separator (CHR '':'') i (read_number 16 4 True 65536) s of
             None \<Rightarrow> ([], False, s)
           | Some (g, rest) \<Rightarrow>
               (case read_groups n limit (i + 1) rest of (gs, v4, rest') \<Rightarrow> (g # gs, v4, rest'))))"

definition read_ipv6_addr :: "string \<Rightarrow> (int list \<times> string) option" where
  "read_ipv6_addr s =
     (case read_groups 8 8 0 s of (head, head_ipv4, rest) \<Rightarrow>
        if length head = 8 then Some (head, rest)
        else if head_ipv4 then None
        else Option.bind (Option.bind (read_given_char (CHR '':'') rest) (read_given_char (CHR '':'')))
          (\<lambda>rest'. let limit = 8 - (length head + 1)
             in case read_groups limit limit 0 rest' of (tail, _, rest'') \<Rightarrow>
                  Some (head @ replicate (8 - length head - length tail) 0 @ tail, rest'')))"

text \<open>\<open>str::parse::<IpAddr>()\<close> followed by \<open>is_loopback\<close>, false when the text is no address.\<close>

definition ip_is_loopback :: "string \<Rightarrow> bool" where
  "ip_is_loopback s =
     (case read_ipv4_addr s of
        Some (octets, rest) \<Rightarrow> rest = [] \<and> octets ! 0 = 127
      | None \<Rightarrow>
          (case read_ipv6_addr s of
             None \<Rightarrow> False
           | Some (groups, rest) \<Rightarrow> rest = [] \<and> groups = [0, 0, 0, 0, 0, 0, 0, 1]))"

lemma ip_is_loopback_examples:
  "map ip_is_loopback [''127.0.0.1'', ''127.9.255.3'', ''::1'', ''0:0::0:1'', ''::0.0.0.1'']
     = [True, True, True, True, True]"
  "map ip_is_loopback [''127.0.0.01'', ''127.0.0'', ''127.0.0.1.2'', ''[::1]'', ''::2'', ''::ffff:127.0.0.1'',
     ''localhost'', ''10.0.0.1'', ''127.0.0.256'']
     = [False, False, False, False, False, False, False, False, False]"
  by code_simp+

section \<open>Text\<close>

definition ascii_lowercase_char :: "char \<Rightarrow> char" where
  "ascii_lowercase_char c = (let n = of_char c :: nat in if 65 \<le> n \<and> n \<le> 90 then char_of (n + 32) else c)"

definition eq_ignore_ascii_case :: "string \<Rightarrow> string \<Rightarrow> bool" where
  "eq_ignore_ascii_case s t \<longleftrightarrow> map ascii_lowercase_char s = map ascii_lowercase_char t"

text \<open>\<open>str::replace\<close> (of a pattern that is not empty).\<close>

function replace_all :: "string \<Rightarrow> string \<Rightarrow> string \<Rightarrow> string" where
  "replace_all pattern to [] = []"
| "replace_all pattern to (c # cs) =
     (case (if pattern = [] then None else strip_prefix pattern (c # cs)) of
        None \<Rightarrow> c # replace_all pattern to cs
      | Some rest \<Rightarrow> to @ replace_all pattern to rest)"
  by pat_completeness auto

termination
  by (relation "measure (\<lambda>(p, t, s). length s)")
    (auto split: if_splits simp: strip_prefix_Some Cons_eq_append_conv)

end
