(* ===== verification/Action_Results.thy ===== *)
theory Action_Results
  imports Json_Access Rust_Net
begin

text \<open>
  The completion of an action on the base bridge (\<open>complete_action\<close> in
  \<open>src/crates/live-bridge/src/lib.rs\<close>) and the sanitizers that decide what of its result is
  stored: text that was typed is redacted, measurements and capture metadata are rebuilt from
  validated numbers, and a result without a known origin loses its payload. Parsing a URL is
  the crate \<open>url\<close>, a parameter.
\<close>

section \<open>Validated numbers\<close>

definition max_css_viewport_dimension :: rat where
  "max_css_viewport_dimension = 100000"

definition max_full_page_document_css_height :: rat where
  "max_full_page_document_css_height = 50000"

definition valid_positive_css_dimension :: "f64_bits \<Rightarrow> bool" where
  "valid_positive_css_dimension x \<longleftrightarrow> is_finite (f64_value x) \<and> float_lt (Finite 0) (f64_value x)
     \<and> float_le (f64_value x) (Finite max_css_viewport_dimension)"

definition valid_positive_document_height :: "f64_bits \<Rightarrow> bool" where
  "valid_positive_document_height x \<longleftrightarrow> is_finite (f64_value x) \<and> float_lt (Finite 0) (f64_value x)
     \<and> float_le (f64_value x) (Finite max_full_page_document_css_height)"

definition valid_nonnegative_css_coordinate :: "f64_bits \<Rightarrow> bool" where
  "valid_nonnegative_css_coordinate x \<longleftrightarrow> is_finite (f64_value x) \<and> float_le (Finite 0) (f64_value x)
     \<and> float_le (f64_value x) (Finite max_css_viewport_dimension)"

definition valid_full_page_y :: "f64_bits \<Rightarrow> bool" where
  "valid_full_page_y x \<longleftrightarrow> is_finite (f64_value x) \<and> float_le (Finite 0) (f64_value x)
     \<and> float_le (f64_value x) (Finite max_full_page_document_css_height)"

definition is_some_and :: "('a \<Rightarrow> bool) \<Rightarrow> 'a option \<Rightarrow> bool" where
  "is_some_and P v = (case v of None \<Rightarrow> False | Some x \<Rightarrow> P x)"

definition max_masked_elements :: u64 where "max_masked_elements = 4096"
definition max_positional_scan_elements :: u64 where "max_positional_scan_elements = 4096"
definition max_visual_mask_rects :: nat where "max_visual_mask_rects = 256"

fun sanitize_mask_rect :: "json \<Rightarrow> json option" where
  "sanitize_mask_rect rect =
     (case (get_f64 rect ''x'', get_f64 rect ''y'', get_f64 rect ''width'', get_f64 rect ''height'') of
        (Some x, Some y, Some width, Some height) \<Rightarrow>
          (if \<not> is_finite (f64_value x) \<or> \<not> is_finite (f64_value y)
              \<or> \<not> is_finite (f64_value width) \<or> \<not> is_finite (f64_value height)
              \<or> \<not> is_finite (float_add binary64 (f64_value x) (f64_value width))
              \<or> \<not> is_finite (float_add binary64 (f64_value y) (f64_value height))
              \<or> float_le (f64_value width) (Finite 0) \<or> float_le (f64_value height) (Finite 0) then None
           else Some (json_object [(''x'', json_f64 x), (''y'', json_f64 y), (''width'', json_f64 width),
                   (''height'', json_f64 height)]))
      | _ \<Rightarrow> None)"

declare sanitize_mask_rect.simps [simp del]

definition sanitized_mask_rects :: "json \<Rightarrow> json list option" where
  "sanitized_mask_rects payload =
     Option.bind (Option.bind (json_get payload ''mask_rects'') as_array)
       (\<lambda>rects. if max_visual_mask_rects < length rects then None else those (map sanitize_mask_rect rects))"

section \<open>Capture results\<close>

definition fail_internal_capture_result :: "string \<Rightarrow> bridge_action_result \<Rightarrow> bridge_action_result" where
  "fail_internal_capture_result code result =
     result\<lparr>bar_ok := False, bar_payload := JNull, bar_error := Some code\<rparr>"

definition sanitize_visual_freeze_result :: "bridge_action_result \<Rightarrow> bridge_action_result" where
  "sanitize_visual_freeze_result result =
     (let payload = bar_payload result; invalid = fail_internal_capture_result ''visual_freeze_metadata_invalid'' result
      in if \<not> bar_ok result then fail_internal_capture_result ''visual_freeze_failed'' result
         else case (get_u64 payload ''paused_animations'', get_bool payload ''web_animations_supported'',
                get_f64 payload ''viewport_css_width'', get_f64 payload ''viewport_css_height'',
                get_u64 payload ''masked_elements'', sanitized_mask_rects payload) of
           (Some paused, Some supported, Some width, Some height, Some masked, Some rects) \<Rightarrow>
             if \<not> valid_positive_css_dimension width \<or> \<not> valid_positive_css_dimension height
                \<or> max_masked_elements < masked then invalid
             else
               let scroll_x = get_f64 payload ''scroll_x''; scroll_y = get_f64 payload ''scroll_y'';
                   document_width = get_f64 payload ''document_css_width'';
                   document_height = get_f64 payload ''document_css_height'';
                   extension_present = list_ex (\<lambda>k. json_get payload k \<noteq> None)
                     [''scroll_x'', ''scroll_y'', ''document_css_width'', ''document_css_height''];
                   extension_valid = is_some_and valid_nonnegative_css_coordinate scroll_x
                     \<and> is_some_and valid_full_page_y scroll_y
                     \<and> is_some_and valid_positive_css_dimension document_width
                     \<and> is_some_and valid_positive_document_height document_height;
                   base = [(''paused_animations'', JNumber (PosInt paused)),
                     (''web_animations_supported'', JBool supported),
                     (''viewport_css_width'', json_f64 width), (''viewport_css_height'', json_f64 height),
                     (''masked_elements'', JNumber (PosInt masked)), (''mask_rects'', JArray rects)];
                   extension = [(''scroll_x'', json_f64 (the scroll_x)), (''scroll_y'', json_f64 (the scroll_y)),
                     (''document_css_width'', json_f64 (the document_width)),
                     (''document_css_height'', json_f64 (the document_height))]
               in if extension_present \<and> \<not> extension_valid then invalid
                  else result\<lparr>bar_payload := json_object (if extension_valid then base @ extension else base),
                              bar_error := None\<rparr>
         | _ \<Rightarrow> invalid)"

text \<open>The members a capture result is rebuilt from: their names and what each must satisfy.\<close>

type_synonym member_rule = "string \<times> (f64_bits \<Rightarrow> bool)"

definition capture_scroll_members :: "member_rule list" where
  "capture_scroll_members =
     [(''requested_y'', valid_full_page_y), (''actual_x'', valid_nonnegative_css_coordinate),
      (''actual_y'', valid_full_page_y), (''document_css_width'', valid_positive_css_dimension),
      (''document_css_height'', valid_positive_document_height),
      (''viewport_css_width'', valid_positive_css_dimension),
      (''viewport_css_height'', valid_positive_css_dimension)]"

definition tile_probe_members :: "member_rule list" where
  "tile_probe_members =
     [(''scroll_x'', valid_nonnegative_css_coordinate), (''scroll_y'', valid_full_page_y),
      (''document_css_width'', valid_positive_css_dimension),
      (''document_css_height'', valid_positive_document_height),
      (''viewport_css_width'', valid_positive_css_dimension),
      (''viewport_css_height'', valid_positive_css_dimension)]"

definition members_valid :: "member_rule list \<Rightarrow> json \<Rightarrow> bool" where
  "members_valid rules payload \<longleftrightarrow> list_all (\<lambda>(k, P). is_some_and P (get_f64 payload k)) rules"

definition members_json :: "member_rule list \<Rightarrow> json \<Rightarrow> (string \<times> json) list" where
  "members_json rules payload = map (\<lambda>(k, P). (k, json_f64 (the (get_f64 payload k)))) rules"

definition sanitize_capture_scroll_result :: "bridge_action_result \<Rightarrow> bridge_action_result" where
  "sanitize_capture_scroll_result result =
     (if \<not> bar_ok result then fail_internal_capture_result ''capture_scroll_failed'' result
      else if \<not> members_valid capture_scroll_members (bar_payload result) then
        fail_internal_capture_result ''capture_scroll_metadata_invalid'' result
      else result\<lparr>bar_payload := json_object (members_json capture_scroll_members (bar_payload result)),
             bar_error := None\<rparr>)"

definition sanitize_capture_tile_probe_result :: "bridge_action_result \<Rightarrow> bridge_action_result" where
  "sanitize_capture_tile_probe_result result =
     (let payload = bar_payload result;
          invalid = fail_internal_capture_result ''capture_tile_probe_metadata_invalid'' result
      in if \<not> bar_ok result then fail_internal_capture_result ''capture_tile_probe_failed'' result
         else case (get_u64 payload ''masked_elements'', sanitized_mask_rects payload,
                get_u64 payload ''positional_elements_scanned'', get_bool payload ''visible_fixed_or_sticky'') of
           (Some masked, Some rects, Some scanned, Some visible) \<Rightarrow>
             if \<not> members_valid tile_probe_members payload \<or> max_masked_elements < masked
                \<or> max_positional_scan_elements < scanned then invalid
             else result\<lparr>bar_payload := json_object (members_json tile_probe_members payload
                    @ [(''masked_elements'', JNumber (PosInt masked)), (''mask_rects'', JArray rects),
                       (''positional_elements_scanned'', JNumber (PosInt scanned)),
                       (''visible_fixed_or_sticky'', JBool visible)]), bar_error := None\<rparr>
         | _ \<Rightarrow> invalid)"

section \<open>Measurements\<close>

record parsed_url =
  url_scheme :: string
  url_host :: "string option"
  url_without_query :: string

definition max_measure_reference_bytes :: nat where "max_measure_reference_bytes = 64"
definition max_measure_route_bytes :: nat where "max_measure_route_bytes = 2048"
definition max_measure_abs_coordinate :: rat where "max_measure_abs_coordinate = 1000000"

definition measure_dimension_tolerance :: float where
  "measure_dimension_tolerance = round_float binary64 (2 / 10)"

definition measure_rect :: "json option \<Rightarrow> (f64_bits \<times> f64_bits \<times> f64_bits \<times> f64_bits) option" where
  "measure_rect v =
     Option.bind v (\<lambda>rect.
       case (get_f64 rect ''x'', get_f64 rect ''y'', get_f64 rect ''width'', get_f64 rect ''height'') of
         (Some x, Some y, Some width, Some height) \<Rightarrow>
           (if \<not> is_finite (f64_value x) \<or> \<not> is_finite (f64_value y)
               \<or> \<not> is_finite (f64_value width) \<or> \<not> is_finite (f64_value height)
               \<or> float_lt (Finite max_measure_abs_coordinate) (float_abs (f64_value x))
               \<or> float_lt (Finite max_measure_abs_coordinate) (float_abs (f64_value y))
               \<or> float_lt (f64_value width) (Finite 0) \<or> float_lt (f64_value height) (Finite 0)
               \<or> float_lt (Finite max_css_viewport_dimension) (f64_value width)
               \<or> float_lt (Finite max_css_viewport_dimension) (f64_value height)
               \<or> \<not> is_finite (float_add binary64 (f64_value x) (f64_value width))
               \<or> \<not> is_finite (float_add binary64 (f64_value y) (f64_value height)) then None
            else Some (x, y, width, height))
       | _ \<Rightarrow> None)"

fun rect_json :: "f64_bits \<times> f64_bits \<times> f64_bits \<times> f64_bits \<Rightarrow> json" where
  "rect_json (x, y, width, height) = json_object
     [(''x'', json_f64 x), (''y'', json_f64 y), (''width'', json_f64 width), (''height'', json_f64 height)]"

declare rect_json.simps [simp del]

definition dimensions_differ :: "f64_bits \<Rightarrow> f64_bits \<Rightarrow> bool" where
  "dimensions_differ a b \<longleftrightarrow>
     float_lt measure_dimension_tolerance (float_abs (float_sub binary64 (f64_value a) (f64_value b)))"

definition valid_measure_reference :: "string \<Rightarrow> string \<Rightarrow> bool" where
  "valid_measure_reference expected reference \<longleftrightarrow>
     (case strip_prefix ''@e'' reference of
        None \<Rightarrow> False
      | Some hash \<Rightarrow> reference = expected \<and> length reference \<le> max_measure_reference_bytes
          \<and> hash \<noteq> [] \<and> list_all is_ascii_hexdigit hash)"

definition loopback_url :: "parsed_url \<Rightarrow> bool" where
  "loopback_url url \<longleftrightarrow> url_scheme url \<in> {''http'', ''https''}
     \<and> (case url_host url of
          None \<Rightarrow> False
        | Some host \<Rightarrow> eq_ignore_ascii_case host ''localhost'' \<or> ip_is_loopback host)"

definition fail_measure :: "bridge_action_result \<Rightarrow> bridge_action_result" where
  "fail_measure result =
     result\<lparr>bar_ok := False, bar_payload := JNull, bar_error := Some ''measure action failed''\<rparr>"

text \<open>The validated parts of a measurement, in the order the code reads them.\<close>

definition measured_reference :: "bridge_action \<Rightarrow> json \<Rightarrow> string option" where
  "measured_reference action payload =
     (case (act_reference action, Option.bind (json_get payload ''reference'') as_str) of
        (Some expected, Some reference) \<Rightarrow>
          if valid_measure_reference expected reference then Some reference else None
      | _ \<Rightarrow> None)"

definition measured_viewport :: "json \<Rightarrow> (f64_bits \<times> f64_bits) option" where
  "measured_viewport payload =
     Option.bind (json_get payload ''viewport'') (\<lambda>viewport.
       case (get_f64 viewport ''width'', get_f64 viewport ''height'') of
         (Some width, Some height) \<Rightarrow>
           if valid_positive_css_dimension width \<and> valid_positive_css_dimension height
           then Some (width, height) else None
       | _ \<Rightarrow> None)"

definition measured_rects ::
  "json \<Rightarrow> ((f64_bits \<times> f64_bits \<times> f64_bits \<times> f64_bits) \<times> (f64_bits \<times> f64_bits \<times> f64_bits \<times> f64_bits)) option"
  where
  "measured_rects payload =
     (case (measure_rect (json_get payload ''rect''), measure_rect (json_get payload ''document_rect'')) of
        (Some (x, y, width, height), Some (dx, dy, dwidth, dheight)) \<Rightarrow>
          if dimensions_differ width dwidth \<or> dimensions_differ height dheight then None
          else Some ((x, y, width, height), (dx, dy, dwidth, dheight))
      | _ \<Rightarrow> None)"

definition measured_route :: "(string \<Rightarrow> parsed_url option) \<Rightarrow> json \<Rightarrow> string option" where
  "measured_route url_parse payload =
     Option.bind (Option.bind (json_get payload ''route'') as_str) (\<lambda>route.
       if max_measure_route_bytes < length route then None
       else Option.bind (url_parse route) (\<lambda>url. if loopback_url url then Some (url_without_query url) else None))"

definition sanitize_measure_result ::
  "(string \<Rightarrow> parsed_url option) \<Rightarrow> bridge_action \<Rightarrow> bridge_action_result \<Rightarrow> bridge_action_result" where
  "sanitize_measure_result url_parse action result =
     (let payload = bar_payload result
      in if \<not> bar_ok result then
           result\<lparr>bar_payload := JNull, bar_error := map_option (\<lambda>_. ''measure action failed'') (bar_error result)\<rparr>
         else case (measured_reference action payload, measured_viewport payload, measured_rects payload,
                measured_route url_parse payload) of
           (Some reference, Some (width, height), Some (rect, document_rect), Some route) \<Rightarrow>
             result\<lparr>bar_payload := json_object
                 [(''reference'', JString reference), (''rect'', rect_json rect),
                  (''document_rect'', rect_json document_rect),
                  (''viewport'', json_object [(''width'', json_f64 width), (''height'', json_f64 height)]),
                  (''route'', JString route)], bar_error := None\<rparr>
         | _ \<Rightarrow> fail_measure result)"

section \<open>What is stored of a result\<close>

definition redact_text :: "string \<Rightarrow> bridge_action_result \<Rightarrow> bridge_action_result" where
  "redact_text typed result =
     result\<lparr>bar_payload := JNull,
       bar_error := (if typed = [] then bar_error result
         else map_option (replace_all typed ''[REDACTED]'') (bar_error result))\<rparr>"

definition sanitize_result_for_storage ::
  "(string \<Rightarrow> parsed_url option) \<Rightarrow> bridge_action option \<Rightarrow> bridge_action_result \<Rightarrow> bridge_action_result" where
  "sanitize_result_for_storage url_parse origin result =
     (case origin of
        None \<Rightarrow> result\<lparr>bar_payload := JNull,
          bar_error := map_option (\<lambda>_. ''[REDACTED: action origin unavailable]'') (bar_error result)\<rparr>
      | Some action \<Rightarrow>
          (case act_action action of
             Measure \<Rightarrow> sanitize_measure_result url_parse action result
           | TypeText typed _ \<Rightarrow> redact_text typed result
           | FreezeVisuals \<Rightarrow> sanitize_visual_freeze_result result
           | CaptureScrollTo _ _ \<Rightarrow> sanitize_capture_scroll_result result
           | CaptureTileProbe _ \<Rightarrow> sanitize_capture_tile_probe_result result
           | RestoreVisuals _ \<Rightarrow> result\<lparr>bar_payload := JNull,
               bar_error := map_option (\<lambda>_. ''visual restore action failed'') (bar_error result)\<rparr>
           | _ \<Rightarrow> result))"

section \<open>Completing an action\<close>

datatype completion_origin = OriginSession session_id | OriginAction bridge_action

datatype action_scope = PublicScope | InternalCaptureScope

definition scope_of_action :: "bridge_action \<Rightarrow> action_scope" where
  "scope_of_action x = (if is_internal_capture_action (act_action x) then InternalCaptureScope else PublicScope)"

definition remove_first :: "('a \<Rightarrow> bool) \<Rightarrow> 'a list \<Rightarrow> 'a list" where
  "remove_first P xs = (case take_first P xs of None \<Rightarrow> xs | Some (_, rest) \<Rightarrow> rest)"

fun remove_claimed_for_scope :: "action_scope \<Rightarrow> uuid \<Rightarrow> session_bridge_state \<Rightarrow> session_bridge_state" where
  "remove_claimed_for_scope PublicScope i st =
     st\<lparr>sb_claimed := remove_first (\<lambda>a. act_id a = i) (sb_claimed st)\<rparr>"
| "remove_claimed_for_scope InternalCaptureScope i st =
     st\<lparr>sb_capture_claimed := remove_first (\<lambda>a. act_id a = i) (sb_capture_claimed st)\<rparr>"

definition take_claimed_by_id ::
  "uuid \<Rightarrow> session_bridge_state \<Rightarrow> (bridge_action \<times> action_scope) option \<times> session_bridge_state" where
  "take_claimed_by_id i st =
     (case take_first (\<lambda>a. act_id a = i) (sb_capture_claimed st) of
        Some (x, rest) \<Rightarrow> (Some (x, InternalCaptureScope), st\<lparr>sb_capture_claimed := rest\<rparr>)
      | None \<Rightarrow>
          (case take_first (\<lambda>a. act_id a = i) (sb_claimed st) of
             Some (x, rest) \<Rightarrow> (Some (x, PublicScope), st\<lparr>sb_claimed := rest\<rparr>)
           | None \<Rightarrow> (None, st)))"

definition close_boundary ::
  "session_id \<Rightarrow> nat \<Rightarrow> timestamp \<Rightarrow> (bridge_action \<times> action_scope) option \<Rightarrow> session_bridge_state
    \<Rightarrow> session_bridge_state" where
  "close_boundary sid capacity now completed st =
     (case completed of
        Some (x, PublicScope) \<Rightarrow>
          (case sb_action_started_at st (act_id x) of
             None \<Rightarrow> st
           | Some started \<Rightarrow> st\<lparr>sb_action_started_at := (sb_action_started_at st)(act_id x := None),
               sb_action_boundaries := push_bounded (sb_action_boundaries st)
                 \<lparr>aeb_action_id = act_id x, aeb_session_id = sid, aeb_started_at = started,
                  aeb_completed_at = now\<rparr> capacity\<rparr>)
      | _ \<Rightarrow> st)"

definition complete_action ::
  "(string \<Rightarrow> parsed_url option) \<Rightarrow> base_bridge \<Rightarrow> completion_origin \<Rightarrow> bridge_action_result \<Rightarrow> timestamp
    \<Rightarrow> base_bridge" where
  "complete_action url_parse b origin result now =
     (let sid = (case origin of OriginSession sid \<Rightarrow> sid | OriginAction x \<Rightarrow> act_session_id x);
          st = session_or_default b sid;
          (completed, st1) = (case origin of
             OriginAction x \<Rightarrow> (Some (x, scope_of_action x),
               remove_claimed_for_scope (scope_of_action x) (act_id x) st)
           | OriginSession _ \<Rightarrow> take_claimed_by_id (bar_action_id result) st);
          st2 = close_boundary sid (bb_result_capacity b) now completed st1;
          stored = sanitize_result_for_storage url_parse (map_option fst completed) result
      in put_session b sid
           (case completed of
              Some (_, InternalCaptureScope) \<Rightarrow>
                st2\<lparr>sb_capture_results := push_bounded (sb_capture_results st2) stored (bb_result_capacity b)\<rparr>
            | _ \<Rightarrow> st2\<lparr>sb_results := push_bounded (sb_results st2) stored (bb_result_capacity b)\<rparr>))"

text \<open>The queries on what was stored.\<close>

definition recent_results :: "base_bridge \<Rightarrow> session_id \<Rightarrow> nat \<Rightarrow> bridge_action_result list" where
  "recent_results b sid limit = (case bb_sessions b sid of None \<Rightarrow> [] | Some st \<Rightarrow> recent_from (sb_results st) limit)"

definition recent_internal_capture_results :: "base_bridge \<Rightarrow> session_id \<Rightarrow> nat \<Rightarrow> bridge_action_result list" where
  "recent_internal_capture_results b sid limit =
     (case bb_sessions b sid of None \<Rightarrow> [] | Some st \<Rightarrow> recent_from (sb_capture_results st) limit)"

definition recent_native_executor_results :: "base_bridge \<Rightarrow> session_id \<Rightarrow> nat \<Rightarrow> native_executor_result list" where
  "recent_native_executor_results b sid limit =
     (case bb_sessions b sid of None \<Rightarrow> [] | Some st \<Rightarrow> recent_from (sb_native_results st) limit)"

definition recent_action_execution_boundaries ::
  "base_bridge \<Rightarrow> session_id \<Rightarrow> nat \<Rightarrow> action_execution_boundary list" where
  "recent_action_execution_boundaries b sid limit =
     (case bb_sessions b sid of None \<Rightarrow> [] | Some st \<Rightarrow> recent_from (sb_action_boundaries st) limit)"

end
