(* ===== verification/Ordered_Map.thy ===== *)
theory Ordered_Map
  imports Prelude "HOL-Library.Char_ord" "HOL-Library.List_Lexorder" "HOL-Library.Product_Lexorder"
begin

text \<open>
  \<open>BTreeMap\<close>: the entries of the map in the order of their keys, which is the order in which
  the code iterates and serializes it. Strings compare byte by byte, as in Rust. Looking a
  key up is \<^const>\<open>map_of\<close>.
\<close>

type_synonym ('k, 'v) btree_map = "('k \<times> 'v) list"

definition bt_wf :: "('k::linorder, 'v) btree_map \<Rightarrow> bool" where
  "bt_wf m \<longleftrightarrow> sorted_wrt (<) (map fst m)"

fun bt_insert :: "'k::linorder \<Rightarrow> 'v \<Rightarrow> ('k, 'v) btree_map \<Rightarrow> ('k, 'v) btree_map" where
  "bt_insert k v [] = [(k, v)]"
| "bt_insert k v ((k', v') # m) =
     (if k < k' then (k, v) # (k', v') # m
      else if k = k' then (k, v) # m
      else (k', v') # bt_insert k v m)"

definition bt_remove :: "'k \<Rightarrow> ('k::linorder, 'v) btree_map \<Rightarrow> ('k, 'v) btree_map" where
  "bt_remove k m = filter (\<lambda>e. fst e \<noteq> k) m"

text \<open>\<open>collect::<BTreeMap<_, _>>()\<close>: the entries are inserted one after the other.\<close>

definition bt_of_list :: "('k::linorder \<times> 'v) list \<Rightarrow> ('k, 'v) btree_map" where
  "bt_of_list es = fold (\<lambda>(k, v) m. bt_insert k v m) es []"

section \<open>Well-formedness\<close>

lemma bt_wf_Nil [simp]: "bt_wf []"
  by (simp add: bt_wf_def)

lemma bt_wf_Cons: "bt_wf ((k, v) # m) \<longleftrightarrow> (\<forall>k' \<in> fst ` set m. k < k') \<and> bt_wf m"
  by (auto simp: bt_wf_def)

lemma bt_insert_keys [simp]: "fst ` set (bt_insert k v m) = insert k (fst ` set m)"
  by (induction m rule: bt_insert.induct) auto

lemma bt_wf_insert [simp]: "bt_wf m \<Longrightarrow> bt_wf (bt_insert k v m)"
  by (induction k v m rule: bt_insert.induct) (auto simp: bt_wf_Cons)

lemma bt_wf_remove [simp]: "bt_wf m \<Longrightarrow> bt_wf (bt_remove k m)"
  by (simp add: bt_wf_def bt_remove_def sorted_wrt_map sorted_wrt_filter)

lemma bt_wf_distinct: "bt_wf m \<Longrightarrow> distinct (map fst m)"
  by (simp add: bt_wf_def strict_sorted_iff)

section \<open>Lookups\<close>

lemma map_of_bt_insert [simp]:
  "bt_wf m \<Longrightarrow> map_of (bt_insert k v m) = (map_of m)(k \<mapsto> v)"
  by (induction k v m rule: bt_insert.induct) (auto simp: bt_wf_Cons fun_eq_iff)

lemma map_of_bt_remove [simp]: "map_of (bt_remove k m) = (map_of m)(k := None)"
  by (induction m) (auto simp: bt_remove_def fun_eq_iff)

lemma bt_mem_iff: "bt_wf m \<Longrightarrow> (k, v) \<in> set m \<longleftrightarrow> map_of m k = Some v"
  by (simp add: bt_wf_distinct)

text \<open>A map is determined by its lookups.\<close>

lemma bt_ext:
  assumes "bt_wf m" "bt_wf m'" "map_of m = map_of m'"
  shows "m = m'"
proof -
  have "set m = set m'" using assms by (auto simp: bt_mem_iff)
  moreover have "inj_on fst (set m)" using bt_wf_distinct [OF assms (1)] by (simp add: distinct_map)
  moreover have "sorted (map fst m)" "sorted (map fst m')"
    using assms (1,2) by (auto simp: bt_wf_def strict_sorted_iff)
  ultimately show ?thesis
    using bt_wf_distinct [OF assms (1)] bt_wf_distinct [OF assms (2)]
    by (intro map_sorted_distinct_set_unique) auto
qed

lemma bt_wf_of_list [simp]: "bt_wf (bt_of_list es)"
proof -
  have "bt_wf m \<Longrightarrow> bt_wf (fold (\<lambda>(k, v) m. bt_insert k v m) es m)" for m
    by (induction es arbitrary: m) auto
  then show ?thesis by (simp add: bt_of_list_def)
qed

lemma bt_insert_last: "(\<And>k'. k' \<in> fst ` set m \<Longrightarrow> k' < k) \<Longrightarrow> bt_insert k v m = m @ [(k, v)]"
  by (induction k v m rule: bt_insert.induct) (auto, (metis less_asym less_irrefl)+)

text \<open>Collecting entries that are already in order changes nothing.\<close>

lemma bt_of_list_id: "bt_wf m \<Longrightarrow> bt_of_list m = m"
proof (induction m rule: rev_induct)
  case (snoc e m)
  obtain k v where e: "e = (k, v)" by force
  have "bt_wf m" "\<And>k'. k' \<in> fst ` set m \<Longrightarrow> k' < k"
    using snoc.prems by (auto simp: bt_wf_def e sorted_wrt_append)
  with snoc.IH show ?case by (simp add: bt_of_list_def e bt_insert_last)
qed (simp add: bt_of_list_def)

lemma bt_remove_length: "bt_wf m \<Longrightarrow> length (bt_remove k m) \<le> length m"
  by (simp add: bt_remove_def)

end
