(* ===== verification/Flow_Graph.thy ===== *)
theory Flow_Graph
  imports Ordered_Map Rust_Net
begin

text \<open>
  Interaction flows (\<open>src/crates/flow/src/lib.rs\<close>): the graph of observed transitions and its
  bounded admission, the shortest path search, the keyboard journey, the feedback verdict and
  the receipt of a replay. A \<open>usize\<close> is a natural number. \<open>plan[0]\<close> is reached only for a plan
  that is not empty.
\<close>

section \<open>States and transitions\<close>

record state_identity =
  si_route :: string
  si_document_generation :: u64
  si_semantic_fingerprint :: string
  si_viewport :: "(u32 \<times> u32) option"

definition state_key :: "state_identity \<Rightarrow> string" where
  "state_key s = si_route s @ ''|'' @ show_u64 (si_document_generation s) @ ''|''
     @ si_semantic_fingerprint s @ ''|''
     @ (case si_viewport s of None \<Rightarrow> ''-''
        | Some (w, h) \<Rightarrow> show_nat (unat w) @ ''x'' @ show_nat (unat h))"

definition compatible_with :: "state_identity \<Rightarrow> state_identity \<Rightarrow> bool" where
  "compatible_with expected actual \<longleftrightarrow> si_route expected = si_route actual
     \<and> si_document_generation expected = si_document_generation actual
     \<and> si_semantic_fingerprint expected = si_semantic_fingerprint actual
     \<and> si_viewport expected = si_viewport actual"

datatype interaction_action_kind =
    IaClick | IaFocus | IaTab | IaShiftTab | IaKey | IaScroll

datatype safety_class = ExplicitlySafe | ReadOnly | SafetyUnknown | Destructive

fun may_probe :: "safety_class \<Rightarrow> bool" where
  "may_probe ExplicitlySafe = True" | "may_probe ReadOnly = True"
| "may_probe SafetyUnknown = False" | "may_probe Destructive = False"

record flow_transition =
  ft_action :: string
  ft_target :: string
  ft_resulting_state :: string

record live_transition =
  lt_action :: interaction_action_kind
  lt_target :: string
  lt_safety :: safety_class
  lt_pre_state :: state_identity
  lt_resulting_state :: state_identity
  lt_elapsed_ms :: u64
  lt_evidence_refs :: "string list"

record interaction_graph =
  ig_edges :: "(string, flow_transition list) btree_map"
  ig_live_edges :: "(string, live_transition list) btree_map"

definition empty_graph :: interaction_graph where
  "empty_graph = \<lparr>ig_edges = [], ig_live_edges = []\<rparr>"

record discovery_bounds =
  max_nodes :: nat
  max_edges :: nat
  max_route_states :: nat
  deadline_ms :: u64

definition default_discovery_bounds :: discovery_bounds where
  "default_discovery_bounds = \<lparr>max_nodes = 64, max_edges = 128, max_route_states = 8, deadline_ms = 8000\<rparr>"

datatype graph_admission_error =
    NodeBudgetExceeded | EdgeBudgetExceeded | RouteStateBudgetExceeded | DeadlineExceeded
  | UnsafeAction | GraphPreStateMismatch | InvalidStableReference

section \<open>Recording\<close>

definition entries_at :: "(string, 'a list) btree_map \<Rightarrow> string \<Rightarrow> 'a list" where
  "entries_at m k = (case map_of m k of None \<Rightarrow> [] | Some es \<Rightarrow> es)"

definition record_transition :: "interaction_graph \<Rightarrow> string \<Rightarrow> flow_transition \<Rightarrow> interaction_graph" where
  "record_transition g state t =
     (let edges = entries_at (ig_edges g) state
      in g\<lparr>ig_edges := bt_insert state
           (if list_ex (\<lambda>e. ft_action e = ft_action t \<and> ft_resulting_state e = ft_resulting_state t) edges
            then edges else edges @ [t]) (ig_edges g)\<rparr>)"

definition max_evidence_refs_per_edge :: nat where
  "max_evidence_refs_per_edge = 16"

definition flow_valid_stable_reference :: "string \<Rightarrow> bool" where
  "flow_valid_stable_reference reference =
     (case strip_prefix ''@e'' reference of
        None \<Rightarrow> False
      | Some rest \<Rightarrow> rest \<noteq> [] \<and> length rest \<le> 64
          \<and> list_all (\<lambda>c. to_digit 16 c \<noteq> None) rest)"

definition all_live_edges :: "interaction_graph \<Rightarrow> live_transition list" where
  "all_live_edges g = concat (map snd (ig_live_edges g))"

definition live_edge_count :: "interaction_graph \<Rightarrow> nat" where
  "live_edge_count g = sum_list (map (\<lambda>(k, es). length es) (ig_live_edges g))"

definition live_states :: "interaction_graph \<Rightarrow> string set" where
  "live_states g = set (concat (map (\<lambda>e. [state_key (lt_pre_state e), state_key (lt_resulting_state e)])
     (all_live_edges g)))"

definition live_routes :: "interaction_graph \<Rightarrow> string set" where
  "live_routes g = set (concat (map (\<lambda>e. [si_route (lt_pre_state e), si_route (lt_resulting_state e)])
     (all_live_edges g)))"

definition same_live_edge :: "live_transition \<Rightarrow> live_transition \<Rightarrow> bool" where
  "same_live_edge e t \<longleftrightarrow> lt_action e = lt_action t \<and> lt_target e = lt_target t
     \<and> lt_resulting_state e = lt_resulting_state t"

definition record_live ::
  "interaction_graph \<Rightarrow> live_transition \<Rightarrow> discovery_bounds
    \<Rightarrow> (graph_admission_error + unit) \<times> interaction_graph" where
  "record_live g t bounds =
     (if \<not> may_probe (lt_safety t) then (Inl UnsafeAction, g)
      else if deadline_ms bounds < lt_elapsed_ms t then (Inl DeadlineExceeded, g)
      else if \<not> flow_valid_stable_reference (lt_target t) then (Inl InvalidStableReference, g)
      else if max_nodes bounds < card (insert (state_key (lt_resulting_state t))
                (insert (state_key (lt_pre_state t)) (live_states g))) then (Inl NodeBudgetExceeded, g)
      else if max_edges bounds \<le> live_edge_count g then (Inl EdgeBudgetExceeded, g)
      else if max_route_states bounds < card (insert (si_route (lt_resulting_state t))
                (insert (si_route (lt_pre_state t)) (live_routes g))) then (Inl RouteStateBudgetExceeded, g)
      else
        let key = state_key (lt_pre_state t); edges = entries_at (ig_live_edges g) key
        in (Inr (), g\<lparr>ig_live_edges := bt_insert key
              (if list_ex (\<lambda>e. same_live_edge e t) edges then edges
               else edges @ [t\<lparr>lt_evidence_refs := take max_evidence_refs_per_edge (lt_evidence_refs t)\<rparr>])
              (ig_live_edges g)\<rparr>))"

section \<open>Shortest paths\<close>

type_synonym flow_path = "flow_transition list"

text \<open>The states the search can still reach: those waiting and the targets of all edges.\<close>

definition search_states :: "(string, flow_transition list) btree_map \<Rightarrow> (string \<times> flow_path) list \<Rightarrow> string set" where
  "search_states edges queue = fst ` set queue \<union> (\<Union>(k, es) \<in> set edges. ft_resulting_state ` set es)"

definition expand :: "(string, flow_transition list) btree_map \<Rightarrow> string \<Rightarrow> flow_path \<Rightarrow> (string \<times> flow_path) list" where
  "expand edges s p = map (\<lambda>e. (ft_resulting_state e, p @ [e])) (entries_at edges s)"

lemma expand_states: "fst ` set (expand edges s p) \<subseteq> (\<Union>(k, es) \<in> set edges. ft_resulting_state ` set es)"
  by (cases "map_of edges s") (fastforce simp: expand_def entries_at_def dest: map_of_SomeD)+

lemma finite_search_states [simp]: "finite (search_states edges queue)"
  by (simp add: search_states_def split_beta)

function search_path ::
  "(string, flow_transition list) btree_map \<Rightarrow> string \<Rightarrow> (string \<times> flow_path) list \<Rightarrow> string set
    \<Rightarrow> flow_path option" where
  "search_path edges goal [] seen = None"
| "search_path edges goal ((s, p) # queue) seen =
     (if s = goal then Some p
      else if s \<in> seen then search_path edges goal queue seen
      else search_path edges goal (queue @ expand edges s p) (insert s seen))"
  by pat_completeness auto
termination
proof (relation "measures [\<lambda>(edges, goal, queue, seen). card (search_states edges queue - seen),
    \<lambda>(edges, goal, queue, seen). length queue]", simp)
  fix edges goal s p queue and seen :: "string set"
  have sub: "search_states edges queue - seen \<subseteq> search_states edges ((s, p) # queue) - seen"
    by (auto simp: search_states_def)
  then have le: "card (search_states edges queue - seen) \<le> card (search_states edges ((s, p) # queue) - seen)"
    by (intro card_mono) auto
  show "((edges, goal, queue, seen), (edges, goal, (s, p) # queue, seen))
    \<in> measures [\<lambda>(edges, goal, queue, seen). card (search_states edges queue - seen),
        \<lambda>(edges, goal, queue, seen). length queue]"
    using le by (auto simp: le_less)
  assume new: "s \<notin> seen"
  have "search_states edges (queue @ expand edges s p) - insert s seen
      \<subset> search_states edges ((s, p) # queue) - seen"
    using new expand_states [of edges s p] by (auto simp: search_states_def)
  then have "card (search_states edges (queue @ expand edges s p) - insert s seen)
      < card (search_states edges ((s, p) # queue) - seen)"
    by (intro psubset_card_mono) auto
  then show "((edges, goal, queue @ expand edges s p, insert s seen), (edges, goal, (s, p) # queue, seen))
    \<in> measures [\<lambda>(edges, goal, queue, seen). card (search_states edges queue - seen),
        \<lambda>(edges, goal, queue, seen). length queue]" by simp
qed

definition shortest_path :: "interaction_graph \<Rightarrow> string \<Rightarrow> string \<Rightarrow> flow_path option" where
  "shortest_path g start goal = search_path (ig_edges g) goal [(start, [])] {}"

section \<open>Keyboard journeys\<close>

record focus_observation =
  fo_transition_index :: nat
  fo_reference :: "string option"
  fo_route :: string
  fo_document_generation :: u64
  fo_tabindex :: "32 word option"
  fo_hidden_or_offscreen :: bool
  fo_is_body_or_document :: bool

datatype focus_issue_kind =
    FocusLoop | LostToDocument | RepeatedFocus | PositiveTabindexOrdering | HiddenOrOffscreenFocused
  | RouteDrift | DocumentGenerationDrift | FocusTrap

record focus_issue =
  fi_kind :: focus_issue_kind
  fi_at_transition :: nat
  fi_reference :: "string option"

record keyboard_journey_receipt =
  kj_initial :: focus_observation
  kj_transitions :: "focus_observation list"
  kj_issues :: "focus_issue list"
  kj_complete :: bool
  kj_stopped_reason :: "string option"

definition default_max_focus_transitions :: nat where
  "default_max_focus_transitions = 64"

definition issue_at :: "focus_issue_kind \<Rightarrow> focus_observation \<Rightarrow> string option \<Rightarrow> focus_issue" where
  "issue_at kind ob reference =
     \<lparr>fi_kind = kind, fi_at_transition = fo_transition_index ob, fi_reference = reference\<rparr>"

text \<open>The issues of one observation, with what was seen before it.\<close>

definition observation_issues :: "(string \<rightharpoonup> nat) \<Rightarrow> focus_observation \<Rightarrow> focus_issue list" where
  "observation_issues seen ob =
     (if fo_is_body_or_document ob then [issue_at LostToDocument ob None] else [])
     @ (if fo_hidden_or_offscreen ob then [issue_at HiddenOrOffscreenFocused ob (fo_reference ob)] else [])
     @ (if (case fo_tabindex ob of None \<Rightarrow> False | Some v \<Rightarrow> 0 < sint v)
        then [issue_at PositiveTabindexOrdering ob (fo_reference ob)] else [])
     @ (case fo_reference ob of
          None \<Rightarrow> []
        | Some reference \<Rightarrow>
            (case seen reference of
               None \<Rightarrow> []
             | Some first \<Rightarrow>
                 [issue_at (if fo_transition_index ob - first \<le> 2 then RepeatedFocus else FocusLoop)
                    ob (Some reference)]))"

definition observation_seen :: "(string \<rightharpoonup> nat) \<Rightarrow> focus_observation \<Rightarrow> (string \<rightharpoonup> nat)" where
  "observation_seen seen ob = (case fo_reference ob of
     None \<Rightarrow> seen | Some reference \<Rightarrow> seen(reference \<mapsto> fo_transition_index ob))"

text \<open>The loop: the issues found, and the reason why it stopped early.\<close>

fun journey_loop ::
  "focus_observation \<Rightarrow> (string \<rightharpoonup> nat) \<Rightarrow> focus_issue list \<Rightarrow> focus_observation list
    \<Rightarrow> focus_issue list \<times> string option" where
  "journey_loop initial seen issues [] = (issues, None)"
| "journey_loop initial seen issues (ob # obs) =
     (if fo_route ob \<noteq> fo_route initial then
        (issues @ [issue_at RouteDrift ob (fo_reference ob)], Some ''route_drift'')
      else if fo_document_generation ob \<noteq> fo_document_generation initial then
        (issues @ [issue_at DocumentGenerationDrift ob (fo_reference ob)], Some ''document_generation_drift'')
      else journey_loop initial (observation_seen seen ob) (issues @ observation_issues seen ob) obs)"

definition analyze_keyboard_journey ::
  "focus_observation \<Rightarrow> focus_observation list \<Rightarrow> nat \<Rightarrow> keyboard_journey_receipt" where
  "analyze_keyboard_journey initial transitions limit =
     (let max_transitions = min limit default_max_focus_transitions;
          seen = (case fo_reference initial of None \<Rightarrow> (\<lambda>_. None)
            | Some reference \<Rightarrow> [reference \<mapsto> fo_transition_index initial]);
          was_truncated = max_transitions < length transitions;
          bounded = take max_transitions transitions
      in case journey_loop initial seen [] bounded of
           (issues, Some reason) \<Rightarrow> \<lparr>kj_initial = initial, kj_transitions = bounded, kj_issues = issues,
             kj_complete = False, kj_stopped_reason = Some reason\<rparr>
         | (issues, None) \<Rightarrow>
             let unique_refs = \<Union> (set (map (\<lambda>ob. set_option (fo_reference ob)) bounded));
                 trap = (if 4 \<le> length bounded \<and> card unique_refs = 1
                   then [issue_at FocusTrap (last bounded) (fo_reference (last bounded))] else [])
             in \<lparr>kj_initial = initial, kj_transitions = bounded, kj_issues = issues @ trap,
                 kj_complete = \<not> was_truncated,
                 kj_stopped_reason = (if was_truncated then Some ''transition_cap'' else None)\<rparr>)"

section \<open>Feedback\<close>

datatype feedback_verdict = ObservedFeedback | DelayedFeedback | NoObservedFeedback | FeedbackInconclusive

record feedback_signals =
  fs_focus_changed :: bool
  fs_semantic_changed :: bool
  fs_route_changed :: bool
  fs_network_activity :: bool
  fs_layout_changed :: bool
  fs_accessible_state_changed :: bool

definition any_signal :: "feedback_signals \<Rightarrow> bool" where
  "any_signal s \<longleftrightarrow> fs_focus_changed s \<or> fs_semantic_changed s \<or> fs_route_changed s
     \<or> fs_network_activity s \<or> fs_layout_changed s \<or> fs_accessible_state_changed s"

record feedback_receipt =
  fb_verdict :: feedback_verdict
  fb_elapsed_ms :: u64
  fb_signals :: feedback_signals
  fb_safe_interaction :: bool

definition classify_feedback :: "bool \<Rightarrow> u64 \<Rightarrow> u64 \<Rightarrow> u64 \<Rightarrow> feedback_signals \<Rightarrow> feedback_receipt" where
  "classify_feedback safe_interaction elapsed deadline delayed_threshold signals =
     \<lparr>fb_verdict = (if \<not> safe_interaction \<or> deadline < elapsed then FeedbackInconclusive
        else if any_signal signals \<and> delayed_threshold < elapsed then DelayedFeedback
        else if any_signal signals then ObservedFeedback
        else NoObservedFeedback),
      fb_elapsed_ms = elapsed, fb_signals = signals, fb_safe_interaction = safe_interaction\<rparr>"

section \<open>Replays\<close>

record replay_step =
  rp_index :: nat
  rp_action :: interaction_action_kind
  rp_target :: string
  rp_expected_before :: state_identity
  rp_expected_after :: state_identity
  rp_evidence_refs :: "string list"

datatype replay_status = ReplayComplete | ReplayFailed | ReplayInconclusive

record replay_receipt =
  rr_steps_attempted :: nat
  rr_steps_passed :: nat
  rr_first_failed_step :: "nat option"
  rr_before_state :: state_identity
  rr_after_state :: state_identity
  rr_evidence_refs :: "string list"
  rr_status :: replay_status
  rr_reason :: "string option"

definition empty_state :: state_identity where
  "empty_state = \<lparr>si_route = [], si_document_generation = 0, si_semantic_fingerprint = [], si_viewport = None\<rparr>"

text \<open>\<open>slice::get\<close>.\<close>

definition get_at :: "'a list \<Rightarrow> nat \<Rightarrow> 'a option" where
  "get_at xs n = (if n < length xs then Some (xs ! n) else None)"

definition failed_replay ::
  "replay_step list \<Rightarrow> state_identity list \<Rightarrow> string list \<Rightarrow> nat \<Rightarrow> nat \<Rightarrow> string \<Rightarrow> replay_receipt" where
  "failed_replay plan observed evidence failed passed reason =
     (let before = rp_expected_before (hd plan)
      in \<lparr>rr_steps_attempted = failed + 1, rr_steps_passed = passed, rr_first_failed_step = Some failed,
          rr_before_state = before,
          rr_after_state = (case get_at observed failed of None \<Rightarrow> before | Some s \<Rightarrow> s),
          rr_evidence_refs = evidence, rr_status = ReplayFailed, rr_reason = Some reason\<rparr>)"

text \<open>The checks of one step, in the order of the code: the reason why it fails, if it does.\<close>

definition step_failure :: "state_identity list \<Rightarrow> bool list \<Rightarrow> nat \<Rightarrow> replay_step \<Rightarrow> string option" where
  "step_failure observed refs_valid i s =
     (if get_at refs_valid i \<noteq> Some True then Some ''stable_ref_invalid''
      else case get_at observed i of
        None \<Rightarrow> Some ''missing_before_state''
      | Some before \<Rightarrow>
          if \<not> compatible_with (rp_expected_before s) before then Some ''pre_state_mismatch''
          else case get_at observed (i + 1) of
            None \<Rightarrow> Some ''missing_after_state''
          | Some after \<Rightarrow>
              if \<not> compatible_with (rp_expected_after s) after then Some ''post_state_mismatch'' else None)"

text \<open>The loop over the plan: the evidence gathered and, for a failure, its step and reason.\<close>

fun replay_loop ::
  "state_identity list \<Rightarrow> bool list \<Rightarrow> nat \<Rightarrow> string list \<Rightarrow> replay_step list
    \<Rightarrow> string list \<times> (nat \<times> string) option" where
  "replay_loop observed refs_valid i evidence [] = (evidence, None)"
| "replay_loop observed refs_valid i evidence (s # steps) =
     (case step_failure observed refs_valid i s of
        Some reason \<Rightarrow> (evidence, Some (i, reason))
      | None \<Rightarrow> replay_loop observed refs_valid (i + 1)
          (evidence @ take max_evidence_refs_per_edge (rp_evidence_refs s)) steps)"

definition replay_receipt_of ::
  "replay_step list \<Rightarrow> state_identity list \<Rightarrow> bool list \<Rightarrow> replay_receipt" where
  "replay_receipt_of plan observed refs_valid =
     (let before_state = (case plan of s # _ \<Rightarrow> rp_expected_before s
            | [] \<Rightarrow> (case observed of o' # _ \<Rightarrow> o' | [] \<Rightarrow> empty_state))
      in if plan = [] then
           \<lparr>rr_steps_attempted = 0, rr_steps_passed = 0, rr_first_failed_step = None,
            rr_before_state = before_state, rr_after_state = before_state, rr_evidence_refs = [],
            rr_status = ReplayInconclusive, rr_reason = Some ''empty_plan''\<rparr>
         else case replay_loop observed refs_valid 0 [] plan of
           (evidence, Some (i, reason)) \<Rightarrow> failed_replay plan observed evidence i i reason
         | (evidence, None) \<Rightarrow>
             \<lparr>rr_steps_attempted = length plan, rr_steps_passed = length plan, rr_first_failed_step = None,
              rr_before_state = before_state,
              rr_after_state = (if observed = [] then rp_expected_after (last plan) else last observed),
              rr_evidence_refs = evidence, rr_status = ReplayComplete, rr_reason = None\<rparr>)"

end
