(* ===== verification/Live_Bridge.thy ===== *)
theory Live_Bridge
  imports Cancellable_Bridge Action_Results Flow_Graph
begin

text \<open>
  The live bridge of the crate (\<open>src/crates/live-bridge/src/v43_lib.rs\<close> and the
  \<open>LiveBridge\<close> part of \<open>action_envelope.rs\<close>): the continuity of a provider's event stream,
  the reconciliation snapshot that is current for a session, the canonical envelopes of
  actions, the executor authority of a managed surface, and the interaction graphs of
  \<open>wave6.rs\<close>.
\<close>

section \<open>Provider continuity\<close>

definition provider_bound_generation_base :: u64 where
  "provider_bound_generation_base = push_bit 63 1"

record provider_observer_batch =
  pb_session_id :: session_id
  pb_generation :: u64
  pb_provider_incarnation_ref :: provider_incarnation_ref
  pb_target_incarnation_ref :: target_incarnation_ref
  pb_events :: "observer_event list"

record event_sequence_gap =
  gap_expected_sequence :: u64
  gap_observed_sequence :: u64

record provider_ingest_report =
  pir_ingest :: ingest_report
  pir_provider_incarnation_ref :: provider_incarnation_ref
  pir_target_incarnation_ref :: target_incarnation_ref
  pir_continuity :: event_continuity_state
  pir_gap :: "event_sequence_gap option"

record observation_status =
  os_provider_incarnation_ref :: provider_incarnation_ref
  os_target_incarnation_ref :: target_incarnation_ref
  os_generation :: u64
  os_last_seq :: "u64 option"
  os_event_continuity :: event_continuity_state
  os_current_snapshot_completeness :: "reconciliation_completeness option"
  os_reconciliation_receipt_id :: "string option"
  os_gap :: "event_sequence_gap option"

record provider_observation_binding =
  bind_session_id :: session_id
  bind_generation :: u64
  bind_provider_incarnation_ref :: provider_incarnation_ref
  bind_target_incarnation_ref :: target_incarnation_ref
  bind_initial_continuity :: event_continuity_state
  bind_sequence_baseline :: "u64 option"

datatype provider_observation_binding_error = AlreadyBound | UnsupportedInitialContinuity

record provider_continuity_state =
  pcs_provider_incarnation_ref :: provider_incarnation_ref
  pcs_target_incarnation_ref :: target_incarnation_ref
  pcs_generation :: u64
  pcs_legacy_generation :: u64
  pcs_last_seq :: "u64 option"
  pcs_event_continuity :: event_continuity_state
  pcs_gap :: "event_sequence_gap option"
  pcs_reconciliation :: "reconciliation_snapshot_receipt option"

definition continuity_new :: "provider_observer_batch \<Rightarrow> provider_continuity_state" where
  "continuity_new batch =
     \<lparr>pcs_provider_incarnation_ref = pb_provider_incarnation_ref batch,
      pcs_target_incarnation_ref = pb_target_incarnation_ref batch,
      pcs_generation = pb_generation batch,
      pcs_legacy_generation = provider_bound_generation_base,
      pcs_last_seq = None, pcs_event_continuity = CContinuous, pcs_gap = None,
      pcs_reconciliation = None\<rparr>"

definition continuity_from_binding ::
  "provider_observation_binding \<Rightarrow> provider_continuity_state" where
  "continuity_from_binding binding =
     \<lparr>pcs_provider_incarnation_ref = bind_provider_incarnation_ref binding,
      pcs_target_incarnation_ref = bind_target_incarnation_ref binding,
      pcs_generation = bind_generation binding,
      pcs_legacy_generation = provider_bound_generation_base,
      pcs_last_seq = bind_sequence_baseline binding,
      pcs_event_continuity = bind_initial_continuity binding, pcs_gap = None,
      pcs_reconciliation = None\<rparr>"

definition continuity_status :: "provider_continuity_state \<Rightarrow> observation_status" where
  "continuity_status s =
     \<lparr>os_provider_incarnation_ref = pcs_provider_incarnation_ref s,
      os_target_incarnation_ref = pcs_target_incarnation_ref s,
      os_generation = pcs_generation s, os_last_seq = pcs_last_seq s,
      os_event_continuity = pcs_event_continuity s,
      os_current_snapshot_completeness = map_option snap_completeness (pcs_reconciliation s),
      os_reconciliation_receipt_id = map_option snap_receipt_id (pcs_reconciliation s),
      os_gap = pcs_gap s\<rparr>"

definition restart_lineage ::
  "provider_continuity_state \<Rightarrow> provider_observer_batch \<Rightarrow> event_continuity_state
    \<Rightarrow> provider_continuity_state" where
  "restart_lineage s batch continuity =
     s\<lparr>pcs_provider_incarnation_ref := pb_provider_incarnation_ref batch,
       pcs_target_incarnation_ref := pb_target_incarnation_ref batch,
       pcs_generation := pb_generation batch,
       pcs_legacy_generation := saturating_add (pcs_legacy_generation s) 1,
       pcs_last_seq := None, pcs_event_continuity := continuity, pcs_gap := None,
       pcs_reconciliation := None\<rparr>"

definition observe_sequence ::
  "provider_continuity_state \<Rightarrow> u64 \<Rightarrow> bool \<times> provider_continuity_state" where
  "observe_sequence s sequence =
     (case pcs_last_seq s of
        None \<Rightarrow> (False, s\<lparr>pcs_last_seq := Some sequence\<rparr>)
      | Some previous \<Rightarrow>
          if sequence = previous then (False, s)
          else if sequence < previous then
            (True, s\<lparr>pcs_legacy_generation := saturating_add (pcs_legacy_generation s) 1,
                     pcs_last_seq := Some sequence, pcs_event_continuity := CSequenceReset,
                     pcs_gap := None, pcs_reconciliation := None\<rparr>)
          else if saturating_add previous 1 < sequence then
            (False, s\<lparr>pcs_event_continuity := CGapDetected,
                      pcs_gap := Some \<lparr>gap_expected_sequence = saturating_add previous 1,
                                       gap_observed_sequence = sequence\<rparr>,
                      pcs_reconciliation := None, pcs_last_seq := Some sequence\<rparr>)
          else (False, s\<lparr>pcs_last_seq := Some sequence\<rparr>))"

section \<open>The bridge\<close>

record live_bridge =
  lb_legacy :: cancellable_bridge
  lb_continuity :: "session_id \<rightharpoonup> provider_continuity_state"
  lb_action_envelopes :: "uuid \<rightharpoonup> canonical_action_envelope"
  lb_managed_surface_action_authority :: "session_id \<rightharpoonup> string"
  lb_wave6_graphs :: "session_id \<rightharpoonup> interaction_graph"

definition live_bridge_new :: "nat \<Rightarrow> nat \<Rightarrow> live_bridge" where
  "live_bridge_new event_capacity action_capacity =
     \<lparr>lb_legacy = cancellable_new event_capacity action_capacity,
      lb_continuity = (\<lambda>_. None), lb_action_envelopes = (\<lambda>_. None),
      lb_managed_surface_action_authority = (\<lambda>_. None), lb_wave6_graphs = (\<lambda>_. None)\<rparr>"

definition bind_provider_observation ::
  "live_bridge \<Rightarrow> provider_observation_binding
    \<Rightarrow> (provider_observation_binding_error + observation_status) \<times> live_bridge" where
  "bind_provider_observation b binding =
     (if bind_initial_continuity binding
           \<notin> {CContinuous, COrderingOpaque, CReconciliationRequired} then
        (Inl UnsupportedInitialContinuity, b)
      else if lb_continuity b (bind_session_id binding) \<noteq> None then (Inl AlreadyBound, b)
      else
        let s = continuity_from_binding binding
        in (Inr (continuity_status s),
            b\<lparr>lb_continuity := (lb_continuity b)(bind_session_id binding \<mapsto> s)\<rparr>))"

definition ingest_collect ::
  "live_bridge \<Rightarrow> observer_batch \<Rightarrow> (ingest_report \<times> observer_event list) \<times> live_bridge" where
  "ingest_collect b batch =
     (case base_ingest_collect (cb_base (lb_legacy b)) batch of
        (r, base) \<Rightarrow> (r, b\<lparr>lb_legacy := (lb_legacy b)\<lparr>cb_base := base\<rparr>\<rparr>))"

text \<open>The loop of \<open>ingest_provider\<close>: one event at a time, each under its own lineage.\<close>

fun ingest_provider_events ::
  "session_id \<Rightarrow> observer_event list \<Rightarrow> provider_continuity_state \<Rightarrow> base_bridge
    \<Rightarrow> nat \<times> nat \<times> provider_continuity_state \<times> base_bridge" where
  "ingest_provider_events sid [] s base = (0, 0, s, base)"
| "ingest_provider_events sid (e # es) s base =
     (let s1 = snd (observe_sequence s (ev_seq e))
      in case base_ingest_collect base \<lparr>ob_session_id = sid,
                ob_generation = pcs_legacy_generation s1, ob_events = [e]\<rparr> of
           ((report, _), base1) \<Rightarrow>
             let s2 = (if 0 < ir_accepted report \<and> pcs_event_continuity s1 = COrderingOpaque
                       then s1\<lparr>pcs_reconciliation := None\<rparr> else s1)
             in case ingest_provider_events sid es s2 base1 of
                  (accepted, rejected, s3, base2) \<Rightarrow>
                    (ir_accepted report + accepted, ir_rejected_stale report + rejected, s3, base2))"

definition ingest_provider ::
  "live_bridge \<Rightarrow> provider_observer_batch \<Rightarrow> provider_ingest_report \<times> live_bridge" where
  "ingest_provider b batch =
     (let sid = pb_session_id batch;
          s0 = (case lb_continuity b sid of None \<Rightarrow> continuity_new batch | Some s \<Rightarrow> s);
          report = (\<lambda>ingest s. \<lparr>pir_ingest = ingest,
            pir_provider_incarnation_ref = pcs_provider_incarnation_ref s,
            pir_target_incarnation_ref = pcs_target_incarnation_ref s,
            pir_continuity = pcs_event_continuity s, pir_gap = pcs_gap s\<rparr>)
      in if pb_provider_incarnation_ref batch = pcs_provider_incarnation_ref s0
            \<and> pb_target_incarnation_ref batch = pcs_target_incarnation_ref s0
            \<and> pb_generation batch < pcs_generation s0 then
           (report \<lparr>ir_accepted = 0, ir_rejected_stale = length (pb_events batch),
                    ir_last_seq = pcs_last_seq s0, ir_generation = pcs_generation s0\<rparr> s0,
            b\<lparr>lb_continuity := (lb_continuity b)(sid \<mapsto> s0)\<rparr>)
         else
           let s1 = (if pb_provider_incarnation_ref batch \<noteq> pcs_provider_incarnation_ref s0 then
                       restart_lineage s0 batch CProviderReincarnated
                     else if pb_target_incarnation_ref batch \<noteq> pcs_target_incarnation_ref s0 then
                       restart_lineage s0 batch CReconciliationRequired
                     else if pcs_generation s0 < pb_generation batch then
                       restart_lineage s0 batch CReconnectedUnreconciled
                     else s0)
           in case ingest_provider_events sid (pb_events batch) s1 (cb_base (lb_legacy b)) of
                (accepted, rejected, s2, base) \<Rightarrow>
                  (report \<lparr>ir_accepted = accepted, ir_rejected_stale = rejected,
                           ir_last_seq = pcs_last_seq s2, ir_generation = pcs_generation s2\<rparr> s2,
                   b\<lparr>lb_continuity := (lb_continuity b)(sid \<mapsto> s2),
                     lb_legacy := (lb_legacy b)\<lparr>cb_base := base\<rparr>\<rparr>))"

definition observation_status_of :: "live_bridge \<Rightarrow> session_id \<Rightarrow> observation_status option" where
  "observation_status_of b sid = map_option continuity_status (lb_continuity b sid)"

definition current_reconciliation_snapshot ::
  "live_bridge \<Rightarrow> session_id \<Rightarrow> reconciliation_snapshot_receipt option" where
  "current_reconciliation_snapshot b sid = Option.bind (lb_continuity b sid) pcs_reconciliation"

definition record_reconciliation ::
  "live_bridge \<Rightarrow> session_id \<Rightarrow> reconciliation_snapshot_receipt \<Rightarrow> bool \<times> live_bridge" where
  "record_reconciliation b sid receipt =
     (case lb_continuity b sid of
        None \<Rightarrow> (False, b)
      | Some s \<Rightarrow>
          if snap_provider_incarnation_ref receipt \<noteq> pcs_provider_incarnation_ref s
             \<or> snap_target_incarnation_ref receipt \<noteq> pcs_target_incarnation_ref s then (False, b)
          else (True, b\<lparr>lb_continuity := (lb_continuity b)(sid \<mapsto>
                  s\<lparr>pcs_reconciliation := Some receipt\<rparr>)\<rparr>))"

definition release_provider_observation :: "live_bridge \<Rightarrow> session_id \<Rightarrow> bool \<times> live_bridge" where
  "release_provider_observation b sid =
     (lb_continuity b sid \<noteq> None, b\<lparr>lb_continuity := (lb_continuity b)(sid := None)\<rparr>)"

section \<open>Canonical actions\<close>

text \<open>The incarnation check under the action gate, the same in both admissions.\<close>

definition check_incarnations ::
  "live_bridge \<Rightarrow> session_id \<Rightarrow> action_envelope_metadata \<Rightarrow> action_envelope_binding_error + unit"
  where
  "check_incarnations b sid md =
     (case lb_continuity b sid of
        None \<Rightarrow> Inl MissingProviderObservation
      | Some s \<Rightarrow>
          if provider_incarnation_ref md \<noteq> pcs_provider_incarnation_ref s then
            Inl ProviderIncarnationMismatch
          else if target_incarnation_ref md \<noteq> pcs_target_incarnation_ref s then
            Inl TargetIncarnationMismatch
          else Inr ())"

definition enqueue_canonical_action ::
  "live_bridge \<Rightarrow> session_id \<Rightarrow> element_ref option \<Rightarrow> bridge_action_kind
    \<Rightarrow> action_envelope_metadata \<Rightarrow> uuid \<Rightarrow> uuid \<Rightarrow> timestamp
    \<Rightarrow> (action_envelope_binding_error + canonical_queued_action) \<times> live_bridge" where
  "enqueue_canonical_action b sid reference kind md fresh_action fresh_envelope now =
     (case validate_envelope_metadata kind md of
        Inl err \<Rightarrow> (Inl err, b)
      | Inr _ \<Rightarrow>
     (case check_incarnations b sid md of
        Inl err \<Rightarrow> (Inl err, b)
      | Inr _ \<Rightarrow>
     (case enqueue_action (lb_legacy b) sid reference kind fresh_action now of
        (action, legacy) \<Rightarrow>
          let envelope = \<lparr>envelope_id = fresh_envelope, transport_action_id = act_id action,
                env_session_id = sid, metadata = md\<rparr>
          in (Inr \<lparr>q_action = action, q_envelope = envelope\<rparr>,
              b\<lparr>lb_legacy := legacy,
                lb_action_envelopes := (lb_action_envelopes b)(act_id action \<mapsto> envelope)\<rparr>))))"

definition bind_direct_canonical_action ::
  "live_bridge \<Rightarrow> session_id \<Rightarrow> element_ref option \<Rightarrow> bridge_action_kind
    \<Rightarrow> action_envelope_metadata \<Rightarrow> uuid \<Rightarrow> uuid \<Rightarrow> timestamp
    \<Rightarrow> (action_envelope_binding_error + canonical_queued_action) \<times> live_bridge" where
  "bind_direct_canonical_action b sid reference kind md fresh_action fresh_envelope now =
     (case validate_envelope_metadata kind md of
        Inl err \<Rightarrow> (Inl err, b)
      | Inr _ \<Rightarrow>
     (case check_incarnations b sid md of
        Inl err \<Rightarrow> (Inl err, b)
      | Inr _ \<Rightarrow>
          let action = \<lparr>act_id = fresh_action, act_session_id = sid, act_reference = reference,
                act_action = kind, act_created_at = now\<rparr>;
              envelope = \<lparr>envelope_id = fresh_envelope, transport_action_id = fresh_action,
                env_session_id = sid, metadata = md\<rparr>
          in (Inr \<lparr>q_action = action, q_envelope = envelope\<rparr>,
              b\<lparr>lb_action_envelopes := (lb_action_envelopes b)(fresh_action \<mapsto> envelope)\<rparr>)))"

definition discard_bound_canonical_action :: "live_bridge \<Rightarrow> uuid \<Rightarrow> bool \<times> live_bridge" where
  "discard_bound_canonical_action b aid =
     (lb_action_envelopes b aid \<noteq> None,
      b\<lparr>lb_action_envelopes := (lb_action_envelopes b)(aid := None)\<rparr>)"

datatype bound_canonical_dispatch_error =
    BoundInternalCaptureActionUnsupported | ActionIdentityMismatch | MissingCanonicalEnvelope
  | EnvelopeMismatch | BoundMissingProviderObservation | BoundProviderIncarnationMismatch
  | BoundTargetIncarnationMismatch | PublicQueueRejected

definition enqueue_bound_canonical_action_for_dispatch ::
  "live_bridge \<Rightarrow> canonical_queued_action
    \<Rightarrow> (bound_canonical_dispatch_error + unit) \<times> live_bridge" where
  "enqueue_bound_canonical_action_for_dispatch b queued =
     (let action = q_action queued; envelope = q_envelope queued; aid = act_id action
      in if is_internal_capture_action (act_action action) then
           (Inl BoundInternalCaptureActionUnsupported, b)
         else if aid \<noteq> transport_action_id envelope
                 \<or> act_session_id action \<noteq> env_session_id envelope then
           (Inl ActionIdentityMismatch, b)
         else case lb_action_envelopes b aid of
           None \<Rightarrow> (Inl MissingCanonicalEnvelope, b)
         | Some stored \<Rightarrow>
             if stored \<noteq> envelope then (Inl EnvelopeMismatch, b)
             else
               let spent = b\<lparr>lb_action_envelopes := (lb_action_envelopes b)(aid := None)\<rparr>
               in case lb_continuity b (act_session_id action) of
                    None \<Rightarrow> (Inl BoundMissingProviderObservation, spent)
                  | Some s \<Rightarrow>
                      if provider_incarnation_ref (metadata envelope)
                           \<noteq> pcs_provider_incarnation_ref s then
                        (Inl BoundProviderIncarnationMismatch, spent)
                      else if target_incarnation_ref (metadata envelope)
                           \<noteq> pcs_target_incarnation_ref s then
                        (Inl BoundTargetIncarnationMismatch, spent)
                      else case enqueue_prebound_public_action (lb_legacy b) action of
                        (accepted, legacy) \<Rightarrow>
                          (if accepted then Inr () else Inl PublicQueueRejected,
                           spent\<lparr>lb_legacy := legacy\<rparr>))"

definition action_envelope_is_current :: "live_bridge \<Rightarrow> uuid \<Rightarrow> bool" where
  "action_envelope_is_current b aid \<longleftrightarrow>
     (case lb_action_envelopes b aid of
        None \<Rightarrow> False
      | Some envelope \<Rightarrow>
          (case lb_continuity b (env_session_id envelope) of
             None \<Rightarrow> False
           | Some s \<Rightarrow>
               provider_incarnation_ref (metadata envelope) = pcs_provider_incarnation_ref s
               \<and> target_incarnation_ref (metadata envelope) = pcs_target_incarnation_ref s))"

section \<open>Managed surfaces\<close>

text \<open>Retiring everything the previous executor of a session's surface was given.\<close>

definition drop_session_envelopes ::
  "(uuid \<rightharpoonup> canonical_action_envelope) \<Rightarrow> session_id \<Rightarrow> (uuid \<rightharpoonup> canonical_action_envelope)" where
  "drop_session_envelopes envelopes sid = (\<lambda>aid.
     case envelopes aid of
       None \<Rightarrow> None
     | Some envelope \<Rightarrow> if env_session_id envelope \<noteq> sid then Some envelope else None)"

definition rotate_managed_authority ::
  "live_bridge \<Rightarrow> session_id \<Rightarrow> string \<Rightarrow> bool \<times> live_bridge" where
  "rotate_managed_authority b sid authority_ref =
     (if lb_managed_surface_action_authority b sid = Some authority_ref then (False, b)
      else (True, b\<lparr>
        lb_legacy := snd (discard_public_actions_for_session (lb_legacy b) sid),
        lb_action_envelopes := drop_session_envelopes (lb_action_envelopes b) sid,
        lb_managed_surface_action_authority :=
          (lb_managed_surface_action_authority b)(sid \<mapsto> authority_ref)\<rparr>))"

definition ensure_managed_surface_action_authority ::
  "live_bridge \<Rightarrow> session_id \<Rightarrow> string \<Rightarrow> bool \<times> live_bridge" where
  "ensure_managed_surface_action_authority b sid authority_ref =
     rotate_managed_authority b sid authority_ref"

definition live_take_public_actions ::
  "live_bridge \<Rightarrow> session_id \<Rightarrow> nat \<Rightarrow> timestamp \<Rightarrow> bridge_action list \<times> live_bridge" where
  "live_take_public_actions b sid limit now =
     (case take_public_actions (lb_legacy b) sid limit now of
        (actions, legacy) \<Rightarrow> (actions, b\<lparr>lb_legacy := legacy\<rparr>))"

definition take_managed_surface_actions ::
  "live_bridge \<Rightarrow> session_id \<Rightarrow> string \<Rightarrow> nat \<Rightarrow> timestamp \<Rightarrow> bridge_action list \<times> live_bridge" where
  "take_managed_surface_actions b sid authority_ref limit now =
     live_take_public_actions (snd (rotate_managed_authority b sid authority_ref)) sid limit now"

datatype managed_surface_action_completion =
    SurfaceActionCompleted | AuthorityStale | ActionNotInflight

definition complete_managed_surface_action ::
  "(string \<Rightarrow> parsed_url option) \<Rightarrow> live_bridge \<Rightarrow> session_id \<Rightarrow> string \<Rightarrow> bridge_action_result
    \<Rightarrow> timestamp \<Rightarrow> managed_surface_action_completion \<times> live_bridge" where
  "complete_managed_surface_action url_parse b sid authority_ref result now =
     (if lb_managed_surface_action_authority b sid \<noteq> Some authority_ref then (AuthorityStale, b)
      else case claim_action (lb_legacy b) sid (bar_action_id result) of
        (None, legacy) \<Rightarrow> (ActionNotInflight, b\<lparr>lb_legacy := legacy\<rparr>)
      | (Some action, legacy) \<Rightarrow>
          (SurfaceActionCompleted, b\<lparr>lb_legacy := legacy\<lparr>cb_base :=
             complete_action url_parse (cb_base legacy) (OriginAction action) result now\<rparr>\<rparr>))"

definition clear_managed_surface_action_authority ::
  "live_bridge \<Rightarrow> session_id \<Rightarrow> bool \<times> live_bridge" where
  "clear_managed_surface_action_authority b sid =
     (if lb_managed_surface_action_authority b sid = None then (False, b)
      else (True, b\<lparr>
        lb_managed_surface_action_authority :=
          (lb_managed_surface_action_authority b)(sid := None),
        lb_legacy := snd (discard_public_actions_for_session (lb_legacy b) sid),
        lb_action_envelopes := drop_session_envelopes (lb_action_envelopes b) sid\<rparr>))"

definition live_enqueue_action ::
  "live_bridge \<Rightarrow> session_id \<Rightarrow> element_ref option \<Rightarrow> bridge_action_kind \<Rightarrow> uuid \<Rightarrow> timestamp
    \<Rightarrow> bridge_action \<times> live_bridge" where
  "live_enqueue_action b sid reference kind fresh now =
     (case enqueue_action (lb_legacy b) sid reference kind fresh now of
        (action, legacy) \<Rightarrow> (action, b\<lparr>lb_legacy := legacy\<rparr>))"

definition live_release_session :: "live_bridge \<Rightarrow> session_id \<Rightarrow> live_bridge" where
  "live_release_session b sid = b\<lparr>
     lb_continuity := (lb_continuity b)(sid := None),
     lb_action_envelopes := drop_session_envelopes (lb_action_envelopes b) sid,
     lb_managed_surface_action_authority :=
       (lb_managed_surface_action_authority b)(sid := None),
     lb_wave6_graphs := (lb_wave6_graphs b)(sid := None),
     lb_legacy := release_session (lb_legacy b) sid\<rparr>"

section \<open>Interaction graphs and replays\<close>

definition max_wave6_graph_sessions :: nat where "max_wave6_graph_sessions = 64"

datatype wave6_graph_error = SessionCapacityExceeded | GraphAdmission graph_admission_error

text \<open>The entry of the session is made before the transition is looked at, and stays.\<close>

definition record_wave6_live_transition ::
  "live_bridge \<Rightarrow> session_id \<Rightarrow> live_transition \<Rightarrow> discovery_bounds
    \<Rightarrow> (wave6_graph_error + unit) \<times> live_bridge" where
  "record_wave6_live_transition b sid transition bounds =
     (let graphs = lb_wave6_graphs b
      in if graphs sid = None \<and> max_wave6_graph_sessions \<le> card (dom graphs) then
           (Inl SessionCapacityExceeded, b)
         else case record_live (case graphs sid of None \<Rightarrow> empty_graph | Some g \<Rightarrow> g) transition bounds of
           (r, g) \<Rightarrow> (case r of Inl err \<Rightarrow> Inl (GraphAdmission err) | Inr _ \<Rightarrow> Inr (),
                     b\<lparr>lb_wave6_graphs := graphs(sid \<mapsto> g)\<rparr>))"

definition wave6_interaction_graph :: "live_bridge \<Rightarrow> session_id \<Rightarrow> interaction_graph option" where
  "wave6_interaction_graph b sid = lb_wave6_graphs b sid"

datatype wave6_replay_admission_error =
    ReplayUnsafeAction | StableRefInvalid | ReplayPreStateMismatch | UnsupportedReplayPayload

record wave6_replay_admission =
  wra_step_index :: nat
  wra_action_id :: uuid
  wra_target :: string
  wra_before_state :: state_identity

fun replay_action_kind :: "interaction_action_kind \<Rightarrow> bridge_action_kind option" where
  "replay_action_kind IaClick = Some Click" | "replay_action_kind IaFocus = Some Focus"
| "replay_action_kind IaTab = None" | "replay_action_kind IaShiftTab = None"
| "replay_action_kind IaKey = None" | "replay_action_kind IaScroll = None"

definition enqueue_wave6_replay_step ::
  "live_bridge \<Rightarrow> session_id \<Rightarrow> replay_step \<Rightarrow> state_identity \<Rightarrow> safety_class \<Rightarrow> bool \<Rightarrow> uuid \<Rightarrow> timestamp
    \<Rightarrow> (wave6_replay_admission_error + bridge_action \<times> wave6_replay_admission) \<times> live_bridge" where
  "enqueue_wave6_replay_step b sid step observed_before safety stable_ref_valid fresh now =
     (if \<not> may_probe safety then (Inl ReplayUnsafeAction, b)
      else if \<not> stable_ref_valid then (Inl StableRefInvalid, b)
      else if \<not> compatible_with (rp_expected_before step) observed_before then (Inl ReplayPreStateMismatch, b)
      else case replay_action_kind (rp_action step) of
        None \<Rightarrow> (Inl UnsupportedReplayPayload, b)
      | Some kind \<Rightarrow>
          (case live_enqueue_action b sid (Some (rp_target step)) kind fresh now of
             (queued, b') \<Rightarrow>
               (Inr (queued, \<lparr>wra_step_index = rp_index step, wra_action_id = act_id queued,
                  wra_target = rp_target step, wra_before_state = observed_before\<rparr>), b')))"

end
