(* ===== verification/Observer_Stream.thy ===== *)
theory Observer_Stream
  imports Bridge_Queue
begin

text \<open>
  The bounded observer stream of the base bridge: what one batch does to it, and the
  invariant that every session's stream keeps. \<open>kept c xs\<close> is what a deque of capacity
  \<open>c\<close> holds of everything pushed onto it.
\<close>

section \<open>Bounded deques\<close>

definition kept :: "nat \<Rightarrow> 'a list \<Rightarrow> 'a list" where
  "kept c xs = drop (length xs - c) xs"

lemma kept_Nil [simp]: "kept c [] = []"
  by (simp add: kept_def)

lemma length_kept [simp]: "length (kept c xs) = min c (length xs)"
  by (simp add: kept_def)

lemma kept_short: "length xs \<le> c \<Longrightarrow> kept c xs = xs"
  by (simp add: kept_def)

lemma push_bounded_kept: "push_bounded (kept c xs) v c = kept c (xs @ [v])"
  by (cases "c \<le> length xs") (simp_all add: push_bounded_eq kept_def Suc_diff_le not_le)

lemma push_bounded_is_kept: "push_bounded xs v c = kept c (xs @ [v])"
  by (simp add: push_bounded_eq kept_def)

lemma kept_append_kept: "kept c (kept c xs @ ys) = kept c (xs @ ys)"
proof (cases "c \<le> length xs")
  case True
  then have "length xs + length ys - c + (length xs - c - (length xs - c)) = length xs + length ys - c"
    by simp
  with True show ?thesis by (simp add: kept_def add.commute diff_diff_eq)
qed (simp add: kept_def)

lemma fold_push_bounded:
  "fold (\<lambda>a q. push_bounded q a c) as q = (if as = [] then q else kept c (q @ as))"
proof (induction as arbitrary: q)
  case (Cons a as)
  have "kept c (kept c (q @ [a]) @ as) = kept c (q @ a # as)"
    using kept_append_kept [of c "q @ [a]" as] by simp
  with Cons [of "push_bounded q a c"] show ?case by (simp add: push_bounded_is_kept)
qed simp

lemma sorted_wrt_kept: "sorted_wrt P xs \<Longrightarrow> sorted_wrt P (kept c xs)"
  by (simp add: kept_def sorted_wrt_drop)

lemma last_kept: "0 < c \<Longrightarrow> xs \<noteq> [] \<Longrightarrow> last (kept c xs) = last xs"
  by (simp add: kept_def)

lemma set_kept: "set (kept c xs) \<subseteq> set xs"
  by (simp add: kept_def set_drop_subset)

section \<open>One batch\<close>

text \<open>The events of a batch that are newer than everything before them.\<close>

fun newer_than :: "u64 option \<Rightarrow> observer_event list \<Rightarrow> observer_event list" where
  "newer_than s [] = []"
| "newer_than s (e # es) =
     (if (case s of None \<Rightarrow> True | Some m \<Rightarrow> m < ev_seq e) then e # newer_than (Some (ev_seq e)) es
      else newer_than s es)"

definition latest :: "u64 option \<Rightarrow> observer_event list \<Rightarrow> u64 option" where
  "latest s es = (if es = [] then s else Some (ev_seq (last es)))"

lemma newer_than_above: "e \<in> set (newer_than (Some m) es) \<Longrightarrow> m < ev_seq e"
  by (induction "Some m" es arbitrary: m rule: newer_than.induct) (auto split: if_splits)

lemma newer_than_sorted: "sorted_wrt (\<lambda>a b. ev_seq a < ev_seq b) (newer_than s es)"
  by (induction s es rule: newer_than.induct) (auto dest: newer_than_above)

lemma newer_than_all:
  assumes "sorted_wrt (\<lambda>a b. ev_seq a < ev_seq b) es"
    and "\<forall>m \<in> set_option s. \<forall>e \<in> set es. m < ev_seq e"
  shows "newer_than s es = es"
  using assms by (induction s es rule: newer_than.induct) (auto split: option.splits)

lemma ingest_events_stale:
  "g < sb_generation st \<Longrightarrow> ingest_events c g es st = ([], length es, st)"
  by (induction es) simp_all

lemma ingest_events_current:
  assumes "ingest_events c g es st = (accepted, rejected, st')" "\<not> g < sb_generation st"
  shows "accepted = newer_than (sb_last_seq st) es
    \<and> rejected = length es - length accepted
    \<and> st' = st\<lparr>sb_last_seq := latest (sb_last_seq st) accepted,
               sb_events := (if accepted = [] then sb_events st
                             else kept c (sb_events st @ accepted))\<rparr>
    \<and> length accepted \<le> length es"
  using assms
proof (induction c g es st arbitrary: accepted rejected st' rule: ingest_events.induct)
  case (1 c g st)
  then show ?case by (simp add: latest_def)
next
  case (2 c g e es st)
  define st1 where "st1 = st\<lparr>sb_last_seq := Some (ev_seq e),
    sb_events := push_bounded (sb_events st) e c\<rparr>"
  show ?case
  proof (cases "case sb_last_seq st of None \<Rightarrow> False | Some s \<Rightarrow> ev_seq e \<le> s")
    case True
    obtain a r s where rec: "ingest_events c g es st = (a, r, s)" by (metis prod_cases3)
    have "accepted = a" "rejected = Suc r" "st' = s"
      using True "2.prems" rec by (auto simp: Let_def)
    moreover note "2.IH" (1) [OF refl refl _ rec]
    ultimately show ?thesis
      using True "2.prems" (2) by (auto simp: Let_def Suc_diff_le not_le split: option.splits)
  next
    case False
    obtain a r s where rec: "ingest_events c g es st1 = (a, r, s)" by (metis prod_cases3)
    have "accepted = e # a" "rejected = r" "st' = s"
      using False "2.prems" rec by (auto simp: Let_def st1_def [symmetric])
    moreover note "2.IH" (2) [OF refl refl _ rec [unfolded st1_def]]
    moreover have "kept c (kept c (sb_events st @ [e]) @ a) = kept c (sb_events st @ e # a)"
      using kept_append_kept [of c "sb_events st @ [e]" a] by simp
    ultimately show ?thesis using False "2.prems" (2)
      by (auto simp: st1_def push_bounded_is_kept latest_def not_le split: option.splits)
  qed
qed

section \<open>The invariant of a stream\<close>

text \<open>The events kept are increasing, and the last one is the sequence number to beat.\<close>

definition stream_ok :: "nat \<Rightarrow> session_bridge_state \<Rightarrow> bool" where
  "stream_ok c st \<longleftrightarrow>
     sorted_wrt (\<lambda>a b. ev_seq a < ev_seq b) (sb_events st) \<and> length (sb_events st) \<le> c
     \<and> (case sb_last_seq st of
           None \<Rightarrow> sb_events st = []
         | Some s \<Rightarrow> sb_events st \<noteq> [] \<and> ev_seq (last (sb_events st)) = s)"

definition same_stream :: "session_bridge_state \<Rightarrow> session_bridge_state \<Rightarrow> bool" where
  "same_stream st st' \<longleftrightarrow> sb_generation st' = sb_generation st
     \<and> sb_last_seq st' = sb_last_seq st \<and> sb_events st' = sb_events st"

lemma same_stream_ok: "same_stream st st' \<Longrightarrow> stream_ok c st' = stream_ok c st"
  by (auto simp: same_stream_def stream_ok_def split: option.splits)

lemma stream_ok_empty [simp]: "stream_ok c empty_session"
  by (simp add: stream_ok_def empty_session_def)

lemma sorted_last: "sorted_wrt (\<lambda>a b. ev_seq a < ev_seq b) es \<Longrightarrow> e \<in> set es \<Longrightarrow>
    ev_seq e \<le> ev_seq (last es)"
  by (induction es) (auto simp: less_imp_le)

lemma stream_ok_extend:
  assumes ok: "stream_ok c st" and c: "0 < c"
    and new: "new = newer_than (sb_last_seq st) es"
  shows "stream_ok c (st\<lparr>sb_last_seq := latest (sb_last_seq st) new,
    sb_events := (if new = [] then sb_events st else kept c (sb_events st @ new))\<rparr>)"
proof (cases "new = []")
  case True
  with ok show ?thesis by (simp add: latest_def)
next
  case False
  have "sorted_wrt (\<lambda>a b. ev_seq a < ev_seq b) (sb_events st @ new)"
  proof -
    have "ev_seq a < ev_seq b" if a: "a \<in> set (sb_events st)" and b: "b \<in> set new" for a b
    proof -
      obtain s where s: "sb_last_seq st = Some s" "ev_seq (last (sb_events st)) = s"
        using ok a by (cases "sb_last_seq st") (auto simp: stream_ok_def)
      have "ev_seq a \<le> s" using ok s a sorted_last by (auto simp: stream_ok_def)
      also have "s < ev_seq b" using b s by (simp add: new newer_than_above)
      finally show ?thesis .
    qed
    with ok show ?thesis by (simp add: stream_ok_def sorted_wrt_append new newer_than_sorted)
  qed
  with False c show ?thesis
    by (simp add: stream_ok_def latest_def sorted_wrt_kept last_kept)
      (metis append_is_Nil_conv gr_implies_not0 length_0_conv length_kept min_0R min_def)
qed

text \<open>What one batch does to its session, and to no other.\<close>

definition session_before :: "base_bridge \<Rightarrow> observer_batch \<Rightarrow> session_bridge_state" where
  "session_before b batch = (let st = session_or_default b (ob_session_id batch) in
     if sb_generation st < ob_generation batch then
       st\<lparr>sb_generation := ob_generation batch, sb_last_seq := None, sb_events := []\<rparr>
     else st)"

definition accepted_events :: "base_bridge \<Rightarrow> observer_batch \<Rightarrow> observer_event list" where
  "accepted_events b batch =
     (if ob_generation batch < sb_generation (session_or_default b (ob_session_id batch)) then []
      else newer_than (sb_last_seq (session_before b batch)) (ob_events batch))"

lemma length_newer_than: "length (newer_than s es) \<le> length es"
  by (induction s es rule: newer_than.induct) auto

lemma base_ingest_collect_eq:
  fixes b :: base_bridge and batch :: observer_batch
  defines "new \<equiv> accepted_events b batch" and "st \<equiv> session_before b batch"
  shows "base_ingest_collect b batch =
    ((\<lparr>ir_accepted = length new, ir_rejected_stale = length (ob_events batch) - length new,
       ir_last_seq = latest (sb_last_seq st) new, ir_generation = sb_generation st\<rparr>, new),
     put_session b (ob_session_id batch) (st\<lparr>sb_last_seq := latest (sb_last_seq st) new,
       sb_events := (if new = [] then sb_events st
                     else kept (bb_event_capacity b) (sb_events st @ new))\<rparr>))"
proof -
  obtain acc rej st' where loop:
    "ingest_events (bb_event_capacity b) (ob_generation batch) (ob_events batch) st = (acc, rej, st')"
    by (metis prod_cases3)
  have call: "base_ingest_collect b batch = ((\<lparr>ir_accepted = length acc, ir_rejected_stale = rej,
      ir_last_seq = sb_last_seq st', ir_generation = sb_generation st'\<rparr>, acc),
      put_session b (ob_session_id batch) st')"
    using loop by (simp add: base_ingest_collect_def Let_def st_def session_before_def)
  show ?thesis
  proof (cases "ob_generation batch < sb_generation (session_or_default b (ob_session_id batch))")
    case True
    then have "st = session_or_default b (ob_session_id batch)"
      by (simp add: st_def session_before_def Let_def)
    with True loop have "acc = []" "rej = length (ob_events batch)" "st' = st"
      by (simp_all add: ingest_events_stale)
    with True call show ?thesis by (simp add: new_def accepted_events_def latest_def)
  next
    case False
    then have "\<not> ob_generation batch < sb_generation st"
      by (simp add: st_def session_before_def Let_def)
    from ingest_events_current [OF loop this] False call show ?thesis
      by (simp add: new_def st_def accepted_events_def)
  qed
qed

lemma session_before_ok:
  "stream_ok c (session_or_default b (ob_session_id batch)) \<Longrightarrow> stream_ok c (session_before b batch)"
  by (simp add: session_before_def stream_ok_def Let_def)

definition streams_ok :: "base_bridge \<Rightarrow> bool" where
  "streams_ok b \<longleftrightarrow> 0 < bb_event_capacity b
     \<and> (\<forall>sid st. bb_sessions b sid = Some st \<longrightarrow> stream_ok (bb_event_capacity b) st)"

lemma session_or_default_ok:
  "streams_ok b \<Longrightarrow> stream_ok (bb_event_capacity b) (session_or_default b sid)"
  by (auto simp: streams_ok_def session_or_default_def split: option.splits)

lemma put_session_ok:
  "streams_ok b \<Longrightarrow> stream_ok (bb_event_capacity b) st \<Longrightarrow> streams_ok (put_session b sid st)"
  by (auto simp: streams_ok_def put_session_def)

lemma base_ingest_collect_ok: "streams_ok b \<Longrightarrow> streams_ok (snd (base_ingest_collect b batch))"
  unfolding base_ingest_collect_eq snd_conv
proof (rule put_session_ok)
  assume ok: "streams_ok b"
  note before = session_before_ok [OF session_or_default_ok [OF ok]]
  show "stream_ok (bb_event_capacity b) ((session_before b batch)
      \<lparr>sb_last_seq := latest (sb_last_seq (session_before b batch)) (accepted_events b batch),
       sb_events := if accepted_events b batch = [] then sb_events (session_before b batch)
         else kept (bb_event_capacity b)
                (sb_events (session_before b batch) @ accepted_events b batch)\<rparr>)"
  proof (cases "ob_generation batch < sb_generation (session_or_default b (ob_session_id batch))")
    case True
    with before show ?thesis by (simp add: accepted_events_def latest_def)
  next
    case False
    then have "accepted_events b batch
        = newer_than (sb_last_seq (session_before b batch)) (ob_events batch)"
      by (simp add: accepted_events_def)
    from stream_ok_extend [OF before _ this] ok show ?thesis by (simp add: streams_ok_def)
  qed
qed

end
