(* ===== verification/Cancellation_Laws.thy ===== *)
theory Cancellation_Laws
  imports Cancellable_Bridge Observer_Stream
begin

text \<open>
  The contract of a cancellation authority, stated once and provided twice. The authority
  keeps the ids of a session's queue in the order of the base bridge's deque, and the
  lifecycle of every id it knows; a cancelled id is forgotten only when it is not queued.
  From these laws the locale derives that the authority's queue mirrors the deque through
  enqueueing (with its evictions) and draining.
\<close>

locale cancellation_queue =
  fixes entry :: "'a \<Rightarrow> session_id \<times> uuid \<Rightarrow> 's option"
    and queue :: "'a \<Rightarrow> session_id \<Rightarrow> uuid list"
    and pending :: 's
    and cancelled :: 's
    and enqueued :: "'a \<Rightarrow> session_id \<Rightarrow> 'x \<Rightarrow> nat \<Rightarrow> 'a"
    and id_of :: "'x \<Rightarrow> uuid"
    and remove_queued :: "'a \<Rightarrow> session_id \<Rightarrow> uuid \<Rightarrow> 'a"
    and cancel :: "'a \<Rightarrow> session_id \<times> uuid \<Rightarrow> timestamp \<Rightarrow> 'a"
    and prune :: "'a \<Rightarrow> 'a"
    and release :: "'a \<Rightarrow> session_id \<Rightarrow> 'a"
  assumes remove_queue: "queue (remove_queued a sid i) = (queue a)(sid := remove1 i (queue a sid))"
    and remove_entry: "entry (remove_queued a sid i) = entry a"
    and prune_queue: "queue (prune a) = queue a"
    and prune_entry: "entry (prune a) key = entry a key
      \<or> entry a key = Some cancelled \<and> entry (prune a) key = None
        \<and> snd key \<notin> set (queue a (fst key))"
    and enqueued_queue: "queue (enqueued a sid x c)
      = (queue a)(sid := push_bounded (queue a sid) (id_of x) c)"
    and enqueued_entry: "key \<noteq> (sid, id_of x) \<Longrightarrow> distinct (queue a sid) \<Longrightarrow>
      id_of x \<notin> set (queue a sid) \<Longrightarrow> entry (enqueued a sid x c) key = entry a key
      \<or> entry a key \<in> {Some pending, Some cancelled} \<and> entry (enqueued a sid x c) key = None
        \<and> snd key \<notin> set (queue (enqueued a sid x c) (fst key))"
    and enqueued_new: "0 < c \<Longrightarrow> distinct (queue a sid) \<Longrightarrow> id_of x \<notin> set (queue a sid) \<Longrightarrow>
      entry (enqueued a sid x c) (sid, id_of x) = Some pending"
    and cancel_queue: "queue (cancel a key t) = queue a"
    and cancel_entry: "entry (cancel a key t) k
      = (if k = key \<and> entry a key \<noteq> None then Some cancelled else entry a k)
      \<or> (entry a k = Some cancelled \<or> k = key) \<and> entry (cancel a key t) k = None
        \<and> snd k \<notin> set (queue a (fst k))"
    and release_queue: "queue (release a sid) = (queue a)(sid := [])"
    and release_entry: "entry (release a sid) key = (if fst key = sid then None else entry a key)"
begin

definition mirrors :: "'a \<Rightarrow> session_id \<Rightarrow> 'x list \<Rightarrow> bool" where
  "mirrors a sid xs \<longleftrightarrow> queue a sid = map id_of xs"

lemma mirrors_enqueued: "mirrors a sid xs \<Longrightarrow> mirrors (enqueued a sid x c) sid (push_bounded xs x c)"
  by (simp add: mirrors_def enqueued_queue map_push_bounded)

lemma mirrors_other: "sid' \<noteq> sid \<Longrightarrow> mirrors (enqueued a sid x c) sid' xs = mirrors a sid' xs"
  by (simp add: mirrors_def enqueued_queue)

definition removes :: "session_id \<Rightarrow> uuid list \<Rightarrow> 'a \<Rightarrow> 'a" where
  "removes sid ids a = fold (\<lambda>i a. remove_queued a sid i) ids a"

lemma removes_simps [simp]:
  "removes sid [] a = a"
  "removes sid (i # ids) a = removes sid ids (remove_queued a sid i)"
  by (simp_all add: removes_def)

lemma removes_entry: "entry (removes sid ids a) = entry a"
  by (induction ids arbitrary: a) (simp_all add: remove_entry)

lemma removes_queue:
  "queue a sid = ids @ rest \<Longrightarrow> queue (removes sid ids a) = (queue a)(sid := rest)"
  by (induction ids arbitrary: a) (auto simp: remove_queue fun_eq_iff)

lemma mirrors_drained:
  "mirrors a sid xs \<Longrightarrow> queue (removes sid (map id_of (take n xs)) a)
     = (queue a)(sid := map id_of (drop n xs))"
  by (rule removes_queue) (metis append_take_drop_id map_append mirrors_def)

text \<open>What is queued is queued once, is known, and is pending or cancelled.\<close>

definition queue_known :: "'a \<Rightarrow> session_id \<Rightarrow> bool" where
  "queue_known a sid \<longleftrightarrow> distinct (queue a sid)
     \<and> (\<forall>i \<in> set (queue a sid). entry a (sid, i) \<in> {Some pending, Some cancelled})"

lemma queue_known_prune: "queue_known a sid \<Longrightarrow> queue_known (prune a) sid"
  unfolding queue_known_def prune_queue by (metis fst_conv prune_entry snd_conv)

lemma queue_known_cancel: "queue_known a sid \<Longrightarrow> queue_known (cancel a key t) sid"
  unfolding queue_known_def cancel_queue
  by (metis cancel_entry fst_conv insert_iff snd_conv)

lemma queue_known_release: "queue_known a sid \<Longrightarrow> queue_known (release a sid') sid"
  by (auto simp: queue_known_def release_queue release_entry)

lemma queue_known_enqueued:
  assumes known: "\<And>sid. queue_known a sid" and c: "0 < c" and fresh: "id_of x \<notin> set (queue a sid)"
  shows "queue_known (enqueued a sid x c) sid'"
proof -
  have sub: "set (queue (enqueued a sid x c) sid)
      \<subseteq> insert (id_of x) (set (queue a sid))"
    by (simp add: enqueued_queue set_push_bounded)
  have "distinct (queue (enqueued a sid x c) sid')"
    using known [of sid'] known [of sid] fresh
    by (auto simp: queue_known_def enqueued_queue push_bounded_eq distinct_drop
        simp del: drop_append)
  moreover have "entry (enqueued a sid x c) (sid', i) \<in> {Some pending, Some cancelled}"
    if i: "i \<in> set (queue (enqueued a sid x c) sid')" for i
  proof (cases "(sid', i) = (sid, id_of x)")
    case True
    with c fresh known [of sid] show ?thesis by (simp add: enqueued_new queue_known_def)
  next
    case False
    then have old: "i \<in> set (queue a sid')" using i sub by (auto simp: enqueued_queue split: if_splits)
    have "entry (enqueued a sid x c) (sid', i) = entry a (sid', i)"
      using enqueued_entry [OF False _ fresh, of c] known [of sid] i by (auto simp: queue_known_def)
    with old known [of sid'] show ?thesis by (auto simp: queue_known_def)
  qed
  ultimately show ?thesis by (simp add: queue_known_def)
qed

text \<open>The states that are neither pending nor cancelled are kept by all of this.\<close>

lemma enqueued_keeps:
  assumes "entry a key = s" "s \<notin> {None, Some pending, Some cancelled}"
    "\<And>sid. queue_known a sid" "id_of x \<notin> set (queue a sid)" "key \<noteq> (sid, id_of x)"
  shows "entry (enqueued a sid x c) key = s"
  using enqueued_entry [OF assms(5) _ assms(4), of c] assms(1,2,3) by (auto simp: queue_known_def)

lemma cancel_keeps:
  "entry a k = s \<Longrightarrow> s \<notin> {None, Some cancelled} \<Longrightarrow> k \<noteq> key \<Longrightarrow> entry (cancel a key t) k = s"
  using cancel_entry [of a key t k] by auto

lemma prune_keeps: "entry a k = s \<Longrightarrow> s \<notin> {None, Some cancelled} \<Longrightarrow> entry (prune a) k = s"
  using prune_entry [of a k] by auto

lemma cancel_settles: "entry (cancel a key t) key \<in> {Some cancelled, None}"
  using cancel_entry [of a key t key] by (cases "entry a key") auto

end

section \<open>The two authorities provide it\<close>

definition native_entry :: "native_authority \<Rightarrow> session_id \<times> uuid \<Rightarrow> native_lifecycle option" where
  "native_entry a key = map_option na_state (na_entries a key)"

definition native_queue :: "native_authority \<Rightarrow> session_id \<Rightarrow> uuid list" where
  "native_queue a sid = (case na_queued a sid of None \<Rightarrow> [] | Some q \<Rightarrow> q)"

definition action_entry :: "action_authority \<Rightarrow> session_id \<times> uuid \<Rightarrow> action_lifecycle option" where
  "action_entry a key = map_option ac_state (ac_entries a key)"

definition action_queue :: "action_authority \<Rightarrow> session_id \<Rightarrow> uuid list" where
  "action_queue a sid = (case ac_queued a sid of None \<Rightarrow> [] | Some q \<Rightarrow> q)"

lemma action_prune_queued: "ac_queued (action_prune a) = ac_queued a"
proof (induction a rule: action_prune.induct)
  case (1 a)
  show ?case by (subst action_prune.simps) (auto simp: 1 split: option.splits)
qed

lemma action_prune_entries: "ac_entries (action_prune a) key = ac_entries a key
    \<or> action_entry a key = Some ACancelled \<and> ac_entries (action_prune a) key = None
      \<and> snd key \<notin> set (action_queue a (fst key))"
proof (induction a rule: action_prune.induct)
  case (1 a)
  show ?case
  proof (cases "max_cancelled_tombstones < length (ac_cancelled_order a)")
    case False
    then show ?thesis by (simp add: action_prune.simps [of a])
  next
    case big: True
    show ?thesis
    proof (cases "take_first (\<lambda>key. \<not> action_is_queued a key) (ac_cancelled_order a)")
      case None
      with big show ?thesis by (simp add: action_prune.simps [of a])
    next
      case (Some p)
      obtain k order where p: "p = (k, order)" by (cases p)
      define a' where "a' = a\<lparr>ac_cancelled_order := order, ac_entries :=
        (if action_state_is a k ACancelled then (ac_entries a)(k := None) else ac_entries a)\<rparr>"
      have step: "action_prune a = action_prune a'"
        using big Some by (simp add: action_prune.simps [of a] p a'_def)
      have unq: "\<not> action_is_queued a k" using take_first_Some [OF Some [unfolded p]] by blast
      have "ac_entries a' key = ac_entries a key
          \<or> key = k \<and> action_entry a key = Some ACancelled \<and> ac_entries a' key = None"
        by (auto simp: a'_def action_state_is_def action_entry_def split: option.splits)
      moreover have "action_queue a' = action_queue a" by (simp add: a'_def action_queue_def fun_eq_iff)
      moreover note "1.IH" [OF big Some [unfolded p] refl, folded a'_def]
      ultimately show ?thesis using unq step
        by (cases "ac_entries a key") (auto simp: action_is_queued_def action_queue_def action_entry_def split: option.splits)
    qed
  qed
qed

text \<open>The eviction loop keeps the end of the queue and forgets pending ids it drops.\<close>

lemma action_evict_queue: "fst (action_evict c sid q entries) = kept c q"
  by (induction c sid q entries rule: action_evict.induct) (auto simp: kept_def Suc_diff_le not_less)

lemma action_evict_entries:
  "distinct q \<Longrightarrow> snd (action_evict c sid q entries) key = entries key
    \<or> fst key = sid \<and> map_option ac_state (entries key) = Some APending
      \<and> snd (action_evict c sid q entries) key = None
      \<and> snd key \<in> set q \<and> snd key \<notin> set (kept c q)"
proof (induction c sid q entries rule: action_evict.induct)
  case (2 c sid i q entries)
  show ?case
  proof (cases "c < length (i # q)")
    case True
    define entries' where "entries' = (case entries (sid, i) of None \<Rightarrow> entries
      | Some entry \<Rightarrow> if ac_state entry = APending then entries((sid, i) := None) else entries)"
    have k: "kept c (i # q) = kept c q" using True by (simp add: kept_def Suc_diff_le)
    have "entries' key = entries key \<or> key = (sid, i)
      \<and> map_option ac_state (entries key) = Some APending \<and> entries' key = None"
      by (auto simp: entries'_def split: option.splits)
    moreover note "2.IH" [OF True, folded entries'_def]
    moreover have "snd (action_evict c sid (i # q) entries) = snd (action_evict c sid q entries')"
      using True by (simp add: entries'_def)
    moreover have "i \<notin> set (kept c q)" using "2.prems" set_kept by fastforce
    ultimately show ?thesis using "2.prems" k by (cases "entries key") auto
  qed simp
qed simp

lemma action_record_enqueued_queue: "action_queue (action_record_enqueued a x c)
    = (action_queue a)(act_session_id x := push_bounded (action_queue a (act_session_id x)) (act_id x) c)"
  by (auto simp: action_record_enqueued_def Let_def action_queue_def action_prune_queued fun_eq_iff
      push_bounded_is_kept action_evict_queue split_beta split: option.splits)

text \<open>What recording an enqueued item does to the entries, before pruning.\<close>

lemma action_record_enqueued_prune:
  fixes a :: action_authority and x :: bridge_action
  defines "sid \<equiv> act_session_id x"
  assumes dist: "distinct (action_queue a sid)" and fresh: "act_id x \<notin> set (action_queue a sid)"
  shows "\<exists>a'. action_record_enqueued a x c = action_prune a'
    \<and> action_queue a' = (action_queue a)(sid := push_bounded (action_queue a sid) (act_id x) c)
    \<and> (\<forall>key. key \<noteq> (sid, act_id x) \<longrightarrow> ac_entries a' key = ac_entries a key
      \<or> action_entry a key = Some APending \<and> ac_entries a' key = None
        \<and> snd key \<notin> set (action_queue a' (fst key)))
    \<and> (0 < c \<longrightarrow> action_entry a' (sid, act_id x) = Some APending)"
proof -
  define q where "q = action_queue a sid @ [act_id x]"
  define entries where "entries = (ac_entries a)((sid, act_id x) \<mapsto> \<lparr>ac_state = APending,
    ac_cancellation_requested_at = None\<rparr>)"
  define a' where "a' = a\<lparr>ac_entries := snd (action_evict c sid q entries),
    ac_queued := (ac_queued a)(sid \<mapsto> fst (action_evict c sid q entries))\<rparr>"
  have rec: "action_record_enqueued a x c = action_prune a'"
    by (simp add: action_record_enqueued_def Let_def a'_def q_def entries_def sid_def
        action_queue_def split_beta)
  have queue: "action_queue a' = (action_queue a)(sid := push_bounded (action_queue a sid) (act_id x) c)"
    by (auto simp: a'_def action_queue_def fun_eq_iff action_evict_queue q_def push_bounded_is_kept)
  have dq: "distinct q" using dist fresh by (simp add: q_def)
  have q': "action_queue a' sid = kept c q" by (simp add: queue q_def push_bounded_is_kept)
  show ?thesis
  proof (intro exI [of _ a'] conjI allI impI)
    fix key :: "session_id \<times> uuid"
    assume "key \<noteq> (sid, act_id x)"
    then show "ac_entries a' key = ac_entries a key
        \<or> action_entry a key = Some APending \<and> ac_entries a' key = None
          \<and> snd key \<notin> set (action_queue a' (fst key))"
      using action_evict_entries [OF dq, of c sid entries key] q'
      by (auto simp: a'_def entries_def action_entry_def)
  next
    assume "0 < c"
    then have "act_id x \<in> set (kept c q)" by (auto simp: q_def kept_def Suc_diff_le)
    then show "action_entry a' (sid, act_id x) = Some APending"
      using action_evict_entries [OF dq, of c sid entries "(sid, act_id x)"]
      by (auto simp: a'_def action_entry_def entries_def)
  qed (use rec queue in simp_all)
qed

lemma action_mark_cancelled_prune:
  "\<exists>a'. action_mark_cancelled a key t = action_prune a' \<and> action_queue a' = action_queue a
    \<and> (\<forall>k. action_entry a' k =
      (if k = key \<and> action_entry a key \<noteq> None then Some ACancelled else action_entry a k))"
proof -
  define a' where "a' = a\<lparr>ac_entries := (case ac_entries a key of None \<Rightarrow> ac_entries a
      | Some entry \<Rightarrow> (ac_entries a)(key \<mapsto> entry\<lparr>ac_state := ACancelled,
          ac_cancellation_requested_at := Some t\<rparr>)),
    ac_cancelled_order := (if action_state_is a key ACancelled then ac_cancelled_order a
      else ac_cancelled_order a @ [key])\<rparr>"
  show ?thesis
    by (intro exI [of _ a'] conjI allI impI) (auto simp: a'_def action_mark_cancelled_def Let_def action_queue_def
        action_entry_def fun_eq_iff split: option.splits)
qed

text \<open>Pruning, on the lifecycle states.\<close>

lemma action_prune_entry: "action_entry (action_prune a) key = action_entry a key
    \<or> action_entry a key = Some ACancelled \<and> action_entry (action_prune a) key = None
      \<and> snd key \<notin> set (action_queue a (fst key))"
  using action_prune_entries [of a key] by (auto simp: action_entry_def)

lemma action_prune_queue: "action_queue (action_prune a) = action_queue a"
  by (simp add: action_queue_def action_prune_queued fun_eq_iff)

lemma native_prune_queued: "na_queued (native_prune a) = na_queued a"
proof (induction a rule: native_prune.induct)
  case (1 a)
  show ?case by (subst native_prune.simps) (auto simp: 1 split: option.splits)
qed

lemma native_prune_entries: "na_entries (native_prune a) key = na_entries a key
    \<or> native_entry a key = Some NCancelled \<and> na_entries (native_prune a) key = None
      \<and> snd key \<notin> set (native_queue a (fst key))"
proof (induction a rule: native_prune.induct)
  case (1 a)
  show ?case
  proof (cases "max_cancelled_tombstones < length (na_cancelled_order a)")
    case False
    then show ?thesis by (simp add: native_prune.simps [of a])
  next
    case big: True
    show ?thesis
    proof (cases "take_first (\<lambda>key. \<not> native_is_queued a key) (na_cancelled_order a)")
      case None
      with big show ?thesis by (simp add: native_prune.simps [of a])
    next
      case (Some p)
      obtain k order where p: "p = (k, order)" by (cases p)
      define a' where "a' = a\<lparr>na_cancelled_order := order, na_entries :=
        (if native_state_is a k NCancelled then (na_entries a)(k := None) else na_entries a)\<rparr>"
      have step: "native_prune a = native_prune a'"
        using big Some by (simp add: native_prune.simps [of a] p a'_def)
      have unq: "\<not> native_is_queued a k" using take_first_Some [OF Some [unfolded p]] by blast
      have "na_entries a' key = na_entries a key
          \<or> key = k \<and> native_entry a key = Some NCancelled \<and> na_entries a' key = None"
        by (auto simp: a'_def native_state_is_def native_entry_def split: option.splits)
      moreover have "native_queue a' = native_queue a" by (simp add: a'_def native_queue_def fun_eq_iff)
      moreover note "1.IH" [OF big Some [unfolded p] refl, folded a'_def]
      ultimately show ?thesis using unq step
        by (cases "na_entries a key") (auto simp: native_is_queued_def native_queue_def native_entry_def split: option.splits)
    qed
  qed
qed

text \<open>The eviction loop keeps the end of the queue and forgets pending ids it drops.\<close>

lemma native_evict_queue: "fst (native_evict c sid q entries) = kept c q"
  by (induction c sid q entries rule: native_evict.induct) (auto simp: kept_def Suc_diff_le not_less)

lemma native_evict_entries:
  "distinct q \<Longrightarrow> snd (native_evict c sid q entries) key = entries key
    \<or> fst key = sid \<and> map_option na_state (entries key) = Some NPending
      \<and> snd (native_evict c sid q entries) key = None
      \<and> snd key \<in> set q \<and> snd key \<notin> set (kept c q)"
proof (induction c sid q entries rule: native_evict.induct)
  case (2 c sid i q entries)
  show ?case
  proof (cases "c < length (i # q)")
    case True
    define entries' where "entries' = (case entries (sid, i) of None \<Rightarrow> entries
      | Some entry \<Rightarrow> if na_state entry = NPending then entries((sid, i) := None) else entries)"
    have k: "kept c (i # q) = kept c q" using True by (simp add: kept_def Suc_diff_le)
    have "entries' key = entries key \<or> key = (sid, i)
      \<and> map_option na_state (entries key) = Some NPending \<and> entries' key = None"
      by (auto simp: entries'_def split: option.splits)
    moreover note "2.IH" [OF True, folded entries'_def]
    moreover have "snd (native_evict c sid (i # q) entries) = snd (native_evict c sid q entries')"
      using True by (simp add: entries'_def)
    moreover have "i \<notin> set (kept c q)" using "2.prems" set_kept by fastforce
    ultimately show ?thesis using "2.prems" k by (cases "entries key") auto
  qed simp
qed simp

lemma native_record_enqueued_queue: "native_queue (native_record_enqueued a sid x c)
    = (native_queue a)(sid := push_bounded (native_queue a sid) (ner_id x) c)"
  by (auto simp: native_record_enqueued_def Let_def native_queue_def native_prune_queued fun_eq_iff
      push_bounded_is_kept native_evict_queue split_beta split: option.splits)

text \<open>What recording an enqueued item does to the entries, before pruning.\<close>

lemma native_record_enqueued_prune:
  fixes a :: native_authority and x :: native_executor_request
  assumes dist: "distinct (native_queue a sid)" and fresh: "ner_id x \<notin> set (native_queue a sid)"
  shows "\<exists>a'. native_record_enqueued a sid x c = native_prune a'
    \<and> native_queue a' = (native_queue a)(sid := push_bounded (native_queue a sid) (ner_id x) c)
    \<and> (\<forall>key. key \<noteq> (sid, ner_id x) \<longrightarrow> na_entries a' key = na_entries a key
      \<or> native_entry a key = Some NPending \<and> na_entries a' key = None
        \<and> snd key \<notin> set (native_queue a' (fst key)))
    \<and> (0 < c \<longrightarrow> native_entry a' (sid, ner_id x) = Some NPending
      \<and> map_option na_created_at (na_entries a' (sid, ner_id x)) = Some (ner_created_at x))"
proof -
  define q where "q = native_queue a sid @ [ner_id x]"
  define entries where "entries = (na_entries a)((sid, ner_id x) \<mapsto> \<lparr>na_state = NPending,
    na_created_at = ner_created_at x, na_cancellation_requested_at = None\<rparr>)"
  define a' where "a' = a\<lparr>na_entries := snd (native_evict c sid q entries),
    na_queued := (na_queued a)(sid \<mapsto> fst (native_evict c sid q entries))\<rparr>"
  have rec: "native_record_enqueued a sid x c = native_prune a'"
    by (simp add: native_record_enqueued_def Let_def a'_def q_def entries_def
        native_queue_def split_beta)
  have queue: "native_queue a' = (native_queue a)(sid := push_bounded (native_queue a sid) (ner_id x) c)"
    by (auto simp: a'_def native_queue_def fun_eq_iff native_evict_queue q_def push_bounded_is_kept)
  have dq: "distinct q" using dist fresh by (simp add: q_def)
  have q': "native_queue a' sid = kept c q" by (simp add: queue q_def push_bounded_is_kept)
  show ?thesis
  proof (intro exI [of _ a'] conjI allI impI)
    fix key :: "session_id \<times> uuid"
    assume "key \<noteq> (sid, ner_id x)"
    then show "na_entries a' key = na_entries a key
        \<or> native_entry a key = Some NPending \<and> na_entries a' key = None
          \<and> snd key \<notin> set (native_queue a' (fst key))"
      using native_evict_entries [OF dq, of c sid entries key] q'
      by (auto simp: a'_def entries_def native_entry_def)
  next
    assume "0 < c"
    then have "ner_id x \<in> set (kept c q)" by (auto simp: q_def kept_def Suc_diff_le)
    then have "na_entries a' (sid, ner_id x) = entries (sid, ner_id x)"
      using native_evict_entries [OF dq, of c sid entries "(sid, ner_id x)"] by (auto simp: a'_def)
    then show "native_entry a' (sid, ner_id x) = Some NPending"
      "map_option na_created_at (na_entries a' (sid, ner_id x)) = Some (ner_created_at x)"
      by (simp_all add: native_entry_def entries_def)
  qed (use rec queue in simp_all)
qed

lemma native_mark_cancelled_prune:
  "\<exists>a'. native_mark_cancelled a key t = native_prune a' \<and> native_queue a' = native_queue a
    \<and> (\<forall>k. native_entry a' k =
      (if k = key \<and> native_entry a key \<noteq> None then Some NCancelled else native_entry a k))
    \<and> (\<forall>k. k \<noteq> key \<longrightarrow> na_entries a' k = na_entries a k)
    \<and> (\<forall>k. map_option na_created_at (na_entries a' k) = map_option na_created_at (na_entries a k))"
proof -
  define a' where "a' = a\<lparr>na_entries := (case na_entries a key of None \<Rightarrow> na_entries a
      | Some entry \<Rightarrow> (na_entries a)(key \<mapsto> entry\<lparr>na_state := NCancelled,
          na_cancellation_requested_at := Some t\<rparr>)),
    na_cancelled_order := (if native_state_is a key NCancelled then na_cancelled_order a
      else na_cancelled_order a @ [key])\<rparr>"
  show ?thesis
    by (intro exI [of _ a'] conjI allI impI) (auto simp: a'_def native_mark_cancelled_def Let_def native_queue_def
        native_entry_def fun_eq_iff split: option.splits)
qed

text \<open>Pruning, on the lifecycle states.\<close>

lemma native_prune_entry: "native_entry (native_prune a) key = native_entry a key
    \<or> native_entry a key = Some NCancelled \<and> native_entry (native_prune a) key = None
      \<and> snd key \<notin> set (native_queue a (fst key))"
  using native_prune_entries [of a key] by (auto simp: native_entry_def)

lemma native_prune_queue: "native_queue (native_prune a) = native_queue a"
  by (simp add: native_queue_def native_prune_queued fun_eq_iff)

lemma action_remove_queued_queue: "action_queue (action_remove_queued a sid i)
    = (action_queue a)(sid := remove1 i (action_queue a sid))"
  by (auto simp: action_remove_queued_def action_queue_def fun_eq_iff split: option.splits)

lemma action_remove_queued_entries: "ac_entries (action_remove_queued a sid i) = ac_entries a"
  by (simp add: action_remove_queued_def split: option.split)

lemma action_release_queue: "action_queue (action_release_session a sid) = (action_queue a)(sid := [])"
  by (simp add: action_release_session_def action_queue_def fun_eq_iff)

lemma action_release_entry: "action_entry (action_release_session a sid) key
    = (if fst key = sid then None else action_entry a key)"
  by (simp add: action_release_session_def action_entry_def)

text \<open>The item carries its session, so the provider records it for that session.\<close>

definition action_enqueued ::
  "action_authority \<Rightarrow> session_id \<Rightarrow> bridge_action \<Rightarrow> nat \<Rightarrow> action_authority" where
  "action_enqueued a sid x c = action_record_enqueued a (x\<lparr>act_session_id := sid\<rparr>) c"

lemma action_enqueued_self: "act_session_id x = sid \<Longrightarrow> action_enqueued a sid x c = action_record_enqueued a x c"
  by (cases x) (simp add: action_enqueued_def)

interpretation public_queue: cancellation_queue action_entry action_queue APending ACancelled
  action_enqueued act_id action_remove_queued action_mark_cancelled action_prune action_release_session
proof unfold_locales
  fix a sid c and x :: bridge_action and key :: "session_id \<times> uuid"
  assume fresh: "distinct (action_queue a sid)" "act_id x \<notin> set (action_queue a sid)"
  let ?x = "x\<lparr>act_session_id := sid\<rparr>"
  have x: "act_session_id ?x = sid" "act_id ?x = act_id x" by simp_all
  obtain a' where a': "action_enqueued a sid x c = action_prune a'"
    "action_queue a' = (action_queue a)(sid := push_bounded (action_queue a sid) (act_id x) c)"
    "\<And>key. key \<noteq> (sid, act_id x) \<Longrightarrow> ac_entries a' key = ac_entries a key
      \<or> action_entry a key = Some APending \<and> ac_entries a' key = None
        \<and> snd key \<notin> set (action_queue a' (fst key))"
    "0 < c \<Longrightarrow> action_entry a' (sid, act_id x) = Some APending"
    using action_record_enqueued_prune [of a ?x c, unfolded x, OF fresh] unfolding action_enqueued_def by blast
  note prune = action_prune_entry [of a'] action_prune_queue [of a']
  {
    assume "key \<noteq> (sid, act_id x)"
    from a'(3) [OF this] prune (1) [of key]
    show "action_entry (action_enqueued a sid x c) key = action_entry a key
      \<or> action_entry a key \<in> {Some APending, Some ACancelled}
        \<and> action_entry (action_enqueued a sid x c) key = None
        \<and> snd key \<notin> set (action_queue (action_enqueued a sid x c) (fst key))"
      by (simp add: a'(1) prune (2)) (auto simp: action_entry_def)
  }
  assume "0 < c"
  with a'(4) prune (1) [of "(sid, act_id x)"]
  show "action_entry (action_enqueued a sid x c) (sid, act_id x) = Some APending"
    by (auto simp: a'(1))
next
  fix a key t k
  obtain a' where a': "action_mark_cancelled a key t = action_prune a'" "action_queue a' = action_queue a"
    "\<And>k. action_entry a' k =
      (if k = key \<and> action_entry a key \<noteq> None then Some ACancelled else action_entry a k)"
    using action_mark_cancelled_prune [of a key t] by blast
  show "action_queue (action_mark_cancelled a key t) = action_queue a"
    by (simp add: a' action_prune_queue)
  show "action_entry (action_mark_cancelled a key t) k
      = (if k = key \<and> action_entry a key \<noteq> None then Some ACancelled else action_entry a k)
    \<or> (action_entry a k = Some ACancelled \<or> k = key) \<and> action_entry (action_mark_cancelled a key t) k = None
      \<and> snd k \<notin> set (action_queue a (fst k))"
    using action_prune_entry [of a' k] by (auto simp: a' split: if_splits)
next
  fix a key
  show "action_entry (action_prune a) key = action_entry a key
      \<or> action_entry a key = Some ACancelled \<and> action_entry (action_prune a) key = None
        \<and> snd key \<notin> set (action_queue a (fst key))"
    by (rule action_prune_entry)
qed (auto simp: action_remove_queued_queue action_remove_queued_entries action_entry_def fun_eq_iff
    action_prune_queue action_release_queue action_release_entry [unfolded action_entry_def]
    action_enqueued_def action_record_enqueued_queue)

lemma native_remove_queued_queue: "native_queue (native_remove_queued a sid i)
    = (native_queue a)(sid := remove1 i (native_queue a sid))"
  by (auto simp: native_remove_queued_def native_queue_def fun_eq_iff split: option.splits)

lemma native_remove_queued_entries: "na_entries (native_remove_queued a sid i) = na_entries a"
  by (simp add: native_remove_queued_def split: option.split)

lemma native_release_queue: "native_queue (native_release_session a sid) = (native_queue a)(sid := [])"
  by (simp add: native_release_session_def native_queue_def fun_eq_iff)

lemma native_release_entry: "native_entry (native_release_session a sid) key
    = (if fst key = sid then None else native_entry a key)"
  by (simp add: native_release_session_def native_entry_def)

interpretation native_request_queue: cancellation_queue native_entry native_queue NPending NCancelled
  native_record_enqueued ner_id native_remove_queued native_mark_cancelled native_prune native_release_session
proof unfold_locales
  fix a sid c and x :: native_executor_request and key :: "session_id \<times> uuid"
  assume fresh: "distinct (native_queue a sid)" "ner_id x \<notin> set (native_queue a sid)"
  obtain a' where a': "native_record_enqueued a sid x c = native_prune a'"
    "native_queue a' = (native_queue a)(sid := push_bounded (native_queue a sid) (ner_id x) c)"
    "\<And>key. key \<noteq> (sid, ner_id x) \<Longrightarrow> na_entries a' key = na_entries a key
      \<or> native_entry a key = Some NPending \<and> na_entries a' key = None
        \<and> snd key \<notin> set (native_queue a' (fst key))"
    "0 < c \<Longrightarrow> native_entry a' (sid, ner_id x) = Some NPending"
    using native_record_enqueued_prune [OF fresh, of c] by blast
  note prune = native_prune_entry [of a'] native_prune_queue [of a']
  {
    assume "key \<noteq> (sid, ner_id x)"
    from a'(3) [OF this] prune (1) [of key]
    show "native_entry (native_record_enqueued a sid x c) key = native_entry a key
      \<or> native_entry a key \<in> {Some NPending, Some NCancelled}
        \<and> native_entry (native_record_enqueued a sid x c) key = None
        \<and> snd key \<notin> set (native_queue (native_record_enqueued a sid x c) (fst key))"
      by (simp add: a'(1) prune (2)) (auto simp: native_entry_def)
  }
  assume "0 < c"
  with a'(4) prune (1) [of "(sid, ner_id x)"]
  show "native_entry (native_record_enqueued a sid x c) (sid, ner_id x) = Some NPending"
    by (auto simp: a'(1))
next
  fix a key t k
  obtain a' where a': "native_mark_cancelled a key t = native_prune a'" "native_queue a' = native_queue a"
    "\<And>k. native_entry a' k =
      (if k = key \<and> native_entry a key \<noteq> None then Some NCancelled else native_entry a k)"
    using native_mark_cancelled_prune [of a key t] by blast
  show "native_queue (native_mark_cancelled a key t) = native_queue a"
    by (simp add: a' native_prune_queue)
  show "native_entry (native_mark_cancelled a key t) k
      = (if k = key \<and> native_entry a key \<noteq> None then Some NCancelled else native_entry a k)
    \<or> (native_entry a k = Some NCancelled \<or> k = key) \<and> native_entry (native_mark_cancelled a key t) k = None
      \<and> snd k \<notin> set (native_queue a (fst k))"
    using native_prune_entry [of a' k] by (auto simp: a' split: if_splits)
next
  fix a key
  show "native_entry (native_prune a) key = native_entry a key
      \<or> native_entry a key = Some NCancelled \<and> native_entry (native_prune a) key = None
        \<and> snd key \<notin> set (native_queue a (fst key))"
    by (rule native_prune_entry)
qed (auto simp: native_remove_queued_queue native_remove_queued_entries native_entry_def fun_eq_iff
    native_prune_queue native_release_queue native_release_entry [unfolded native_entry_def]
    native_record_enqueued_queue)

end
