(* ===== verification/Public_Delivery.thy ===== *)
theory Public_Delivery
  imports Cancellation_Laws
begin

text \<open>
  The delivery of public actions: the state of the queue, of the in-flight deque and of the
  lifecycle entries, over all sessions at once (\<open>Q\<close> and \<open>I\<close> give the two deques of a
  session), and how each operation of the cancellable bridge keeps them consistent.
\<close>

section \<open>Removing by id\<close>

lemma take_first_by_id:
  assumes "distinct (map f xs)"
  shows "take_first (\<lambda>a. f a = i) xs =
    (case find (\<lambda>a. f a = i) xs of None \<Rightarrow> None | Some x \<Rightarrow> Some (x, filter (\<lambda>a. f a \<noteq> i) xs))"
  using assms
proof (induction xs)
  case (Cons a xs)
  have "f a = i \<Longrightarrow> filter (\<lambda>x. f x \<noteq> i) xs = xs"
    using Cons.prems by (auto simp: filter_id_conv image_iff)
  with Cons show ?case by (auto split: option.splits)
qed simp

lemma take_first_by_id_and:
  assumes "distinct (map f xs)" "\<forall>x \<in> set xs. p x"
  shows "take_first (\<lambda>a. f a = i \<and> p a) xs =
    (case find (\<lambda>a. f a = i) xs of None \<Rightarrow> None | Some x \<Rightarrow> Some (x, filter (\<lambda>a. f a \<noteq> i) xs))"
proof -
  have "take_first (\<lambda>a. f a = i \<and> p a) xs = take_first (\<lambda>a. f a = i) xs"
    using assms (2) by (induction xs) auto
  with take_first_by_id [OF assms (1)] show ?thesis by simp
qed

lemma find_id_None: "find (\<lambda>a. f a = i) xs = None \<longleftrightarrow> i \<notin> f ` set xs"
  by (auto simp: find_None_iff)

lemma find_id_Some: "find (\<lambda>a. f a = i) xs = Some x \<Longrightarrow> x \<in> set xs \<and> f x = i"
  by (auto simp: find_Some_iff)

lemma distinct_map_filter': "distinct (map f xs) \<Longrightarrow> distinct (map f (filter p xs))"
  by (simp add: distinct_map_filter)

lemma remove1_notin: "x \<notin> set xs \<Longrightarrow> remove1 x xs = xs"
  by (rule remove1_idem)

section \<open>The deques of the sessions\<close>

definition queued :: "base_bridge \<Rightarrow> session_id \<Rightarrow> bridge_action list" where
  "queued b sid = sb_actions (session_or_default b sid)"

definition inflight :: "base_bridge \<Rightarrow> session_id \<Rightarrow> bridge_action list" where
  "inflight b sid = sb_inflight (session_or_default b sid)"

lemma session_or_default_put [simp]:
  "session_or_default (put_session b sid st) = (session_or_default b)(sid := st)"
  by (simp add: session_or_default_def put_session_def fun_eq_iff)

lemma put_session_capacities [simp]:
  "bb_action_capacity (put_session b sid st) = bb_action_capacity b"
  "bb_event_capacity (put_session b sid st) = bb_event_capacity b"
  "bb_result_capacity (put_session b sid st) = bb_result_capacity b"
  by (simp_all add: put_session_def)

lemma queued_put: "queued (put_session b sid st) = (queued b)(sid := sb_actions st)"
  by (simp add: queued_def fun_eq_iff)

lemma inflight_put: "inflight (put_session b sid st) = (inflight b)(sid := sb_inflight st)"
  by (simp add: inflight_def fun_eq_iff)

lemma session_or_default_Some: "bb_sessions b sid = Some st \<Longrightarrow> session_or_default b sid = st"
  by (simp add: session_or_default_def)

lemma session_or_default_None: "bb_sessions b sid = None \<Longrightarrow> session_or_default b sid = empty_session"
  by (simp add: session_or_default_def)

lemma queued_same: "bb_sessions b sid = Some st \<Longrightarrow> (queued b)(sid := sb_actions st) = queued b"
  by (simp add: fun_eq_iff queued_def session_or_default_Some)

lemma inflight_same: "bb_sessions b sid = Some st \<Longrightarrow> (inflight b)(sid := sb_inflight st) = inflight b"
  by (simp add: fun_eq_iff inflight_def session_or_default_Some)

lemma empty_session_deques [simp]:
  "sb_actions empty_session = []" "sb_inflight empty_session = []"
  by (simp_all add: empty_session_def)

section \<open>The invariant\<close>

definition public_ok :: "action_authority \<Rightarrow> (session_id \<Rightarrow> bridge_action list)
    \<Rightarrow> (session_id \<Rightarrow> bridge_action list) \<Rightarrow> bool" where
  "public_ok a Q I \<longleftrightarrow> (\<forall>sid. public_queue.mirrors a sid (Q sid)
     \<and> public_queue.queue_known a sid \<and> distinct (map act_id (Q sid @ I sid))
     \<and> (\<forall>x \<in> set (I sid).
          action_entry a (sid, act_id x) \<in> {Some AInflight, Some ACancellationRequested}))"

lemma public_okD:
  assumes "public_ok a Q I"
  shows "action_queue a sid = map act_id (Q sid)" "distinct (map act_id (Q sid))"
    "distinct (map act_id (I sid))" "act_id ` set (Q sid) \<inter> act_id ` set (I sid) = {}"
    "x \<in> set (Q sid) \<Longrightarrow> action_entry a (sid, act_id x) \<in> {Some APending, Some ACancelled}"
    "x \<in> set (I sid) \<Longrightarrow>
       action_entry a (sid, act_id x) \<in> {Some AInflight, Some ACancellationRequested}"
    "public_queue.queue_known a sid"
  using assms unfolding public_ok_def public_queue.mirrors_def public_queue.queue_known_def
  by (auto dest!: spec [of _ sid])

text \<open>Anything that keeps the queues and the entries of what is queued or in flight keeps it.\<close>

lemma public_ok_frame:
  assumes ok: "public_ok a Q I" and queue: "action_queue a' = action_queue a"
    and entries: "\<And>sid x. x \<in> set (Q sid) \<Longrightarrow>
        action_entry a' (sid, act_id x) \<in> {Some APending, Some ACancelled}"
      "\<And>sid x. x \<in> set (I sid) \<Longrightarrow>
        action_entry a' (sid, act_id x) \<in> {Some AInflight, Some ACancellationRequested}"
  shows "public_ok a' Q I"
  unfolding public_ok_def public_queue.mirrors_def public_queue.queue_known_def queue
  using public_okD [OF ok] entries by (auto simp: image_iff)

lemma public_ok_inflight_subset:
  "public_ok a Q I \<Longrightarrow> distinct (map act_id J) \<Longrightarrow> set J \<subseteq> set (I sid) \<Longrightarrow> public_ok a Q (I(sid := J))"
  unfolding public_ok_def by (auto simp: image_iff) blast+

lemma public_ok_prune: "public_ok a Q I \<Longrightarrow> public_ok (action_prune a) Q I"
proof (rule public_ok_frame)
  fix sid x assume ok: "public_ok a Q I"
  note facts = public_okD [OF ok, where sid = sid]
  {
    assume x: "x \<in> set (Q sid)"
    then have "act_id x \<in> set (action_queue a sid)" by (simp add: facts (1))
    then show "action_entry (action_prune a) (sid, act_id x) \<in> {Some APending, Some ACancelled}"
      using facts (5) [OF x] action_prune_entry [of a "(sid, act_id x)"] by auto
  next
    assume x: "x \<in> set (I sid)"
    then show "action_entry (action_prune a) (sid, act_id x)
        \<in> {Some AInflight, Some ACancellationRequested}"
      using facts (6) [OF x] action_prune_entry [of a "(sid, act_id x)"] by auto
  }
qed (simp_all add: action_prune_queue)

lemma public_ok_enqueue:
  assumes ok: "public_ok a Q I" and c: "0 < c"
    and fresh: "act_id x \<notin> act_id ` set (Q sid)" "act_id x \<notin> act_id ` set (I sid)"
  shows "public_ok (action_enqueued a sid x c) (Q(sid := push_bounded (Q sid) x c)) I"
proof -
  note facts = public_okD [OF ok]
  have known: "public_queue.queue_known a s" for s by (rule facts (7))
  have new: "act_id x \<notin> set (action_queue a sid)" using fresh by (simp add: facts (1))
  have "public_queue.mirrors (action_enqueued a sid x c) s ((Q(sid := push_bounded (Q sid) x c)) s)" for s
    using ok by (auto simp: public_ok_def public_queue.mirrors_enqueued public_queue.mirrors_other)
  moreover have "public_queue.queue_known (action_enqueued a sid x c) s" for s
    by (rule public_queue.queue_known_enqueued [OF known c new])
  moreover have "distinct (map act_id ((Q(sid := push_bounded (Q sid) x c)) s @ I s))" for s
  proof -
    have "distinct (map act_id (push_bounded (Q sid) x c))"
      using facts (2) [of sid] fresh
      by (simp add: push_bounded_eq drop_map [symmetric] distinct_drop del: drop_append)
    moreover have "act_id ` set (push_bounded (Q sid) x c) \<inter> act_id ` set (I sid) = {}"
      using facts (4) [of sid] fresh set_push_bounded [of "Q sid" x c] by blast
    ultimately show ?thesis using facts (2,3,4) by simp
  qed
  moreover have "action_entry (action_enqueued a sid x c) (s, act_id y)
      \<in> {Some AInflight, Some ACancellationRequested}" if y: "y \<in> set (I s)" for s y
  proof -
    have "(s, act_id y) \<noteq> (sid, act_id x)" using y fresh by (metis image_eqI Pair_inject)
    from public_queue.enqueued_keeps [OF refl _ known new this] facts (6) [OF y]
    show ?thesis by auto
  qed
  ultimately show ?thesis unfolding public_ok_def by blast
qed

section \<open>Taking\<close>

text \<open>What is taken is delivered when it was pending and consumed when it was cancelled.\<close>

lemma sort_taken_actions_spec:
  assumes "sort_taken_actions sid xs a = (deliver, consume, a')" "distinct (map act_id xs)"
  shows "deliver = filter (\<lambda>x. action_entry a (sid, act_id x) = Some APending) xs
    \<and> consume = map act_id (filter (\<lambda>x. action_entry a (sid, act_id x) \<noteq> Some APending) xs)
    \<and> action_queue a' = action_queue (public_queue.removes sid (map act_id xs) a)
    \<and> (\<forall>key. action_entry a' key = (if fst key = sid \<and> snd key \<in> act_id ` set deliver
         then Some AInflight else action_entry a key))"
  using assms
proof (induction xs arbitrary: a deliver consume a')
  case (Cons x xs)
  define a1 where "a1 = action_remove_queued a sid (act_id x)"
  define a2 where "a2 = (if action_state_is a1 (sid, act_id x) APending
    then action_set_state a1 (sid, act_id x) AInflight else a1)"
  obtain d c where rec: "sort_taken_actions sid xs a2 = (d, c, a')"
    using Cons.prems (1) by (auto simp: Let_def a1_def [symmetric] a2_def split: if_splits prod.splits)
  have a1: "action_entry a1 = action_entry a"
    by (simp add: a1_def public_queue.remove_entry)
  have pend: "action_state_is a1 (sid, act_id x) APending = (action_entry a (sid, act_id x) = Some APending)"
    by (simp add: a1 [symmetric]) (auto simp: action_state_is_def action_entry_def split: option.splits)
  have a2: "action_entry a2 key = (if key = (sid, act_id x) \<and> action_entry a key = Some APending
      then Some AInflight else action_entry a key)" for key
  proof -
    have "action_entry (action_set_state a1 (sid, act_id x) AInflight) key
      = (if key = (sid, act_id x) \<and> action_entry a key \<noteq> None then Some AInflight else action_entry a key)"
      unfolding a1 [symmetric] by (auto simp: action_set_state_def action_entry_def)
    then show ?thesis by (auto simp: a2_def pend a1)
  qed
  have q2: "action_queue a2 = action_queue a1"
    by (simp add: a2_def action_set_state_def action_queue_def fun_eq_iff)
  have removes: "action_queue (public_queue.removes sid is a2) = action_queue (public_queue.removes sid is a1)" for "is"
    using q2 by (induction "is" arbitrary: a1 a2)
      (simp_all add: public_queue.remove_queue)
  have out: "deliver = (if action_entry a (sid, act_id x) = Some APending then x # d else d)"
    "consume = (if action_entry a (sid, act_id x) = Some APending then c else act_id x # c)"
    using Cons.prems (1) rec
    by (auto simp: Let_def a1_def [symmetric] a2_def pend split: if_splits prod.splits)
  have other: "y \<in> set xs \<Longrightarrow> action_entry a2 (sid, act_id y) = action_entry a (sid, act_id y)" for y
    using Cons.prems (2) by (auto simp: a2 image_iff)
  from Cons.IH [OF rec] Cons.prems (2)
  have "d = filter (\<lambda>x. action_entry a (sid, act_id x) = Some APending) xs"
    "c = map act_id (filter (\<lambda>x. action_entry a (sid, act_id x) \<noteq> Some APending) xs)"
    "action_queue a' = action_queue (public_queue.removes sid (map act_id xs) a1)"
    "\<forall>key. action_entry a' key = (if fst key = sid \<and> snd key \<in> act_id ` set d
         then Some AInflight else action_entry a2 key)"
    using other by (auto simp: removes cong: filter_cong)
  with out show ?case by (auto simp: a1_def a2)
qed simp

text \<open>Consumed actions are taken back out of the in-flight deque.\<close>

lemma session_discarded:
  fixes i :: uuid
  assumes "distinct (map act_id (inflight b sid))"
  defines "b' \<equiv> snd (base_discard_public_action b sid i)"
  shows "queued b' = queued b"
    "inflight b' = (inflight b)(sid := filter (\<lambda>x. act_id x \<noteq> i) (inflight b sid))"
proof -
  have id: "find (\<lambda>x. act_id x = i) (inflight b sid) = None \<Longrightarrow>
      filter (\<lambda>x. act_id x \<noteq> i) (inflight b sid) = inflight b sid"
    by (auto simp: find_None_iff filter_id_conv)
  show "queued b' = queued b"
    by (auto simp: b'_def base_discard_public_action_def queued_put queued_same split: option.splits)
  show "inflight b' = (inflight b)(sid := filter (\<lambda>x. act_id x \<noteq> i) (inflight b sid))"
  proof (cases "bb_sessions b sid")
    case None
    then show ?thesis
      by (auto simp: b'_def base_discard_public_action_def inflight_def session_or_default_def)
  next
    case (Some st)
    then have st: "inflight b sid = sb_inflight st"
      by (simp add: inflight_def session_or_default_Some)
    with Some id take_first_by_id [OF assms (1) [unfolded st], of i] show ?thesis
      by (auto simp: b'_def base_discard_public_action_def inflight_put split: option.splits)
  qed
qed

lemma session_discarded_all:
  fixes ids :: "uuid list"
  assumes "distinct (map act_id (inflight b sid))"
  defines "b' \<equiv> fold (\<lambda>i base. snd (base_discard_public_action base sid i)) ids b"
  shows "queued b' = queued b"
    "inflight b' = (inflight b)(sid := filter (\<lambda>x. act_id x \<notin> set ids) (inflight b sid))"
proof -
  have "queued (fold (\<lambda>i base. snd (base_discard_public_action base sid i)) ids b) = queued b
    \<and> inflight (fold (\<lambda>i base. snd (base_discard_public_action base sid i)) ids b)
      = (inflight b)(sid := filter (\<lambda>x. act_id x \<notin> set ids) (inflight b sid))"
    using assms (1)
  proof (induction ids arbitrary: b)
    case (Cons i ids)
    note one = session_discarded [OF Cons.prems, of i]
    have "distinct (map act_id (inflight (snd (base_discard_public_action b sid i)) sid))"
      using Cons.prems by (simp add: one distinct_map_filter')
    from Cons.IH [OF this] show ?case
      by (simp add: one) (auto simp: fun_eq_iff intro: filter_cong)
  qed simp
  then show "queued b' = queued b"
    "inflight b' = (inflight b)(sid := filter (\<lambda>x. act_id x \<notin> set ids) (inflight b sid))"
    by (simp_all add: b'_def)
qed

lemma base_take_public_spec:
  assumes "base_take_public_actions b sid limit now = (taken, b')"
  shows "taken = take limit (queued b sid)"
    "queued b' = (queued b)(sid := drop limit (queued b sid))"
    "inflight b' = (inflight b)(sid := (if taken = [] then inflight b sid
       else kept (bb_action_capacity b) (inflight b sid @ taken)))"
    "bb_action_capacity b' = bb_action_capacity b"
proof -
  have *: "taken = take limit (queued b sid)
    \<and> queued b' = (queued b)(sid := drop limit (queued b sid))
    \<and> inflight b' = (inflight b)(sid := (if taken = [] then inflight b sid
         else kept (bb_action_capacity b) (inflight b sid @ taken)))
    \<and> bb_action_capacity b' = bb_action_capacity b"
  proof (cases "bb_sessions b sid")
    case None
    with assms have "taken = []" "b' = b" "queued b sid = []"
      by (simp_all add: base_take_public_actions_def queued_def session_or_default_None)
    then show ?thesis by (simp add: fun_eq_iff)
  next
    case (Some st)
    then have st: "queued b sid = sb_actions st" "inflight b sid = sb_inflight st"
      by (simp_all add: queued_def inflight_def session_or_default_Some)
    have "take (min limit (length xs)) xs = take limit xs" "drop (min limit (length xs)) xs = drop limit xs"
      for xs :: "bridge_action list" by (simp_all add: min_def)
    with Some assms show ?thesis
      by (auto simp: base_take_public_actions_def drain_actions_def Let_def fold_push_bounded
          queued_put inflight_put st simp del: take_eq_Nil)
  qed
  then show "taken = take limit (queued b sid)"
    "queued b' = (queued b)(sid := drop limit (queued b sid))"
    "inflight b' = (inflight b)(sid := (if taken = [] then inflight b sid
       else kept (bb_action_capacity b) (inflight b sid @ taken)))"
    "bb_action_capacity b' = bb_action_capacity b" by blast+
qed

text \<open>What a take returns, and what it leaves.\<close>

definition deliverable :: "action_authority \<Rightarrow> session_id \<Rightarrow> bridge_action \<Rightarrow> bool" where
  "deliverable a sid x \<longleftrightarrow> action_entry a (sid, act_id x) = Some APending"

definition delivery_ok :: "cancellable_bridge \<Rightarrow> bool" where
  "delivery_ok b \<longleftrightarrow> bb_action_capacity (cb_base b) = cb_action_capacity b
     \<and> 0 < cb_action_capacity b
     \<and> public_ok (cb_actions b) (queued (cb_base b)) (inflight (cb_base b))"

lemma fold_discard_capacity: "bb_action_capacity
    (fold (\<lambda>i base. snd (base_discard_public_action base sid i)) ids b) = bb_action_capacity b"
  by (induction ids arbitrary: b)
    (auto simp: base_discard_public_action_def split: option.splits)

lemma public_ok_take:
  assumes ok: "public_ok a Q I"
    and queue: "action_queue a' = (action_queue a)(sid := map act_id (drop n (Q sid)))"
    and entries: "\<And>key. action_entry a' key = (if fst key = sid \<and> snd key \<in> act_id ` set deliver
      then Some AInflight else action_entry a key)"
    and deliver: "set deliver \<subseteq> set (take n (Q sid))"
    and K: "distinct (map act_id K)" "set K \<subseteq> set (I sid) \<union> set deliver"
  shows "public_ok a' (Q(sid := drop n (Q sid))) (I(sid := K))"
  unfolding public_ok_def public_queue.mirrors_def public_queue.queue_known_def
proof (intro allI conjI ballI)
  note facts = public_okD [OF ok]
  have split: "act_id ` set (drop n (Q sid)) \<inter> act_id ` set (take n (Q sid)) = {}"
    using facts (2) [of sid] set_take_disj_set_drop_if_distinct [of "map act_id (Q sid)" n n]
    by (simp add: take_map drop_map Int_commute)
  fix s
  show "action_queue a' s = map act_id ((Q(sid := drop n (Q sid))) s)"
    by (simp add: queue facts (1))
  show "distinct (action_queue a' s)"
    using facts (2) [of s] facts (2) [of sid] by (simp add: queue facts (1) drop_map [symmetric])
  have "distinct (map act_id (drop n (Q sid)))"
    using facts (2) [of sid] by (simp add: drop_map [symmetric])
  moreover have "act_id ` set (drop n (Q sid)) \<inter> act_id ` set K = {}"
  proof -
    have "act_id ` set (drop n (Q sid)) \<subseteq> act_id ` set (Q sid)"
      by (intro image_mono set_drop_subset)
    moreover have "act_id ` set K \<subseteq> act_id ` set (I sid) \<union> act_id ` set (take n (Q sid))"
      unfolding image_Un [symmetric] by (rule image_mono) (use K (2) deliver in blast)
    ultimately show ?thesis using facts (4) [of sid] split by blast
  qed
  ultimately show "distinct (map act_id ((Q(sid := drop n (Q sid))) s @ (I(sid := K)) s))"
    using K (1) facts (2,3,4) [of s] by simp
  {
    fix i assume "i \<in> set (action_queue a' s)"
    then obtain x where x: "i = act_id x" "x \<in> set (Q s)" "s = sid \<Longrightarrow> x \<in> set (drop n (Q sid))"
      by (auto simp: queue facts (1) split: if_splits dest: in_set_dropD)
    have "\<not> (s = sid \<and> act_id x \<in> act_id ` set deliver)"
      using x (3) split deliver by blast
    then show "action_entry a' (s, i) \<in> {Some APending, Some ACancelled}"
      using facts (5) [OF x(2)] by (simp add: entries x (1))
  next
    fix x assume x: "x \<in> set ((I(sid := K)) s)"
    show "action_entry a' (s, act_id x) \<in> {Some AInflight, Some ACancellationRequested}"
    proof (cases "s = sid")
      case True
      then have "x \<in> set (I sid) \<or> x \<in> set deliver" using x K (2) by auto
      with True show ?thesis using facts (6) [of x sid] by (auto simp: entries)
    next
      case False
      with x facts (6) [of x s] show ?thesis by (simp add: entries)
    qed
  }
qed

lemma take_public_actions_ok:
  assumes ok: "delivery_ok b" and call: "take_public_actions b sid limit now = (out, b')"
  defines "Q \<equiv> queued (cb_base b)" and "I \<equiv> inflight (cb_base b)" and "a \<equiv> cb_actions b"
  shows "delivery_ok b'"
    and "out = filter (deliverable a sid) (take limit (Q sid))"
    and "\<And>key. action_entry (cb_actions b') key = (if fst key = sid \<and> snd key \<in> act_id ` set out
      then Some AInflight else action_entry a key)
      \<or> action_entry a key = Some ACancelled \<and> action_entry (cb_actions b') key = None"
    and "inflight (cb_base b') = I(sid := inflight (cb_base b') sid)"
    and "set (inflight (cb_base b') sid) \<subseteq> set (I sid) \<union> set out"
    and "cb_native b' = cb_native b" "cb_action_capacity b' = cb_action_capacity b"
    and "queued (cb_base b') = Q(sid := drop limit (Q sid))"
proof -
  obtain taken base where base: "base_take_public_actions (cb_base b) sid limit now = (taken, base)"
    by force
  obtain deliver consume a' where sort: "sort_taken_actions sid taken a = (deliver, consume, a')"
    by (metis prod_cases3)
  have b': "b' = b\<lparr>cb_base := fold (\<lambda>i base. snd (base_discard_public_action base sid i)) consume base,
      cb_actions := action_prune a'\<rparr>" and out: "out = deliver"
    using call base sort by (simp_all add: take_public_actions_def a_def)
  have pub: "public_ok a Q I" and c: "0 < cb_action_capacity b"
    "bb_action_capacity (cb_base b) = cb_action_capacity b"
    using ok by (simp_all add: delivery_ok_def Q_def I_def a_def)
  note facts = public_okD [OF pub]
  note took = base_take_public_spec [OF base, folded Q_def I_def]
  have dtake: "distinct (map act_id taken)"
    using facts (2) [of sid] by (simp add: took (1) take_map [symmetric] distinct_take)
  note sorted = sort_taken_actions_spec [OF sort dtake]
  define J where "J = (if taken = [] then I sid else kept (bb_action_capacity (cb_base b)) (I sid @ taken))"
  have sub: "set J \<subseteq> set (I sid) \<union> set taken"
    using set_kept [of _ "I sid @ taken"] by (auto simp: J_def)
  have dJ: "distinct (map act_id J)"
  proof -
    have "act_id ` set taken \<subseteq> act_id ` set (Q sid)"
      unfolding took (1) by (intro image_mono set_take_subset)
    then have "distinct (map act_id (I sid @ taken))"
      using facts (3,4) [of sid] dtake by auto
    then show ?thesis by (simp add: J_def kept_def drop_map [symmetric] distinct_drop del: drop_append)
  qed
  have J: "inflight base sid = J" by (simp add: took J_def)
  define K where "K = filter (\<lambda>x. act_id x \<notin> set consume) J"
  have base': "queued (cb_base b') = Q(sid := drop limit (Q sid))"
    "inflight (cb_base b') = I(sid := K)"
    using session_discarded_all [of base sid consume] dJ J by (auto simp: b' took K_def)
  have KJ: "x \<in> set K \<Longrightarrow> x \<in> set (I sid) \<or> x \<in> set deliver" for x
    using sub sorted by (auto simp: K_def)
  have queue': "action_queue a' = (action_queue a)(sid := map act_id (drop limit (Q sid)))"
    using sorted public_queue.mirrors_drained [of a sid "Q sid" limit] pub
    by (simp add: took (1) public_ok_def)
  have pub': "public_ok a' (Q(sid := drop limit (Q sid))) (I(sid := K))"
    by (rule public_ok_take [OF pub queue', where deliver = deliver])
      (use sorted KJ dJ in \<open>auto simp: took (1) K_def distinct_map_filter'\<close>)
  show "delivery_ok b'"
    using public_ok_prune [OF pub'] c base'
    by (simp add: delivery_ok_def b' took fold_discard_capacity)
  show "out = filter (deliverable a sid) (take limit (Q sid))"
    using sorted by (simp add: out took (1) deliverable_def [abs_def])
  show "action_entry (cb_actions b') key = (if fst key = sid \<and> snd key \<in> act_id ` set out
      then Some AInflight else action_entry a key)
      \<or> action_entry a key = Some ACancelled \<and> action_entry (cb_actions b') key = None" for key
    using action_prune_entry [of a' key] sorted by (auto simp: b' out split: if_splits)
  show "inflight (cb_base b') = I(sid := inflight (cb_base b') sid)" by (simp add: base')
  show "set (inflight (cb_base b') sid) \<subseteq> set (I sid) \<union> set out"
    using KJ by (auto simp: base' out)
  show "cb_native b' = cb_native b" "cb_action_capacity b' = cb_action_capacity b"
    by (simp_all add: b')
  show "queued (cb_base b') = Q(sid := drop limit (Q sid))" by (rule base' (1))
qed

section \<open>The moves of a public action\<close>

text \<open>
  The lifecycle as the code moves it: taken, asked to cancel, cancelled, forgotten. Only
  enqueueing leads to the pending state.
\<close>

fun lifecycle_edge :: "action_lifecycle option \<Rightarrow> action_lifecycle option \<Rightarrow> bool" where
  "lifecycle_edge _ None = True"
| "lifecycle_edge None (Some t) = False"
| "lifecycle_edge (Some APending) (Some t) = (t \<in> {APending, AInflight, ACancelled})"
| "lifecycle_edge (Some AInflight) (Some t) = (t \<in> {AInflight, ACancellationRequested})"
| "lifecycle_edge (Some ACancellationRequested) (Some t) = (t \<in> {ACancellationRequested, ACancelled})"
| "lifecycle_edge (Some ACancelled) (Some t) = (t = ACancelled)"

lemma lifecycle_edge_refl [simp]: "lifecycle_edge s s"
  by (cases s; cases "the s") auto

definition public_moves :: "(session_id \<times> uuid) set \<Rightarrow> cancellable_bridge \<Rightarrow> cancellable_bridge \<Rightarrow> bool" where
  "public_moves E b b' \<longleftrightarrow> delivery_ok b'
     \<and> (\<forall>key. key \<notin> E \<longrightarrow>
          lifecycle_edge (action_entry (cb_actions b) key) (action_entry (cb_actions b') key))"

lemma public_moves_same:
  assumes "delivery_ok b" "cb_actions b' = cb_actions b" "cb_action_capacity b' = cb_action_capacity b"
    "bb_action_capacity (cb_base b') = bb_action_capacity (cb_base b)"
    "queued (cb_base b') = queued (cb_base b)" "inflight (cb_base b') = inflight (cb_base b)"
  shows "public_moves E b b'"
  using assms by (simp add: public_moves_def delivery_ok_def)

lemma delivery_okD:
  "delivery_ok b \<Longrightarrow> public_ok (cb_actions b) (queued (cb_base b)) (inflight (cb_base b))"
  "delivery_ok b \<Longrightarrow> 0 < cb_action_capacity b"
  "delivery_ok b \<Longrightarrow> bb_action_capacity (cb_base b) = cb_action_capacity b"
  by (simp_all add: delivery_ok_def)

lemma take_public_actions_moves:
  assumes "delivery_ok b"
  shows "public_moves {} b (snd (take_public_actions b sid limit now))"
proof -
  obtain out b' where call: "take_public_actions b sid limit now = (out, b')" by force
  note spec = take_public_actions_ok [OF assms call]
  have "lifecycle_edge (action_entry (cb_actions b) key) (action_entry (cb_actions b') key)" for key
  proof -
    have "fst key = sid \<and> snd key \<in> act_id ` set out \<longrightarrow> action_entry (cb_actions b) key = Some APending"
      by (auto simp: spec (2) deliverable_def) (metis prod.collapse)
    with spec (3) [of key] show ?thesis by (auto split: if_splits)
  qed
  with spec (1) call show ?thesis by (simp add: public_moves_def)
qed

lemma enqueue_moves:
  assumes ok: "delivery_ok b" and fresh: "act_id x \<notin> act_id ` set (queued (cb_base b) sid)"
      "act_id x \<notin> act_id ` set (inflight (cb_base b) sid)"
    and b': "cb_actions b' = action_enqueued (cb_actions b) sid x (cb_action_capacity b)"
      "cb_action_capacity b' = cb_action_capacity b"
      "bb_action_capacity (cb_base b') = bb_action_capacity (cb_base b)"
      "queued (cb_base b') = (queued (cb_base b))
         (sid := push_bounded (queued (cb_base b) sid) x (cb_action_capacity b))"
      "inflight (cb_base b') = inflight (cb_base b)"
  shows "public_moves {(sid, act_id x)} b b'"
proof -
  note pub = delivery_okD (1) [OF ok]
  have new: "act_id x \<notin> set (action_queue (cb_actions b) sid)" "distinct (action_queue (cb_actions b) sid)"
    using fresh public_okD (1,2) [OF pub, of sid] by simp_all
  have "lifecycle_edge (action_entry (cb_actions b) key) (action_entry (cb_actions b') key)"
    if "key \<noteq> (sid, act_id x)" for key
    using public_queue.enqueued_entry [OF that new(2) new(1), of "cb_action_capacity b"]
    by (auto simp: b')
  with ok public_ok_enqueue [OF pub _ fresh] b' show ?thesis
    by (simp add: public_moves_def delivery_ok_def)
qed

lemma enqueue_action_moves:
  assumes ok: "delivery_ok b" and fresh: "action_entry (cb_actions b) (sid, i) = None"
  shows "public_moves {(sid, i)} b (snd (enqueue_action b sid reference kind i now))"
proof (cases "is_internal_capture_action kind")
  case True
  then show ?thesis
    by (intro public_moves_same [OF ok])
      (auto simp: enqueue_action_def base_enqueue_action_def Let_def queued_put inflight_put fun_eq_iff,
       simp_all add: queued_def inflight_def)
next
  case False
  have unused: "i \<notin> act_id ` set (queued (cb_base b) sid)" "i \<notin> act_id ` set (inflight (cb_base b) sid)"
    using fresh public_okD (5,6) [OF delivery_okD (1) [OF ok]] by fastforce+
  define x where "x = \<lparr>act_id = i, act_session_id = sid, act_reference = reference,
    act_action = kind, act_created_at = now\<rparr>"
  have "public_moves {(sid, act_id x)} b (snd (enqueue_action b sid reference kind i now))"
    using False unused by (intro enqueue_moves [OF ok])
      (auto simp: enqueue_action_def base_enqueue_action_def Let_def queued_put inflight_put x_def
        action_enqueued_self delivery_okD (3) [OF ok] fun_eq_iff queued_def inflight_def)
  then show ?thesis by (simp add: x_def)
qed

lemma enqueue_prebound_moves:
  assumes ok: "delivery_ok b"
  shows "public_moves {(act_session_id x, act_id x)} b (snd (enqueue_prebound_public_action b x))"
proof -
  define st where "st = session_or_default (cb_base b) (act_session_id x)"
  have same: "queued (put_session (cb_base b) (act_session_id x) st) = queued (cb_base b)"
    "inflight (put_session (cb_base b) (act_session_id x) st) = inflight (cb_base b)"
    by (simp_all add: queued_put inflight_put st_def) (simp_all add: queued_def inflight_def fun_eq_iff)
  show ?thesis
  proof (cases "is_internal_capture_action (act_action x) \<or> action_id_seen st (act_id x)
      \<or> bb_action_capacity (cb_base b) \<le> length (sb_actions st)")
    case True
    with same show ?thesis
      by (intro public_moves_same [OF ok]) (auto simp: enqueue_prebound_public_action_def
          base_enqueue_prebound_public_action_def Let_def st_def [symmetric])
  next
    case False
    then have room: "length (sb_actions st) < cb_action_capacity b"
      using ok by (simp add: delivery_ok_def)
    from False have "act_id x \<notin> act_id ` set (queued (cb_base b) (act_session_id x))"
      "act_id x \<notin> act_id ` set (inflight (cb_base b) (act_session_id x))"
      by (auto simp: action_id_seen_def list_ex_iff queued_def inflight_def st_def)
    then show ?thesis
      using False room by (intro enqueue_moves [OF ok]) (auto simp: enqueue_prebound_public_action_def
          base_enqueue_prebound_public_action_def Let_def st_def [symmetric] queued_put inflight_put
          action_enqueued_self push_bounded_is_kept kept_short queued_def inflight_def fun_eq_iff)
  qed
qed

section \<open>Claiming, cancelling, discarding\<close>

text \<open>
  \<open>claim_action\<close> looks for an internal capture first, so it relies on capture actions and
  public actions having different ids: no capture action has a lifecycle entry.
\<close>

definition capture_ids :: "base_bridge \<Rightarrow> session_id \<Rightarrow> uuid set" where
  "capture_ids b sid = act_id ` (set (sb_capture_actions (session_or_default b sid))
     \<union> set (sb_capture_inflight (session_or_default b sid)))"

lemma capture_ids_put: "capture_ids (put_session b sid st) = (capture_ids b)
    (sid := act_id ` (set (sb_capture_actions st) \<union> set (sb_capture_inflight st)))"
  by (simp add: capture_ids_def fun_eq_iff)

lemma capture_ids_same: "bb_sessions b sid = Some st \<Longrightarrow>
    (capture_ids b)(sid := act_id ` (set (sb_capture_actions st) \<union> set (sb_capture_inflight st)))
    = capture_ids b"
  by (simp add: fun_eq_iff capture_ids_def session_or_default_Some)

definition captures_ok :: "cancellable_bridge \<Rightarrow> bool" where
  "captures_ok b \<longleftrightarrow> (\<forall>sid. \<forall>i \<in> capture_ids (cb_base b) sid. action_entry (cb_actions b) (sid, i) = None)"

lemma captures_ok_step:
  assumes "captures_ok b" "public_moves E b b'"
    and "\<And>sid i. i \<in> capture_ids (cb_base b') sid \<Longrightarrow> (sid, i) \<notin> E
      \<and> (i \<in> capture_ids (cb_base b) sid \<or> action_entry (cb_actions b) (sid, i) = None)"
  shows "captures_ok b'"
  unfolding captures_ok_def
proof (intro allI ballI)
  fix sid i assume i: "i \<in> capture_ids (cb_base b') sid"
  from assms (3) [OF i] assms (1) have none: "action_entry (cb_actions b) (sid, i) = None"
    by (auto simp: captures_ok_def)
  from assms (3) [OF i] assms (2) have "lifecycle_edge None (action_entry (cb_actions b') (sid, i))"
    unfolding none [symmetric] by (simp add: public_moves_def)
  then show "action_entry (cb_actions b') (sid, i) = None"
    by (cases "action_entry (cb_actions b') (sid, i)") auto
qed

lemma action_remove_spec:
  "action_entry (action_remove a key) k = (if k = key then None else action_entry a k)"
  "action_queue (action_remove a key) = (action_queue a)(fst key := remove1 (snd key) (action_queue a (fst key)))"
proof -
  show "action_entry (action_remove a key) k = (if k = key then None else action_entry a k)"
    by (simp add: action_remove_def action_entry_def action_remove_queued_entries)
  have "action_queue (a\<lparr>ac_entries := e\<rparr>) = action_queue a" for e
    by (simp add: action_queue_def fun_eq_iff)
  then show "action_queue (action_remove a key)
      = (action_queue a)(fst key := remove1 (snd key) (action_queue a (fst key)))"
    by (simp add: action_remove_def action_remove_queued_queue)
qed

text \<open>What the base bridge claims.\<close>

lemma base_claim_public:
  assumes call: "base_claim_action b sid i = (claimed, b')"
    and dist: "distinct (map act_id (inflight b sid))" and nocap: "i \<notin> capture_ids b sid"
  shows "claimed = find (\<lambda>x. act_id x = i) (inflight b sid)"
    "queued b' = queued b"
    "inflight b' = (inflight b)(sid := filter (\<lambda>x. act_id x \<noteq> i) (inflight b sid))"
    "capture_ids b' = capture_ids b" "bb_action_capacity b' = bb_action_capacity b"
proof -
  have id: "find (\<lambda>x. act_id x = i) (inflight b sid) = None \<Longrightarrow>
      filter (\<lambda>x. act_id x \<noteq> i) (inflight b sid) = inflight b sid"
    by (auto simp: find_None_iff filter_id_conv)
  have "claimed = find (\<lambda>x. act_id x = i) (inflight b sid) \<and> queued b' = queued b
    \<and> inflight b' = (inflight b)(sid := filter (\<lambda>x. act_id x \<noteq> i) (inflight b sid))
    \<and> capture_ids b' = capture_ids b \<and> bb_action_capacity b' = bb_action_capacity b"
  proof (cases "bb_sessions b sid")
    case None
    with call have "claimed = None" "b' = b" by (simp_all add: base_claim_action_def)
    moreover have "inflight b sid = []" using None by (simp add: inflight_def session_or_default_None)
    ultimately show ?thesis by (simp add: fun_eq_iff)
  next
    case (Some st)
    then have st: "inflight b sid = sb_inflight st" by (simp add: inflight_def session_or_default_Some)
    have "take_first (\<lambda>a. act_id a = i) (sb_capture_inflight st) = None"
      using nocap Some by (auto simp: take_first_None capture_ids_def session_or_default_Some)
    with call Some take_first_by_id [OF dist [unfolded st], of i] id show ?thesis
      by (auto simp: base_claim_action_def claim_from_scope_def inflight_put queued_put st queued_same
          inflight_same capture_ids_put capture_ids_same split: option.splits)
  qed
  then show "claimed = find (\<lambda>x. act_id x = i) (inflight b sid)" "queued b' = queued b"
    "inflight b' = (inflight b)(sid := filter (\<lambda>x. act_id x \<noteq> i) (inflight b sid))"
    "capture_ids b' = capture_ids b" "bb_action_capacity b' = bb_action_capacity b" by blast+
qed

lemma base_claim_capture:
  assumes call: "base_claim_action b sid i = (claimed, b')" and no: "i \<notin> act_id ` set (inflight b sid)"
  shows "queued b' = queued b \<and> inflight b' = inflight b \<and> capture_ids b' s \<subseteq> capture_ids b s
    \<and> bb_action_capacity b' = bb_action_capacity b"
proof (cases "bb_sessions b sid")
  case (Some st)
  then have "take_first (\<lambda>a. act_id a = i) (sb_inflight st) = None"
    using no by (auto simp: take_first_None inflight_def session_or_default_Some)
  with call Some show ?thesis
    by (auto simp: base_claim_action_def claim_from_scope_def inflight_put queued_put queued_same
        inflight_same capture_ids_def session_or_default_Some dest!: take_first_Some split: option.splits
        if_splits)
qed (use call in \<open>simp add: base_claim_action_def\<close>)

lemma claim_action_moves:
  assumes ok: "delivery_ok b" and cap: "captures_ok b"
  shows "public_moves {} b (snd (claim_action b sid i))
    \<and> capture_ids (cb_base (snd (claim_action b sid i))) s \<subseteq> capture_ids (cb_base b) s"
proof -
  obtain claimed base where call: "base_claim_action (cb_base b) sid i = (claimed, base)" by force
  note pub = delivery_okD (1) [OF ok]
  note facts = public_okD [OF pub]
  show ?thesis
  proof (cases "ac_entries (cb_actions b) (sid, i)")
    case None
    then have "i \<notin> act_id ` set (inflight (cb_base b) sid)"
      using facts (6) [of _ sid] by (fastforce simp: action_entry_def)
    note claim = base_claim_capture [OF call this]
    have "public_moves {} b (b\<lparr>cb_base := base\<rparr>)"
      using claim by (intro public_moves_same [OF ok]) auto
    with None call claim show ?thesis by (auto simp: claim_action_def)
  next
    case (Some entry)
    show ?thesis
    proof (cases "ac_state entry = AInflight")
      case False
      with Some ok show ?thesis by (simp add: claim_action_def public_moves_def)
    next
      case True
      then have e: "action_entry (cb_actions b) (sid, i) = Some AInflight"
        using Some by (simp add: action_entry_def)
      with cap have nocap: "i \<notin> capture_ids (cb_base b) sid" by (auto simp: captures_ok_def)
      note claim = base_claim_public [OF call facts (3) nocap]
      show ?thesis
      proof (cases claimed)
        case None
        then have "filter (\<lambda>x. act_id x \<noteq> i) (inflight (cb_base b) sid) = inflight (cb_base b) sid"
          using claim (1) by (auto simp: find_None_iff filter_id_conv)
        then have "public_moves {} b (b\<lparr>cb_base := base\<rparr>)"
          using claim by (intro public_moves_same [OF ok]) auto
        with None Some True call claim show ?thesis by (simp add: claim_action_def)
      next
        case (Some x)
        let ?I = "filter (\<lambda>x. act_id x \<noteq> i) (inflight (cb_base b) sid)"
        have notq: "i \<notin> act_id ` set (queued (cb_base b) sid)"
          using facts (5) [where sid = sid] e by force
        then have queue: "action_queue (action_remove (cb_actions b) (sid, i)) = action_queue (cb_actions b)"
          by (simp add: action_remove_spec facts (1) remove1_notin fun_eq_iff)
        have "public_ok (cb_actions b) (queued (cb_base b)) ((inflight (cb_base b))(sid := ?I))"
          using facts (3) [of sid] by (intro public_ok_inflight_subset [OF pub])
            (auto simp: distinct_map_filter')
        then have "public_ok (action_remove (cb_actions b) (sid, i)) (queued (cb_base b))
            ((inflight (cb_base b))(sid := ?I))"
          using facts (5) facts (6) e notq by (intro public_ok_frame [OF _ queue])
            (force simp: action_remove_spec split: if_splits)+
        moreover have "claim_action b sid i = (Some x, b\<lparr>cb_base := base,
            cb_actions := action_remove (cb_actions b) (sid, i)\<rparr>)"
          using \<open>ac_entries (cb_actions b) (sid, i) = Some entry\<close> True call Some
          by (simp add: claim_action_def)
        ultimately show ?thesis using claim delivery_okD (2,3) [OF ok]
          by (auto simp: public_moves_def delivery_ok_def action_remove_spec)
      qed
    qed
  qed
qed

lemma public_ok_cancel:
  assumes ok: "public_ok a Q I" and i: "i \<notin> act_id ` set (I sid)"
  shows "public_ok (action_mark_cancelled a (sid, i) t) Q I"
proof (rule public_ok_frame [OF ok public_queue.cancel_queue])
  fix s x
  note facts = public_okD [OF ok]
  {
    assume "x \<in> set (Q s)"
    then have "act_id x \<in> set (action_queue a s)" by (simp add: facts (1))
    with public_queue.queue_known_cancel [OF facts (7), of "(sid, i)" t s]
    show "action_entry (action_mark_cancelled a (sid, i) t) (s, act_id x) \<in> {Some APending, Some ACancelled}"
      by (simp add: public_queue.queue_known_def public_queue.cancel_queue)
  next
    assume x: "x \<in> set (I s)"
    then have "(s, act_id x) \<noteq> (sid, i)" using i by auto
    with facts (6) [OF x] public_queue.cancel_keeps [of a "(s, act_id x)" _ "(sid, i)" t]
    show "action_entry (action_mark_cancelled a (sid, i) t) (s, act_id x)
        \<in> {Some AInflight, Some ACancellationRequested}" by auto
  }
qed

lemma public_ok_release:
  assumes ok: "public_ok a Q I"
  shows "public_ok (action_release_session a sid) (Q(sid := [])) (I(sid := []))"
  unfolding public_ok_def
proof (intro allI conjI ballI)
  fix s
  note facts = public_okD [OF ok, where sid = s]
  show "public_queue.mirrors (action_release_session a sid) s ((Q(sid := [])) s)"
    using facts (1) by (simp add: public_queue.mirrors_def action_release_queue)
  show "public_queue.queue_known (action_release_session a sid) s"
    by (rule public_queue.queue_known_release [OF facts (7)])
  show "distinct (map act_id ((Q(sid := [])) s @ (I(sid := [])) s))"
    using facts (2,3,4) by simp
  fix x assume "x \<in> set ((I(sid := [])) s)"
  then show "action_entry (action_release_session a sid) (s, act_id x)
      \<in> {Some AInflight, Some ACancellationRequested}"
    using facts (6) by (auto simp: action_release_entry split: if_splits)
qed

lemma cancel_edge:
  assumes "action_entry a key \<in> {Some APending, Some ACancellationRequested}"
  shows "lifecycle_edge (action_entry a k) (action_entry (action_mark_cancelled a key t) k)"
  using public_queue.cancel_entry [of a key t k] assms by (auto split: if_splits)

lemma request_action_cancellation_moves:
  assumes ok: "delivery_ok b"
  shows "public_moves {} b (snd (request_action_cancellation b sid i now))"
proof (cases "ac_entries (cb_actions b) (sid, i)")
  case None
  with ok show ?thesis by (simp add: request_action_cancellation_def public_moves_def)
next
  case (Some entry)
  note pub = delivery_okD (1) [OF ok]
  note facts = public_okD [OF pub]
  have e: "action_entry (cb_actions b) (sid, i) = Some (ac_state entry)"
    using Some by (simp add: action_entry_def)
  show ?thesis
  proof (cases "ac_state entry")
    case APending
    with facts (6) [of _ sid] e have "i \<notin> act_id ` set (inflight (cb_base b) sid)" by force
    from public_ok_cancel [OF pub this] cancel_edge [of "cb_actions b" "(sid, i)"] e APending Some
      delivery_okD [OF ok] show ?thesis
      by (simp add: request_action_cancellation_def public_moves_def delivery_ok_def)
  next
    case AInflight
    define a' where "a' = (cb_actions b)\<lparr>ac_entries := (ac_entries (cb_actions b))((sid, i) \<mapsto>
      entry\<lparr>ac_state := ACancellationRequested, ac_cancellation_requested_at := Some now\<rparr>)\<rparr>"
    have entry': "action_entry a' k = (if k = (sid, i) then Some ACancellationRequested
        else action_entry (cb_actions b) k)" for k
      by (simp add: a'_def action_entry_def)
    have queue': "action_queue a' = action_queue (cb_actions b)"
      by (simp add: a'_def action_queue_def fun_eq_iff)
    have "public_ok a' (queued (cb_base b)) (inflight (cb_base b))"
      using facts (5,6) e AInflight by (intro public_ok_frame [OF pub queue']) (fastforce simp: entry')+
    then have "public_moves {} b (b\<lparr>cb_actions := a'\<rparr>)"
      using delivery_okD (2,3) [OF ok] e AInflight by (simp add: public_moves_def delivery_ok_def entry')
    with Some AInflight show ?thesis by (simp add: request_action_cancellation_def Let_def a'_def)
  qed (use ok Some in \<open>simp_all add: request_action_cancellation_def public_moves_def\<close>)
qed

lemma discarded_capture_ids:
  "capture_ids (snd (base_discard_public_action b sid i)) = capture_ids b"
  "bb_action_capacity (snd (base_discard_public_action b sid i)) = bb_action_capacity b"
  by (auto simp: base_discard_public_action_def capture_ids_put capture_ids_same split: option.splits)

lemma acknowledge_action_cancellation_moves:
  assumes ok: "delivery_ok b"
  shows "public_moves {} b (snd (acknowledge_action_cancellation b sid i now))"
proof -
  note pub = delivery_okD (1) [OF ok]
  show ?thesis
  proof (cases "action_entry (cb_actions b) (sid, i) = Some ACancellationRequested")
    case True
    then obtain entry where entry: "ac_entries (cb_actions b) (sid, i) = Some entry"
      "ac_state entry = ACancellationRequested" by (auto simp: action_entry_def)
    note gone = session_discarded [OF public_okD (3) [OF pub], of sid i]
    define t where "t = (case ac_cancellation_requested_at entry of None \<Rightarrow> now | Some at \<Rightarrow> at)"
    have b': "snd (acknowledge_action_cancellation b sid i now) =
      b\<lparr>cb_base := snd (base_discard_public_action (cb_base b) sid i),
        cb_actions := action_mark_cancelled (cb_actions b) (sid, i) t\<rparr>"
      using entry by (simp add: acknowledge_action_cancellation_def t_def)
    have "public_ok (cb_actions b) (queued (cb_base b)) ((inflight (cb_base b))
        (sid := filter (\<lambda>x. act_id x \<noteq> i) (inflight (cb_base b) sid)))"
      using public_okD (3) [OF pub] by (intro public_ok_inflight_subset [OF pub])
        (auto simp: distinct_map_filter')
    moreover have "i \<notin> act_id ` set (filter (\<lambda>x. act_id x \<noteq> i) (inflight (cb_base b) sid))" by auto
    ultimately have "public_ok (action_mark_cancelled (cb_actions b) (sid, i) t) (queued (cb_base b))
        ((inflight (cb_base b))(sid := filter (\<lambda>x. act_id x \<noteq> i) (inflight (cb_base b) sid)))"
      by (intro public_ok_cancel) simp_all
    with gone True cancel_edge [of "cb_actions b" "(sid, i)"]
      delivery_okD (2,3) [OF ok] show ?thesis
      by (simp add: b' public_moves_def delivery_ok_def discarded_capture_ids)
  next
    case False
    then show ?thesis using ok
      by (auto simp: acknowledge_action_cancellation_def action_entry_def public_moves_def
          split: option.splits action_lifecycle.splits)
  qed
qed

lemma discard_public_action_moves:
  assumes ok: "delivery_ok b"
  shows "public_moves {} b (b\<lparr>cb_base := snd (base_discard_public_action (cb_base b) sid i)\<rparr>)"
proof -
  note pub = delivery_okD (1) [OF ok]
  have "public_ok (cb_actions b) (queued (cb_base b)) ((inflight (cb_base b))
      (sid := filter (\<lambda>x. act_id x \<noteq> i) (inflight (cb_base b) sid)))"
    using public_okD (3) [OF pub] by (intro public_ok_inflight_subset [OF pub])
      (auto simp: distinct_map_filter')
  with session_discarded [OF public_okD (3) [OF pub], of sid i] delivery_okD (2,3) [OF ok]
  show ?thesis by (simp add: public_moves_def delivery_ok_def discarded_capture_ids)
qed

lemma released_moves:
  assumes ok: "delivery_ok b" and b': "cb_actions b' = action_release_session (cb_actions b) sid"
      "queued (cb_base b') = (queued (cb_base b))(sid := [])"
      "inflight (cb_base b') = (inflight (cb_base b))(sid := [])"
      "cb_action_capacity b' = cb_action_capacity b"
      "bb_action_capacity (cb_base b') = bb_action_capacity (cb_base b)"
  shows "public_moves {} b b'"
  using public_ok_release [OF delivery_okD (1) [OF ok], of sid] delivery_okD (2,3) [OF ok] b'
  by (auto simp: public_moves_def delivery_ok_def action_release_entry)

lemma discard_public_actions_for_session_moves:
  assumes ok: "delivery_ok b"
  shows "public_moves {} b (snd (discard_public_actions_for_session b sid))"
proof (rule released_moves [OF ok])
  let ?b = "snd (discard_public_actions_for_session b sid)"
  have *: "queued (cb_base ?b) = (queued (cb_base b))(sid := [])
    \<and> inflight (cb_base ?b) = (inflight (cb_base b))(sid := [])"
  proof (cases "bb_sessions (cb_base b) sid")
    case None
    then show ?thesis
      by (auto simp: discard_public_actions_for_session_def base_discard_public_actions_for_session_def
          queued_def inflight_def session_or_default_None fun_eq_iff)
  qed (simp add: discard_public_actions_for_session_def base_discard_public_actions_for_session_def
      queued_put inflight_put)
  then show "queued (cb_base ?b) = (queued (cb_base b))(sid := [])"
    "inflight (cb_base ?b) = (inflight (cb_base b))(sid := [])" by blast+
qed (auto simp: discard_public_actions_for_session_def base_discard_public_actions_for_session_def
    split: option.splits)

lemma release_session_moves:
  "delivery_ok b \<Longrightarrow> public_moves {} b (release_session b sid)"
  by (rule released_moves) (auto simp: release_session_def base_release_session_def queued_def
      inflight_def session_or_default_def fun_eq_iff)

end
