(* ===== verification/Native_Delivery.thy ===== *)
theory Native_Delivery
  imports Public_Delivery
begin

text \<open>
  The delivery of native executor requests. Unlike public actions, requests in flight are
  never evicted, so a request is in flight or claimed exactly when its lifecycle entry says
  so, and a cancellation that was asked for can always be acknowledged.
\<close>

section \<open>The deques of the sessions\<close>

definition waiting :: "base_bridge \<Rightarrow> session_id \<Rightarrow> native_executor_request list" where
  "waiting b sid = sb_native_requests (session_or_default b sid)"

definition active :: "base_bridge \<Rightarrow> session_id \<Rightarrow> native_executor_request list" where
  "active b sid = sb_native_inflight (session_or_default b sid)
     @ sb_native_claimed (session_or_default b sid)"

lemma waiting_put: "waiting (put_session b sid st) = (waiting b)(sid := sb_native_requests st)"
  by (simp add: waiting_def fun_eq_iff)

lemma active_put: "active (put_session b sid st)
    = (active b)(sid := sb_native_inflight st @ sb_native_claimed st)"
  by (simp add: active_def fun_eq_iff)

lemma waiting_same: "bb_sessions b sid = Some st \<Longrightarrow> (waiting b)(sid := sb_native_requests st) = waiting b"
  by (simp add: fun_eq_iff waiting_def session_or_default_Some)

lemma active_same: "bb_sessions b sid = Some st \<Longrightarrow>
    (active b)(sid := sb_native_inflight st @ sb_native_claimed st) = active b"
  by (simp add: fun_eq_iff active_def session_or_default_Some)

section \<open>The invariant\<close>

definition native_ok :: "native_authority \<Rightarrow> (session_id \<Rightarrow> native_executor_request list)
    \<Rightarrow> (session_id \<Rightarrow> native_executor_request list) \<Rightarrow> bool" where
  "native_ok a Q A \<longleftrightarrow> (\<forall>sid. native_request_queue.mirrors a sid (Q sid)
     \<and> native_request_queue.queue_known a sid \<and> distinct (map ner_id (Q sid @ A sid))
     \<and> (\<forall>r \<in> set (Q sid @ A sid). ner_session_id r = sid
          \<and> map_option na_created_at (na_entries a (sid, ner_id r)) = Some (ner_created_at r))
     \<and> (\<forall>i. native_entry a (sid, i) \<in> {Some NInflight, Some NCancellationRequested}
          \<longleftrightarrow> i \<in> ner_id ` set (A sid)))"

lemma native_okD:
  assumes "native_ok a Q A"
  shows "native_queue a sid = map ner_id (Q sid)" "distinct (map ner_id (Q sid))"
    "distinct (map ner_id (A sid))" "ner_id ` set (Q sid) \<inter> ner_id ` set (A sid) = {}"
    "r \<in> set (Q sid) \<Longrightarrow> native_entry a (sid, ner_id r) \<in> {Some NPending, Some NCancelled}"
    "native_entry a (sid, i) \<in> {Some NInflight, Some NCancellationRequested}
       \<longleftrightarrow> i \<in> ner_id ` set (A sid)"
    "native_request_queue.queue_known a sid"
    "r \<in> set (Q sid) \<union> set (A sid) \<Longrightarrow> ner_session_id r = sid
       \<and> map_option na_created_at (na_entries a (sid, ner_id r)) = Some (ner_created_at r)"
  using assms unfolding native_ok_def native_request_queue.mirrors_def native_request_queue.queue_known_def
  by (auto dest!: spec [of _ sid])

text \<open>What the operations keep of the entries that are not theirs.\<close>

definition entries_kept ::
  "(session_id \<times> uuid) set \<Rightarrow> native_authority \<Rightarrow> native_authority \<Rightarrow> bool" where
  "entries_kept E a a' \<longleftrightarrow> (\<forall>key. key \<notin> E \<longrightarrow> na_entries a' key = na_entries a key
     \<or> na_entries a' key = None \<and> snd key \<notin> set (native_queue a' (fst key))
       \<and> native_entry a key \<in> {Some NPending, Some NCancelled})"

lemma entries_keptD:
  assumes "entries_kept E a a'" "key \<notin> E" "snd key \<in> set (native_queue a' (fst key))
      \<or> native_entry a key \<in> {Some NInflight, Some NCancellationRequested}"
  shows "na_entries a' key = na_entries a key"
  using assms (1) [unfolded entries_kept_def, rule_format, OF assms (2)] assms (3) by auto

lemma entries_kept_prune: "entries_kept {} a (native_prune a)"
  unfolding entries_kept_def
proof (intro allI impI)
  fix key
  from native_prune_entries [of a key]
  show "na_entries (native_prune a) key = na_entries a key
      \<or> na_entries (native_prune a) key = None
        \<and> snd key \<notin> set (native_queue (native_prune a) (fst key))
        \<and> native_entry a key \<in> {Some NPending, Some NCancelled}"
    by (auto simp: native_prune_queue)
qed

lemma entries_kept_entry:
  assumes "entries_kept E a a'" "key \<notin> E"
  shows "native_entry a' key = native_entry a key
     \<or> native_entry a' key = None \<and> native_entry a key \<in> {Some NPending, Some NCancelled}"
  using assms (1) [unfolded entries_kept_def, rule_format, OF assms (2)]
  by (auto simp: native_entry_def)

text \<open>
  One session at a time: an operation changes the queue and the active requests of one
  session and the entries of the keys it names.
\<close>

lemma native_ok_step:
  assumes ok: "native_ok a Q A" and kept: "entries_kept E a a'" and E: "E \<subseteq> {sid} \<times> UNIV"
    and queue: "native_queue a' = (native_queue a)(sid := map ner_id q)"
    and here: "distinct (map ner_id (q @ act))"
      "\<And>i. i \<in> ner_id ` set q \<Longrightarrow> native_entry a' (sid, i) \<in> {Some NPending, Some NCancelled}"
      "\<And>r. r \<in> set q \<union> set act \<Longrightarrow> ner_session_id r = sid
        \<and> map_option na_created_at (na_entries a' (sid, ner_id r)) = Some (ner_created_at r)"
      "\<And>i. native_entry a' (sid, i) \<in> {Some NInflight, Some NCancellationRequested}
        \<longleftrightarrow> i \<in> ner_id ` set act"
  shows "native_ok a' (Q(sid := q)) (A(sid := act))"
  unfolding native_ok_def
proof (intro allI conjI)
  fix s
  note facts = native_okD [OF ok, where sid = s]
  have far: "s \<noteq> sid \<Longrightarrow> (s, i) \<notin> E" for i using E by auto
  have queue': "s \<noteq> sid \<Longrightarrow> native_queue a' s = map ner_id (Q s)"
    by (simp add: queue facts (1))
  have same: "s \<noteq> sid \<Longrightarrow> i \<in> ner_id ` set (Q s) \<union> ner_id ` set (A s) \<Longrightarrow>
      na_entries a' (s, i) = na_entries a (s, i)" for i
    using entries_keptD [OF kept far, of i] facts (6) [of i] queue' by auto
  show "native_request_queue.mirrors a' s ((Q(sid := q)) s)"
    using ok by (auto simp: native_request_queue.mirrors_def queue facts (1))
  show "native_request_queue.queue_known a' s"
  proof (cases "s = sid")
    case True
    with here (1,2) show ?thesis by (auto simp: native_request_queue.queue_known_def queue)
  next
    case False
    with facts (5,7) same queue' facts (1) show ?thesis
      by (auto simp: native_request_queue.queue_known_def native_entry_def)
  qed
  show "distinct (map ner_id ((Q(sid := q)) s @ (A(sid := act)) s))"
    using here (1) facts (2,3,4) by simp
  show "\<forall>r \<in> set ((Q(sid := q)) s @ (A(sid := act)) s). ner_session_id r = s
      \<and> map_option na_created_at (na_entries a' (s, ner_id r)) = Some (ner_created_at r)"
    using here (3) facts (8) same by (cases "s = sid") auto
  fix i
  show "native_entry a' (s, i) \<in> {Some NInflight, Some NCancellationRequested}
      \<longleftrightarrow> i \<in> ner_id ` set ((A(sid := act)) s)"
  proof (cases "s = sid")
    case False
    from entries_kept_entry [OF kept far [OF False], of i] False facts (6) [of i]
    show ?thesis by auto
  qed (use here (4) in auto)
qed

section \<open>What the authority's operations keep\<close>

lemma entries_kept_prune_after:
  "entries_kept E a a' \<Longrightarrow> native_queue a' = native_queue a'' \<Longrightarrow>
     (\<And>key. key \<notin> E \<Longrightarrow> na_entries a'' key = na_entries a' key
        \<or> na_entries a'' key = None \<and> snd key \<notin> set (native_queue a' (fst key))
          \<and> native_entry a' key \<in> {Some NPending, Some NCancelled}) \<Longrightarrow> entries_kept E a a''"
  unfolding entries_kept_def native_entry_def by (metis option.map(1) option.distinct(1) insert_iff empty_iff)

lemma native_prune_kept: "entries_kept E a a' \<Longrightarrow> entries_kept E a (native_prune a')"
  by (rule entries_kept_prune_after [where a' = a'])
    (use native_prune_entries [of a'] in \<open>auto simp: native_prune_queue\<close>)

lemma native_prune_here:
  assumes "native_entry a key \<noteq> Some NCancelled \<or> snd key \<in> set (native_queue a (fst key))"
  shows "na_entries (native_prune a) key = na_entries a key"
  using native_prune_entries [of a key] assms by auto

lemma native_enqueued_spec:
  assumes dist: "distinct (native_queue a sid)" and fresh: "ner_id x \<notin> set (native_queue a sid)"
    and c: "0 < c"
  defines "a' \<equiv> native_record_enqueued a sid x c"
  shows "entries_kept {(sid, ner_id x)} a a'"
    and "native_entry a' (sid, ner_id x) = Some NPending"
    and "map_option na_created_at (na_entries a' (sid, ner_id x)) = Some (ner_created_at x)"
    and "native_queue a' = (native_queue a)(sid := push_bounded (native_queue a sid) (ner_id x) c)"
proof -
  obtain m where m: "a' = native_prune m"
    "native_queue m = (native_queue a)(sid := push_bounded (native_queue a sid) (ner_id x) c)"
    "\<And>key. key \<noteq> (sid, ner_id x) \<Longrightarrow> na_entries m key = na_entries a key
      \<or> native_entry a key = Some NPending \<and> na_entries m key = None
        \<and> snd key \<notin> set (native_queue m (fst key))"
    "native_entry m (sid, ner_id x) = Some NPending"
    "map_option na_created_at (na_entries m (sid, ner_id x)) = Some (ner_created_at x)"
    unfolding a'_def using native_record_enqueued_prune [OF dist fresh, of c] c by blast
  have "entries_kept {(sid, ner_id x)} a m"
    unfolding entries_kept_def using m (3) by blast
  then show "entries_kept {(sid, ner_id x)} a a'" unfolding m (1) by (rule native_prune_kept)
  have "na_entries a' (sid, ner_id x) = na_entries m (sid, ner_id x)"
    unfolding m (1) by (rule native_prune_here) (simp add: m (4))
  with m (4,5) show "native_entry a' (sid, ner_id x) = Some NPending"
    "map_option na_created_at (na_entries a' (sid, ner_id x)) = Some (ner_created_at x)"
    by (simp_all add: native_entry_def)
  show "native_queue a' = (native_queue a)(sid := push_bounded (native_queue a sid) (ner_id x) c)"
    by (simp add: m native_prune_queue)
qed

lemma native_cancelled_spec:
  fixes a :: native_authority and t :: timestamp
  assumes some: "native_entry a (sid, i) \<noteq> None"
  defines "a' \<equiv> native_mark_cancelled a (sid, i) t"
  shows "entries_kept {(sid, i)} a a'" and "native_queue a' = native_queue a"
    and "native_entry a' (sid, i) \<in> {Some NCancelled, None}"
    and "i \<in> set (native_queue a sid) \<Longrightarrow> native_entry a' (sid, i) = Some NCancelled
      \<and> map_option na_created_at (na_entries a' (sid, i)) = map_option na_created_at (na_entries a (sid, i))"
proof -
  obtain m where m: "a' = native_prune m" "native_queue m = native_queue a"
    "\<And>k. native_entry m k = (if k = (sid, i) \<and> native_entry a (sid, i) \<noteq> None then Some NCancelled
      else native_entry a k)"
    "\<And>k. k \<noteq> (sid, i) \<Longrightarrow> na_entries m k = na_entries a k"
    "\<And>k. map_option na_created_at (na_entries m k) = map_option na_created_at (na_entries a k)"
    unfolding a'_def using native_mark_cancelled_prune [of a "(sid, i)" t] by blast
  have "entries_kept {(sid, i)} a m"
    unfolding entries_kept_def using m (4) by blast
  then show "entries_kept {(sid, i)} a a'" unfolding m (1) by (rule native_prune_kept)
  show "native_queue a' = native_queue a" by (simp add: m native_prune_queue)
  have mi: "native_entry m (sid, i) = Some NCancelled" using some by (simp add: m (3))
  then show "native_entry a' (sid, i) \<in> {Some NCancelled, None}"
    using native_prune_entry [of m "(sid, i)"] by (auto simp: m (1))
  assume "i \<in> set (native_queue a sid)"
  then have "na_entries a' (sid, i) = na_entries m (sid, i)"
    unfolding m (1) by (intro native_prune_here) (simp add: m (2))
  with mi m (5) show "native_entry a' (sid, i) = Some NCancelled
      \<and> map_option na_created_at (na_entries a' (sid, i)) = map_option na_created_at (na_entries a (sid, i))"
    by (simp add: native_entry_def)
qed

section \<open>Enqueueing, cancelling, claiming\<close>

text \<open>The lifecycle of a request; only enqueueing leads to the pending state.\<close>

fun native_edge :: "native_lifecycle option \<Rightarrow> native_lifecycle option \<Rightarrow> bool" where
  "native_edge _ None = True"
| "native_edge None (Some t) = False"
| "native_edge (Some NPending) (Some t) = (t \<in> {NPending, NInflight, NCancelled})"
| "native_edge (Some NInflight) (Some t) = (t \<in> {NInflight, NCancellationRequested})"
| "native_edge (Some NCancellationRequested) (Some t) = (t \<in> {NCancellationRequested, NCancelled})"
| "native_edge (Some NCancelled) (Some t) = (t = NCancelled)"

lemma native_edge_refl [simp]: "native_edge s s"
  by (cases s; cases "the s") auto

definition requests_ok :: "cancellable_bridge \<Rightarrow> bool" where
  "requests_ok b \<longleftrightarrow> bb_action_capacity (cb_base b) = cb_action_capacity b
     \<and> 0 < cb_action_capacity b
     \<and> native_ok (cb_native b) (waiting (cb_base b)) (active (cb_base b))"

lemma requests_okD:
  "requests_ok b \<Longrightarrow> native_ok (cb_native b) (waiting (cb_base b)) (active (cb_base b))"
  "requests_ok b \<Longrightarrow> 0 < cb_action_capacity b"
  "requests_ok b \<Longrightarrow> bb_action_capacity (cb_base b) = cb_action_capacity b"
  by (simp_all add: requests_ok_def)

definition native_moves :: "(session_id \<times> uuid) set \<Rightarrow> cancellable_bridge \<Rightarrow> cancellable_bridge \<Rightarrow> bool" where
  "native_moves E b b' \<longleftrightarrow> requests_ok b'
     \<and> (\<forall>key. key \<notin> E \<longrightarrow>
          native_edge (native_entry (cb_native b) key) (native_entry (cb_native b') key))"

lemma native_moves_same:
  assumes "requests_ok b" "cb_native b' = cb_native b" "cb_action_capacity b' = cb_action_capacity b"
    "bb_action_capacity (cb_base b') = bb_action_capacity (cb_base b)"
    "waiting (cb_base b') = waiting (cb_base b)" "active (cb_base b') = active (cb_base b)"
  shows "native_moves E b b'"
  using assms by (simp add: native_moves_def requests_ok_def)

text \<open>The shape of an operation's proof: one session's deques, and the edge of the named key.\<close>

lemma native_moves_step:
  assumes ok: "requests_ok b" and kept: "entries_kept {(sid, i)} (cb_native b) (cb_native b')"
    and cap: "cb_action_capacity b' = cb_action_capacity b"
      "bb_action_capacity (cb_base b') = bb_action_capacity (cb_base b)"
    and queue: "native_queue (cb_native b') = (native_queue (cb_native b))(sid := map ner_id q)"
    and base: "waiting (cb_base b') = (waiting (cb_base b))(sid := q)"
      "active (cb_base b') = (active (cb_base b))(sid := act)"
    and sets: "distinct (map ner_id (q @ act))"
      "set q \<subseteq> insert x (set (waiting (cb_base b) sid))" "set act \<subseteq> set (active (cb_base b) sid)"
      "\<And>j. j \<noteq> i \<Longrightarrow> j \<in> ner_id ` set (active (cb_base b) sid) \<Longrightarrow> j \<in> ner_id ` set act"
    and new: "x \<in> set q \<Longrightarrow> x \<notin> set (waiting (cb_base b) sid) \<Longrightarrow> ner_session_id x = sid \<and> ner_id x = i"
    and here: "i \<in> ner_id ` set q \<Longrightarrow> native_entry (cb_native b') (sid, i) \<in> {Some NPending, Some NCancelled}"
      "\<And>r. r \<in> set q \<union> set act \<Longrightarrow> ner_id r = i \<Longrightarrow>
        map_option na_created_at (na_entries (cb_native b') (sid, i)) = Some (ner_created_at r)"
      "native_entry (cb_native b') (sid, i) \<in> {Some NInflight, Some NCancellationRequested}
        \<longleftrightarrow> i \<in> ner_id ` set act"
  shows "native_moves {(sid, i)} b b'"
proof -
  note nat = requests_okD (1) [OF ok]
  note facts = native_okD [OF nat, where sid = sid]
  have other: "native_entry (cb_native b') (sid, j) = native_entry (cb_native b) (sid, j)
      \<and> na_entries (cb_native b') (sid, j) = na_entries (cb_native b) (sid, j)"
    if "j \<noteq> i" "j \<in> ner_id ` set q \<union> ner_id ` set act" for j
  proof -
    have "na_entries (cb_native b') (sid, j) = na_entries (cb_native b) (sid, j)"
    proof (rule entries_keptD [OF kept])
      show "(sid, j) \<notin> {(sid, i)}" using that by simp
      show "snd (sid, j) \<in> set (native_queue (cb_native b') (fst (sid, j)))
          \<or> native_entry (cb_native b) (sid, j) \<in> {Some NInflight, Some NCancellationRequested}"
        unfolding facts (6) using that sets (3) by (auto simp: queue)
    qed
    then show ?thesis by (simp add: native_entry_def)
  qed
  have old: "r \<in> set q \<Longrightarrow> ner_id r \<noteq> i \<Longrightarrow> r \<in> set (waiting (cb_base b) sid)" for r
    using sets (2) new by blast
  have "native_ok (cb_native b') ((waiting (cb_base b))(sid := q)) ((active (cb_base b))(sid := act))"
  proof (rule native_ok_step [OF nat kept _ queue sets (1)])
    fix j assume j: "j \<in> ner_id ` set q"
    then show "native_entry (cb_native b') (sid, j) \<in> {Some NPending, Some NCancelled}"
      using here (1) other [of j] old facts (5) by (cases "j = i") auto
  next
    fix r assume r: "r \<in> set q \<union> set act"
    have "ner_session_id r = sid" using r new sets (2,3) facts (8) by blast
    moreover have "map_option na_created_at (na_entries (cb_native b') (sid, ner_id r)) = Some (ner_created_at r)"
      using r here (2) [OF r] other [of "ner_id r"] old sets (3) facts (8) by (cases "ner_id r = i") auto
    ultimately show "ner_session_id r = sid
        \<and> map_option na_created_at (na_entries (cb_native b') (sid, ner_id r)) = Some (ner_created_at r)" ..
  next
    fix j
    show "native_entry (cb_native b') (sid, j) \<in> {Some NInflight, Some NCancellationRequested}
        \<longleftrightarrow> j \<in> ner_id ` set act"
    proof (cases "j = i")
      case False
      have "j \<in> ner_id ` set act \<longleftrightarrow> j \<in> ner_id ` set (active (cb_base b) sid)"
        using sets (3,4) False by blast
      with entries_kept_entry [OF kept, of "(sid, j)"] False facts (6) [of j] other [of j]
      show ?thesis by auto
    qed (use here (3) in auto)
  qed auto
  with ok cap base have "requests_ok b'" by (simp add: requests_ok_def)
  moreover have "native_edge (native_entry (cb_native b) key) (native_entry (cb_native b') key)"
    if "key \<notin> {(sid, i)}" for key
    using entries_kept_entry [OF kept that] by auto
  ultimately show ?thesis by (simp add: native_moves_def)
qed

section \<open>The base bridge\<close>

text \<open>What the base operations do to the active requests, as a set of distinct requests.\<close>

definition active_becomes ::
  "base_bridge \<Rightarrow> session_id \<Rightarrow> native_executor_request set \<Rightarrow> base_bridge \<Rightarrow> bool" where
  "active_becomes b sid S b' \<longleftrightarrow> waiting b' = waiting b
     \<and> active b' = (active b)(sid := active b' sid) \<and> set (active b' sid) = S
     \<and> distinct (map ner_id (active b' sid)) \<and> bb_action_capacity b' = bb_action_capacity b"

lemma active_becomes_refl:
  "distinct (map ner_id (active b sid)) \<Longrightarrow> active_becomes b sid (set (active b sid)) b"
  by (simp add: active_becomes_def)

lemma active_becomes_trans:
  "active_becomes b sid S b1 \<Longrightarrow> active_becomes b1 sid T b' \<Longrightarrow> active_becomes b sid T b'"
  unfolding active_becomes_def by (metis fun_upd_upd)

lemma base_claim_native_spec:
  assumes dist: "distinct (map ner_id (active b sid))"
    and call: "base_claim_native_executor b sid i = (r, b')"
  shows "active_becomes b sid (set (active b sid)) b'"
    and "i \<in> ner_id ` set (active b sid) \<Longrightarrow>
      i \<in> ner_id ` set (sb_native_claimed (session_or_default b' sid))"
    and "r = find (\<lambda>x. ner_id x = i) (sb_native_inflight (session_or_default b sid))"
proof -
  have *: "active_becomes b sid (set (active b sid)) b' \<and> (i \<in> ner_id ` set (active b sid) \<longrightarrow>
      i \<in> ner_id ` set (sb_native_claimed (session_or_default b' sid)))
    \<and> r = find (\<lambda>x. ner_id x = i) (sb_native_inflight (session_or_default b sid))"
  proof (cases "bb_sessions b sid")
    case None
    with call dist show ?thesis
      by (simp add: base_claim_native_executor_def active_becomes_refl)
        (simp add: active_def session_or_default_None empty_session_def)
  next
    case (Some st)
    then have st: "active b sid = sb_native_inflight st @ sb_native_claimed st"
      by (simp add: active_def session_or_default_Some)
    have d: "distinct (map ner_id (sb_native_inflight st))" using dist st by simp
    show ?thesis
    proof (cases "find (\<lambda>x. ner_id x = i) (sb_native_inflight st)")
      case None
      then have "i \<notin> ner_id ` set (sb_native_inflight st)" by (simp add: find_id_None)
      with None call Some take_first_by_id [OF d, of i] dist st show ?thesis
        using active_becomes_refl [OF dist]
        by (auto simp: base_claim_native_executor_def session_or_default_Some)
    next
      case (Some x)
      note x = find_id_Some [OF Some]
      have b': "b' = put_session b sid (st\<lparr>sb_native_inflight := filter (\<lambda>a. ner_id a \<noteq> i) (sb_native_inflight st),
          sb_native_claimed := sb_native_claimed st @ [x]\<rparr>)" "r = Some x"
        using call \<open>bb_sessions b sid = Some st\<close> take_first_by_id [OF d, of i] Some
        by (simp_all add: base_claim_native_executor_def)
      have "y = x" if "y \<in> set (sb_native_inflight st)" "ner_id y = i" for y
        using d that x by (auto simp: distinct_map inj_on_def)
      then have "set (active b' sid) = set (active b sid)"
        using x by (auto simp: b' st active_put)
      moreover have "distinct (map ner_id (active b' sid))"
        using dist x by (auto simp: b' st active_put distinct_map_filter' image_iff)
      ultimately show ?thesis using \<open>bb_sessions b sid = Some st\<close> x Some
        by (auto simp: active_becomes_def b' waiting_put active_put waiting_same session_or_default_Some)
    qed
  qed
  then show "active_becomes b sid (set (active b sid)) b'"
    "i \<in> ner_id ` set (active b sid) \<Longrightarrow>
      i \<in> ner_id ` set (sb_native_claimed (session_or_default b' sid))"
    "r = find (\<lambda>x. ner_id x = i) (sb_native_inflight (session_or_default b sid))" by blast+
qed

lemma base_complete_native_spec:
  assumes dist: "distinct (map ner_id (active b sid))"
    and owner: "\<forall>r \<in> set (active b sid). ner_session_id r = sid"
    and call: "base_complete_native_executor plen b sid result = (settled, b')"
  shows "settled \<longleftrightarrow> nex_request_id result
      \<in> ner_id ` set (sb_native_claimed (session_or_default b sid))"
    and "active_becomes b sid (if settled then {r \<in> set (active b sid). ner_id r \<noteq> nex_request_id result}
      else set (active b sid)) b'"
proof -
  let ?i = "nex_request_id result"
  have "(settled \<longleftrightarrow> ?i \<in> ner_id ` set (sb_native_claimed (session_or_default b sid)))
    \<and> active_becomes b sid (if settled then {r \<in> set (active b sid). ner_id r \<noteq> ?i}
        else set (active b sid)) b'"
  proof (cases "bb_sessions b sid")
    case None
    with call dist show ?thesis
      by (simp add: base_complete_native_executor_def active_becomes_refl session_or_default_None empty_session_def)
  next
    case (Some st)
    then have st: "active b sid = sb_native_inflight st @ sb_native_claimed st"
      by (simp add: active_def session_or_default_Some)
    have d: "distinct (map ner_id (sb_native_claimed st))" using dist st by simp
    have own: "\<forall>r \<in> set (sb_native_claimed st). ner_session_id r = sid" using owner st by simp
    show ?thesis
    proof (cases "find (\<lambda>x. ner_id x = ?i) (sb_native_claimed st)")
      case None
      then have "?i \<notin> ner_id ` set (sb_native_claimed st)" by (simp add: find_id_None)
      with None call Some take_first_by_id_and [OF d own, of ?i] dist st show ?thesis
        using active_becomes_refl [OF dist]
        by (auto simp: base_complete_native_executor_def session_or_default_Some)
    next
      case (Some x)
      note x = find_id_Some [OF Some]
      obtain res where b': "b' = put_session b sid (st\<lparr>sb_native_claimed :=
          filter (\<lambda>a. ner_id a \<noteq> ?i) (sb_native_claimed st), sb_native_results := res\<rparr>)" "settled"
        using call \<open>bb_sessions b sid = Some st\<close> take_first_by_id_and [OF d own, of ?i] Some
        by (auto simp: base_complete_native_executor_def)
      have "?i \<notin> ner_id ` set (sb_native_inflight st)"
        using dist x unfolding st by (metis disjoint_iff distinct_append image_eqI list.set_map map_append)
      then have "set (active b' sid) = {r \<in> set (active b sid). ner_id r \<noteq> ?i}"
        by (auto simp: b' st active_put image_iff)
      moreover have "distinct (map ner_id (active b' sid))"
        using dist by (auto simp: b' st active_put distinct_map_filter' image_iff)
      moreover have "?i \<in> ner_id ` set (sb_native_claimed st)" using x by (metis imageI)
      ultimately show ?thesis using \<open>bb_sessions b sid = Some st\<close> x b'(2)
        by (auto simp: active_becomes_def b' waiting_put active_put waiting_same session_or_default_Some)
    qed
  qed
  then show "settled \<longleftrightarrow> ?i \<in> ner_id ` set (sb_native_claimed (session_or_default b sid))"
    "active_becomes b sid (if settled then {r \<in> set (active b sid). ner_id r \<noteq> ?i}
      else set (active b sid)) b'" by blast+
qed

text \<open>Settling a cancelled request claims it and completes it, wherever it was.\<close>

lemma settle_spec:
  assumes dist: "distinct (map ner_id (active b sid))"
    and owner: "\<forall>r \<in> set (active b sid). ner_session_id r = sid"
    and call: "settle_cancelled_origin plen b sid i reason now = (settled, b')"
  shows "settled \<longleftrightarrow> i \<in> ner_id ` set (active b sid)"
    and "active_becomes b sid {r \<in> set (active b sid). ner_id r \<noteq> i} b'"
proof -
  obtain r b1 where claim: "base_claim_native_executor b sid i = (r, b1)" by force
  note one = base_claim_native_spec [OF dist claim]
  then have active1: "set (active b1 sid) = set (active b sid)" "distinct (map ner_id (active b1 sid))"
    by (simp_all add: active_becomes_def)
  have owner1: "\<forall>r \<in> set (active b1 sid). ner_session_id r = sid" using owner active1 by simp
  define res where "res = \<lparr>nex_request_id = i, nex_ok = False, nex_error = Some reason,
    nex_usage = None, nex_payload = JNull, nex_completed_at = now\<rparr>"
  have complete: "base_complete_native_executor plen b1 sid res = (settled, b')"
    using call claim by (simp add: settle_cancelled_origin_def res_def)
  note two = base_complete_native_spec [OF active1(2) owner1 complete]
  have "set (sb_native_claimed (session_or_default b1 sid)) \<subseteq> set (active b sid)"
    unfolding active1(1) [symmetric] by (auto simp: active_def)
  then show settled: "settled \<longleftrightarrow> i \<in> ner_id ` set (active b sid)"
    using one (2) two (1) by (auto simp: res_def)
  have i: "nex_request_id res = i" by (simp add: res_def)
  have "(if settled then {r \<in> set (active b1 sid). ner_id r \<noteq> i} else set (active b1 sid))
      = {r \<in> set (active b sid). ner_id r \<noteq> i}"
    using settled active1 by auto
  with active_becomes_trans [OF one (1) two (2)]
  show "active_becomes b sid {r \<in> set (active b sid). ner_id r \<noteq> i} b'"
    unfolding i by simp
qed

section \<open>The moves of a request\<close>

lemma base_enqueue_native_spec:
  assumes "base_enqueue_native_executor b sid action i now = (r, b')"
  shows "r = \<lparr>ner_id = i, ner_session_id = sid, ner_action = action, ner_created_at = now\<rparr>"
    "waiting b' = (waiting b)(sid := push_bounded (waiting b sid) r (bb_action_capacity b))"
    "active b' = active b" "bb_action_capacity b' = bb_action_capacity b"
  using assms by (auto simp: base_enqueue_native_executor_def Let_def waiting_put active_put fun_eq_iff)
    (simp_all add: waiting_def active_def)

lemma enqueue_native_moves:
  assumes ok: "requests_ok b" and fresh: "native_entry (cb_native b) (sid, i) = None"
  shows "native_moves {(sid, i)} b (snd (enqueue_native_executor b sid action i now))"
proof -
  obtain r base where call: "base_enqueue_native_executor (cb_base b) sid action i now = (r, base)"
    by force
  note spec = base_enqueue_native_spec [OF call]
  define b' where "b' = b\<lparr>cb_base := base,
    cb_native := native_record_enqueued (cb_native b) sid r (cb_action_capacity b)\<rparr>"
  have b': "snd (enqueue_native_executor b sid action i now) = b'"
    by (simp add: enqueue_native_executor_def call b'_def)
  note facts = native_okD [OF requests_okD (1) [OF ok], where sid = sid]
  have unused: "i \<notin> ner_id ` set (waiting (cb_base b) sid)" "i \<notin> ner_id ` set (active (cb_base b) sid)"
    using fresh facts (5) facts (6) [of i] by force+
  have rid: "ner_id r = i" "ner_session_id r = sid" by (simp_all add: spec (1))
  have new: "distinct (native_queue (cb_native b) sid)" "ner_id r \<notin> set (native_queue (cb_native b) sid)"
    using facts (1,2) unused by (simp_all add: rid)
  note rec = native_enqueued_spec [OF new requests_okD (2) [OF ok]]
  let ?q = "push_bounded (waiting (cb_base b) sid) r (cb_action_capacity b)"
  have ids: "distinct (map ner_id ?q)" "ner_id ` set ?q \<subseteq> insert i (ner_id ` set (waiting (cb_base b) sid))"
    using facts (2) unused set_push_bounded [of "waiting (cb_base b) sid" r] rid
    by (auto simp: push_bounded_eq drop_map [symmetric] distinct_drop simp del: drop_append)
      (auto simp: push_bounded_eq dest!: in_set_dropD)
  show ?thesis unfolding b'
  proof (rule native_moves_step [OF ok, where x = r and q = ?q and act = "active (cb_base b) sid"])
    show "entries_kept {(sid, i)} (cb_native b) (cb_native b')" using rec (1) by (simp add: b'_def rid)
    show "native_queue (cb_native b') = (native_queue (cb_native b))(sid := map ner_id ?q)"
      by (simp add: b'_def rec (4) facts (1) map_push_bounded)
    show "distinct (map ner_id (?q @ active (cb_base b) sid))"
    proof -
      have "ner_id ` set ?q \<inter> ner_id ` set (active (cb_base b) sid) = {}"
        using ids (2) unused (2) facts (4) by blast
      with ids (1) facts (3) show ?thesis by simp
    qed
    show "set ?q \<subseteq> insert r (set (waiting (cb_base b) sid))" by (rule set_push_bounded)
    show "native_entry (cb_native b') (sid, i) \<in> {Some NPending, Some NCancelled}"
      using rec (2) by (simp add: b'_def rid)
    show "map_option na_created_at (na_entries (cb_native b') (sid, i)) = Some (ner_created_at x)"
      if "x \<in> set ?q \<union> set (active (cb_base b) sid)" "ner_id x = i" for x
    proof -
      have "x = r" using that unused set_push_bounded [of "waiting (cb_base b) sid" r] by blast
      then show ?thesis using rec (3) by (simp add: b'_def rid)
    qed
    show "native_entry (cb_native b') (sid, i) \<in> {Some NInflight, Some NCancellationRequested}
        \<longleftrightarrow> i \<in> ner_id ` set (active (cb_base b) sid)"
      using rec (2) unused by (simp add: b'_def rid)
  qed (auto simp: b'_def spec requests_okD (3) [OF ok])
qed

text \<open>An entry changes and the deques stay.\<close>

lemma native_moves_entry:
  assumes ok: "requests_ok b" and kept: "entries_kept {(sid, i)} (cb_native b) (cb_native b')"
    and same: "cb_action_capacity b' = cb_action_capacity b"
      "bb_action_capacity (cb_base b') = bb_action_capacity (cb_base b)"
      "native_queue (cb_native b') = native_queue (cb_native b)"
      "waiting (cb_base b') = waiting (cb_base b)"
    and act: "active (cb_base b') = (active (cb_base b))(sid := act)" "distinct (map ner_id act)"
      "set act \<subseteq> set (active (cb_base b) sid)"
      "\<And>j. j \<noteq> i \<Longrightarrow> j \<in> ner_id ` set (active (cb_base b) sid) \<Longrightarrow> j \<in> ner_id ` set act"
    and here: "i \<in> ner_id ` set (waiting (cb_base b) sid) \<Longrightarrow>
        native_entry (cb_native b') (sid, i) \<in> {Some NPending, Some NCancelled}"
      "i \<in> ner_id ` set (waiting (cb_base b) sid) \<union> ner_id ` set act \<Longrightarrow>
        map_option na_created_at (na_entries (cb_native b') (sid, i))
          = map_option na_created_at (na_entries (cb_native b) (sid, i))"
      "native_entry (cb_native b') (sid, i) \<in> {Some NInflight, Some NCancellationRequested}
        \<longleftrightarrow> i \<in> ner_id ` set act"
      "native_edge (native_entry (cb_native b) (sid, i)) (native_entry (cb_native b') (sid, i))"
  shows "native_moves {} b b'"
proof -
  note facts = native_okD [OF requests_okD (1) [OF ok], where sid = sid]
  have "native_moves {(sid, i)} b b'"
  proof (rule native_moves_step [OF ok kept, where q = "waiting (cb_base b) sid" and act = act])
    show "native_queue (cb_native b') = (native_queue (cb_native b))
        (sid := map ner_id (waiting (cb_base b) sid))"
      by (simp add: same facts (1) fun_eq_iff)
    have "ner_id ` set act \<subseteq> ner_id ` set (active (cb_base b) sid)" by (rule image_mono [OF act (3)])
    then show "distinct (map ner_id (waiting (cb_base b) sid @ act))"
      using facts (2,4) act (2) by auto
    show "map_option na_created_at (na_entries (cb_native b') (sid, i)) = Some (ner_created_at r)"
      if "r \<in> set (waiting (cb_base b) sid) \<union> set act" "ner_id r = i" for r
    proof -
      have r: "r \<in> set (waiting (cb_base b) sid) \<union> set (active (cb_base b) sid)"
        using that (1) act (3) by blast
      have "i \<in> ner_id ` set (waiting (cb_base b) sid) \<union> ner_id ` set act" using that by auto
      with here (2) facts (8) [OF r] that (2) show ?thesis by simp
    qed
  qed (use same act here in auto)
  with here (4) show ?thesis unfolding native_moves_def by (metis singletonD)
qed

lemma request_native_cancellation_moves:
  assumes ok: "requests_ok b"
  shows "native_moves {} b (snd (request_native_executor_cancellation b sid i now))"
proof (cases "na_entries (cb_native b) (sid, i)")
  case None
  with ok show ?thesis by (simp add: request_native_executor_cancellation_def native_moves_def)
next
  case (Some entry)
  note facts = native_okD [OF requests_okD (1) [OF ok], where sid = sid]
  have e: "native_entry (cb_native b) (sid, i) = Some (na_state entry)"
    using Some by (simp add: native_entry_def)
  show ?thesis
  proof (cases "na_state entry")
    case NPending
    define b' where "b' = b\<lparr>cb_native := native_mark_cancelled (cb_native b) (sid, i) now\<rparr>"
    have call: "snd (request_native_executor_cancellation b sid i now) = b'"
      using Some NPending by (simp add: request_native_executor_cancellation_def b'_def)
    note spec = native_cancelled_spec [of "cb_native b" sid i now]
    have here: "i \<in> set (native_queue (cb_native b) sid)" if "i \<in> ner_id ` set (waiting (cb_base b) sid)"
      using that facts (1) by simp
    have none: "i \<notin> ner_id ` set (active (cb_base b) sid)" using facts (6) [of i] e NPending by simp
    have "native_moves {} b b'"
      by (rule native_moves_entry [OF ok, where act = "active (cb_base b) sid"])
        (use spec e NPending here none facts (3) in \<open>auto simp: b'_def\<close>)
    then show ?thesis by (simp add: call)
  next
    case NInflight
    define b' where "b' = b\<lparr>cb_native := (cb_native b)\<lparr>na_entries := (na_entries (cb_native b))
      ((sid, i) \<mapsto> entry\<lparr>na_state := NCancellationRequested, na_cancellation_requested_at := Some now\<rparr>)\<rparr>\<rparr>"
    have call: "snd (request_native_executor_cancellation b sid i now) = b'"
      using Some NInflight by (simp add: request_native_executor_cancellation_def Let_def b'_def)
    have a': "native_entry (cb_native b') (sid, i) = Some NCancellationRequested"
      "entries_kept {(sid, i)} (cb_native b) (cb_native b')"
      "native_queue (cb_native b') = native_queue (cb_native b)"
      by (simp_all add: b'_def native_entry_def entries_kept_def native_queue_def fun_eq_iff)
    have here: "i \<in> ner_id ` set (active (cb_base b) sid)" "i \<notin> ner_id ` set (waiting (cb_base b) sid)"
      using facts (6) [of i] e NInflight facts (4) by auto
    have "native_moves {} b b'"
      by (rule native_moves_entry [OF ok a'(2), where act = "active (cb_base b) sid"])
        (use a' e NInflight here facts (3) Some in \<open>auto simp: b'_def\<close>)
    then show ?thesis by (simp add: call)
  qed (use ok Some in \<open>simp_all add: request_native_executor_cancellation_def native_moves_def\<close>)
qed

section \<open>Claiming, completing, acknowledging\<close>

lemma active_becomesD:
  assumes "active_becomes b sid S b'"
  shows "waiting b' = waiting b" "active b' = (active b)(sid := active b' sid)"
    "set (active b' sid) = S" "distinct (map ner_id (active b' sid))"
    "bb_action_capacity b' = bb_action_capacity b"
  using assms by (simp_all add: active_becomes_def)

lemma claim_native_moves:
  assumes ok: "requests_ok b"
  shows "native_moves {} b (snd (claim_native_executor b sid i))"
proof -
  note facts = native_okD [OF requests_okD (1) [OF ok], where sid = sid]
  obtain r base where call: "base_claim_native_executor (cb_base b) sid i = (r, base)" by force
  note spec = active_becomesD [OF base_claim_native_spec (1) [OF facts (3) call]]
  have "native_moves {} b (b\<lparr>cb_base := base\<rparr>)"
  proof (rule native_moves_entry [OF ok, where act = "active base sid" and sid = sid and i = i])
    show "entries_kept {(sid, i)} (cb_native b) (cb_native (b\<lparr>cb_base := base\<rparr>))"
      by (simp add: entries_kept_def)
  qed (use spec facts (1,6) facts (5) in auto)
  with ok call show ?thesis
    by (auto simp: claim_native_executor_def native_moves_def split: option.splits)
qed

lemma native_remove_spec:
  "na_entries (native_remove a key) k = (if k = key then None else na_entries a k)"
  "native_queue (native_remove a key) = (native_queue a)(fst key := remove1 (snd key) (native_queue a (fst key)))"
proof -
  show "na_entries (native_remove a key) k = (if k = key then None else na_entries a k)"
    by (simp add: native_remove_def native_remove_queued_entries)
  have "native_queue (a\<lparr>na_entries := e\<rparr>) = native_queue a" for e
    by (simp add: native_queue_def fun_eq_iff)
  then show "native_queue (native_remove a key)
      = (native_queue a)(fst key := remove1 (snd key) (native_queue a (fst key)))"
    by (simp add: native_remove_def native_remove_queued_queue)
qed

text \<open>A completed request is forgotten, and it was active.\<close>

lemma complete_native_moves:
  assumes ok: "requests_ok b"
  shows "native_moves {} b (snd (complete_native_executor plen b sid result))"
proof -
  let ?i = "nex_request_id result"
  note facts = native_okD [OF requests_okD (1) [OF ok], where sid = sid]
  have owner: "\<forall>r \<in> set (active (cb_base b) sid). ner_session_id r = sid" using facts (8) by blast
  obtain settled base where call: "base_complete_native_executor plen (cb_base b) sid result = (settled, base)"
    by force
  note spec = base_complete_native_spec [OF facts (3) owner call]
  note S = active_becomesD [OF spec (2)]
  show ?thesis
  proof (cases settled)
    case False
    have "native_moves {} b (b\<lparr>cb_base := base\<rparr>)"
    proof (rule native_moves_entry [OF ok, where act = "active base sid" and sid = sid and i = ?i])
      show "entries_kept {(sid, ?i)} (cb_native b) (cb_native (b\<lparr>cb_base := base\<rparr>))"
        by (simp add: entries_kept_def)
    next
      show "native_entry (cb_native (b\<lparr>cb_base := base\<rparr>)) (sid, ?i) \<in> {Some NPending, Some NCancelled}"
        if waits: "?i \<in> ner_id ` set (waiting (cb_base b) sid)"
      proof -
        from waits obtain r where "r \<in> set (waiting (cb_base b) sid)" "ner_id r = ?i" by auto
        with facts (5) [OF this(1)] show ?thesis by simp
      qed
    qed (use S False facts (6) in auto)
    with False ok call show ?thesis
      by (auto simp: complete_native_executor_def native_moves_def Let_def split: option.splits)
  next
    case True
    then have "?i \<in> ner_id ` set (active (cb_base b) sid)"
      using spec (1) by (auto simp: active_def)
    then have e: "native_entry (cb_native b) (sid, ?i) \<in> {Some NInflight, Some NCancellationRequested}"
      "?i \<notin> ner_id ` set (waiting (cb_base b) sid)" using facts (4) facts (6) [of ?i] by auto
    define b' where "b' = b\<lparr>cb_base := base, cb_native := native_remove (cb_native b) (sid, ?i)\<rparr>"
    have gone: "native_entry (cb_native b') (sid, ?i) = None"
      by (simp add: b'_def native_entry_def native_remove_spec)
    have "native_moves {} b b'"
    proof (rule native_moves_entry [OF ok, where act = "active base sid" and sid = sid and i = ?i])
      show "entries_kept {(sid, ?i)} (cb_native b) (cb_native b')"
        by (simp add: entries_kept_def b'_def native_remove_spec)
      show "native_queue (cb_native b') = native_queue (cb_native b)"
        using e (2) by (simp add: b'_def native_remove_spec facts (1) remove1_notin fun_eq_iff)
    qed (use S True e (2) gone in \<open>auto simp: b'_def\<close>)
    with True ok call show ?thesis
      by (auto simp: complete_native_executor_def native_moves_def b'_def Let_def split: option.splits)
  qed
qed

text \<open>
  An acknowledgement that is due always succeeds: a request that was asked to cancel is
  still active, so settling it finds it.
\<close>

lemma acknowledge_native_spec:
  assumes ok: "requests_ok b"
    and due: "native_entry (cb_native b) (sid, i) = Some NCancellationRequested"
  shows "fst (acknowledge_native_executor_cancellation plen b sid i now)"
    and "native_moves {} b (snd (acknowledge_native_executor_cancellation plen b sid i now))"
    and "i \<notin> ner_id ` set (active (cb_base (snd
      (acknowledge_native_executor_cancellation plen b sid i now))) sid)"
proof -
  note facts = native_okD [OF requests_okD (1) [OF ok], where sid = sid]
  have owner: "\<forall>r \<in> set (active (cb_base b) sid). ner_session_id r = sid" using facts (8) by blast
  have i: "i \<in> ner_id ` set (active (cb_base b) sid)" "i \<notin> ner_id ` set (waiting (cb_base b) sid)"
    using facts (4) facts (6) [of i] due by auto
  obtain entry where entry: "na_entries (cb_native b) (sid, i) = Some entry"
    "na_state entry = NCancellationRequested" using due by (auto simp: native_entry_def)
  obtain settled base where call: "settle_cancelled_origin plen (cb_base b) sid i
      ''native executor cancellation acknowledged'' now = (settled, base)" by force
  note spec = settle_spec [OF facts (3) owner call]
  note S = active_becomesD [OF spec (2)]
  define t where "t = (case na_cancellation_requested_at entry of None \<Rightarrow> now | Some at \<Rightarrow> at)"
  define b' where "b' = b\<lparr>cb_base := base, cb_native := native_mark_cancelled (cb_native b) (sid, i) t\<rparr>"
  have out: "acknowledge_native_executor_cancellation plen b sid i now = (True, b')"
    using entry call spec (1) i by (simp add: acknowledge_native_executor_cancellation_def b'_def t_def)
  then show "fst (acknowledge_native_executor_cancellation plen b sid i now)" by simp
  have "native_entry (cb_native b) (sid, i) \<noteq> None" using due by simp
  note cancelled = native_cancelled_spec (1,2,3) [OF this, of t]
  have gone: "i \<notin> ner_id ` set (active base sid)" using S (3) by auto
  have "native_moves {} b b'"
  proof (rule native_moves_entry [OF ok, where act = "active base sid" and sid = sid and i = i])
    show "entries_kept {(sid, i)} (cb_native b) (cb_native b')"
      using cancelled (1) by (simp add: b'_def)
    show "native_queue (cb_native b') = native_queue (cb_native b)"
      using cancelled (2) by (simp add: b'_def)
    show "native_entry (cb_native b') (sid, i) \<in> {Some NInflight, Some NCancellationRequested}
        \<longleftrightarrow> i \<in> ner_id ` set (active base sid)"
      using cancelled (3) gone by (auto simp: b'_def)
    show "native_edge (native_entry (cb_native b) (sid, i)) (native_entry (cb_native b') (sid, i))"
      using cancelled (3) due by (auto simp: b'_def)
  qed (use S (1,2,4,5) i (2) gone in \<open>simp_all add: b'_def S (3)\<close>, auto)
  with out show "native_moves {} b (snd (acknowledge_native_executor_cancellation plen b sid i now))"
    by simp
  show "i \<notin> ner_id ` set (active (cb_base (snd
      (acknowledge_native_executor_cancellation plen b sid i now))) sid)"
    using gone by (simp add: out b'_def)
qed

lemma acknowledge_native_moves:
  assumes ok: "requests_ok b"
  shows "native_moves {} b (snd (acknowledge_native_executor_cancellation plen b sid i now))"
proof (cases "native_entry (cb_native b) (sid, i) = Some NCancellationRequested")
  case True
  then show ?thesis by (rule acknowledge_native_spec (2) [OF ok])
next
  case False
  with ok show ?thesis
    by (auto simp: acknowledge_native_executor_cancellation_def native_entry_def native_moves_def
        split: option.splits native_lifecycle.splits)
qed

section \<open>Taking, expiring, releasing\<close>

lemma sort_taken_requests_spec:
  assumes "sort_taken_requests sid xs a = (deliver, cancelled, a')" "distinct (map ner_id xs)"
    "\<forall>r \<in> set xs. native_entry a (sid, ner_id r) \<in> {Some NPending, Some NCancelled}"
  shows "deliver = filter (\<lambda>r. native_entry a (sid, ner_id r) = Some NPending) xs
    \<and> cancelled = filter (\<lambda>r. native_entry a (sid, ner_id r) \<noteq> Some NPending) xs
    \<and> native_queue a' = native_queue (native_request_queue.removes sid (map ner_id xs) a)
    \<and> (\<forall>key. na_entries a' key = (if fst key = sid \<and> snd key \<in> ner_id ` set deliver
         then map_option (\<lambda>e. e\<lparr>na_state := NInflight\<rparr>) (na_entries a key) else na_entries a key))"
  using assms
proof (induction xs arbitrary: a deliver cancelled a')
  case (Cons x xs)
  let ?k = "(sid, ner_id x)"
  define a1 where "a1 = native_remove_queued a sid (ner_id x)"
  have a1: "na_entries a1 = na_entries a" by (simp add: a1_def native_remove_queued_entries)
  obtain entry where entry: "na_entries a ?k = Some entry" "na_state entry \<in> {NPending, NCancelled}"
    using Cons.prems (3) by (auto simp: native_entry_def)
  define a2 where "a2 = (if na_state entry = NPending
    then a1\<lparr>na_entries := (na_entries a1)(?k \<mapsto> entry\<lparr>na_state := NInflight\<rparr>)\<rparr> else a1)"
  obtain d c where rec: "sort_taken_requests sid xs a2 = (d, c, a')"
    and out: "deliver = (if na_state entry = NPending then x # d else d)"
      "cancelled = (if na_state entry = NPending then c else x # c)"
    using Cons.prems (1) entry
    by (auto simp: Let_def a1_def [symmetric] a1 a2_def split: if_splits prod.splits)
  have a2: "na_entries a2 key = (if key = ?k \<and> na_state entry = NPending
      then Some (entry\<lparr>na_state := NInflight\<rparr>) else na_entries a key)" for key
    by (simp add: a2_def a1)
  have q2: "native_queue a2 = native_queue a1"
    by (simp add: a2_def native_queue_def fun_eq_iff)
  have removes: "native_queue (native_request_queue.removes sid is a2)
      = native_queue (native_request_queue.removes sid is a1)" for "is"
    using q2 by (induction "is" arbitrary: a1 a2) (simp_all add: native_request_queue.remove_queue)
  have other: "y \<in> set xs \<Longrightarrow> native_entry a2 (sid, ner_id y) = native_entry a (sid, ner_id y)" for y
    using Cons.prems (2) by (auto simp: a2 native_entry_def image_iff)
  have dx: "distinct (map ner_id xs)"
    "\<forall>r \<in> set xs. native_entry a2 (sid, ner_id r) \<in> {Some NPending, Some NCancelled}"
    using Cons.prems (2,3) other by auto
  from Cons.IH [OF rec dx] have ih: "d = filter (\<lambda>r. native_entry a (sid, ner_id r) = Some NPending) xs"
    "c = filter (\<lambda>r. native_entry a (sid, ner_id r) \<noteq> Some NPending) xs"
    "native_queue a' = native_queue (native_request_queue.removes sid (map ner_id xs) a1)"
    "\<And>key. na_entries a' key = (if fst key = sid \<and> snd key \<in> ner_id ` set d
         then map_option (\<lambda>e. e\<lparr>na_state := NInflight\<rparr>) (na_entries a2 key) else na_entries a2 key)"
    using other by (auto simp: removes cong: filter_cong)
  have nd: "ner_id x \<notin> ner_id ` set d" using Cons.prems (2) by (auto simp: ih (1))
  have e: "native_entry a ?k = Some (na_state entry)" using entry by (simp add: native_entry_def)
  have "na_entries a' key = (if fst key = sid \<and> snd key \<in> ner_id ` set deliver
      then map_option (\<lambda>e. e\<lparr>na_state := NInflight\<rparr>) (na_entries a key) else na_entries a key)" for key
    using nd entry by (cases "key = ?k") (auto simp: ih (4) a2 out, (cases key, auto)+)
  with ih out e show ?case by (auto simp: a1_def)
qed simp

lemma base_take_native_spec:
  assumes "base_take_native_executor_requests b sid limit = (taken, b')"
  obtains n where "taken = take n (waiting b sid)"
    "waiting b' = (waiting b)(sid := drop n (waiting b sid))"
    "set (active b' sid) = set (active b sid) \<union> set taken"
    "active b' = (active b)(sid := active b' sid)"
    "distinct (map ner_id (waiting b sid @ active b sid)) \<Longrightarrow> distinct (map ner_id (active b' sid))"
    "bb_action_capacity b' = bb_action_capacity b" "n \<le> limit"
proof (cases "bb_sessions b sid")
  case None
  with assms show ?thesis
    by (intro that [of 0]) (auto simp: base_take_native_executor_requests_def fun_eq_iff)
next
  case (Some st)
  define n where "n = min (min limit (length (sb_native_requests st)))
    (bb_action_capacity b - (length (sb_native_inflight st) + length (sb_native_claimed st)))"
  have st: "waiting b sid = sb_native_requests st"
    "active b sid = sb_native_inflight st @ sb_native_claimed st"
    using Some by (simp_all add: waiting_def active_def session_or_default_Some)
  have b': "taken = take n (waiting b sid)"
    "b' = put_session b sid (st\<lparr>sb_native_requests := drop n (waiting b sid),
      sb_native_inflight := sb_native_inflight st @ take n (waiting b sid)\<rparr>)"
    using assms Some by (auto simp: base_take_native_executor_requests_def Let_def n_def st)
  show ?thesis
  proof (rule that [of n])
    assume dist: "distinct (map ner_id (waiting b sid @ active b sid))"
    have "ner_id ` set (take n (waiting b sid)) \<subseteq> ner_id ` set (waiting b sid)"
      by (intro image_mono set_take_subset)
    moreover have "distinct (map ner_id (take n (waiting b sid)))"
      using dist by (simp add: take_map [symmetric] distinct_take)
    moreover have "ner_id ` set (waiting b sid) \<inter> ner_id ` set (active b sid) = {}"
      using dist by simp
    ultimately have "ner_id ` set (take n (waiting b sid)) \<inter> ner_id ` set (sb_native_inflight st) = {}"
      "ner_id ` set (take n (waiting b sid)) \<inter> ner_id ` set (sb_native_claimed st) = {}"
      "distinct (map ner_id (take n (waiting b sid)))"
      unfolding st by (simp_all add: image_Un) blast+
    then show "distinct (map ner_id (active b' sid))"
      using dist by (simp add: b' active_put st image_Un) blast
  qed (auto simp: b' active_put waiting_put st n_def)
qed

text \<open>Settling every cancelled request that was drained.\<close>

lemma settle_all_spec:
  fixes plen :: "json \<Rightarrow> nat option"
  assumes "distinct (map ner_id (active b sid))" "\<forall>r \<in> set (active b sid). ner_session_id r = sid"
  shows "active_becomes b sid {r \<in> set (active b sid). ner_id r \<notin> ner_id ` set rs}
    (fold (\<lambda>r base. snd (settle_cancelled_origin plen base sid (ner_id r) reason now)) rs b)"
  using assms
proof (induction rs arbitrary: b)
  case Nil
  then show ?case by (simp add: active_becomes_refl)
next
  case (Cons r rs)
  obtain settled b1 where call: "settle_cancelled_origin plen b sid (ner_id r) reason now = (settled, b1)"
    by force
  note one = settle_spec (2) [OF Cons.prems call]
  note S = active_becomesD [OF one]
  have "\<forall>r \<in> set (active b1 sid). ner_session_id r = sid" using Cons.prems (2) S (3) by blast
  from Cons.IH [OF S (4) this]
  have "active_becomes b1 sid {x \<in> set (active b sid). ner_id x \<notin> ner_id ` set (r # rs)}
      (fold (\<lambda>r base. snd (settle_cancelled_origin plen base sid (ner_id r) reason now)) rs b1)"
    by (simp add: S (3) conj_ac)
  from active_becomes_trans [OF one this] show ?case by (simp add: call)
qed

lemma native_ok_prune:
  assumes ok: "native_ok a Q A"
  shows "native_ok (native_prune a) Q A"
proof -
  note facts = native_okD [OF ok, where sid = undefined]
  have "native_ok (native_prune a) (Q(undefined := Q undefined)) (A(undefined := A undefined))"
  proof (rule native_ok_step [OF ok entries_kept_prune])
    show "native_queue (native_prune a) = (native_queue a)(undefined := map ner_id (Q undefined))"
      by (simp add: native_prune_queue facts (1) fun_eq_iff)
    have same: "na_entries (native_prune a) (undefined, i) = na_entries a (undefined, i)"
      if "i \<in> ner_id ` set (Q undefined) \<or> i \<in> ner_id ` set (A undefined)" for i
      using that facts (1) facts (6) [of i] by (intro native_prune_here) auto
    show "native_entry (native_prune a) (undefined, i) \<in> {Some NPending, Some NCancelled}"
      if "i \<in> ner_id ` set (Q undefined)" for i
    proof -
      obtain r where "r \<in> set (Q undefined)" "ner_id r = i" using \<open>i \<in> ner_id ` set (Q undefined)\<close> by auto
      with facts (5) [OF this(1)] same [of i] that show ?thesis by (simp add: native_entry_def)
    qed
    show "ner_session_id r = undefined
        \<and> map_option na_created_at (na_entries (native_prune a) (undefined, ner_id r)) = Some (ner_created_at r)"
      if "r \<in> set (Q undefined) \<union> set (A undefined)" for r
      using facts (8) [OF that] same [of "ner_id r"] that by auto
    show "native_entry (native_prune a) (undefined, i) \<in> {Some NInflight, Some NCancellationRequested}
        \<longleftrightarrow> i \<in> ner_id ` set (A undefined)" for i
      using facts (6) [of i] native_prune_entry [of a "(undefined, i)"] by auto
  qed (use facts (2,3,4) in auto)
  then show ?thesis by simp
qed

text \<open>What a take does to the authority, once the delivered requests are active.\<close>

lemma native_ok_take:
  assumes nat: "native_ok a Q A"
    and sort: "sort_taken_requests sid (take n (Q sid)) a = (deliver, cancelled, a')"
    and act: "distinct (map ner_id act)" "set act = set (A sid) \<union> set deliver"
  shows "native_ok (native_prune a') (Q(sid := drop n (Q sid))) (A(sid := act))"
    and "native_edge (native_entry a key) (native_entry (native_prune a') key)"
proof -
  note facts = native_okD [OF nat, where sid = sid]
  have dt: "distinct (map ner_id (take n (Q sid)))" using facts (2) by (simp add: take_map [symmetric])
  have known: "\<forall>r \<in> set (take n (Q sid)). native_entry a (sid, ner_id r) \<in> {Some NPending, Some NCancelled}"
    using facts (5) by (auto dest: in_set_takeD)
  note S = sort_taken_requests_spec [OF sort dt known]
  have del: "set deliver \<subseteq> set (Q sid)" using S by (auto dest: in_set_takeD)
  have split: "ner_id ` set (drop n (Q sid)) \<inter> ner_id ` set deliver = {}"
  proof -
    have "set (take n (map ner_id (Q sid))) \<inter> set (drop n (map ner_id (Q sid))) = {}"
      by (rule set_take_disj_set_drop_if_distinct) (simp_all add: facts (2))
    then have "ner_id ` set (take n (Q sid)) \<inter> ner_id ` set (drop n (Q sid)) = {}"
      by (simp add: take_map drop_map)
    moreover have "ner_id ` set deliver \<subseteq> ner_id ` set (take n (Q sid))" using S by auto
    ultimately show ?thesis by blast
  qed
  have ent: "na_entries a' key = (if fst key = sid \<and> snd key \<in> ner_id ` set deliver
      then map_option (\<lambda>e. e\<lparr>na_state := NInflight\<rparr>) (na_entries a key) else na_entries a key)" for key
    using S by blast
  have pend: "native_entry a (sid, i) = Some NPending" if "i \<in> ner_id ` set deliver" for i
    using that S by auto
  have e': "native_entry a' key = (if fst key = sid \<and> snd key \<in> ner_id ` set deliver
      then Some NInflight else native_entry a key)" for key
    using pend [of "snd key"] by (cases key) (auto simp: native_entry_def ent)
  have created: "map_option na_created_at (na_entries a' key) = map_option na_created_at (na_entries a key)" for key
    by (cases "na_entries a key") (simp_all add: ent)
  have queue': "native_queue a' = (native_queue a)(sid := map ner_id (drop n (Q sid)))"
    using S native_request_queue.mirrors_drained [of a sid "Q sid" n] nat by (simp add: native_ok_def)
  have kept: "entries_kept ({sid} \<times> (ner_id ` set deliver)) a a'"
    by (auto simp: entries_kept_def ent)
  have "native_ok a' (Q(sid := drop n (Q sid))) (A(sid := act))"
  proof (rule native_ok_step [OF nat kept _ queue'])
    have "ner_id ` set (drop n (Q sid)) \<subseteq> ner_id ` set (Q sid)" by (intro image_mono set_drop_subset)
    then have "ner_id ` set (drop n (Q sid)) \<inter> ner_id ` set act = {}"
      using facts (4) split unfolding act (2) image_Un by blast
    moreover have "distinct (map ner_id (drop n (Q sid)))"
      using facts (2) by (simp add: drop_map [symmetric])
    ultimately show "distinct (map ner_id (drop n (Q sid) @ act))" using act (1) by simp
    fix i assume i: "i \<in> ner_id ` set (drop n (Q sid))"
    then obtain r where r: "r \<in> set (Q sid)" "ner_id r = i" by (auto dest: in_set_dropD)
    have "i \<notin> ner_id ` set deliver" using i split by blast
    then show "native_entry a' (sid, i) \<in> {Some NPending, Some NCancelled}"
      using facts (5) [OF r(1)] r (2) by (simp add: e')
  next
    fix r assume "r \<in> set (drop n (Q sid)) \<union> set act"
    then have "r \<in> set (Q sid) \<union> set (A sid)" using del act (2) by (auto dest: in_set_dropD)
    with facts (8) [OF this] show "ner_session_id r = sid
        \<and> map_option na_created_at (na_entries a' (sid, ner_id r)) = Some (ner_created_at r)"
      by (simp add: created)
  next
    fix i
    show "native_entry a' (sid, i) \<in> {Some NInflight, Some NCancellationRequested}
        \<longleftrightarrow> i \<in> ner_id ` set act"
      using facts (6) [of i] by (simp add: e' act (2) image_Un)
  qed auto
  then show "native_ok (native_prune a') (Q(sid := drop n (Q sid))) (A(sid := act))"
    by (rule native_ok_prune)
  show "native_edge (native_entry a key) (native_entry (native_prune a') key)"
    using native_prune_entry [of a' key] pend [of "snd key"] by (cases key) (auto simp: e' split: if_splits)
qed

lemma take_native_spec:
  assumes ok: "requests_ok b"
    and call: "take_native_executor_requests plen b sid limit now = (out, b')"
  shows "native_moves {} b b'"
    and "\<exists>n \<le> limit. out = filter (\<lambda>r. native_entry (cb_native b) (sid, ner_id r) = Some NPending)
      (take n (waiting (cb_base b) sid))"
    and "cb_actions b' = cb_actions b" "cb_action_capacity b' = cb_action_capacity b"
proof -
  define Q where "Q = waiting (cb_base b) sid"
  define A where "A = active (cb_base b) sid"
  define a where "a = cb_native b"
  note nat = requests_okD (1) [OF ok]
  note facts = native_okD [OF nat, where sid = sid, folded Q_def A_def a_def]
  obtain taken base where take: "base_take_native_executor_requests (cb_base b) sid limit = (taken, base)"
    by force
  obtain n where T: "taken = take n Q" "waiting base = (waiting (cb_base b))(sid := drop n Q)"
    "set (active base sid) = set A \<union> set taken" "active base = (active (cb_base b))(sid := active base sid)"
    "distinct (map ner_id (Q @ A)) \<Longrightarrow> distinct (map ner_id (active base sid))"
    "bb_action_capacity base = bb_action_capacity (cb_base b)" "n \<le> limit"
    using base_take_native_spec [OF take] unfolding Q_def A_def by metis
  have dA: "distinct (map ner_id (active base sid))" using facts (2,3,4) by (intro T (5)) auto
  have tQ: "set taken \<subseteq> set Q" by (simp add: T (1) set_take_subset)
  have dt: "distinct (map ner_id taken)" using facts (2) by (simp add: T (1) take_map [symmetric])
  have owner: "\<forall>r \<in> set (active base sid). ner_session_id r = sid" using facts (8) T (3) tQ by blast
  obtain deliver cancelled a' where sort: "sort_taken_requests sid taken a = (deliver, cancelled, a')"
    by (metis prod_cases3)
  have known: "\<forall>r \<in> set taken. native_entry a (sid, ner_id r) \<in> {Some NPending, Some NCancelled}"
    using facts (5) tQ by blast
  note S = sort_taken_requests_spec [OF sort dt known]
  define final where "final = fold (\<lambda>r base. snd (settle_cancelled_origin plen base sid (ner_id r)
    ''cancelled before native dispatch'' now)) cancelled base"
  have b': "b' = b\<lparr>cb_base := final, cb_native := native_prune a'\<rparr>" and out: "out = deliver"
    using call take sort by (simp_all add: take_native_executor_requests_def final_def a_def)
  note F = active_becomesD [OF settle_all_spec [OF dA owner, where rs = cancelled
      and reason = "''cancelled before native dispatch''" and now = now and plen = plen], folded final_def]
  have split: "ner_id ` set (drop n Q) \<inter> ner_id ` set taken = {}"
    using facts (2) set_take_disj_set_drop_if_distinct [of "map ner_id Q" n n]
    by (simp add: T (1) take_map drop_map Int_commute)
  have delivered: "set deliver \<subseteq> set taken" "set cancelled = set taken - set deliver" using S by auto
  have dc: "ner_id ` set deliver \<inter> ner_id ` set cancelled = {}" using S by auto
  have "ner_id ` set cancelled \<inter> ner_id ` set A = {}" using facts (4) tQ delivered (2) by blast
  then have final: "set (active final sid) = set A \<union> set deliver"
  proof -
    assume apart: "ner_id ` set cancelled \<inter> ner_id ` set A = {}"
    have "ner_id r \<notin> ner_id ` set cancelled" if "r \<in> set A \<union> set deliver" for r
      using that apart dc by blast
    moreover have "r \<in> set deliver" if "r \<in> set taken" "ner_id r \<notin> ner_id ` set cancelled" for r
      using that delivered (2) by blast
    ultimately show ?thesis unfolding F (3) T (3) using delivered (1) by blast
  qed
  have waiting': "waiting final = (waiting (cb_base b))(sid := drop n (waiting (cb_base b) sid))"
    using F (1) T (2) by (simp add: Q_def)
  have active': "active final = (active (cb_base b))(sid := active final sid)"
    using F (2) T (4) by (metis fun_upd_upd)
  note authority = native_ok_take [OF nat, of sid n deliver cancelled a' "active final sid"]
  have "native_ok (native_prune a') (waiting final) (active final)"
    unfolding waiting' by (subst active', rule authority (1))
      (use sort F (4) final in \<open>simp_all add: T (1) Q_def A_def a_def\<close>)
  moreover have "native_edge (native_entry a key) (native_entry (native_prune a') key)" for key
    unfolding a_def by (rule authority (2))
      (use sort F (4) final in \<open>simp_all add: T (1) Q_def A_def a_def\<close>)
  ultimately show "native_moves {} b b'"
    using requests_okD (2,3) [OF ok] F (5) T (6)
    by (simp add: native_moves_def requests_ok_def b' a_def)
  show "\<exists>n \<le> limit. out = filter (\<lambda>r. native_entry (cb_native b) (sid, ner_id r) = Some NPending)
      (take n (waiting (cb_base b) sid))"
    using T (7) S by (auto simp: out T (1) a_def Q_def)
  show "cb_actions b' = cb_actions b" "cb_action_capacity b' = cb_action_capacity b"
    by (simp_all add: b')
qed

text \<open>Expiry forgets the requests that are too old, in the deques and in the authority.\<close>

definition expired_entries ::
  "native_authority \<Rightarrow> session_id \<Rightarrow> timestamp \<Rightarrow> native_authority" where
  "expired_entries a sid cutoff = a\<lparr>na_entries := (\<lambda>key. case na_entries a key of
     None \<Rightarrow> None
   | Some entry \<Rightarrow>
       if fst key = sid \<and> na_state entry \<in> {NInflight, NCancellationRequested}
          \<and> na_created_at entry < cutoff then None else Some entry)\<rparr>"

lemma native_ok_expire:
  assumes ok: "native_ok a Q A"
  shows "native_ok (expired_entries a sid cutoff) Q
    (A(sid := filter (\<lambda>r. cutoff \<le> ner_created_at r) (A sid)))"
proof -
  let ?a = "expired_entries a sid cutoff" and ?act = "filter (\<lambda>r. cutoff \<le> ner_created_at r) (A sid)"
  note facts = native_okD [OF ok, where sid = sid]
  have kept: "entries_kept ({sid} \<times> UNIV) a ?a"
    by (auto simp: entries_kept_def expired_entries_def split: option.splits)
  have queue: "native_queue ?a = (native_queue a)(sid := map ner_id (Q sid))"
    by (simp add: facts (1) [symmetric] native_queue_def expired_entries_def fun_eq_iff)
  have waits: "na_entries ?a (sid, ner_id r) = na_entries a (sid, ner_id r)" if "r \<in> set (Q sid)" for r
    using facts (5) [OF that] by (auto simp: expired_entries_def native_entry_def split: option.splits)
  have acts: "na_entries ?a (sid, ner_id r) = (if cutoff \<le> ner_created_at r
      then na_entries a (sid, ner_id r) else None)" if "r \<in> set (A sid)" for r
  proof -
    have "native_entry a (sid, ner_id r) \<in> {Some NInflight, Some NCancellationRequested}"
      using that facts (6) [of "ner_id r"] by blast
    with facts (8) [of r] that show ?thesis
      by (auto simp: expired_entries_def native_entry_def not_le split: option.splits)
  qed
  have "native_ok ?a (Q(sid := Q sid)) (A(sid := ?act))"
  proof (rule native_ok_step [OF ok kept _ queue])
    show "distinct (map ner_id (Q sid @ ?act))"
      using facts (2,3,4) by (auto simp: distinct_map_filter')
    show "native_entry ?a (sid, i) \<in> {Some NPending, Some NCancelled}" if i: "i \<in> ner_id ` set (Q sid)" for i
    proof -
      obtain r where r: "r \<in> set (Q sid)" "ner_id r = i" using i by auto
      with facts (5) [OF r(1)] waits [OF r(1)] show ?thesis by (simp add: native_entry_def)
    qed
    show "ner_session_id r = sid
        \<and> map_option na_created_at (na_entries ?a (sid, ner_id r)) = Some (ner_created_at r)"
      if r: "r \<in> set (Q sid) \<union> set ?act" for r
    proof -
      have "r \<in> set (Q sid) \<union> set (A sid)" using r by auto
      moreover have "na_entries ?a (sid, ner_id r) = na_entries a (sid, ner_id r)"
        using r waits [of r] acts [of r] by auto
      ultimately show ?thesis using facts (8) [of r] by simp
    qed
    show "native_entry ?a (sid, i) \<in> {Some NInflight, Some NCancellationRequested}
        \<longleftrightarrow> i \<in> ner_id ` set ?act" for i
    proof (cases "i \<in> ner_id ` set (A sid)")
      case True
      then obtain r where r: "r \<in> set (A sid)" "ner_id r = i" by auto
      have "inj_on ner_id (set (A sid))" using facts (3) by (simp add: distinct_map)
      then have uniq: "x = r" if "ner_id x = i" "x \<in> set (A sid)" for x
        by (rule inj_onD) (use that r in simp_all)
      have "i \<in> ner_id ` set ?act \<longleftrightarrow> cutoff \<le> ner_created_at r"
      proof
        assume "i \<in> ner_id ` set ?act"
        then obtain x where x: "x \<in> set (A sid)" "ner_id x = i" "cutoff \<le> ner_created_at x" by auto
        with uniq [OF x(2,1)] show "cutoff \<le> ner_created_at r" by blast
      next
        assume "cutoff \<le> ner_created_at r"
        with r show "i \<in> ner_id ` set ?act" by auto
      qed
      moreover have "native_entry ?a (sid, i)
          = (if cutoff \<le> ner_created_at r then native_entry a (sid, i) else None)"
        using acts [OF r(1)] unfolding r (2) by (simp add: native_entry_def)
      ultimately show ?thesis using facts (6) [of i] True by simp
    next
      case False
      have "native_entry ?a (sid, i) \<in> {native_entry a (sid, i), None}"
        by (auto simp: native_entry_def expired_entries_def split: option.splits)
      with False facts (6) [of i] show ?thesis by auto
    qed
  qed auto
  then show ?thesis by simp
qed

lemma expire_native_moves:
  assumes ok: "requests_ok b"
  shows "native_moves {} b (snd (expire_native_executor_active_before b sid cutoff))"
    and "cb_actions (snd (expire_native_executor_active_before b sid cutoff)) = cb_actions b"
proof -
  let ?f = "filter (\<lambda>r. cutoff \<le> ner_created_at r)"
  obtain k base where call: "base_expire_native_executor_active_before (cb_base b) sid cutoff = (k, base)"
    by force
  have base: "waiting base = waiting (cb_base b)" "bb_action_capacity base = bb_action_capacity (cb_base b)"
    "active base = (active (cb_base b))(sid := ?f (active (cb_base b) sid))"
    "k = length (active (cb_base b) sid) - length (?f (active (cb_base b) sid))"
    using call by (auto simp: base_expire_native_executor_active_before_def Let_def waiting_put active_put
        waiting_same session_or_default_Some session_or_default_None active_def fun_eq_iff
        empty_session_def split: option.splits)
  define b' where "b' = b\<lparr>cb_base := base, cb_native :=
    if 0 < k then expired_entries (cb_native b) sid cutoff else cb_native b\<rparr>"
  have b': "snd (expire_native_executor_active_before b sid cutoff) = b'"
    by (simp add: expire_native_executor_active_before_def call b'_def expired_entries_def)
  note nat = requests_okD (1) [OF ok]
  have "native_ok (cb_native b') (waiting base) (active base)"
  proof (cases "0 < k")
    case True
    then show ?thesis using native_ok_expire [OF nat, of sid cutoff] by (simp add: b'_def base)
  next
    case False
    have "cutoff \<le> ner_created_at r" if r: "r \<in> set (active (cb_base b) sid)" for r
    proof (rule ccontr)
      assume "\<not> cutoff \<le> ner_created_at r"
      with length_filter_less [OF r, of "\<lambda>r. cutoff \<le> ner_created_at r"] False show False by (simp add: base (4))
    qed
    then have "?f (active (cb_base b) sid) = active (cb_base b) sid" by simp
    with False nat show ?thesis by (simp add: b'_def base)
  qed
  moreover have "native_edge (native_entry (cb_native b) key) (native_entry (cb_native b') key)" for key
  proof -
    have "native_entry (cb_native b') key \<in> {native_entry (cb_native b) key, None}"
      by (auto simp: b'_def native_entry_def expired_entries_def split: option.splits)
    then show ?thesis by auto
  qed
  ultimately show "native_moves {} b (snd (expire_native_executor_active_before b sid cutoff))"
    using requests_okD (2,3) [OF ok] base (2) by (simp add: b' native_moves_def requests_ok_def b'_def)
  show "cb_actions (snd (expire_native_executor_active_before b sid cutoff)) = cb_actions b"
    by (simp add: b' b'_def)
qed

lemma release_session_native_moves:
  assumes ok: "requests_ok b"
  shows "native_moves {} b (release_session b sid)"
proof -
  let ?a = "native_release_session (cb_native b) sid"
  have base: "waiting (cb_base (release_session b sid)) = (waiting (cb_base b))(sid := [])"
    "active (cb_base (release_session b sid)) = (active (cb_base b))(sid := [])"
    by (auto simp: release_session_def base_release_session_def waiting_def active_def
        session_or_default_def empty_session_def fun_eq_iff)
  have "native_ok ?a ((waiting (cb_base b))(sid := [])) ((active (cb_base b))(sid := []))"
  proof (rule native_ok_step [OF requests_okD (1) [OF ok]])
    show "entries_kept ({sid} \<times> UNIV) (cb_native b) ?a"
      by (auto simp: entries_kept_def native_release_session_def)
  qed (auto simp: native_release_queue native_release_entry)
  then show ?thesis using requests_okD (2,3) [OF ok] base
    by (simp add: native_moves_def requests_ok_def native_release_entry)
      (simp add: release_session_def base_release_session_def native_release_entry)
qed

end
