(* ===== verification/Bridge_Run.thy ===== *)
theory Bridge_Run
  imports Native_Delivery Action_Results
begin

text \<open>
  The runs of the cancellable bridge: an operation is a datatype, \<open>run_op\<close> applies it, and
  the invariant of the bridge (public delivery, native delivery, capture ids, observer
  streams) is kept by every operation. Identifiers are drawn by \<open>Uuid::new_v4\<close>, so an
  operation that draws one assumes that it is fresh (\<open>fresh_op\<close>).
\<close>

datatype bridge_op =
    OpEnqueue session_id "element_ref option" bridge_action_kind uuid timestamp
  | OpEnqueuePrebound bridge_action
  | OpTake session_id nat timestamp
  | OpClaim session_id uuid
  | OpCancel session_id uuid timestamp
  | OpAcknowledge session_id uuid timestamp
  | OpDiscard session_id uuid
  | OpDiscardAll session_id
  | OpEnqueueNative session_id native_executor_action uuid timestamp
  | OpTakeNative session_id nat timestamp
  | OpClaimNative session_id uuid
  | OpCompleteNative session_id native_executor_result
  | OpCancelNative session_id uuid timestamp
  | OpAcknowledgeNative session_id uuid timestamp
  | OpExpireNative session_id timestamp
  | OpRelease session_id
  | OpIngest observer_batch
  | OpCaptureFreeze session_id "string list" u64 uuid timestamp
  | OpCaptureTileProbe session_id uuid "string list" uuid timestamp
  | OpTakeCaptures session_id nat
  | OpEnqueueFault session_id network_fault_control_command uuid timestamp
  | OpTakeFaults session_id nat
  | OpClaimFault session_id uuid
  | OpCompleteFault session_id network_fault_control_result
  | OpSetLease session_id network_fault_lease_authority
  | OpClearLease session_id uuid
  | OpComplete completion_origin bridge_action_result timestamp "string \<Rightarrow> parsed_url option"

definition on_base :: "(base_bridge \<Rightarrow> 'r \<times> base_bridge) \<Rightarrow> cancellable_bridge \<Rightarrow> cancellable_bridge" where
  "on_base f b = b\<lparr>cb_base := snd (f (cb_base b))\<rparr>"

fun run_op :: "(json \<Rightarrow> nat option) \<Rightarrow> bridge_op \<Rightarrow> cancellable_bridge \<Rightarrow> cancellable_bridge" where
  "run_op plen (OpEnqueue sid reference kind i now) b = snd (enqueue_action b sid reference kind i now)"
| "run_op plen (OpEnqueuePrebound x) b = snd (enqueue_prebound_public_action b x)"
| "run_op plen (OpTake sid limit now) b = snd (take_public_actions b sid limit now)"
| "run_op plen (OpClaim sid i) b = snd (claim_action b sid i)"
| "run_op plen (OpCancel sid i now) b = snd (request_action_cancellation b sid i now)"
| "run_op plen (OpAcknowledge sid i now) b = snd (acknowledge_action_cancellation b sid i now)"
| "run_op plen (OpDiscard sid i) b = on_base (\<lambda>base. base_discard_public_action base sid i) b"
| "run_op plen (OpDiscardAll sid) b = snd (discard_public_actions_for_session b sid)"
| "run_op plen (OpEnqueueNative sid action i now) b = snd (enqueue_native_executor b sid action i now)"
| "run_op plen (OpTakeNative sid limit now) b = snd (take_native_executor_requests plen b sid limit now)"
| "run_op plen (OpClaimNative sid i) b = snd (claim_native_executor b sid i)"
| "run_op plen (OpCompleteNative sid result) b = snd (complete_native_executor plen b sid result)"
| "run_op plen (OpCancelNative sid i now) b = snd (request_native_executor_cancellation b sid i now)"
| "run_op plen (OpAcknowledgeNative sid i now) b =
     snd (acknowledge_native_executor_cancellation plen b sid i now)"
| "run_op plen (OpExpireNative sid cutoff) b = snd (expire_native_executor_active_before b sid cutoff)"
| "run_op plen (OpRelease sid) b = release_session b sid"
| "run_op plen (OpIngest batch) b = on_base (\<lambda>base. base_ingest_collect base batch) b"
| "run_op plen (OpCaptureFreeze sid selectors lease i now) b =
     on_base (\<lambda>base. enqueue_capture_freeze_with_lease base sid selectors lease i now) b"
| "run_op plen (OpCaptureTileProbe sid token selectors i now) b =
     on_base (\<lambda>base. enqueue_capture_tile_probe base sid token selectors i now) b"
| "run_op plen (OpTakeCaptures sid limit) b =
     on_base (\<lambda>base. take_internal_capture_actions base sid limit) b"
| "run_op plen (OpEnqueueFault sid command i now) b =
     on_base (\<lambda>base. enqueue_network_fault_control base sid command i now) b"
| "run_op plen (OpTakeFaults sid limit) b =
     on_base (\<lambda>base. take_network_fault_controls base sid limit) b"
| "run_op plen (OpClaimFault sid i) b = on_base (\<lambda>base. claim_network_fault_control base sid i) b"
| "run_op plen (OpCompleteFault sid result) b =
     on_base (\<lambda>base. complete_network_fault_control base sid result) b"
| "run_op plen (OpSetLease sid lease) b =
     b\<lparr>cb_base := set_network_fault_lease (cb_base b) sid lease\<rparr>"
| "run_op plen (OpClearLease sid lid) b = on_base (\<lambda>base. clear_network_fault_lease base sid lid) b"
| "run_op plen (OpComplete origin result now url_parse) b =
     b\<lparr>cb_base := complete_action url_parse (cb_base b) origin result now\<rparr>"

text \<open>The keys an operation enqueues, and what it assumes of the identifier it draws.\<close>

fun public_keys :: "bridge_op \<Rightarrow> (session_id \<times> uuid) set" where
  "public_keys (OpEnqueue sid reference kind i now) = {(sid, i)}"
| "public_keys (OpEnqueuePrebound x) = {(act_session_id x, act_id x)}"
| "public_keys _ = {}"

fun native_keys :: "bridge_op \<Rightarrow> (session_id \<times> uuid) set" where
  "native_keys (OpEnqueueNative sid action i now) = {(sid, i)}"
| "native_keys _ = {}"

fun fresh_op :: "bridge_op \<Rightarrow> cancellable_bridge \<Rightarrow> bool" where
  "fresh_op (OpEnqueue sid reference kind i now) b \<longleftrightarrow>
     action_entry (cb_actions b) (sid, i) = None \<and> i \<notin> capture_ids (cb_base b) sid"
| "fresh_op (OpEnqueueNative sid action i now) b \<longleftrightarrow> native_entry (cb_native b) (sid, i) = None"
| "fresh_op (OpCaptureFreeze sid selectors lease i now) b \<longleftrightarrow> action_entry (cb_actions b) (sid, i) = None"
| "fresh_op (OpCaptureTileProbe sid token selectors i now) b \<longleftrightarrow>
     action_entry (cb_actions b) (sid, i) = None"
| "fresh_op _ b \<longleftrightarrow> True"

fun run_ops :: "(json \<Rightarrow> nat option) \<Rightarrow> bridge_op list \<Rightarrow> cancellable_bridge \<Rightarrow> cancellable_bridge" where
  "run_ops plen [] b = b"
| "run_ops plen (op # ops) b = run_ops plen ops (run_op plen op b)"

fun fresh_run :: "(json \<Rightarrow> nat option) \<Rightarrow> bridge_op list \<Rightarrow> cancellable_bridge \<Rightarrow> bool" where
  "fresh_run plen [] b = True"
| "fresh_run plen (op # ops) b = (fresh_op op b \<and> fresh_run plen ops (run_op plen op b))"

section \<open>The parts of the state an operation does not touch\<close>

definition streams :: "base_bridge \<Rightarrow> session_id \<Rightarrow> u64 \<times> u64 option \<times> observer_event list" where
  "streams b sid = (let st = session_or_default b sid in (sb_generation st, sb_last_seq st, sb_events st))"

lemma streams_put: "streams (put_session b sid st)
    = (streams b)(sid := (sb_generation st, sb_last_seq st, sb_events st))"
  by (simp add: streams_def fun_eq_iff Let_def)

lemma streams_same: "bb_sessions b sid = Some st \<Longrightarrow>
    (streams b)(sid := (sb_generation st, sb_last_seq st, sb_events st)) = streams b"
  by (simp add: fun_eq_iff streams_def session_or_default_Some Let_def)

lemma streams_default [simp]: "(streams b)(sid := (sb_generation (session_or_default b sid),
    sb_last_seq (session_or_default b sid), sb_events (session_or_default b sid))) = streams b"
  by (simp add: fun_eq_iff streams_def Let_def)

lemma queued_default [simp]: "(queued b)(sid := sb_actions (session_or_default b sid)) = queued b"
  by (simp add: fun_eq_iff queued_def)

lemma inflight_default [simp]: "(inflight b)(sid := sb_inflight (session_or_default b sid)) = inflight b"
  by (simp add: fun_eq_iff inflight_def)

lemma waiting_default [simp]: "(waiting b)(sid := sb_native_requests (session_or_default b sid)) = waiting b"
  by (simp add: fun_eq_iff waiting_def)

lemma active_default [simp]: "(active b)(sid := sb_native_inflight (session_or_default b sid)
    @ sb_native_claimed (session_or_default b sid)) = active b"
  by (simp add: fun_eq_iff active_def)

lemma capture_ids_default [simp]: "(capture_ids b)(sid :=
    act_id ` (set (sb_capture_actions (session_or_default b sid))
      \<union> set (sb_capture_inflight (session_or_default b sid)))) = capture_ids b"
  by (simp add: fun_eq_iff capture_ids_def)

definition same_public :: "base_bridge \<Rightarrow> base_bridge \<Rightarrow> bool" where
  "same_public b b' \<longleftrightarrow> queued b' = queued b \<and> inflight b' = inflight b
     \<and> capture_ids b' = capture_ids b \<and> bb_action_capacity b' = bb_action_capacity b"

definition same_native :: "base_bridge \<Rightarrow> base_bridge \<Rightarrow> bool" where
  "same_native b b' \<longleftrightarrow> waiting b' = waiting b \<and> active b' = active b
     \<and> bb_action_capacity b' = bb_action_capacity b"

definition same_streams :: "base_bridge \<Rightarrow> base_bridge \<Rightarrow> bool" where
  "same_streams b b' \<longleftrightarrow> streams b' = streams b \<and> bb_event_capacity b' = bb_event_capacity b"

lemmas same_defs = same_public_def same_native_def same_streams_def

lemmas put_simps = queued_put inflight_put capture_ids_put waiting_put active_put streams_put
  queued_same inflight_same capture_ids_same waiting_same active_same streams_same

lemma same_refl [simp]: "same_public b b" "same_native b b" "same_streams b b"
  by (simp_all add: same_defs)

lemma same_trans:
  "same_public b b1 \<Longrightarrow> same_public b1 b2 \<Longrightarrow> same_public b b2"
  "same_native b b1 \<Longrightarrow> same_native b1 b2 \<Longrightarrow> same_native b b2"
  "same_streams b b1 \<Longrightarrow> same_streams b1 b2 \<Longrightarrow> same_streams b b2"
  by (simp_all add: same_defs)

lemma streams_ok_alt: "streams_ok b \<longleftrightarrow> 0 < bb_event_capacity b
    \<and> (\<forall>sid. stream_ok (bb_event_capacity b) (session_or_default b sid))"
  by (auto simp: streams_ok_def session_or_default_def split: option.splits)

lemma streams_ok_same: "same_streams b b' \<Longrightarrow> streams_ok b \<Longrightarrow> streams_ok b'"
proof -
  assume same: "same_streams b b'" and ok: "streams_ok b"
  have "same_stream (session_or_default b sid) (session_or_default b' sid)" for sid
    using same by (auto simp: same_streams_def streams_def same_stream_def fun_eq_iff Let_def)
  then have "stream_ok c (session_or_default b' sid) = stream_ok c (session_or_default b sid)" for c sid
    by (rule same_stream_ok)
  with ok same show "streams_ok b'" by (simp add: streams_ok_alt same_streams_def)
qed

section \<open>The base operations\<close>

lemma base_enqueue_action_same:
  "same_native b (snd (base_enqueue_action b sid reference kind i now))
   \<and> same_streams b (snd (base_enqueue_action b sid reference kind i now))"
  "is_internal_capture_action kind \<or> capture_ids (snd (base_enqueue_action b sid reference kind i now))
     = capture_ids b"
  by (auto simp: base_enqueue_action_def Let_def same_defs put_simps)

lemma capture_ids_enqueued:
  "capture_ids (snd (base_enqueue_action b sid reference kind i now)) s
     \<subseteq> capture_ids b s \<union> (if s = sid \<and> is_internal_capture_action kind then {i} else {})"
proof -
  have "act_id ` set (push_bounded q x c) \<subseteq> act_id ` set q \<union> {act_id x}" for q and x :: bridge_action and c
    using set_push_bounded [of q x c] by auto
  then show ?thesis
    by (auto simp: base_enqueue_action_def Let_def capture_ids_put)
      (auto simp: capture_ids_def dest!: subsetD [OF set_push_bounded])
qed

lemma base_prebound_same:
  "same_native b (snd (base_enqueue_prebound_public_action b x))
   \<and> same_streams b (snd (base_enqueue_prebound_public_action b x))
   \<and> capture_ids (snd (base_enqueue_prebound_public_action b x)) = capture_ids b"
  by (auto simp: base_enqueue_prebound_public_action_def Let_def same_defs put_simps)

lemma base_take_same:
  "same_native b (snd (base_take_public_actions b sid limit now))
   \<and> same_streams b (snd (base_take_public_actions b sid limit now))
   \<and> capture_ids (snd (base_take_public_actions b sid limit now)) = capture_ids b"
  by (auto simp: base_take_public_actions_def same_defs put_simps split: option.splits prod.splits)

lemma base_discard_same:
  "same_native b (snd (base_discard_public_action b sid i))
   \<and> same_streams b (snd (base_discard_public_action b sid i))
   \<and> capture_ids (snd (base_discard_public_action b sid i)) = capture_ids b"
  by (auto simp: base_discard_public_action_def same_defs put_simps split: option.splits)

lemma base_discards_same:
  fixes ids :: "uuid list" and sid :: session_id
  defines "b' \<equiv> \<lambda>b. fold (\<lambda>i base. snd (base_discard_public_action base sid i)) ids b"
  shows "same_native b (b' b) \<and> same_streams b (b' b) \<and> capture_ids (b' b) = capture_ids b"
  unfolding b'_def
proof (induction ids arbitrary: b)
  case (Cons i ids)
  from Cons [of "snd (base_discard_public_action b sid i)"] base_discard_same [of b sid i]
  show ?case by (auto intro: same_trans)
qed simp

lemma base_claim_same:
  "same_native b (snd (base_claim_action b sid i)) \<and> same_streams b (snd (base_claim_action b sid i))"
  by (auto simp: base_claim_action_def same_defs put_simps split: option.splits prod.splits)

lemma base_discard_all_same:
  "same_native b (snd (base_discard_public_actions_for_session b sid))
   \<and> same_streams b (snd (base_discard_public_actions_for_session b sid))
   \<and> capture_ids (snd (base_discard_public_actions_for_session b sid)) = capture_ids b"
  by (auto simp: base_discard_public_actions_for_session_def same_defs put_simps split: option.splits)

lemma base_native_same:
  "same_public b (snd (base_enqueue_native_executor b sid action i now))
   \<and> same_streams b (snd (base_enqueue_native_executor b sid action i now))"
  "same_public b (snd (base_take_native_executor_requests b sid limit))
   \<and> same_streams b (snd (base_take_native_executor_requests b sid limit))"
  "same_public b (snd (base_claim_native_executor b sid i))
   \<and> same_streams b (snd (base_claim_native_executor b sid i))"
  "same_public b (snd (base_complete_native_executor plen b sid result))
   \<and> same_streams b (snd (base_complete_native_executor plen b sid result))"
  "same_public b (snd (base_expire_native_executor_active_before b sid cutoff))
   \<and> same_streams b (snd (base_expire_native_executor_active_before b sid cutoff))"
  by (auto simp: base_enqueue_native_executor_def base_take_native_executor_requests_def Let_def
      base_claim_native_executor_def base_complete_native_executor_def
      base_expire_native_executor_active_before_def same_defs put_simps split: option.splits prod.splits)

lemma settle_same:
  "same_public b (snd (settle_cancelled_origin plen b sid i reason now))
   \<and> same_streams b (snd (settle_cancelled_origin plen b sid i reason now))"
  unfolding settle_cancelled_origin_def using base_native_same by (meson same_trans)

lemma settles_same:
  fixes rs :: "native_executor_request list"
  shows "same_public b (fold (\<lambda>r base. snd (settle_cancelled_origin plen base sid (ner_id r) reason now)) rs b)
   \<and> same_streams b (fold (\<lambda>r base. snd (settle_cancelled_origin plen base sid (ner_id r) reason now)) rs b)"
proof (induction rs arbitrary: b)
  case (Cons r rs)
  from Cons [of "snd (settle_cancelled_origin plen b sid (ner_id r) reason now)"]
    settle_same [of b plen sid "ner_id r" reason now]
  show ?case by (auto intro: same_trans)
qed simp

text \<open>The internal queues of captures and of network fault controls.\<close>

lemma base_fault_same:
  fixes b :: base_bridge
  shows "same_public b (snd (enqueue_network_fault_control b sid command i now))
     \<and> same_native b (snd (enqueue_network_fault_control b sid command i now))
     \<and> same_streams b (snd (enqueue_network_fault_control b sid command i now))"
    "same_public b (snd (take_network_fault_controls b sid limit))
     \<and> same_native b (snd (take_network_fault_controls b sid limit))
     \<and> same_streams b (snd (take_network_fault_controls b sid limit))"
    "same_public b (snd (claim_network_fault_control b sid i))
     \<and> same_native b (snd (claim_network_fault_control b sid i))
     \<and> same_streams b (snd (claim_network_fault_control b sid i))"
    "same_public b (snd (complete_network_fault_control b sid result))
     \<and> same_native b (snd (complete_network_fault_control b sid result))
     \<and> same_streams b (snd (complete_network_fault_control b sid result))"
    "same_public b (set_network_fault_lease b sid lease)
     \<and> same_native b (set_network_fault_lease b sid lease)
     \<and> same_streams b (set_network_fault_lease b sid lease)"
    "same_public b (snd (clear_network_fault_lease b sid i))
     \<and> same_native b (snd (clear_network_fault_lease b sid i))
     \<and> same_streams b (snd (clear_network_fault_lease b sid i))"
  by (auto simp: enqueue_network_fault_control_def take_network_fault_controls_def Let_def
      claim_network_fault_control_def complete_network_fault_control_def set_network_fault_lease_def
      clear_network_fault_lease_def same_defs put_simps split: option.splits prod.splits)

lemma enqueue_private_capture_same:
  "same_native b (snd (enqueue_private_capture b sid kind data i now))
   \<and> same_streams b (snd (enqueue_private_capture b sid kind data i now))
   \<and> queued (snd (enqueue_private_capture b sid kind data i now)) = queued b
   \<and> inflight (snd (enqueue_private_capture b sid kind data i now)) = inflight b
   \<and> capture_ids (snd (enqueue_private_capture b sid kind data i now)) s
       \<subseteq> capture_ids b s \<union> (if s = sid then {i} else {})"
  by (auto simp: enqueue_private_capture_def Let_def same_defs put_simps)
    (auto simp: capture_ids_def dest!: subsetD [OF set_push_bounded])

lemma take_captures_same:
  "same_native b (snd (take_internal_capture_actions b sid limit))
   \<and> same_streams b (snd (take_internal_capture_actions b sid limit))
   \<and> queued (snd (take_internal_capture_actions b sid limit)) = queued b
   \<and> inflight (snd (take_internal_capture_actions b sid limit)) = inflight b
   \<and> capture_ids (snd (take_internal_capture_actions b sid limit)) s \<subseteq> capture_ids b s"
proof (cases "bb_sessions b sid")
  case (Some st)
  then show ?thesis
    by (auto simp: take_internal_capture_actions_def drain_actions_def Let_def fold_push_bounded
        same_defs put_simps split: prod.splits dest: in_set_takeD)
      (auto simp: capture_ids_def session_or_default_Some dest!: in_set_dropD in_set_takeD
          subsetD [OF set_kept])
qed (simp add: take_internal_capture_actions_def)

lemma ingest_same:
  "same_native b (snd (base_ingest_collect b batch)) \<and> same_public b (snd (base_ingest_collect b batch))"
  by (auto simp: base_ingest_collect_eq same_defs put_simps session_before_def Let_def)

text \<open>The part of a session that completing an action leaves alone.\<close>

definition queues_kept :: "session_bridge_state \<Rightarrow> session_bridge_state \<Rightarrow> bool" where
  "queues_kept st st' \<longleftrightarrow> sb_actions st' = sb_actions st \<and> sb_inflight st' = sb_inflight st
     \<and> sb_capture_actions st' = sb_capture_actions st \<and> sb_capture_inflight st' = sb_capture_inflight st
     \<and> sb_native_requests st' = sb_native_requests st \<and> sb_native_inflight st' = sb_native_inflight st
     \<and> sb_native_claimed st' = sb_native_claimed st \<and> sb_generation st' = sb_generation st
     \<and> sb_last_seq st' = sb_last_seq st \<and> sb_events st' = sb_events st"

lemma queues_kept_put:
  "queues_kept (session_or_default b sid) st \<Longrightarrow>
     same_public b (put_session b sid st) \<and> same_native b (put_session b sid st)
     \<and> same_streams b (put_session b sid st)"
  by (simp add: queues_kept_def same_defs put_simps)

lemma complete_steps_kept:
  "queues_kept st (remove_claimed_for_scope scope i st)"
  "queues_kept st (snd (take_claimed_by_id i st))"
  "queues_kept st (close_boundary sid c now completed st)"
  by (cases scope) (auto simp: queues_kept_def take_claimed_by_id_def close_boundary_def
      split: option.split action_scope.split)

lemma complete_same:
  "same_public b (complete_action url_parse b origin result now)
   \<and> same_native b (complete_action url_parse b origin result now)
   \<and> same_streams b (complete_action url_parse b origin result now)"
proof -
  have "\<exists>sid st. complete_action url_parse b origin result now = put_session b sid st
      \<and> queues_kept (session_or_default b sid) st"
  proof (cases origin)
    case (OriginSession sid)
    let ?st = "session_or_default b sid"
    obtain completed st1 where t: "take_claimed_by_id (bar_action_id result) ?st = (completed, st1)"
      by (cases "take_claimed_by_id (bar_action_id result) ?st")
    have "queues_kept ?st (close_boundary sid (bb_result_capacity b) now completed st1)"
      using complete_steps_kept (2) [of ?st "bar_action_id result"]
        complete_steps_kept (3) [of st1 sid "bb_result_capacity b" now completed] t
      by (simp add: queues_kept_def)
    with OriginSession t show ?thesis
      by (auto simp: complete_action_def Let_def queues_kept_def intro!: exI split: option.split action_scope.split)
  next
    case (OriginAction x)
    let ?st = "session_or_default b (act_session_id x)"
    let ?st1 = "remove_claimed_for_scope (scope_of_action x) (act_id x) ?st"
    have "queues_kept ?st (close_boundary (act_session_id x) (bb_result_capacity b) now
        (Some (x, scope_of_action x)) ?st1)"
      using complete_steps_kept (1) [of ?st "scope_of_action x" "act_id x"]
        complete_steps_kept (3) [of ?st1 "act_session_id x" "bb_result_capacity b" now "Some (x, scope_of_action x)"]
      by (simp add: queues_kept_def)
    with OriginAction show ?thesis
      by (auto simp: complete_action_def Let_def queues_kept_def intro!: exI split: action_scope.split)
  qed
  then obtain sid st where "complete_action url_parse b origin result now = put_session b sid st"
    "queues_kept (session_or_default b sid) st" by blast
  with queues_kept_put show ?thesis by simp
qed

section \<open>The invariant of the bridge\<close>

definition bridge_ok :: "cancellable_bridge \<Rightarrow> bool" where
  "bridge_ok b \<longleftrightarrow> delivery_ok b \<and> captures_ok b \<and> requests_ok b \<and> streams_ok (cb_base b)"

definition bridge_moves ::
  "(session_id \<times> uuid) set \<Rightarrow> (session_id \<times> uuid) set \<Rightarrow> cancellable_bridge \<Rightarrow> cancellable_bridge \<Rightarrow> bool"
  where
  "bridge_moves P N b b' \<longleftrightarrow> bridge_ok b' \<and> public_moves P b b' \<and> native_moves N b b'"

text \<open>An operation on public actions.\<close>

lemma public_bridge_moves:
  assumes ok: "bridge_ok b" and moves: "public_moves P b b'"
    and captures: "\<And>sid. capture_ids (cb_base b') sid \<subseteq> capture_ids (cb_base b) sid"
      "\<And>sid i. (sid, i) \<in> P \<Longrightarrow> i \<notin> capture_ids (cb_base b') sid"
    and rest: "cb_native b' = cb_native b" "cb_action_capacity b' = cb_action_capacity b"
      "same_native (cb_base b) (cb_base b')" "same_streams (cb_base b) (cb_base b')"
  shows "bridge_moves P {} b b'"
proof -
  have "captures_ok b'"
    by (rule captures_ok_step [OF _ moves]) (use ok captures in \<open>auto simp: bridge_ok_def\<close>)
  moreover have "native_moves {} b b'"
    using ok rest by (intro native_moves_same) (simp_all add: bridge_ok_def same_native_def)
  moreover have "streams_ok (cb_base b')"
    using streams_ok_same [OF rest (4)] ok by (simp add: bridge_ok_def)
  ultimately show ?thesis using moves
    by (simp add: bridge_moves_def bridge_ok_def public_moves_def native_moves_def)
qed

text \<open>An operation on native requests.\<close>

lemma native_bridge_moves:
  assumes ok: "bridge_ok b" and moves: "native_moves N b b'"
    and rest: "cb_actions b' = cb_actions b" "cb_action_capacity b' = cb_action_capacity b"
      "same_public (cb_base b) (cb_base b')" "same_streams (cb_base b) (cb_base b')"
  shows "bridge_moves {} N b b'"
proof -
  have public: "public_moves {} b b'"
    using ok rest by (intro public_moves_same) (simp_all add: bridge_ok_def same_public_def)
  moreover have "captures_ok b'"
    using ok rest by (simp add: bridge_ok_def captures_ok_def same_public_def)
  moreover have "streams_ok (cb_base b')"
    using streams_ok_same [OF rest (4)] ok by (simp add: bridge_ok_def)
  ultimately show ?thesis using moves
    by (simp add: bridge_moves_def bridge_ok_def public_moves_def native_moves_def)
qed

text \<open>An operation of the base bridge that keeps both.\<close>

lemma base_bridge_moves:
  assumes ok: "bridge_ok b"
    and base: "same_native (cb_base b) base" "queued base = queued (cb_base b)"
      "inflight base = inflight (cb_base b)" "streams_ok base"
    and captures: "\<And>sid i. i \<in> capture_ids base sid \<Longrightarrow>
      i \<in> capture_ids (cb_base b) sid \<or> action_entry (cb_actions b) (sid, i) = None"
  shows "bridge_moves {} {} b (b\<lparr>cb_base := base\<rparr>)"
proof -
  have "public_moves {} b (b\<lparr>cb_base := base\<rparr>)"
    using ok base by (intro public_moves_same) (simp_all add: bridge_ok_def same_native_def)
  moreover have "captures_ok (b\<lparr>cb_base := base\<rparr>)"
    using ok captures by (fastforce simp: bridge_ok_def captures_ok_def)
  moreover have "native_moves {} b (b\<lparr>cb_base := base\<rparr>)"
    using ok base by (intro native_moves_same) (simp_all add: bridge_ok_def same_native_def)
  ultimately show ?thesis using base
    by (simp add: bridge_moves_def bridge_ok_def public_moves_def native_moves_def)
qed

lemma on_base_moves:
  assumes ok: "bridge_ok b" and same: "same_public (cb_base b) (snd (f (cb_base b)))
     \<and> same_native (cb_base b) (snd (f (cb_base b))) \<and> same_streams (cb_base b) (snd (f (cb_base b)))"
  shows "bridge_moves {} {} b (on_base f b)"
  unfolding on_base_def using ok same
  by (intro base_bridge_moves) (auto simp: same_public_def bridge_ok_def intro: streams_ok_same)

section \<open>Every operation\<close>

lemma enqueue_bridge_moves:
  assumes ok: "bridge_ok b" and fresh: "fresh_op (OpEnqueue sid reference kind i now) b"
  shows "bridge_moves {(sid, i)} {} b (snd (enqueue_action b sid reference kind i now))"
proof (cases "is_internal_capture_action kind")
  case False
  have b': "cb_base (snd (enqueue_action b sid reference kind i now))
      = snd (base_enqueue_action (cb_base b) sid reference kind i now)"
    by (simp add: enqueue_action_def split: prod.split)
  have ids: "capture_ids (snd (base_enqueue_action (cb_base b) sid reference kind i now))
      = capture_ids (cb_base b)"
    using base_enqueue_action_same (2) False by blast
  show ?thesis
    using ok fresh base_enqueue_action_same (1) [of "cb_base b" sid reference kind i now]
    by (intro public_bridge_moves [OF ok enqueue_action_moves])
      (auto simp: b' ids bridge_ok_def, simp_all add: enqueue_action_def split: prod.splits)
next
  case True
  then have b': "snd (enqueue_action b sid reference kind i now)
      = b\<lparr>cb_base := snd (base_enqueue_action (cb_base b) sid reference kind i now)\<rparr>"
    by (simp add: enqueue_action_def split: prod.split)
  have same: "queued (snd (base_enqueue_action (cb_base b) sid reference kind i now)) = queued (cb_base b)"
    "inflight (snd (base_enqueue_action (cb_base b) sid reference kind i now)) = inflight (cb_base b)"
    using True by (auto simp: base_enqueue_action_def Let_def put_simps)
  have "bridge_moves {} {} b (snd (enqueue_action b sid reference kind i now))"
    unfolding b'
  proof (rule base_bridge_moves [OF ok])
    show "streams_ok (snd (base_enqueue_action (cb_base b) sid reference kind i now))"
      using base_enqueue_action_same (1) ok by (meson bridge_ok_def streams_ok_same)
    fix s j
    assume "j \<in> capture_ids (snd (base_enqueue_action (cb_base b) sid reference kind i now)) s"
    with capture_ids_enqueued [of "cb_base b" sid reference kind i now s] fresh
    show "j \<in> capture_ids (cb_base b) s \<or> action_entry (cb_actions b) (s, j) = None"
      by (auto split: if_splits)
  qed (use same base_enqueue_action_same (1) in blast)+
  then show ?thesis by (simp add: bridge_moves_def public_moves_def)
qed

lemma prebound_bridge_moves:
  assumes ok: "bridge_ok b"
  shows "bridge_moves {(act_session_id x, act_id x)} {} b (snd (enqueue_prebound_public_action b x))"
proof (cases "fst (enqueue_prebound_public_action b x)")
  case True
  then have base: "cb_base (snd (enqueue_prebound_public_action b x))
      = snd (base_enqueue_prebound_public_action (cb_base b) x)"
    and seen: "\<not> action_id_seen (session_or_default (cb_base b) (act_session_id x)) (act_id x)"
    by (auto simp: enqueue_prebound_public_action_def base_enqueue_prebound_public_action_def Let_def
        split: if_splits)
  have "act_id x \<notin> capture_ids (cb_base b) (act_session_id x)"
    using seen by (auto simp: capture_ids_def action_id_seen_def list_ex_iff)
  then show ?thesis using ok base_prebound_same [of "cb_base b" x]
    by (intro public_bridge_moves [OF ok enqueue_prebound_moves])
      (auto simp: base bridge_ok_def, simp_all add: enqueue_prebound_public_action_def split: prod.splits)
next
  case False
  have "snd (enqueue_prebound_public_action b x) = b \<or> snd (enqueue_prebound_public_action b x)
      = b\<lparr>cb_base := put_session (cb_base b) (act_session_id x)
          (session_or_default (cb_base b) (act_session_id x))\<rparr>"
    using False by (auto simp: enqueue_prebound_public_action_def base_enqueue_prebound_public_action_def
        Let_def split: if_splits)
  moreover have "bridge_moves {} {} b (b\<lparr>cb_base := put_session (cb_base b) (act_session_id x)
      (session_or_default (cb_base b) (act_session_id x))\<rparr>)"
    using ok streams_ok_same [of "cb_base b" "put_session (cb_base b) (act_session_id x)
      (session_or_default (cb_base b) (act_session_id x))"]
    by (intro base_bridge_moves) (auto simp: same_defs put_simps bridge_ok_def)
  moreover have "bridge_moves {} {} b b"
    using ok by (simp add: bridge_moves_def bridge_ok_def public_moves_def native_moves_def)
  ultimately show ?thesis by (auto simp: bridge_moves_def public_moves_def)
qed

lemma take_bridge_moves:
  assumes ok: "bridge_ok b"
  shows "bridge_moves {} {} b (snd (take_public_actions b sid limit now))"
proof -
  obtain taken base where take: "base_take_public_actions (cb_base b) sid limit now = (taken, base)" by force
  obtain d c a where sort: "sort_taken_actions sid taken (cb_actions b) = (d, c, a)" by (metis prod_cases3)
  have b': "snd (take_public_actions b sid limit now) = b\<lparr>cb_base :=
      fold (\<lambda>i base. snd (base_discard_public_action base sid i)) c base, cb_actions := action_prune a\<rparr>"
    using take sort by (simp add: take_public_actions_def)
  have same: "same_native (cb_base b) (cb_base (snd (take_public_actions b sid limit now)))
      \<and> same_streams (cb_base b) (cb_base (snd (take_public_actions b sid limit now)))
      \<and> capture_ids (cb_base (snd (take_public_actions b sid limit now))) = capture_ids (cb_base b)"
    using base_take_same [of "cb_base b" sid limit now] base_discards_same [of base sid c] take
    by (auto simp: b' intro: same_trans)
  show ?thesis
    by (rule public_bridge_moves [OF ok take_public_actions_moves])
      (use ok same in \<open>auto simp: bridge_ok_def b'\<close>)
qed

lemma claim_bridge_moves:
  assumes ok: "bridge_ok b"
  shows "bridge_moves {} {} b (snd (claim_action b sid i))"
proof -
  have claim: "public_moves {} b (snd (claim_action b sid i))"
    "\<And>s. capture_ids (cb_base (snd (claim_action b sid i))) s \<subseteq> capture_ids (cb_base b) s"
    using claim_action_moves ok by (auto simp: bridge_ok_def)
  have "same_native (cb_base b) (cb_base (snd (claim_action b sid i)))
      \<and> same_streams (cb_base b) (cb_base (snd (claim_action b sid i)))"
    using base_claim_same [of "cb_base b" sid i]
    by (auto simp: claim_action_def split: option.splits prod.splits)
  then show ?thesis
    by (intro public_bridge_moves [OF ok claim])
      (auto simp: claim_action_def split: option.splits prod.splits)
qed

lemma cancel_bridge_moves:
  assumes ok: "bridge_ok b"
  shows "bridge_moves {} {} b (snd (request_action_cancellation b sid i now))"
proof -
  have "cb_base (snd (request_action_cancellation b sid i now)) = cb_base b
    \<and> cb_native (snd (request_action_cancellation b sid i now)) = cb_native b
    \<and> cb_action_capacity (snd (request_action_cancellation b sid i now)) = cb_action_capacity b"
    by (auto simp: request_action_cancellation_def Let_def split: option.splits action_lifecycle.splits)
  with ok show ?thesis
    by (intro public_bridge_moves [OF ok request_action_cancellation_moves]) (auto simp: bridge_ok_def)
qed

lemma acknowledge_bridge_moves:
  assumes ok: "bridge_ok b"
  shows "bridge_moves {} {} b (snd (acknowledge_action_cancellation b sid i now))"
proof -
  let ?b = "snd (acknowledge_action_cancellation b sid i now)"
  have "(cb_base ?b = cb_base b \<or> cb_base ?b = snd (base_discard_public_action (cb_base b) sid i))
    \<and> cb_native ?b = cb_native b \<and> cb_action_capacity ?b = cb_action_capacity b"
    by (auto simp: acknowledge_action_cancellation_def split: option.splits action_lifecycle.splits)
  with ok base_discard_same [of "cb_base b" sid i] show ?thesis
    by (intro public_bridge_moves [OF ok acknowledge_action_cancellation_moves])
      (auto simp: bridge_ok_def)
qed

lemma discard_bridge_moves:
  assumes ok: "bridge_ok b"
  shows "bridge_moves {} {} b (on_base (\<lambda>base. base_discard_public_action base sid i) b)"
  unfolding on_base_def using ok base_discard_same [of "cb_base b" sid i]
  by (intro public_bridge_moves [OF ok discard_public_action_moves]) (auto simp: bridge_ok_def)

lemma discard_all_bridge_moves:
  assumes ok: "bridge_ok b"
  shows "bridge_moves {} {} b (snd (discard_public_actions_for_session b sid))"
  using ok base_discard_all_same [of "cb_base b" sid]
  by (intro public_bridge_moves [OF ok discard_public_actions_for_session_moves])
    (auto simp: bridge_ok_def discard_public_actions_for_session_def split: prod.splits)

lemma native_ops_bridge_moves:
  assumes ok: "bridge_ok b"
  shows "native_entry (cb_native b) (sid, i) = None \<Longrightarrow>
      bridge_moves {} {(sid, i)} b (snd (enqueue_native_executor b sid action i now))"
    "bridge_moves {} {} b (snd (claim_native_executor b sid i))"
    "bridge_moves {} {} b (snd (complete_native_executor plen b sid result))"
    "bridge_moves {} {} b (snd (request_native_executor_cancellation b sid i now))"
    "bridge_moves {} {} b (snd (acknowledge_native_executor_cancellation plen b sid i now))"
    "bridge_moves {} {} b (snd (expire_native_executor_active_before b sid cutoff))"
proof -
  have req: "requests_ok b" using ok by (simp add: bridge_ok_def)
  show "bridge_moves {} {(sid, i)} b (snd (enqueue_native_executor b sid action i now))"
    if "native_entry (cb_native b) (sid, i) = None"
    using base_native_same (1) [of "cb_base b" sid action i now]
    by (intro native_bridge_moves [OF ok enqueue_native_moves [OF req that]])
      (auto simp: enqueue_native_executor_def split: prod.splits)
  show "bridge_moves {} {} b (snd (claim_native_executor b sid i))"
    using base_native_same (3) [of "cb_base b" sid i]
    by (intro native_bridge_moves [OF ok claim_native_moves [OF req]])
      (auto simp: claim_native_executor_def split: prod.splits option.splits)
  show "bridge_moves {} {} b (snd (complete_native_executor plen b sid result))"
    using base_native_same (4) [of "cb_base b" plen sid result]
    by (intro native_bridge_moves [OF ok complete_native_moves [OF req]])
      (auto simp: complete_native_executor_def Let_def split: prod.splits option.splits)
  show "bridge_moves {} {} b (snd (request_native_executor_cancellation b sid i now))"
    by (intro native_bridge_moves [OF ok request_native_cancellation_moves [OF req]])
      (auto simp: request_native_executor_cancellation_def Let_def
        split: option.splits native_lifecycle.splits)
  show "bridge_moves {} {} b (snd (acknowledge_native_executor_cancellation plen b sid i now))"
    using settle_same [of "cb_base b" plen sid i "''native executor cancellation acknowledged''" now]
    by (intro native_bridge_moves [OF ok acknowledge_native_moves [OF req]])
      (auto simp: acknowledge_native_executor_cancellation_def
        split: option.splits native_lifecycle.splits prod.splits)
  show "bridge_moves {} {} b (snd (expire_native_executor_active_before b sid cutoff))"
    using base_native_same (5) [of "cb_base b" sid cutoff]
    by (intro native_bridge_moves [OF ok expire_native_moves (1) [OF req]])
      (auto simp: expire_native_executor_active_before_def split: prod.splits)
qed

lemma take_native_bridge_moves:
  assumes ok: "bridge_ok b"
  shows "bridge_moves {} {} b (snd (take_native_executor_requests plen b sid limit now))"
proof -
  obtain taken base where take: "base_take_native_executor_requests (cb_base b) sid limit = (taken, base)"
    by force
  obtain d c a where sort: "sort_taken_requests sid taken (cb_native b) = (d, c, a)" by (metis prod_cases3)
  define b' where "b' = b\<lparr>cb_base := fold (\<lambda>r base. snd (settle_cancelled_origin plen base sid (ner_id r)
      ''cancelled before native dispatch'' now)) c base, cb_native := native_prune a\<rparr>"
  have call: "take_native_executor_requests plen b sid limit now = (d, b')"
    using take sort by (simp add: take_native_executor_requests_def b'_def)
  have req: "requests_ok b" using ok by (simp add: bridge_ok_def)
  have "same_public (cb_base b) (cb_base b') \<and> same_streams (cb_base b) (cb_base b')"
    using base_native_same (2) [of "cb_base b" sid limit] take
      settles_same [of base plen sid "''cancelled before native dispatch''" now c]
    by (auto simp: b'_def intro: same_trans)
  with take_native_spec [OF req call] show ?thesis
    unfolding call snd_conv by (intro native_bridge_moves [OF ok]) auto
qed

lemma release_bridge_moves:
  assumes ok: "bridge_ok b"
  shows "bridge_moves {} {} b (release_session b sid)"
proof -
  have public: "public_moves {} b (release_session b sid)"
    and native: "native_moves {} b (release_session b sid)"
    using ok release_session_moves release_session_native_moves by (auto simp: bridge_ok_def)
  have "capture_ids (cb_base (release_session b sid)) s \<subseteq> capture_ids (cb_base b) s" for s
    by (auto simp: release_session_def base_release_session_def capture_ids_def session_or_default_def
        empty_session_def)
  then have "captures_ok (release_session b sid)"
    using ok by (intro captures_ok_step [OF _ public]) (auto simp: bridge_ok_def)
  moreover have "streams_ok (cb_base (release_session b sid))"
    using ok by (auto simp: bridge_ok_def streams_ok_def release_session_def base_release_session_def)
  ultimately show ?thesis using public native
    by (simp add: bridge_moves_def bridge_ok_def public_moves_def native_moves_def)
qed

lemma capture_bridge_moves:
  assumes ok: "bridge_ok b" and fresh: "action_entry (cb_actions b) (sid, i) = None"
  shows "bridge_moves {} {} b (on_base (\<lambda>base. enqueue_private_capture base sid kind data i now) b)"
  unfolding on_base_def
proof (rule base_bridge_moves [OF ok])
  note same = enqueue_private_capture_same [of "cb_base b" sid kind data i now]
  show "streams_ok (snd (enqueue_private_capture (cb_base b) sid kind data i now))"
    using same ok streams_ok_same by (auto simp: bridge_ok_def)
  fix s j assume "j \<in> capture_ids (snd (enqueue_private_capture (cb_base b) sid kind data i now)) s"
  with same [of s] fresh show "j \<in> capture_ids (cb_base b) s \<or> action_entry (cb_actions b) (s, j) = None"
    by (auto split: if_splits)
qed (use enqueue_private_capture_same in blast)+

lemma take_captures_bridge_moves:
  assumes ok: "bridge_ok b"
  shows "bridge_moves {} {} b (on_base (\<lambda>base. take_internal_capture_actions base sid limit) b)"
  unfolding on_base_def
proof (rule base_bridge_moves [OF ok])
  show "streams_ok (snd (take_internal_capture_actions (cb_base b) sid limit))"
    using take_captures_same [of "cb_base b" sid limit] ok streams_ok_same by (auto simp: bridge_ok_def)
qed (use take_captures_same in blast)+

lemma ingest_bridge_moves:
  assumes ok: "bridge_ok b"
  shows "bridge_moves {} {} b (on_base (\<lambda>base. base_ingest_collect base batch) b)"
  unfolding on_base_def
proof (rule base_bridge_moves [OF ok])
  show "streams_ok (snd (base_ingest_collect (cb_base b) batch))"
    using ok by (simp add: bridge_ok_def base_ingest_collect_ok)
qed (use ingest_same [of "cb_base b" batch] in \<open>auto simp: same_public_def\<close>)

theorem run_op_moves:
  assumes ok: "bridge_ok b" and fresh: "fresh_op op b"
  shows "bridge_moves (public_keys op) (native_keys op) b (run_op plen op b)"
proof (cases op)
  case (OpEnqueue sid reference kind i now)
  with enqueue_bridge_moves [OF ok fresh [unfolded OpEnqueue]] show ?thesis by simp
next
  case (OpCaptureFreeze sid selectors lease i now)
  with fresh show ?thesis
    by (simp add: enqueue_capture_freeze_with_lease_def capture_bridge_moves [OF ok])
next
  case (OpCaptureTileProbe sid token selectors i now)
  with fresh show ?thesis
    by (simp add: enqueue_capture_tile_probe_def capture_bridge_moves [OF ok])
next
  case (OpEnqueueNative sid action i now)
  with fresh native_ops_bridge_moves (1) [OF ok] show ?thesis by simp
next
  case (OpSetLease sid lease)
  have "set_network_fault_lease (cb_base b) sid lease
      = snd ((\<lambda>base. ((), set_network_fault_lease base sid lease)) (cb_base b))" by simp
  with OpSetLease on_base_moves [OF ok, of "\<lambda>base. ((), set_network_fault_lease base sid lease)"]
    base_fault_same (5) [of "cb_base b" sid lease] show ?thesis by (simp add: on_base_def)
next
  case (OpComplete origin result now url_parse)
  with on_base_moves [OF ok, of "\<lambda>base. ((), complete_action url_parse base origin result now)"]
    complete_same [of "cb_base b" url_parse origin result now] show ?thesis by (simp add: on_base_def)
qed (use ok in \<open>simp_all add: prebound_bridge_moves take_bridge_moves claim_bridge_moves
    cancel_bridge_moves acknowledge_bridge_moves discard_bridge_moves discard_all_bridge_moves
    native_ops_bridge_moves take_native_bridge_moves release_bridge_moves ingest_bridge_moves
    take_captures_bridge_moves on_base_moves base_fault_same\<close>)

lemma run_op_ok: "bridge_ok b \<Longrightarrow> fresh_op op b \<Longrightarrow> bridge_ok (run_op plen op b)"
  using run_op_moves by (simp add: bridge_moves_def)

lemma run_ops_ok: "bridge_ok b \<Longrightarrow> fresh_run plen ops b \<Longrightarrow> bridge_ok (run_ops plen ops b)"
  by (induction ops arbitrary: b) (simp_all add: run_op_ok)

lemma new_bridge_ok: "bridge_ok (cancellable_new ec ac)"
  by (simp add: bridge_ok_def cancellable_new_def Let_def delivery_ok_def requests_ok_def captures_ok_def
      streams_ok_def base_new_def public_ok_def native_ok_def public_queue.mirrors_def
      public_queue.queue_known_def native_request_queue.mirrors_def native_request_queue.queue_known_def
      queued_def inflight_def waiting_def active_def capture_ids_def session_or_default_def
      empty_session_def action_authority_default_def native_authority_default_def action_queue_def
      native_queue_def action_entry_def native_entry_def min_native_executor_capacity_def
      less_max_iff_disj)

end
