(* ===== verification/Delivery_Properties.thy ===== *)
theory Delivery_Properties
  imports Bridge_Run
begin

text \<open>
  The properties of delivery and cancellation, over any run of the cancellable bridge from
  its creation in which the identifiers that are drawn are fresh, and the runs that
  witness them.
\<close>

section \<open>Reachable bridges\<close>

definition reachable :: "(json \<Rightarrow> nat option) \<Rightarrow> cancellable_bridge \<Rightarrow> bool" where
  "reachable plen b \<longleftrightarrow>
     (\<exists>ec ac ops. fresh_run plen ops (cancellable_new ec ac) \<and> b = run_ops plen ops (cancellable_new ec ac))"

lemma reachable_ok: "reachable plen b \<Longrightarrow> bridge_ok b"
  by (auto simp: reachable_def intro: run_ops_ok new_bridge_ok)

lemma reachableI: "fresh_run plen ops (cancellable_new ec ac) \<Longrightarrow> b = run_ops plen ops (cancellable_new ec ac)
    \<Longrightarrow> reachable plen b"
  unfolding reachable_def by blast

lemma bridge_movesD:
  "bridge_moves P N b b' \<Longrightarrow> bridge_ok b'"
  "bridge_moves P N b b' \<Longrightarrow> key \<notin> P \<Longrightarrow>
     lifecycle_edge (action_entry (cb_actions b) key) (action_entry (cb_actions b') key)"
  "bridge_moves P N b b' \<Longrightarrow> key \<notin> N \<Longrightarrow>
     native_edge (native_entry (cb_native b) key) (native_entry (cb_native b') key)"
  unfolding bridge_moves_def public_moves_def native_moves_def by blast+

lemma run_ops_moves:
  assumes "bridge_ok b" "fresh_run plen ops b" "\<forall>op \<in> set ops. key \<notin> public_keys op"
    and "action_entry (cb_actions b) key \<in> {None, Some ACancelled}"
  shows "action_entry (cb_actions (run_ops plen ops b)) key \<in> {None, Some ACancelled}"
  using assms
proof (induction ops arbitrary: b)
  case (Cons op ops)
  have moves: "bridge_moves (public_keys op) (native_keys op) b (run_op plen op b)"
    using Cons.prems by (intro run_op_moves) auto
  then have "lifecycle_edge (action_entry (cb_actions b) key) (action_entry (cb_actions (run_op plen op b)) key)"
    using Cons.prems (3) by (intro bridge_movesD (2) [OF moves]) simp
  then have "action_entry (cb_actions (run_op plen op b)) key \<in> {None, Some ACancelled}"
    using Cons.prems (4) by (cases "action_entry (cb_actions (run_op plen op b)) key") auto
  with Cons.IH [of "run_op plen op b"] Cons.prems moves show ?case by (simp add: bridge_moves_def)
qed simp

text \<open>What is neither queued nor in flight is neither delivered nor claimed.\<close>

lemma retired_not_delivered:
  assumes ok: "bridge_ok b" and retired: "action_entry (cb_actions b) (sid, i) \<in> {None, Some ACancelled}"
  shows "x \<in> set (fst (take_public_actions b sid limit now)) \<Longrightarrow> act_id x \<noteq> i"
    and "fst (claim_action b sid i) = Some x \<Longrightarrow> i \<in> capture_ids (cb_base b) sid"
proof -
  have dok: "delivery_ok b" using ok by (simp add: bridge_ok_def)
  note pub = delivery_okD (1) [OF dok]
  obtain out b' where call: "take_public_actions b sid limit now = (out, b')" by force
  note spec = take_public_actions_ok [OF dok call]
  show "act_id x \<noteq> i" if "x \<in> set (fst (take_public_actions b sid limit now))"
    using that retired by (auto simp: call spec (2) deliverable_def)
  have "i \<notin> act_id ` set (inflight (cb_base b) sid)"
    using public_okD (6) [OF pub] retired by fastforce
  then have inf: "take_first (\<lambda>a. act_id a = i) (sb_inflight (session_or_default (cb_base b) sid)) = None"
    by (auto simp: take_first_None inflight_def)
  assume claimed: "fst (claim_action b sid i) = Some x"
  then have base: "fst (base_claim_action (cb_base b) sid i) = Some x"
    using retired by (auto simp: claim_action_def action_entry_def split: option.splits prod.splits if_splits)
  then obtain st where st: "bb_sessions (cb_base b) sid = Some st"
    by (auto simp: base_claim_action_def split: option.splits)
  with base inf have "take_first (\<lambda>a. act_id a = i) (sb_capture_inflight st) \<noteq> None"
    by (auto simp: base_claim_action_def claim_from_scope_def session_or_default_Some split: option.splits)
  then show "i \<in> capture_ids (cb_base b) sid"
    using st by (auto simp: take_first_None capture_ids_def session_or_default_Some)
qed

section \<open>Demonstration runs\<close>

definition no_payload :: "json \<Rightarrow> nat option" where
  "no_payload j = Some 0"

definition click :: "uuid \<Rightarrow> bridge_op" where
  "click i = OpEnqueue 7 (Some ''@e1'') Click i 10"

definition capture :: "uuid \<Rightarrow> bridge_op" where
  "capture i = OpEnqueueNative 7 (VisualDiffCapture \<lparr>css_width = 1, css_height = 1,
     device_scale_factor = 0\<rparr> None) i 20"

text \<open>Three actions, of which the first is delivered; a request that is delivered.\<close>

definition demo_ops :: "bridge_op list" where
  "demo_ops = [click 1, click 2, click 3, OpTake 7 1 11, capture 4, OpTakeNative 7 1 21]"

definition demo_bridge :: cancellable_bridge where
  "demo_bridge = run_ops no_payload demo_ops (cancellable_new 32 8)"

lemma demo_fresh: "fresh_run no_payload demo_ops (cancellable_new 32 8)"
  by code_simp

lemma demo_reachable: "reachable no_payload demo_bridge"
  by (rule reachableI [OF demo_fresh demo_bridge_def])

section \<open>The properties\<close>

text \<open>C11. The invariant of the bridge. In every reachable state the queue a cancellation
  authority keeps for a session is the deque of the base bridge (for public actions and for
  native requests, through evictions, cancellation and session release); no action is queued
  or in flight twice; what is queued is pending or cancelled and what is in flight is in
  flight or asked to cancel; a native request is in flight or claimed exactly when its
  lifecycle entry says so; and every observer stream is strictly increasing, bounded, and
  ends at the sequence number the next event has to exceed.\<close>

theorem bridge_invariant:
  assumes "reachable plen b"
  shows "action_queue (cb_actions b) sid = map act_id (queued (cb_base b) sid)
    \<and> native_queue (cb_native b) sid = map ner_id (waiting (cb_base b) sid)
    \<and> distinct (map act_id (queued (cb_base b) sid @ inflight (cb_base b) sid))
    \<and> distinct (map ner_id (waiting (cb_base b) sid @ active (cb_base b) sid))
    \<and> (\<forall>x \<in> set (queued (cb_base b) sid).
         action_entry (cb_actions b) (sid, act_id x) \<in> {Some APending, Some ACancelled})
    \<and> (\<forall>x \<in> set (inflight (cb_base b) sid).
         action_entry (cb_actions b) (sid, act_id x) \<in> {Some AInflight, Some ACancellationRequested})
    \<and> (\<forall>i. native_entry (cb_native b) (sid, i) \<in> {Some NInflight, Some NCancellationRequested}
         \<longleftrightarrow> i \<in> ner_id ` set (active (cb_base b) sid))
    \<and> stream_ok (bb_event_capacity (cb_base b)) (session_or_default (cb_base b) sid)"
proof -
  have ok: "bridge_ok b" by (rule reachable_ok [OF assms])
  then have pub: "public_ok (cb_actions b) (queued (cb_base b)) (inflight (cb_base b))"
    and nat: "native_ok (cb_native b) (waiting (cb_base b)) (active (cb_base b))"
    and streams: "streams_ok (cb_base b)"
    by (auto simp: bridge_ok_def delivery_ok_def requests_ok_def)
  have "distinct (map act_id (queued (cb_base b) sid @ inflight (cb_base b) sid))"
    "distinct (map ner_id (waiting (cb_base b) sid @ active (cb_base b) sid))"
    using pub nat by (auto simp: public_ok_def native_ok_def)
  with public_okD (1,5,6) [OF pub] native_okD (1,6) [OF nat] streams
  show ?thesis by (simp add: streams_ok_alt)
qed

theorem bridge_invariant_witness:
  "map act_id (queued (cb_base demo_bridge) 7) = [2, 3]
   \<and> action_queue (cb_actions demo_bridge) 7 = [2, 3]
   \<and> map act_id (inflight (cb_base demo_bridge) 7) = [1]
   \<and> native_entry (cb_native demo_bridge) (7, 4) = Some NInflight"
proof -
  have "map act_id (queued (cb_base demo_bridge) 7) = [2, 3]" by code_simp
  moreover have "map act_id (inflight (cb_base demo_bridge) 7) = [1]" by code_simp
  moreover have "native_entry (cb_native demo_bridge) (7, 4) = Some NInflight" by code_simp
  ultimately show ?thesis
    using bridge_invariant [OF demo_reachable, of 7] by simp
qed

text \<open>C12. Cancelled work never runs. When an action was cancelled while it waited, or its
  cancellation was acknowledged after delivery, then in every later state (unless its id is
  enqueued anew) no take returns it, and a claim of its id returns at most an internal
  capture, never the public action.\<close>

theorem cancelled_action_never_runs:
  assumes "reachable plen b"
    and "request_action_cancellation b sid i now = (Some outcome, b') \<and> co_acknowledged outcome
      \<or> acknowledge_action_cancellation b sid i now = (True, b')"
    and "fresh_run plen ops b'" "\<forall>op \<in> set ops. (sid, i) \<notin> public_keys op"
  shows "(\<forall>x \<in> set (fst (take_public_actions (run_ops plen ops b') sid limit later)). act_id x \<noteq> i)
    \<and> (fst (claim_action (run_ops plen ops b') sid i) \<noteq> None \<longrightarrow>
        i \<in> capture_ids (cb_base (run_ops plen ops b')) sid)"
proof -
  have ok: "bridge_ok b" by (rule reachable_ok [OF assms(1)])
  have b': "bridge_ok b'"
    using assms (2) cancel_bridge_moves [OF ok, of sid i now] acknowledge_bridge_moves [OF ok, of sid i now]
    by (auto simp: bridge_moves_def)
  have "action_entry (action_mark_cancelled a (sid, i) t) (sid, i) \<in> {None, Some ACancelled}" for a t
    using public_queue.cancel_settles [of a "(sid, i)" t] by blast
  moreover have "(\<exists>t. cb_actions b' = action_mark_cancelled (cb_actions b) (sid, i) t)
      \<or> action_entry (cb_actions b') (sid, i) = Some ACancelled"
    using assms (2)
    by (auto simp: request_action_cancellation_def acknowledge_action_cancellation_def Let_def
        action_entry_def split: option.splits action_lifecycle.splits)
  ultimately have "action_entry (cb_actions b') (sid, i) \<in> {None, Some ACancelled}"
    by (metis insertCI)
  then have gone: "action_entry (cb_actions (run_ops plen ops b')) (sid, i) \<in> {None, Some ACancelled}"
    by (rule run_ops_moves [OF b' assms(3,4)])
  have ok': "bridge_ok (run_ops plen ops b')" by (rule run_ops_ok [OF b' assms(3)])
  show ?thesis using retired_not_delivered [OF ok' gone] by blast
qed

definition cancelled_demo :: cancellable_bridge where
  "cancelled_demo = snd (request_action_cancellation demo_bridge 7 2 12)"

theorem cancelled_action_never_runs_witness:
  "map act_id (fst (take_public_actions cancelled_demo 7 5 13)) = [3]
   \<and> 2 \<notin> act_id ` set (fst (take_public_actions
        (run_ops no_payload [OpTake 7 1 13] cancelled_demo) 7 5 14))"
proof -
  have "request_action_cancellation demo_bridge 7 2 12
      = (Some \<lparr>co_id = 2, co_state = CancelDone, co_acknowledged = True\<rparr>, cancelled_demo)"
  proof (rule prod_eqI)
    show "fst (request_action_cancellation demo_bridge 7 2 12)
        = fst (Some \<lparr>co_id = 2, co_state = CancelDone, co_acknowledged = True\<rparr>, cancelled_demo)"
      by code_simp
  qed (simp add: cancelled_demo_def)
  then have "2 \<notin> act_id ` set (fst (take_public_actions
      (run_ops no_payload [OpTake 7 1 13] cancelled_demo) 7 5 14))"
    using cancelled_action_never_runs [OF demo_reachable, of 7 2 12
      "\<lparr>co_id = 2, co_state = CancelDone, co_acknowledged = True\<rparr>" cancelled_demo "[OpTake 7 1 13]" 5 14]
    by (auto simp: image_iff)
  moreover have "map act_id (fst (take_public_actions cancelled_demo 7 5 13)) = [3]" by code_simp
  ultimately show ?thesis by blast
qed

text \<open>C13. A take is first in, first out: it drains the front of the session's queue, returns
  of it exactly the actions that are still pending, in their order, and leaves the rest of
  the queue as it was.\<close>

theorem take_delivers_pending_in_order:
  assumes "reachable plen b" and "take_public_actions b sid limit now = (out, b')"
  shows "out = filter (\<lambda>x. action_entry (cb_actions b) (sid, act_id x) = Some APending)
      (take limit (queued (cb_base b) sid))
    \<and> queued (cb_base b') = (queued (cb_base b))(sid := drop limit (queued (cb_base b) sid))
    \<and> (\<forall>x \<in> set out. action_entry (cb_actions b') (sid, act_id x) = Some AInflight)"
proof -
  have ok: "delivery_ok b" using reachable_ok [OF assms(1)] by (simp add: bridge_ok_def)
  note spec = take_public_actions_ok [OF ok assms(2)]
  have "action_entry (cb_actions b') (sid, act_id x) = Some AInflight" if "x \<in> set out" for x
    using spec (3) [of "(sid, act_id x)"] that by (auto simp: spec (2) deliverable_def)
  moreover have "queued (cb_base b') = (queued (cb_base b))(sid := drop limit (queued (cb_base b) sid))"
    by (rule spec (8))
  ultimately show ?thesis using spec (2) by (simp add: deliverable_def [abs_def])
qed

theorem take_delivers_pending_in_order_witness:
  "map act_id (fst (take_public_actions cancelled_demo 7 5 13)) = [3]
   \<and> queued (cb_base (snd (take_public_actions cancelled_demo 7 5 13))) 7 = []"
proof -
  have run: "fresh_run no_payload (demo_ops @ [OpCancel 7 2 12]) (cancellable_new 32 8)" by code_simp
  have "cancelled_demo = run_ops no_payload (demo_ops @ [OpCancel 7 2 12]) (cancellable_new 32 8)"
    by (simp add: cancelled_demo_def demo_bridge_def demo_ops_def)
  then have reach: "reachable no_payload cancelled_demo" by (rule reachableI [OF run])
  have "map act_id (fst (take_public_actions cancelled_demo 7 5 13)) = [3]" by code_simp
  moreover have "length (queued (cb_base cancelled_demo) 7) = 2" by code_simp
  ultimately show ?thesis
    using take_delivers_pending_in_order [OF reach prod.collapse [symmetric], of 7 5 13] by simp
qed



text \<open>C15. The lifecycle is an automaton. Every operation moves the entry of every public
  action, and of every native request, along an edge of the lifecycle (pending, in flight,
  cancellation requested, cancelled, forgotten), for every key that the operation does not
  itself enqueue; so nothing becomes pending again, and a cancelled entry is only ever
  forgotten.\<close>

theorem lifecycle_is_followed:
  assumes "reachable plen b" "fresh_op op b"
  shows "(key \<notin> public_keys op \<longrightarrow> lifecycle_edge (action_entry (cb_actions b) key)
      (action_entry (cb_actions (run_op plen op b)) key))
    \<and> (key \<notin> native_keys op \<longrightarrow> native_edge (native_entry (cb_native b) key)
      (native_entry (cb_native (run_op plen op b)) key))"
  using bridge_movesD (2,3) [OF run_op_moves [OF reachable_ok [OF assms(1)] assms(2)]] by auto

theorem lifecycle_is_followed_witness:
  "lifecycle_edge (action_entry (cb_actions demo_bridge) (7, 1))
     (action_entry (cb_actions (run_op no_payload (OpCancel 7 1 12) demo_bridge)) (7, 1))
   \<and> action_entry (cb_actions (run_op no_payload (OpCancel 7 1 12) demo_bridge)) (7, 1)
     = Some ACancellationRequested"
proof -
  have "action_entry (cb_actions (run_op no_payload (OpCancel 7 1 12) demo_bridge)) (7, 1)
      = Some ACancellationRequested" by code_simp
  with lifecycle_is_followed [OF demo_reachable, of "OpCancel 7 1 12" "(7, 1)"] show ?thesis by simp
qed

text \<open>Claiming and cancelling exclude each other. An action that is in flight and was not
  asked to cancel is claimed exactly, and after the claim its cancellation is refused as
  unknown; if its cancellation is requested first, it can no longer be claimed, and the
  executor sees the signal.\<close>

theorem claim_and_cancel_exclude:
  assumes "reachable plen b" and "x \<in> set (inflight (cb_base b) sid)"
    and "action_entry (cb_actions b) (sid, act_id x) = Some AInflight"
  shows "(\<exists>b1. claim_action b sid (act_id x) = (Some x, b1)
        \<and> act_id x \<notin> act_id ` set (inflight (cb_base b1) sid)
        \<and> request_action_cancellation b1 sid (act_id x) now = (None, b1))
    \<and> (\<exists>b2. request_action_cancellation b sid (act_id x) now
          = (Some \<lparr>co_id = act_id x, co_state = CancelRequested, co_acknowledged = False\<rparr>, b2)
        \<and> claim_action b2 sid (act_id x) = (None, b2)
        \<and> action_cancellation b2 sid (act_id x) = Some \<lparr>cs_id = act_id x, cs_requested_at = now\<rparr>)"
proof
  have ok: "bridge_ok b" by (rule reachable_ok [OF assms(1)])
  then have pub: "public_ok (cb_actions b) (queued (cb_base b)) (inflight (cb_base b))"
    and cap: "captures_ok b" by (simp_all add: bridge_ok_def delivery_ok_def)
  note facts = public_okD [OF pub, where sid = sid]
  obtain entry where entry: "ac_entries (cb_actions b) (sid, act_id x) = Some entry" "ac_state entry = AInflight"
    using assms (3) by (auto simp: action_entry_def)
  have nocap: "act_id x \<notin> capture_ids (cb_base b) sid" using cap assms (3) by (auto simp: captures_ok_def)
  obtain claimed base where call: "base_claim_action (cb_base b) sid (act_id x) = (claimed, base)" by force
  note claim = base_claim_public [OF call facts (3) nocap]
  have "inj_on act_id (set (inflight (cb_base b) sid))" using facts (3) by (simp add: distinct_map)
  then have "find (\<lambda>y. act_id y = act_id x) (inflight (cb_base b) sid) = Some x"
    using assms (2) find_id_None [of act_id "act_id x"] find_id_Some [of act_id "act_id x"]
    by (cases "find (\<lambda>y. act_id y = act_id x) (inflight (cb_base b) sid)") (auto dest: inj_onD)
  then have claimed: "claimed = Some x" using claim (1) by simp
  define b1 where "b1 = b\<lparr>cb_base := base, cb_actions := action_remove (cb_actions b) (sid, act_id x)\<rparr>"
  have "claim_action b sid (act_id x) = (Some x, b1)"
    using entry call claimed by (simp add: claim_action_def b1_def)
  moreover have "ac_entries (cb_actions b1) (sid, act_id x) = None"
    using action_remove_spec (1) [of "cb_actions b" "(sid, act_id x)" "(sid, act_id x)"]
    by (simp add: action_entry_def b1_def)
  moreover have "act_id x \<notin> act_id ` set (inflight (cb_base b1) sid)" using claim (3) by (auto simp: b1_def)
  ultimately show "\<exists>b1. claim_action b sid (act_id x) = (Some x, b1)
        \<and> act_id x \<notin> act_id ` set (inflight (cb_base b1) sid)
        \<and> request_action_cancellation b1 sid (act_id x) now = (None, b1)"
    by (auto simp: request_action_cancellation_def)
  show "\<exists>b2. request_action_cancellation b sid (act_id x) now
          = (Some \<lparr>co_id = act_id x, co_state = CancelRequested, co_acknowledged = False\<rparr>, b2)
        \<and> claim_action b2 sid (act_id x) = (None, b2)
        \<and> action_cancellation b2 sid (act_id x) = Some \<lparr>cs_id = act_id x, cs_requested_at = now\<rparr>"
    using entry by (auto simp: request_action_cancellation_def Let_def claim_action_def action_cancellation_def)
qed

theorem claim_and_cancel_exclude_witness:
  "\<exists>x b1. act_id x = 1 \<and> claim_action demo_bridge 7 1 = (Some x, b1)
     \<and> request_action_cancellation b1 7 1 12 = (None, b1)"
proof -
  obtain x where x: "inflight (cb_base demo_bridge) 7 = [x]" "act_id x = 1"
  proof -
    have "map act_id (inflight (cb_base demo_bridge) 7) = [1]" by code_simp
    then show ?thesis by (cases "inflight (cb_base demo_bridge) 7") (auto intro: that)
  qed
  have "action_entry (cb_actions demo_bridge) (7, 1) = Some AInflight" by code_simp
  with claim_and_cancel_exclude [OF demo_reachable, of x 7 12] x show ?thesis by auto
qed

text \<open>A prebound id is not remembered. The strict enqueue promises to reject any id that
  has appeared in the session, but it looks only at the deques, the results and the started
  actions: after the session's public actions were discarded (the surface changed hands), the
  same minted action is accepted a second time.\<close>

theorem discarded_id_is_accepted_again:
  assumes "x \<in> set (queued (cb_base b) sid)" "act_session_id x = sid"
    and "\<not> is_internal_capture_action (act_action x)"
    and "discard_public_actions_for_session b sid = (n, b')"
    and "bb_sessions (cb_base b) sid = Some st" "0 < bb_action_capacity (cb_base b)"
    and "\<forall>r \<in> set (sb_results st @ sb_capture_results st). bar_action_id r \<noteq> act_id x"
    and "\<forall>e \<in> set (sb_action_boundaries st). aeb_action_id e \<noteq> act_id x"
    and "\<forall>a \<in> set (sb_capture_actions st @ sb_capture_inflight st @ sb_capture_claimed st).
      act_id a \<noteq> act_id x"
  shows "fst (enqueue_prebound_public_action b' x)
    \<and> x \<in> set (queued (cb_base (snd (enqueue_prebound_public_action b' x))) sid)"
proof -
  define st' where "st' = st\<lparr>sb_actions := [], sb_inflight := [], sb_claimed := [],
    sb_action_started_at := (\<lambda>_. None)\<rparr>"
  have b': "cb_base b' = put_session (cb_base b) sid st'"
    using assms (4,5) by (auto simp: discard_public_actions_for_session_def
        base_discard_public_actions_for_session_def st'_def)
  have "\<not> action_id_seen st' (act_id x)"
    using assms (7-9) by (simp add: action_id_seen_def st'_def list_ex_iff ball_Un)
  then show ?thesis using assms (2,3,6) b'
    by (simp add: enqueue_prebound_public_action_def base_enqueue_prebound_public_action_def
        queued_put st'_def)
qed

definition minted :: bridge_action where
  "minted = \<lparr>act_id = 9, act_session_id = 7, act_reference = None, act_action = Click, act_created_at = 1\<rparr>"

theorem discarded_id_is_accepted_again_witness:
  "fst (enqueue_prebound_public_action (cancellable_new 32 8) minted)
   \<and> fst (enqueue_prebound_public_action (snd (discard_public_actions_for_session
       (snd (enqueue_prebound_public_action (cancellable_new 32 8) minted)) 7)) minted)"
proof -
  define b where "b = snd (enqueue_prebound_public_action (cancellable_new 32 8) minted)"
  have first: "fst (enqueue_prebound_public_action (cancellable_new 32 8) minted)" by code_simp
  have st: "bb_sessions (cb_base b) 7 = Some (empty_session\<lparr>sb_actions := [minted]\<rparr>)"
    "bb_action_capacity (cb_base b) = 8"
    by (simp_all add: b_def enqueue_prebound_public_action_def base_enqueue_prebound_public_action_def
        minted_def cancellable_new_def base_new_def session_or_default_def put_session_def Let_def
        empty_session_def action_id_seen_def min_native_executor_capacity_def)
  have "fst (enqueue_prebound_public_action (snd (discard_public_actions_for_session b 7)) minted)"
    by (rule conjunct1 [OF discarded_id_is_accepted_again [OF _ _ _ prod.collapse [symmetric] st(1)]])
      (simp_all add: queued_def session_or_default_Some [OF st(1)] st(2) minted_def empty_session_def)
  with first show ?thesis by (simp add: b_def)
qed

end
