(* ===== verification/Provider_Continuity.thy ===== *)
theory Provider_Continuity
  imports Live_Bridge Bridge_Run One_Shot
begin

text \<open>
  The continuity of a provider's events: what one sequence number, one batch and one run of
  the live bridge's operations do to it. An operation of the live bridge is a datatype, as
  for the cancellable bridge below it, whose operations are reached through \<open>Deref\<close>.
\<close>

section \<open>One sequence number\<close>

text \<open>A sequence number continues the stream when it repeats the last one or follows it.\<close>

definition continues :: "u64 \<Rightarrow> u64 \<Rightarrow> bool" where
  "continues previous sequence \<longleftrightarrow> sequence = previous
     \<or> previous < sequence \<and> sequence \<le> saturating_add previous 1"

lemma continues_iff: "continues p q \<longleftrightarrow> q = p \<or> unat q = unat p + 1"
proof -
  have u: "unat (saturating_add p 1) = min (unat p + 1) (2 ^ 64 - 1)"
    using unat_saturating_add [of p 1] by simp
  have "unat q < 2 ^ 64" using unsigned_less [of q] by simp
  then show ?thesis
    by (auto simp: continues_def word_less_nat_alt word_le_nat_alt u word_unat_eq_iff)
qed

lemma observe_continues:
  assumes "pcs_last_seq s = Some p" "continues p q"
  shows "observe_sequence s q = (False, s\<lparr>pcs_last_seq := Some q\<rparr>)"
  using assms by (auto simp: observe_sequence_def continues_def)

lemma observe_breaks:
  assumes "pcs_last_seq s = Some p" "\<not> continues p q"
  shows "pcs_reconciliation (snd (observe_sequence s q)) = None"
    "pcs_event_continuity (snd (observe_sequence s q)) = (if q < p then CSequenceReset else CGapDetected)"
    "pcs_last_seq (snd (observe_sequence s q)) = Some q"
  using assms by (auto simp: observe_sequence_def continues_def Let_def)

lemma observe_last [simp]: "pcs_last_seq (snd (observe_sequence s q)) = Some q"
  by (simp add: observe_sequence_def split: option.split)

lemma observe_refs [simp]:
  "pcs_provider_incarnation_ref (snd (observe_sequence s q)) = pcs_provider_incarnation_ref s"
  "pcs_target_incarnation_ref (snd (observe_sequence s q)) = pcs_target_incarnation_ref s"
  "pcs_generation (snd (observe_sequence s q)) = pcs_generation s"
  by (simp_all add: observe_sequence_def split: option.split)

lemma observe_legacy_mono: "pcs_legacy_generation s \<le> pcs_legacy_generation (snd (observe_sequence s q))"
  by (simp add: observe_sequence_def saturating_add_ge split: option.split)

text \<open>Debt stays: what is not continuous does not become continuous.\<close>

lemma observe_debt:
  "pcs_event_continuity s \<noteq> CContinuous \<Longrightarrow>
     pcs_event_continuity (snd (observe_sequence s q)) \<noteq> CContinuous"
  by (simp add: observe_sequence_def split: option.split)

section \<open>One batch\<close>

fun contiguous :: "u64 option \<Rightarrow> u64 list \<Rightarrow> bool" where
  "contiguous p [] = True"
| "contiguous None (q # qs) = contiguous (Some q) qs"
| "contiguous (Some p) (q # qs) = (continues p q \<and> contiguous (Some q) qs)"

definition step_of :: "session_id \<Rightarrow> observer_event \<Rightarrow> provider_continuity_state \<times> base_bridge
    \<Rightarrow> provider_continuity_state \<times> base_bridge" where
  "step_of sid e = (\<lambda>(s, base).
     let s1 = snd (observe_sequence s (ev_seq e));
         r = base_ingest_collect base \<lparr>ob_session_id = sid,
               ob_generation = pcs_legacy_generation s1, ob_events = [e]\<rparr>
     in (if 0 < ir_accepted (fst (fst r)) \<and> pcs_event_continuity s1 = COrderingOpaque
         then s1\<lparr>pcs_reconciliation := None\<rparr> else s1, snd r))"

text \<open>The states a batch goes through, without its counters.\<close>

lemma ingest_provider_events_fold:
  "snd (snd (ingest_provider_events sid es s base)) = fold (step_of sid) es (s, base)"
proof (induction sid es s base rule: ingest_provider_events.induct)
  case (2 sid e es s base)
  obtain d s1 where o: "observe_sequence s (ev_seq e) = (d, s1)" by fastforce
  obtain r t base1 where c: "base_ingest_collect base \<lparr>ob_session_id = sid,
      ob_generation = pcs_legacy_generation s1, ob_events = [e]\<rparr> = ((r, t), base1)"
    by (metis surj_pair)
  show ?case
    using 2 [of s1 "(r, t)" base1 r t] o c by (simp add: step_of_def Let_def split_beta)
qed simp

lemma fold_step_invariant:
  assumes "P (s, base)" "\<And>e s base. e \<in> set es \<Longrightarrow> P (s, base) \<Longrightarrow> P (step_of sid e (s, base))"
  shows "P (fold (step_of sid) es (s, base))"
  using assms by (induction es arbitrary: s base) (auto, metis list.set_intros(1) surj_pair)

lemma step_of_state:
  fixes s :: provider_continuity_state and e :: observer_event
  defines "s1 \<equiv> snd (observe_sequence s (ev_seq e))"
  shows "pcs_event_continuity (fst (step_of sid e (s, base))) = pcs_event_continuity s1"
    "pcs_last_seq (fst (step_of sid e (s, base))) = Some (ev_seq e)"
    "pcs_provider_incarnation_ref (fst (step_of sid e (s, base))) = pcs_provider_incarnation_ref s"
    "pcs_target_incarnation_ref (fst (step_of sid e (s, base))) = pcs_target_incarnation_ref s"
    "pcs_generation (fst (step_of sid e (s, base))) = pcs_generation s"
    "pcs_reconciliation (fst (step_of sid e (s, base))) \<in> {None, pcs_reconciliation s1}"
    "pcs_event_continuity s1 \<noteq> COrderingOpaque \<Longrightarrow>
       pcs_reconciliation (fst (step_of sid e (s, base))) = pcs_reconciliation s1"
  by (simp_all add: step_of_def Let_def s1_def)

lemma observe_reconciliation:
  "pcs_reconciliation (snd (observe_sequence s q)) \<in> {None, pcs_reconciliation s}"
  by (simp add: observe_sequence_def split: option.split)

lemma fold_debt:
  "pcs_event_continuity s \<noteq> CContinuous \<Longrightarrow>
     pcs_event_continuity (fst (fold (step_of sid) es (s, base))) \<noteq> CContinuous"
  by (rule fold_step_invariant [of "\<lambda>c. pcs_event_continuity (fst c) \<noteq> CContinuous"])
    (auto simp: step_of_state observe_debt)

lemma fold_refs:
  "pcs_provider_incarnation_ref (fst (fold (step_of sid) es (s, base))) = pcs_provider_incarnation_ref s
   \<and> pcs_target_incarnation_ref (fst (fold (step_of sid) es (s, base))) = pcs_target_incarnation_ref s
   \<and> pcs_generation (fst (fold (step_of sid) es (s, base))) = pcs_generation s"
  by (rule fold_step_invariant [of "\<lambda>c. pcs_provider_incarnation_ref (fst c) = pcs_provider_incarnation_ref s
     \<and> pcs_target_incarnation_ref (fst c) = pcs_target_incarnation_ref s
     \<and> pcs_generation (fst c) = pcs_generation s"])
    (auto simp: step_of_state)

lemma fold_reconciliation:
  "pcs_reconciliation (fst (fold (step_of sid) es (s, base))) \<in> {None, pcs_reconciliation s}"
proof (rule fold_step_invariant [of "\<lambda>c. pcs_reconciliation (fst c) \<in> {None, pcs_reconciliation s}"])
  fix e :: observer_event and t :: provider_continuity_state
    and base :: base_bridge
  assume "pcs_reconciliation (fst (t, base)) \<in> {None, pcs_reconciliation s}"
  then show "pcs_reconciliation (fst (step_of sid e (t, base))) \<in> {None, pcs_reconciliation s}"
    using step_of_state (6) [of sid e t base] observe_reconciliation [of t "ev_seq e"]
    by auto
qed simp

lemma fold_contiguous:
  assumes "pcs_event_continuity s = CContinuous" "contiguous (pcs_last_seq s) (map ev_seq es)"
  shows "pcs_event_continuity (fst (fold (step_of sid) es (s, base))) = CContinuous
    \<and> pcs_reconciliation (fst (fold (step_of sid) es (s, base))) = pcs_reconciliation s
    \<and> pcs_legacy_generation (fst (fold (step_of sid) es (s, base))) = pcs_legacy_generation s"
  using assms
proof (induction es arbitrary: s base)
  case (Cons e es)
  have o: "snd (observe_sequence s (ev_seq e)) = s\<lparr>pcs_last_seq := Some (ev_seq e)\<rparr>"
    using Cons.prems (2) by (cases "pcs_last_seq s")
      (simp_all add: observe_continues, simp add: observe_sequence_def)
  obtain s' base' where c: "step_of sid e (s, base) = (s', base')" by force
  have "s' = s\<lparr>pcs_last_seq := Some (ev_seq e)\<rparr>"
    using c o Cons.prems (1) by (simp add: step_of_def Let_def)
  then show ?case using Cons.IH [of s' base'] Cons.prems c by (cases "pcs_last_seq s") simp_all
qed simp

lemma fold_anomaly:
  assumes "pcs_event_continuity s = CContinuous" "\<not> contiguous (pcs_last_seq s) (map ev_seq es)"
  shows "pcs_event_continuity (fst (fold (step_of sid) es (s, base))) \<noteq> CContinuous
    \<and> pcs_reconciliation (fst (fold (step_of sid) es (s, base))) = None"
  using assms
proof (induction es arbitrary: s base)
  case (Cons e es)
  obtain s' base' where c: "step_of sid e (s, base) = (s', base')" by force
  show ?case
  proof (cases "\<exists>p. pcs_last_seq s = Some p \<and> \<not> continues p (ev_seq e)")
    case True
    then obtain p where p: "pcs_last_seq s = Some p" "\<not> continues p (ev_seq e)" by blast
    note broken = observe_breaks [OF p]
    have s': "pcs_event_continuity s' \<noteq> CContinuous" "pcs_reconciliation s' = None"
      using step_of_state (1,6) [of sid e s base] broken c by (simp_all split: if_splits)
    then show ?thesis
      using fold_debt [of s' sid es base'] fold_reconciliation [of sid es s' base'] c by simp
  next
    case False
    have o: "snd (observe_sequence s (ev_seq e)) = s\<lparr>pcs_last_seq := Some (ev_seq e)\<rparr>"
      using False by (cases "pcs_last_seq s")
        (simp_all add: observe_continues, simp add: observe_sequence_def)
    have "s' = s\<lparr>pcs_last_seq := Some (ev_seq e)\<rparr>"
      using c o Cons.prems (1) by (simp add: step_of_def Let_def)
    then show ?thesis
      using Cons.IH [of s' base'] Cons.prems False c by (cases "pcs_last_seq s") simp_all
  qed
qed simp

end
