(* ===== verification/Flow_Properties.thy ===== *)
theory Flow_Properties
  imports Flow_Graph
begin

text \<open>
  What the interaction graph promises: the path it returns is a shortest one, recorded
  discovery stays within its bounds and consists of safe edges, a replay is complete exactly
  when every step was observed as planned.
\<close>

section \<open>Walks\<close>

fun is_walk :: "(string, flow_transition list) btree_map \<Rightarrow> string \<Rightarrow> flow_path \<Rightarrow> string \<Rightarrow> bool" where
  "is_walk edges s [] t \<longleftrightarrow> s = t"
| "is_walk edges s (e # p) t \<longleftrightarrow> e \<in> set (entries_at edges s) \<and> is_walk edges (ft_resulting_state e) p t"

lemma is_walk_append: "is_walk edges s (p @ q) t \<longleftrightarrow> (\<exists>u. is_walk edges s p u \<and> is_walk edges u q t)"
  by (induction p arbitrary: s) auto

lemma is_walk_join: "is_walk edges s p u \<Longrightarrow> is_walk edges u q t \<Longrightarrow> is_walk edges s (p @ q) t"
  by (auto simp: is_walk_append)

section \<open>The invariant of the breadth-first search\<close>

text \<open>
  The queue is in the order of the lengths of its paths, which differ by at most one.
\<close>

definition queue_ordered :: "(string \<times> flow_path) list \<Rightarrow> bool" where
  "queue_ordered queue \<longleftrightarrow> sorted (map (length \<circ> snd) queue)
     \<and> (\<forall>(s, p) \<in> set queue. \<forall>(s', p') \<in> set queue. length p' \<le> Suc (length p))"

text \<open>
  Every walk from the start to a state that was not seen is no shorter than a queued path
  followed by a walk to that state; a seen state has a walk as short as the front.
\<close>

definition frontier ::
  "(string, flow_transition list) btree_map \<Rightarrow> (string \<times> flow_path) list \<Rightarrow> string set \<Rightarrow> string \<Rightarrow> nat \<Rightarrow> bool" where
  "frontier edges queue seen t n \<longleftrightarrow>
     (\<exists>(s, p) \<in> set queue. \<exists>q. s \<notin> seen \<and> is_walk edges s q t \<and> length p + length q \<le> n)"

definition search_inv ::
  "(string, flow_transition list) btree_map \<Rightarrow> string \<Rightarrow> string \<Rightarrow> (string \<times> flow_path) list \<Rightarrow> string set \<Rightarrow> bool" where
  "search_inv edges a goal queue seen \<longleftrightarrow>
     (\<forall>(s, p) \<in> set queue. is_walk edges a p s) \<and> queue_ordered queue \<and> goal \<notin> seen
     \<and> (\<forall>u \<in> seen. \<exists>w. is_walk edges a w u \<and> (\<forall>(s, p) \<in> set queue. length w \<le> length p))
     \<and> (\<forall>w t. is_walk edges a w t \<longrightarrow> t \<notin> seen \<longrightarrow> frontier edges queue seen t (length w))"

lemma search_inv_start: "search_inv edges a goal [(a, [])] {}"
  by (auto simp: search_inv_def queue_ordered_def frontier_def)

lemma queue_ordered_tail: "queue_ordered (x # queue) \<Longrightarrow> queue_ordered queue"
  by (auto simp: queue_ordered_def)

lemma queue_ordered_front:
  "queue_ordered ((s, p) # queue) \<Longrightarrow> (s', p') \<in> set ((s, p) # queue)
    \<Longrightarrow> length p \<le> length p' \<and> length p' \<le> Suc (length p)"
  by (fastforce simp: queue_ordered_def)

lemma frontier_skip:
  "frontier edges ((s, p) # queue) seen t n \<Longrightarrow> s \<in> seen \<Longrightarrow> frontier edges queue seen t n"
  by (auto simp: frontier_def)

lemma search_inv_walk: "search_inv edges a goal queue seen \<Longrightarrow> (s, p) \<in> set queue \<Longrightarrow> is_walk edges a p s"
  by (auto simp: search_inv_def)

lemma search_inv_seen:
  assumes "search_inv edges a goal queue seen" "u \<in> seen"
  obtains w where "is_walk edges a w u" "\<forall>(s, p) \<in> set queue. length w \<le> length p"
  using assms unfolding search_inv_def by blast

lemma search_inv_frontier:
  assumes "search_inv edges a goal queue seen" "is_walk edges a w t" "t \<notin> seen"
  obtains s p q where "(s, p) \<in> set queue" "s \<notin> seen" "is_walk edges s q t" "length p + length q \<le> length w"
proof -
  have "frontier edges queue seen t (length w)" using assms by (simp add: search_inv_def)
  then show ?thesis using that unfolding frontier_def by blast
qed

lemma search_inv_front:
  "search_inv edges a goal ((s, p) # queue) seen \<Longrightarrow> (s', p') \<in> set ((s, p) # queue)
    \<Longrightarrow> length p \<le> length p'"
  using queue_ordered_front unfolding search_inv_def by blast

lemma search_inv_skip:
  assumes "search_inv edges a goal ((s, p) # queue) seen" "s \<in> seen"
  shows "search_inv edges a goal queue seen"
  unfolding search_inv_def
proof (intro conjI allI impI ballI)
  fix u assume "u \<in> seen"
  with assms (1) obtain w where "is_walk edges a w u" "\<forall>(s, p) \<in> set ((s, p) # queue). length w \<le> length p"
    by (rule search_inv_seen)
  then show "\<exists>w. is_walk edges a w u \<and> (\<forall>(s, p) \<in> set queue. length w \<le> length p)"
    by (intro exI [of _ w]) simp
next
  fix w t assume "is_walk edges a w t" "t \<notin> seen"
  with assms (1) have "frontier edges ((s, p) # queue) seen t (length w)" by (simp add: search_inv_def)
  then show "frontier edges queue seen t (length w)" using assms (2) by (rule frontier_skip)
qed (use assms queue_ordered_tail in \<open>auto simp: search_inv_def\<close>)

lemma expand_mem: "(s', p') \<in> set (expand edges s p)
    \<longleftrightarrow> (\<exists>e \<in> set (entries_at edges s). s' = ft_resulting_state e \<and> p' = p @ [e])"
  by (auto simp: expand_def)

lemma expand_lengths: "map (length \<circ> snd) (expand edges s p) = replicate (length (entries_at edges s)) (Suc (length p))"
  by (simp add: expand_def comp_def map_replicate_const)

lemma queue_ordered_expand:
  assumes ord: "queue_ordered ((s, p) # queue)"
  shows "queue_ordered (queue @ expand edges s p)"
proof -
  have bound: "length p \<le> length (snd x) \<and> length (snd x) \<le> Suc (length p)"
    if "x \<in> set (queue @ expand edges s p)" for x
  proof (cases "x \<in> set queue")
    case True
    then show ?thesis using queue_ordered_front [OF ord, of "fst x" "snd x"] by simp
  next
    case False
    then show ?thesis using that expand_mem [of "fst x" "snd x"] by auto
  qed
  have "sorted (map (length \<circ> snd) queue)"
    using queue_ordered_tail [OF ord] by (simp add: queue_ordered_def)
  moreover have "length (snd x) \<le> Suc (length p)" if "x \<in> set queue" for x
    using bound [of x] that by simp
  ultimately have "sorted (map (length \<circ> snd) (queue @ expand edges s p))"
    by (simp add: expand_lengths sorted_append sorted_replicate del: map_map)
  moreover have "length (snd y) \<le> Suc (length (snd x))"
    if "x \<in> set (queue @ expand edges s p)" "y \<in> set (queue @ expand edges s p)" for x y
    using bound [OF that (1)] bound [OF that (2)] by linarith
  ultimately show ?thesis unfolding queue_ordered_def split_beta by blast
qed

lemma search_inv_short:
  assumes inv: "search_inv edges a goal ((s, p) # queue) seen" and u: "u \<in> insert s seen"
  shows "\<exists>w. is_walk edges a w u \<and> length w \<le> length p"
proof (cases "u = s")
  case True
  then show ?thesis using search_inv_walk [OF inv, of s p] by auto
next
  case False
  then have "u \<in> seen" using u by simp
  with inv obtain w where "is_walk edges a w u" "\<forall>(s, p) \<in> set ((s, p) # queue). length w \<le> length p"
    by (rule search_inv_seen)
  then show ?thesis by auto
qed

text \<open>Expanding the front of the queue keeps the frontier, by induction on the walk.\<close>

lemma frontier_expand:
  assumes inv: "search_inv edges a goal ((s, p) # queue) seen" and new: "s \<notin> seen" "s \<noteq> goal"
  shows "is_walk edges a w t \<Longrightarrow> t \<notin> insert s seen
    \<Longrightarrow> frontier edges (queue @ expand edges s p) (insert s seen) t (length w)"
proof (induction "length w" arbitrary: w rule: less_induct)
  case less
  have "t \<notin> seen" using less.prems (2) by simp
  then obtain s1 p1 q where q: "(s1, p1) \<in> set ((s, p) # queue)" "s1 \<notin> seen" "is_walk edges s1 q t"
      "length p1 + length q \<le> length w"
    using search_inv_frontier [OF inv less.prems (1)] by metis
  show ?case
  proof (cases "s1 = s")
    case False
    then show ?thesis using q unfolding frontier_def by auto
  next
    case True
    obtain e q1 where e: "q = e # q1" "e \<in> set (entries_at edges s)" "is_walk edges (ft_resulting_state e) q1 t"
      using q (3) True less.prems (2) by (cases q) auto
    have "length p \<le> length p1" using inv q (1) by (rule search_inv_front)
    then have len: "Suc (length p + length q1) \<le> length w" using q (4) e (1) by simp
    show ?thesis
    proof (cases "ft_resulting_state e \<in> insert s seen")
      case False
      have "(ft_resulting_state e, p @ [e]) \<in> set (queue @ expand edges s p)" using e (2) by (auto simp: expand_mem)
      then show ?thesis using False e (3) len unfolding frontier_def by force
    next
      case True
      obtain w' where w': "is_walk edges a w' (ft_resulting_state e)" "length w' \<le> length p"
        using search_inv_short [OF inv True] by blast
      have "frontier edges (queue @ expand edges s p) (insert s seen) t (length (w' @ q1))"
        using w' len by (intro less.hyps is_walk_join [OF w' (1) e (3)] less.prems (2)) simp
      then show ?thesis using w' (2) len unfolding frontier_def by force
    qed
  qed
qed

lemma search_inv_expand:
  assumes inv: "search_inv edges a goal ((s, p) # queue) seen" and new: "s \<notin> seen" "s \<noteq> goal"
  shows "search_inv edges a goal (queue @ expand edges s p) (insert s seen)"
  unfolding search_inv_def
proof (intro conjI)
  have walk: "is_walk edges a p s" and ord: "queue_ordered ((s, p) # queue)"
    using inv by (auto simp: search_inv_def)
  show "\<forall>(s', p') \<in> set (queue @ expand edges s p). is_walk edges a p' s'"
  proof clarify
    fix s' p' assume "(s', p') \<in> set (queue @ expand edges s p)"
    then consider "(s', p') \<in> set queue" | "(s', p') \<in> set (expand edges s p)" by auto
    then show "is_walk edges a p' s'"
    proof cases
      case 1
      then show ?thesis using search_inv_walk [OF inv, of s' p'] by simp
    next
      case 2
      then show ?thesis using walk by (auto simp: expand_mem intro!: is_walk_join)
    qed
  qed
  show "queue_ordered (queue @ expand edges s p)" using ord by (rule queue_ordered_expand)
  show "goal \<notin> insert s seen" using inv new by (auto simp: search_inv_def)
  have far: "\<forall>(s', p') \<in> set (queue @ expand edges s p). length p \<le> length p'"
    using queue_ordered_front [OF ord] by (auto simp: expand_mem)
  show "\<forall>u \<in> insert s seen. \<exists>w. is_walk edges a w u
      \<and> (\<forall>(s', p') \<in> set (queue @ expand edges s p). length w \<le> length p')"
  proof
    fix u assume "u \<in> insert s seen"
    then obtain w where "is_walk edges a w u" "length w \<le> length p" using search_inv_short [OF inv] by blast
    then show "\<exists>w. is_walk edges a w u
        \<and> (\<forall>(s', p') \<in> set (queue @ expand edges s p). length w \<le> length p')"
      using far by (intro exI [of _ w]) (auto intro: le_trans)
  qed
  show "\<forall>w t. is_walk edges a w t \<longrightarrow> t \<notin> insert s seen
      \<longrightarrow> frontier edges (queue @ expand edges s p) (insert s seen) t (length w)"
    using frontier_expand [OF inv new] by blast
qed

lemma search_inv_least:
  assumes inv: "search_inv edges a goal ((s, p) # queue) seen" and walk: "is_walk edges a q goal"
  shows "length p \<le> length q"
proof -
  have "goal \<notin> seen" using inv by (simp add: search_inv_def)
  with inv walk obtain s1 p1 r
    where r: "(s1, p1) \<in> set ((s, p) # queue)" "s1 \<notin> seen" "is_walk edges s1 r goal"
      "length p1 + length r \<le> length q"
    by (rule search_inv_frontier)
  show ?thesis using search_inv_front [OF inv r (1)] r (4) by simp
qed

lemma search_path_correct:
  "search_inv edges a goal queue seen \<Longrightarrow>
     (case search_path edges goal queue seen of
        None \<Rightarrow> {q. is_walk edges a q goal} = {}
      | Some p \<Rightarrow> is_arg_min length (\<lambda>q. is_walk edges a q goal) p)"
proof (induction edges goal queue seen rule: search_path.induct)
  case (1 edges goal seen)
  then show ?case by (auto simp: search_inv_def frontier_def)
next
  case (2 edges goal s p queue seen)
  show ?case
  proof (cases "s = goal")
    case True
    have "length p \<le> length q" if "is_walk edges a q goal" for q
      using search_inv_least [OF "2.prems" that] .
    moreover have "is_walk edges a p goal" using search_inv_walk [OF "2.prems", of s p] True by simp
    ultimately show ?thesis using True by (simp add: is_arg_min_linorder)
  next
    case False
    show ?thesis
    proof (cases "s \<in> seen")
      case True
      then show ?thesis using "2.IH" (1) [OF False True search_inv_skip [OF "2.prems" True]] False by simp
    next
      case new: False
      then show ?thesis using "2.IH" (2) [OF False new search_inv_expand [OF "2.prems" new False]] False by simp
    qed
  qed
qed

text \<open>C30. The search returns, for every graph and any two states, and what it returns is a shortest
  walk of the graph between them; it returns nothing exactly when there is none.
\<close>

theorem shortest_path_is_shortest:
  "case shortest_path g a b of
     None \<Rightarrow> {q. is_walk (ig_edges g) a q b} = {}
   | Some p \<Rightarrow> is_arg_min length (\<lambda>q. is_walk (ig_edges g) a q b) p"
  unfolding shortest_path_def by (rule search_path_correct) (rule search_inv_start)

section \<open>Bounded discovery\<close>

text \<open>The graph after a sequence of attempts to record, accepted or not.\<close>

definition discover :: "discovery_bounds \<Rightarrow> live_transition list \<Rightarrow> interaction_graph" where
  "discover bounds ts = foldl (\<lambda>g t. snd (record_live g t bounds)) empty_graph ts"

definition admissible_edge :: "discovery_bounds \<Rightarrow> live_transition \<Rightarrow> bool" where
  "admissible_edge bounds t \<longleftrightarrow> may_probe (lt_safety t) \<and> lt_elapsed_ms t \<le> deadline_ms bounds
     \<and> flow_valid_stable_reference (lt_target t) \<and> length (lt_evidence_refs t) \<le> max_evidence_refs_per_edge"

text \<open>An edge is filed under the state it starts from, once.\<close>

definition well_filed :: "interaction_graph \<Rightarrow> bool" where
  "well_filed g \<longleftrightarrow> bt_wf (ig_live_edges g)
     \<and> list_all (\<lambda>(k, es). list_all (\<lambda>t. state_key (lt_pre_state t) = k) es
         \<and> distinct (map (\<lambda>t. (lt_action t, lt_target t, lt_resulting_state t)) es)) (ig_live_edges g)"

definition within_bounds :: "discovery_bounds \<Rightarrow> interaction_graph \<Rightarrow> bool" where
  "within_bounds bounds g \<longleftrightarrow> card (live_states g) \<le> max_nodes bounds
     \<and> live_edge_count g \<le> max_edges bounds \<and> card (live_routes g) \<le> max_route_states bounds"

lemma finite_live [simp]: "finite (live_states g)" "finite (live_routes g)"
  by (simp_all add: live_states_def live_routes_def)

lemma bt_insert_total:
  "bt_wf m \<Longrightarrow> sum_list (map (\<lambda>(k, es). length es) (bt_insert k v m)) + length (entries_at m k)
     = sum_list (map (\<lambda>(k, es). length es) m) + length v"
proof (induction k v m rule: bt_insert.induct)
  case (2 k v k' v' m)
  have "map_of m k = None" if "k < k'"
    using "2.prems" that by (force simp: bt_wf_Cons map_of_eq_None_iff)
  then show ?case using "2.IH" "2.prems" by (auto simp: entries_at_def bt_wf_Cons)
qed (simp add: entries_at_def)

lemma bt_insert_subset: "set (bt_insert k v m) \<subseteq> insert (k, v) (set m)"
  by (induction k v m rule: bt_insert.induct) auto

lemma entries_at_sub: "set (entries_at m k) \<subseteq> set (concat (map snd m))"
  by (cases "map_of m k") (force simp: entries_at_def dest: map_of_SomeD)+

text \<open>What an accepted recording leaves: the old edges, and the new one unless it was known.\<close>

definition filed_edge :: "live_transition \<Rightarrow> live_transition" where
  "filed_edge t = t\<lparr>lt_evidence_refs := take max_evidence_refs_per_edge (lt_evidence_refs t)\<rparr>"

definition filed_edges :: "interaction_graph \<Rightarrow> live_transition \<Rightarrow> live_transition list" where
  "filed_edges g t = (let edges = entries_at (ig_live_edges g) (state_key (lt_pre_state t))
     in if list_ex (\<lambda>e. same_live_edge e t) edges then edges else edges @ [filed_edge t])"

lemma record_live_accepted:
  assumes "record_live g t bounds = (Inr (), g')"
  shows "g' = g\<lparr>ig_live_edges := bt_insert (state_key (lt_pre_state t)) (filed_edges g t) (ig_live_edges g)\<rparr>"
    and "admissible_edge bounds (filed_edge t)"
    and "card (insert (state_key (lt_resulting_state t)) (insert (state_key (lt_pre_state t)) (live_states g)))
      \<le> max_nodes bounds"
    and "live_edge_count g < max_edges bounds"
    and "card (insert (si_route (lt_resulting_state t)) (insert (si_route (lt_pre_state t)) (live_routes g)))
      \<le> max_route_states bounds"
  using assms unfolding record_live_def filed_edges_def filed_edge_def admissible_edge_def Let_def
  by (auto split: if_splits)

lemma record_live_refused: "record_live g t bounds = (Inl e, g') \<Longrightarrow> g' = g"
  by (auto simp: record_live_def Let_def split: if_splits)

lemma filed_edge_simps [simp]:
  "lt_pre_state (filed_edge t) = lt_pre_state t" "lt_resulting_state (filed_edge t) = lt_resulting_state t"
  "lt_action (filed_edge t) = lt_action t" "lt_target (filed_edge t) = lt_target t"
  by (simp_all add: filed_edge_def)

lemma filed_edges_sub: "set (filed_edges g t) \<subseteq> insert (filed_edge t) (set (all_live_edges g))"
  using entries_at_sub [of "ig_live_edges g" "state_key (lt_pre_state t)"]
  by (auto simp: filed_edges_def Let_def all_live_edges_def)

lemma recorded_edges:
  assumes "record_live g t bounds = (Inr (), g')"
  shows "set (all_live_edges g') \<subseteq> insert (filed_edge t) (set (all_live_edges g))"
proof
  fix e assume "e \<in> set (all_live_edges g')"
  then obtain k es where "(k, es) \<in> set (ig_live_edges g')" "e \<in> set es"
    by (auto simp: all_live_edges_def)
  moreover have "set (ig_live_edges g')
      \<subseteq> insert (state_key (lt_pre_state t), filed_edges g t) (set (ig_live_edges g))"
    using bt_insert_subset by (simp add: record_live_accepted (1) [OF assms])
  ultimately consider "e \<in> set (filed_edges g t)" | "(k, es) \<in> set (ig_live_edges g)" by auto
  then show "e \<in> insert (filed_edge t) (set (all_live_edges g))"
  proof cases
    case 1
    then show ?thesis using filed_edges_sub by blast
  next
    case 2
    then show ?thesis using \<open>e \<in> set es\<close> by (force simp: all_live_edges_def)
  qed
qed

lemma live_states_edges:
  "live_states g = (\<Union>e \<in> set (all_live_edges g). {state_key (lt_pre_state e), state_key (lt_resulting_state e)})"
  "live_routes g = (\<Union>e \<in> set (all_live_edges g). {si_route (lt_pre_state e), si_route (lt_resulting_state e)})"
  by (auto simp: live_states_def live_routes_def)

lemma within_bounds_step:
  assumes rec: "record_live g t bounds = (Inr (), g')" and "bt_wf (ig_live_edges g)"
  shows "within_bounds bounds g'"
proof -
  have "live_states g' \<subseteq> insert (state_key (lt_resulting_state t)) (insert (state_key (lt_pre_state t)) (live_states g))"
    and "live_routes g' \<subseteq> insert (si_route (lt_resulting_state t)) (insert (si_route (lt_pre_state t)) (live_routes g))"
    using recorded_edges [OF rec] by (fastforce simp: live_states_edges)+
  then have "card (live_states g') \<le> max_nodes bounds" "card (live_routes g') \<le> max_route_states bounds"
    using record_live_accepted (3,5) [OF rec] by (meson card_mono finite_insert finite_live le_trans)+
  moreover have "live_edge_count g' \<le> max_edges bounds"
    using bt_insert_total [OF assms (2), of "state_key (lt_pre_state t)" "filed_edges g t"]
      record_live_accepted (4) [OF rec]
    by (auto simp: live_edge_count_def record_live_accepted (1) [OF rec] filed_edges_def Let_def split: if_splits)
  ultimately show ?thesis by (simp add: within_bounds_def)
qed

lemma well_filed_step:
  assumes rec: "record_live g t bounds = (Inr (), g')" and wf: "well_filed g"
  shows "well_filed g'"
proof -
  let ?key = "state_key (lt_pre_state t)"
  have "list_all (\<lambda>e. state_key (lt_pre_state e) = ?key) (entries_at (ig_live_edges g) ?key)
      \<and> distinct (map (\<lambda>e. (lt_action e, lt_target e, lt_resulting_state e)) (entries_at (ig_live_edges g) ?key))"
    using wf by (cases "map_of (ig_live_edges g) ?key")
      (fastforce simp: entries_at_def well_filed_def list_all_iff dest: map_of_SomeD)+
  then have "list_all (\<lambda>e. state_key (lt_pre_state e) = ?key) (filed_edges g t)
      \<and> distinct (map (\<lambda>e. (lt_action e, lt_target e, lt_resulting_state e)) (filed_edges g t))"
    by (force simp: filed_edges_def Let_def same_live_edge_def list_ex_iff)
  then show ?thesis
    using wf bt_insert_subset [of ?key "filed_edges g t" "ig_live_edges g"]
    by (fastforce simp: record_live_accepted (1) [OF rec] well_filed_def list_all_iff)
qed

lemma empty_graph_facts:
  "well_filed empty_graph" "within_bounds bounds empty_graph" "all_live_edges empty_graph = []"
  by (simp_all add: well_filed_def within_bounds_def empty_graph_def live_states_def live_routes_def
      live_edge_count_def all_live_edges_def)

lemma discover_invariant:
  "well_filed (discover bounds ts) \<and> within_bounds bounds (discover bounds ts)
     \<and> set (all_live_edges (discover bounds ts)) \<subseteq> {t. admissible_edge bounds t}"
proof (induction ts rule: rev_induct)
  case Nil
  then show ?case by (simp add: discover_def empty_graph_facts)
next
  case (snoc t ts)
  let ?g = "discover bounds ts"
  obtain r g' where rec: "record_live ?g t bounds = (r, g')" by force
  have step: "discover bounds (ts @ [t]) = g'" by (simp add: discover_def rec [unfolded discover_def])
  show ?case
  proof (cases r)
    case (Inl e)
    then have "g' = ?g" using record_live_refused rec by blast
    then show ?thesis using snoc step by simp
  next
    case (Inr u)
    then have ok: "record_live ?g t bounds = (Inr (), g')" using rec by simp
    then show ?thesis
      using snoc within_bounds_step [OF ok] well_filed_step [OF ok] recorded_edges [OF ok]
        record_live_accepted (2) [OF ok]
      unfolding step well_filed_def by blast
  qed
qed

text \<open>Discovery stays within its bounds whatever transitions are offered to it: the numbers of
  states, edges and routes, and every edge is safe to probe, in time, filed under the state it
  starts from and not twice, with a stable reference and at most sixteen evidence references.
\<close>

theorem discovery_stays_within_bounds:
  "card (live_states (discover bounds ts)) \<le> max_nodes bounds
    \<and> live_edge_count (discover bounds ts) \<le> max_edges bounds
    \<and> card (live_routes (discover bounds ts)) \<le> max_route_states bounds
    \<and> set (all_live_edges (discover bounds ts)) \<subseteq> {t. admissible_edge bounds t}
    \<and> well_filed (discover bounds ts)"
  using discover_invariant unfolding within_bounds_def by blast

text \<open>
  A transition that is already filed is refused when the graph has its full number of edges,
  although nothing would be added: the budget is checked before the look-up.
\<close>

lemma known_edge_refused_at_full_budget:
  assumes "record_live g t bounds = (Inr (), g')" "live_edge_count g' = max_edges bounds"
  shows "fst (record_live g' t bounds) \<in> {Inl NodeBudgetExceeded, Inl EdgeBudgetExceeded}"
  using assms unfolding record_live_def by (auto simp: Let_def split: if_splits)

section \<open>Replays\<close>

text \<open>What a step of the plan must find.\<close>

definition step_observed :: "state_identity list \<Rightarrow> bool list \<Rightarrow> nat \<Rightarrow> replay_step \<Rightarrow> bool" where
  "step_observed observed refs_valid i s \<longleftrightarrow> i < length refs_valid \<and> refs_valid ! i
     \<and> i + 1 < length observed \<and> observed ! i = rp_expected_before s \<and> observed ! (i + 1) = rp_expected_after s"

lemma compatible_is_equal: "compatible_with a b \<longleftrightarrow> a = b"
  by (cases a, cases b) (auto simp: compatible_with_def)

lemma step_failure_iff: "step_failure observed refs_valid i s = None \<longleftrightarrow> step_observed observed refs_valid i s"
  by (auto simp: step_failure_def step_observed_def compatible_is_equal get_at_def)

lemma replay_loop_result:
  "snd (replay_loop observed refs_valid i evidence steps)
     = map_option (\<lambda>j. (i + j, the (step_failure observed refs_valid (i + j) (steps ! j))))
         (find (\<lambda>j. \<not> step_observed observed refs_valid (i + j) (steps ! j)) [0..<length steps])"
proof (induction observed refs_valid i evidence steps rule: replay_loop.induct)
  case (2 observed refs_valid i evidence s steps)
  show ?case
  proof (cases "step_failure observed refs_valid i s")
    case None
    have shift: "find P (map Suc xs) = map_option Suc (find (\<lambda>j. P (Suc j)) xs)" for P and xs :: "nat list"
      by (induction xs) auto
    have "[0..<length (s # steps)] = 0 # map Suc [0..<length steps]"
      by (simp add: upt_conv_Cons map_Suc_upt del: upt_Suc)
    moreover have "step_observed observed refs_valid i s" using None by (simp add: step_failure_iff)
    ultimately show ?thesis
      using None "2.IH" by (simp add: shift option.map_comp comp_def add.assoc del: upt_Suc)
  next
    case (Some reason)
    then have "\<not> step_observed observed refs_valid i s" by (simp add: step_failure_iff [symmetric])
    moreover have "[0..<length (s # steps)] = 0 # map Suc [0..<length steps]"
      by (simp add: upt_conv_Cons map_Suc_upt del: upt_Suc)
    ultimately show ?thesis using Some by (simp del: upt_Suc)
  qed
qed simp

text \<open>The receipt of a replay names the first step that was not observed as planned: its reference
  was valid, the state before it and the state after it are those of the plan. It is complete
  exactly when the plan is not empty and there is no such step, and it counts the steps before it.
\<close>

theorem replay_reports_first_failure:
  "let r = replay_receipt_of plan observed refs_valid;
       failure = find (\<lambda>i. \<not> step_observed observed refs_valid i (plan ! i)) [0..<length plan]
   in rr_first_failed_step r = failure
     \<and> rr_status r = (if plan = [] then ReplayInconclusive else if failure = None then ReplayComplete else ReplayFailed)
     \<and> rr_steps_passed r = (case failure of None \<Rightarrow> length plan | Some i \<Rightarrow> i)"
proof (cases "plan = []")
  case True
  then show ?thesis by (simp add: replay_receipt_of_def Let_def)
next
  case False
  obtain evidence result where loop: "replay_loop observed refs_valid 0 [] plan = (evidence, result)" by force
  then have "result = map_option (\<lambda>j. (j, the (step_failure observed refs_valid j (plan ! j))))
      (find (\<lambda>j. \<not> step_observed observed refs_valid j (plan ! j)) [0..<length plan])"
    using replay_loop_result [of observed refs_valid 0 "[]" plan] by simp
  then show ?thesis
    using False loop by (auto simp: replay_receipt_of_def failed_replay_def Let_def split: option.splits)
qed

section \<open>Keyboard journeys\<close>

definition stays_in_document :: "focus_observation \<Rightarrow> focus_observation \<Rightarrow> bool" where
  "stays_in_document initial ob \<longleftrightarrow> fo_route ob = fo_route initial
     \<and> fo_document_generation ob = fo_document_generation initial"

lemma journey_loop_stops:
  "snd (journey_loop initial seen issues obs) = None \<longleftrightarrow> list_all (stays_in_document initial) obs"
  by (induction initial seen issues obs rule: journey_loop.induct) (auto simp: stays_in_document_def)

text \<open>
  A journey is complete exactly when all its observations were looked at and none of them left
  the document it began in; a journey that is not complete says why.
\<close>

lemma journey_complete_iff:
  "kj_complete (analyze_keyboard_journey initial obs limit)
     \<longleftrightarrow> length obs \<le> min limit default_max_focus_transitions \<and> list_all (stays_in_document initial) obs"
  "kj_complete (analyze_keyboard_journey initial obs limit)
     \<longleftrightarrow> kj_stopped_reason (analyze_keyboard_journey initial obs limit) = None"
proof -
  let ?bounded = "take (min limit default_max_focus_transitions) obs"
  let ?seen = "case fo_reference initial of None \<Rightarrow> (\<lambda>_. None)
    | Some reference \<Rightarrow> [reference \<mapsto> fo_transition_index initial]"
  obtain issues reason where loop: "journey_loop initial ?seen [] ?bounded = (issues, reason)" by force
  have all: "reason = None \<longleftrightarrow> list_all (stays_in_document initial) ?bounded"
    using journey_loop_stops [of initial ?seen "[]" ?bounded] by (simp add: loop)
  have whole: "\<not> min limit default_max_focus_transitions < length obs \<Longrightarrow> ?bounded = obs" by (simp add: not_less)
  show "kj_complete (analyze_keyboard_journey initial obs limit)
     \<longleftrightarrow> length obs \<le> min limit default_max_focus_transitions \<and> list_all (stays_in_document initial) obs"
    using all whole by (auto simp: analyze_keyboard_journey_def Let_def loop split: option.splits)
  show "kj_complete (analyze_keyboard_journey initial obs limit)
     \<longleftrightarrow> kj_stopped_reason (analyze_keyboard_journey initial obs limit) = None"
    by (auto simp: analyze_keyboard_journey_def Let_def loop split: option.splits)
qed

end
