(* ===== verification/Continuity_Properties.thy ===== *)
theory Continuity_Properties
  imports Provider_Continuity Delivery_Properties Flow_Properties
begin

text \<open>
  The properties of the live bridge: the continuity of provider events, the reconciliation
  snapshot that is current, bound canonical dispatch and the managed surface authority. Runs
  of the bridge's operations are lists of \<open>live_op\<close>; the operations of the cancellable bridge
  below it (reached through \<open>Deref\<close>) are one of its constructors.
\<close>

section \<open>Runs of the live bridge\<close>

datatype live_op =
    LiveBind provider_observation_binding
  | LiveIngest provider_observer_batch
  | LiveReconcile session_id reconciliation_snapshot_receipt
  | LiveReleaseObservation session_id
  | LiveEnqueueCanonical session_id "element_ref option" bridge_action_kind action_envelope_metadata
      uuid uuid timestamp
  | LiveBindDirect session_id "element_ref option" bridge_action_kind action_envelope_metadata
      uuid uuid timestamp
  | LiveDiscardBound uuid
  | LiveDispatchBound canonical_queued_action
  | LiveEnsureManaged session_id string
  | LiveTakeManaged session_id string nat timestamp
  | LiveClearManaged session_id
  | LiveCompleteManaged session_id string bridge_action_result timestamp "string \<Rightarrow> parsed_url option"
  | LiveRecordTransition session_id live_transition discovery_bounds
  | LiveReplayStep session_id replay_step state_identity safety_class bool uuid timestamp
  | LiveReleaseSession session_id
  | LiveLegacy bridge_op

fun run_live :: "(json \<Rightarrow> nat option) \<Rightarrow> live_op \<Rightarrow> live_bridge \<Rightarrow> live_bridge" where
  "run_live plen (LiveBind binding) b = snd (bind_provider_observation b binding)"
| "run_live plen (LiveIngest batch) b = snd (ingest_provider b batch)"
| "run_live plen (LiveReconcile sid receipt) b = snd (record_reconciliation b sid receipt)"
| "run_live plen (LiveReleaseObservation sid) b = snd (release_provider_observation b sid)"
| "run_live plen (LiveEnqueueCanonical sid reference kind md i e now) b =
     snd (enqueue_canonical_action b sid reference kind md i e now)"
| "run_live plen (LiveBindDirect sid reference kind md i e now) b =
     snd (bind_direct_canonical_action b sid reference kind md i e now)"
| "run_live plen (LiveDiscardBound i) b = snd (discard_bound_canonical_action b i)"
| "run_live plen (LiveDispatchBound q) b =
     snd (enqueue_bound_canonical_action_for_dispatch b q)"
| "run_live plen (LiveEnsureManaged sid auth) b = snd (ensure_managed_surface_action_authority b sid auth)"
| "run_live plen (LiveTakeManaged sid auth limit now) b =
     snd (take_managed_surface_actions b sid auth limit now)"
| "run_live plen (LiveClearManaged sid) b = snd (clear_managed_surface_action_authority b sid)"
| "run_live plen (LiveCompleteManaged sid auth result now url_parse) b =
     snd (complete_managed_surface_action url_parse b sid auth result now)"
| "run_live plen (LiveRecordTransition sid t bounds) b = snd (record_wave6_live_transition b sid t bounds)"
| "run_live plen (LiveReplayStep sid step before safety valid i now) b =
     snd (enqueue_wave6_replay_step b sid step before safety valid i now)"
| "run_live plen (LiveReleaseSession sid) b = live_release_session b sid"
| "run_live plen (LiveLegacy op) b = b\<lparr>lb_legacy := run_op plen op (lb_legacy b)\<rparr>"

definition run_lives :: "(json \<Rightarrow> nat option) \<Rightarrow> live_op list \<Rightarrow> live_bridge \<Rightarrow> live_bridge" where
  "run_lives plen ops b = fold (run_live plen) ops b"

text \<open>The operations that end a session's observation.\<close>

fun ends_observation :: "session_id \<Rightarrow> live_op \<Rightarrow> bool" where
  "ends_observation sid (LiveReleaseObservation sid') = (sid' = sid)"
| "ends_observation sid (LiveReleaseSession sid') = (sid' = sid)"
| "ends_observation sid _ = False"

text \<open>Only these operations touch the continuity of a session.\<close>

lemma run_live_continuity:
  "(\<forall>x. op \<noteq> LiveBind x) \<Longrightarrow> (\<forall>x. op \<noteq> LiveIngest x) \<Longrightarrow> (\<forall>sid r. op \<noteq> LiveReconcile sid r) \<Longrightarrow>
     \<not> ends_observation sid op \<Longrightarrow> lb_continuity (run_live plen op b) sid = lb_continuity b sid"
  by (cases op) (auto simp: release_provider_observation_def enqueue_canonical_action_def
      bind_direct_canonical_action_def discard_bound_canonical_action_def Let_def
      enqueue_bound_canonical_action_for_dispatch_def ensure_managed_surface_action_authority_def
      take_managed_surface_actions_def live_take_public_actions_def rotate_managed_authority_def
      clear_managed_surface_action_authority_def live_release_session_def live_enqueue_action_def
      complete_managed_surface_action_def record_wave6_live_transition_def enqueue_wave6_replay_step_def
      split: sum.splits option.splits prod.splits if_splits)

section \<open>One provider batch\<close>

text \<open>The continuity a batch starts from, and whether it is too old to be looked at.\<close>

definition batch_base :: "live_bridge \<Rightarrow> provider_observer_batch \<Rightarrow> provider_continuity_state" where
  "batch_base b batch = (case lb_continuity b (pb_session_id batch) of
     None \<Rightarrow> continuity_new batch | Some s \<Rightarrow> s)"

definition same_lineage :: "provider_continuity_state \<Rightarrow> provider_observer_batch \<Rightarrow> bool" where
  "same_lineage s batch \<longleftrightarrow> pb_provider_incarnation_ref batch = pcs_provider_incarnation_ref s
     \<and> pb_target_incarnation_ref batch = pcs_target_incarnation_ref s"

definition batch_start :: "provider_continuity_state \<Rightarrow> provider_observer_batch
    \<Rightarrow> provider_continuity_state" where
  "batch_start s batch =
     (if pb_provider_incarnation_ref batch \<noteq> pcs_provider_incarnation_ref s then
        restart_lineage s batch CProviderReincarnated
      else if pb_target_incarnation_ref batch \<noteq> pcs_target_incarnation_ref s then
        restart_lineage s batch CReconciliationRequired
      else if pcs_generation s < pb_generation batch then
        restart_lineage s batch CReconnectedUnreconciled
      else s)"

lemma ingest_provider_state:
  fixes b :: live_bridge and batch :: provider_observer_batch
  defines "s \<equiv> batch_base b batch"
  shows "ingest_provider b batch = (report, b') \<Longrightarrow>
     lb_continuity b' = (lb_continuity b)(pb_session_id batch \<mapsto>
       (if same_lineage s batch \<and> pb_generation batch < pcs_generation s then s
        else fst (fold (step_of (pb_session_id batch)) (pb_events batch)
               (batch_start s batch, cb_base (lb_legacy b)))))"
    "ingest_provider b batch = (report, b') \<Longrightarrow> sid \<noteq> pb_session_id batch \<Longrightarrow>
       lb_continuity b' sid = lb_continuity b sid"
    "ingest_provider b batch = (report, b') \<Longrightarrow>
       \<exists>t. lb_continuity b' (pb_session_id batch) = Some t
         \<and> pir_continuity report = pcs_event_continuity t \<and> pir_gap report = pcs_gap t"
  unfolding ingest_provider_def s_def batch_base_def same_lineage_def batch_start_def
    ingest_provider_events_fold [symmetric]
  by (auto simp: Let_def split: prod.splits if_splits)

lemma batch_start_facts:
  "pcs_event_continuity s \<noteq> CContinuous \<or> \<not> same_lineage s batch \<or> pcs_generation s < pb_generation batch \<Longrightarrow>
     pcs_event_continuity (batch_start s batch) \<noteq> CContinuous"
  "same_lineage s batch \<Longrightarrow> \<not> pcs_generation s < pb_generation batch \<Longrightarrow> batch_start s batch = s"
  "pcs_reconciliation (batch_start s batch) \<in> {None, pcs_reconciliation s}"
  "\<not> same_lineage s batch \<or> pcs_generation s < pb_generation batch \<Longrightarrow>
     pcs_reconciliation (batch_start s batch) = None"
  "pcs_reconciliation (batch_start s batch) \<noteq> None \<Longrightarrow> batch_start s batch = s"
  by (auto simp: batch_start_def restart_lineage_def same_lineage_def)

section \<open>Debt\<close>

definition indebted :: "live_bridge \<Rightarrow> session_id \<Rightarrow> bool" where
  "indebted b sid \<longleftrightarrow>
     (\<exists>s. lb_continuity b sid = Some s \<and> pcs_event_continuity s \<noteq> CContinuous)"

lemma ingest_provider_indebted:
  assumes "indebted b sid"
  shows "indebted (snd (ingest_provider b batch)) sid"
proof (cases "sid = pb_session_id batch")
  case True
  obtain report b' where i: "ingest_provider b batch = (report, b')" by force
  have "pcs_event_continuity (batch_base b batch) \<noteq> CContinuous"
    using assms True by (auto simp: indebted_def batch_base_def)
  then have "pcs_event_continuity (batch_start (batch_base b batch) batch) \<noteq> CContinuous"
    "pcs_event_continuity (batch_base b batch) \<noteq> CContinuous"
    using batch_start_facts (1) by blast+
  then show ?thesis
    using ingest_provider_state (1) [OF i] True i by (auto simp: indebted_def fold_debt)
next
  case False
  obtain report b' where i: "ingest_provider b batch = (report, b')" by force
  show ?thesis using ingest_provider_state (2) [OF i False] assms i by (simp add: indebted_def)
qed

lemma run_live_indebted:
  assumes "indebted b sid" "\<not> ends_observation sid op"
  shows "indebted (run_live plen op b) sid"
proof (cases op)
  case (LiveBind binding)
  then show ?thesis using assms
    by (auto simp: indebted_def bind_provider_observation_def Let_def split: if_splits)
next
  case (LiveReconcile sid' receipt)
  then show ?thesis using assms
    by (auto simp: indebted_def record_reconciliation_def split: option.splits if_splits)
qed (use assms ingest_provider_indebted in
  \<open>simp_all add: indebted_def run_live_continuity del: run_live.simps, simp\<close>)

section \<open>Current snapshots\<close>

definition snapshots_ok :: "live_bridge \<Rightarrow> bool" where
  "snapshots_ok b \<longleftrightarrow> (\<forall>sid s r. lb_continuity b sid = Some s \<longrightarrow> pcs_reconciliation s = Some r \<longrightarrow>
     snap_provider_incarnation_ref r = pcs_provider_incarnation_ref s
     \<and> snap_target_incarnation_ref r = pcs_target_incarnation_ref s)"

lemma snapshots_okD:
  "snapshots_ok b \<Longrightarrow> lb_continuity b sid = Some s \<Longrightarrow> pcs_reconciliation s = Some r \<Longrightarrow>
     snap_provider_incarnation_ref r = pcs_provider_incarnation_ref s
     \<and> snap_target_incarnation_ref r = pcs_target_incarnation_ref s"
  by (simp add: snapshots_ok_def)

text \<open>A batch keeps a snapshot only with the lineage it was recorded for.\<close>

lemma ingest_provider_snapshot:
  assumes i: "ingest_provider b batch = (report, b')"
    and t: "lb_continuity b' (pb_session_id batch) = Some t" "pcs_reconciliation t = Some r"
  shows "\<exists>s. lb_continuity b (pb_session_id batch) = Some s \<and> pcs_reconciliation s = Some r
    \<and> pcs_provider_incarnation_ref t = pcs_provider_incarnation_ref s
    \<and> pcs_target_incarnation_ref t = pcs_target_incarnation_ref s"
proof -
  let ?s = "batch_base b batch" and ?sid = "pb_session_id batch"
  let ?f = "fst (fold (step_of ?sid) (pb_events batch) (batch_start ?s batch, cb_base (lb_legacy b)))"
  have "t = ?s \<or> t = ?f" using ingest_provider_state (1) [OF i] t (1) by (auto split: if_splits)
  moreover have "batch_start ?s batch = ?s" if "t = ?f"
  proof -
    have "pcs_reconciliation ?f \<in> {None, pcs_reconciliation (batch_start ?s batch)}"
      by (rule fold_reconciliation)
    with t (2) that have "Some r = pcs_reconciliation (batch_start ?s batch)" by auto
    then have "pcs_reconciliation (batch_start ?s batch) \<noteq> None" by (metis option.distinct (1))
    then show ?thesis by (rule batch_start_facts (5))
  qed
  moreover have "pcs_reconciliation ?f \<in> {None, pcs_reconciliation (batch_start ?s batch)}"
    by (rule fold_reconciliation)
  ultimately have *: "pcs_reconciliation ?s = Some r
    \<and> pcs_provider_incarnation_ref t = pcs_provider_incarnation_ref ?s
    \<and> pcs_target_incarnation_ref t = pcs_target_incarnation_ref ?s"
    using t (2) fold_refs [of ?sid "pb_events batch" "batch_start ?s batch" "cb_base (lb_legacy b)"]
    by auto
  then have "lb_continuity b ?sid = Some ?s"
    by (auto simp: batch_base_def continuity_new_def split: option.splits)
  with * show ?thesis by blast
qed

lemma run_live_snapshots:
  assumes ok: "snapshots_ok b"
  shows "snapshots_ok (run_live plen op b)"
proof (cases op)
  case (LiveIngest batch)
  obtain report b' where i: "ingest_provider b batch = (report, b')" by force
  show ?thesis unfolding snapshots_ok_def LiveIngest run_live.simps i snd_conv
  proof (intro allI impI)
    fix sid t r
    assume t: "lb_continuity b' sid = Some t" "pcs_reconciliation t = Some r"
    show "snap_provider_incarnation_ref r = pcs_provider_incarnation_ref t
      \<and> snap_target_incarnation_ref r = pcs_target_incarnation_ref t"
    proof (cases "sid = pb_session_id batch")
      case True
      then show ?thesis
        using ingest_provider_snapshot [OF i] t snapshots_okD [OF ok] by fastforce
    next
      case False
      then show ?thesis
        using ingest_provider_state (2) [OF i False] t snapshots_okD [OF ok] by simp
    qed
  qed
qed (use ok in \<open>auto simp: snapshots_ok_def release_provider_observation_def enqueue_canonical_action_def
      bind_direct_canonical_action_def discard_bound_canonical_action_def Let_def
      enqueue_bound_canonical_action_for_dispatch_def ensure_managed_surface_action_authority_def
      take_managed_surface_actions_def live_take_public_actions_def rotate_managed_authority_def
      clear_managed_surface_action_authority_def live_release_session_def continuity_from_binding_def
      bind_provider_observation_def record_reconciliation_def live_enqueue_action_def
      complete_managed_surface_action_def record_wave6_live_transition_def enqueue_wave6_replay_step_def
      split: sum.splits option.splits prod.splits if_splits\<close>)

lemma run_lives_snapshots: "snapshots_ok b \<Longrightarrow> snapshots_ok (run_lives plen ops b)"
  unfolding run_lives_def by (induction ops arbitrary: b) (simp_all add: run_live_snapshots del: run_live.simps)

section \<open>Bound canonical dispatch\<close>

definition bound_live :: "live_bridge \<Rightarrow> canonical_queued_action \<Rightarrow> bool" where
  "bound_live b q \<longleftrightarrow> \<not> is_internal_capture_action (act_action (q_action q))
     \<and> act_id (q_action q) = transport_action_id (q_envelope q)
     \<and> act_session_id (q_action q) = env_session_id (q_envelope q)
     \<and> lb_action_envelopes b (act_id (q_action q)) = Some (q_envelope q)"

text \<open>The bound envelopes are a one-shot authority: a dispatch that reaches its envelope
  removes it, whatever the dispatch then decides.\<close>

interpretation bound_dispatch: spendable bound_live "\<lambda>q. act_id (q_action q)"
    "\<lambda>q (_ :: unit) b. enqueue_bound_canonical_action_for_dispatch b q"
proof unfold_locales
  fix b :: live_bridge and q :: canonical_queued_action and i :: unit
  show "\<not> bound_live b q \<Longrightarrow>
      \<exists>err. enqueue_bound_canonical_action_for_dispatch b q = (Inl err, b)"
    by (auto simp: bound_live_def enqueue_bound_canonical_action_for_dispatch_def Let_def
        split: option.splits)
next
  fix b :: live_bridge and q q' :: canonical_queued_action and i :: unit
  assume "bound_live b q" "act_id (q_action q') = act_id (q_action q)"
  then show "\<not> bound_live (snd (enqueue_bound_canonical_action_for_dispatch b q)) q'"
    by (auto simp: bound_live_def enqueue_bound_canonical_action_for_dispatch_def Let_def
        split: option.splits prod.splits)
next
  fix b :: live_bridge and q q' :: canonical_queued_action and i :: unit
  assume "act_id (q_action q') \<noteq> act_id (q_action q)"
  then show "bound_live (snd (enqueue_bound_canonical_action_for_dispatch b q)) q' = bound_live b q'"
    by (auto simp: bound_live_def enqueue_bound_canonical_action_for_dispatch_def Let_def
        split: option.splits prod.splits)
qed


section \<open>An emptied session\<close>

lemma claim_nothing:
  assumes "inflight (cb_base c) sid = []" "i \<notin> capture_ids (cb_base c) sid"
  shows "fst (claim_action c sid i) = None"
proof -
  have "fst (base_claim_action (cb_base c) sid i) = None"
  proof (cases "bb_sessions (cb_base c) sid")
    case (Some st)
    then have "take_first (\<lambda>a. act_id a = i) (sb_inflight st) = None"
      "take_first (\<lambda>a. act_id a = i) (sb_capture_inflight st) = None"
      using assms by (auto simp: take_first_None capture_ids_def inflight_def session_or_default_Some)
    with Some show ?thesis by (simp add: base_claim_action_def claim_from_scope_def)
  qed (simp add: base_claim_action_def)
  then show ?thesis
    by (auto simp: claim_action_def split: option.splits prod.splits)
qed

lemma discard_then_take:
  assumes "discard_public_actions_for_session c sid = (n, c1)"
    and "take_public_actions c1 sid limit now = (out, c2)"
  shows "out = [] \<and> queued (cb_base c2) = (queued (cb_base c))(sid := [])
    \<and> inflight (cb_base c2) = (inflight (cb_base c))(sid := [])
    \<and> capture_ids (cb_base c2) = capture_ids (cb_base c)"
proof (cases "bb_sessions (cb_base c) sid")
  case None
  then have "cb_base c1 = cb_base c" using assms (1)
    by (auto simp: discard_public_actions_for_session_def base_discard_public_actions_for_session_def)
  with None show ?thesis using assms (2)
    by (auto simp: take_public_actions_def base_take_public_actions_def queued_def inflight_def
        session_or_default_None fun_eq_iff)
next
  case (Some st)
  define st1 where "st1 = st\<lparr>sb_actions := [], sb_inflight := [], sb_claimed := [],
    sb_action_started_at := (\<lambda>_. None)\<rparr>"
  have c1: "cb_base c1 = put_session (cb_base c) sid st1" using assms (1) Some
    by (auto simp: discard_public_actions_for_session_def base_discard_public_actions_for_session_def
        st1_def)
  then have "bb_sessions (cb_base c1) sid = Some st1" by (simp add: put_session_def)
  moreover have "sb_actions st1 = []" "sb_inflight st1 = []" by (simp_all add: st1_def)
  ultimately have "out = [] \<and> cb_base c2 = put_session (cb_base c1) sid (st1\<lparr>sb_actions := [],
      sb_inflight := [], sb_action_started_at := sb_action_started_at st1\<rparr>)" using assms (2)
    by (auto simp: take_public_actions_def base_take_public_actions_def drain_actions_def
        split: prod.splits)
  then show ?thesis using c1 capture_ids_same [OF Some]
    by (auto simp: queued_put inflight_put capture_ids_put st1_def fun_upd_def fun_eq_iff)
qed

section \<open>Interaction graphs\<close>

text \<open>Whatever runs, at most 64 sessions hold a graph, and a graph is what discovery makes it.\<close>

definition probed_safely :: "live_transition \<Rightarrow> bool" where
  "probed_safely t \<longleftrightarrow> may_probe (lt_safety t) \<and> flow_valid_stable_reference (lt_target t)
     \<and> length (lt_evidence_refs t) \<le> max_evidence_refs_per_edge"

definition graphs_ok :: "live_bridge \<Rightarrow> bool" where
  "graphs_ok b \<longleftrightarrow> finite (dom (lb_wave6_graphs b)) \<and> card (dom (lb_wave6_graphs b)) \<le> max_wave6_graph_sessions
     \<and> ran (lb_wave6_graphs b) \<subseteq> {g. well_filed g \<and> set (all_live_edges g) \<subseteq> {t. probed_safely t}}"

lemma record_live_graph:
  assumes "record_live g t bounds = (r, g')" "well_filed g" "set (all_live_edges g) \<subseteq> {t. probed_safely t}"
  shows "well_filed g' \<and> set (all_live_edges g') \<subseteq> {t. probed_safely t}"
proof (cases r)
  case (Inl e)
  then show ?thesis using assms record_live_refused by blast
next
  case (Inr u)
  then have ok: "record_live g t bounds = (Inr (), g')" using assms by simp
  have "probed_safely (filed_edge t)"
    using record_live_accepted (2) [OF ok] by (simp add: admissible_edge_def probed_safely_def)
  then show ?thesis using well_filed_step [OF ok] recorded_edges [OF ok] assms by blast
qed

lemma record_wave6_graphs:
  assumes "graphs_ok b"
  shows "graphs_ok (snd (record_wave6_live_transition b sid t bounds))"
proof (cases "lb_wave6_graphs b sid = None \<and> max_wave6_graph_sessions \<le> card (dom (lb_wave6_graphs b))")
  case True
  then show ?thesis using assms by (simp add: record_wave6_live_transition_def)
next
  case False
  define g where "g = (case lb_wave6_graphs b sid of None \<Rightarrow> empty_graph | Some g \<Rightarrow> g)"
  obtain r g' where rec: "record_live g t bounds = (r, g')" by force
  have "well_filed g \<and> set (all_live_edges g) \<subseteq> {t. probed_safely t}"
  proof (cases "lb_wave6_graphs b sid")
    case None
    then show ?thesis by (simp add: g_def empty_graph_facts)
  next
    case (Some g1)
    then have "g1 \<in> ran (lb_wave6_graphs b)" by (rule ranI)
    then show ?thesis using assms Some by (auto simp: g_def graphs_ok_def)
  qed
  then have g': "well_filed g' \<and> set (all_live_edges g') \<subseteq> {t. probed_safely t}"
    using record_live_graph [OF rec] by blast
  have "card (insert sid (dom (lb_wave6_graphs b))) \<le> max_wave6_graph_sessions"
    using assms False by (cases "sid \<in> dom (lb_wave6_graphs b)") (auto simp: graphs_ok_def insert_absorb)
  moreover have "ran ((lb_wave6_graphs b)(sid \<mapsto> g')) \<subseteq> insert g' (ran (lb_wave6_graphs b))"
    by (auto simp: ran_def)
  moreover have "lb_wave6_graphs (snd (record_wave6_live_transition b sid t bounds))
      = (lb_wave6_graphs b)(sid \<mapsto> g')"
    using False rec by (auto simp: record_wave6_live_transition_def Let_def g_def split: prod.split)
  ultimately show ?thesis using assms g' by (auto simp: graphs_ok_def)
qed

lemma run_live_graphs: "graphs_ok b \<Longrightarrow> graphs_ok (run_live plen op b)"
proof (cases op)
  case (LiveReleaseSession sid)
  assume ok: "graphs_ok b"
  have "ran ((lb_wave6_graphs b)(sid := None)) \<subseteq> ran (lb_wave6_graphs b)" by (auto simp: ran_def)
  moreover have "card (dom (lb_wave6_graphs b) - {sid}) \<le> card (dom (lb_wave6_graphs b))"
    using ok by (intro card_mono) (auto simp: graphs_ok_def)
  ultimately show ?thesis using ok by (auto simp: LiveReleaseSession live_release_session_def graphs_ok_def)
next
  case (LiveRecordTransition sid t bounds)
  assume "graphs_ok b"
  then show ?thesis by (simp add: LiveRecordTransition record_wave6_graphs)
qed (auto simp: graphs_ok_def release_provider_observation_def enqueue_canonical_action_def
      bind_direct_canonical_action_def discard_bound_canonical_action_def Let_def ingest_provider_def
      enqueue_bound_canonical_action_for_dispatch_def ensure_managed_surface_action_authority_def
      take_managed_surface_actions_def live_take_public_actions_def rotate_managed_authority_def
      clear_managed_surface_action_authority_def live_enqueue_action_def bind_provider_observation_def
      record_reconciliation_def complete_managed_surface_action_def enqueue_wave6_replay_step_def
      split: sum.splits option.splits prod.splits if_splits)

lemma interaction_graphs_stay_safe:
  "graphs_ok (run_lives plen ops (live_bridge_new ec ac))"
proof -
  have "graphs_ok b \<Longrightarrow> graphs_ok (run_lives plen ops b)" for b
    unfolding run_lives_def by (induction ops arbitrary: b) (simp_all add: run_live_graphs del: run_live.simps)
  then show ?thesis by (simp add: graphs_ok_def live_bridge_new_def max_wave6_graph_sessions_def)
qed

section \<open>A deaf session\<close>

text \<open>The observer stream of a session rejects these events without looking further: they are
  of an older generation, or of its own and not above the last sequence number.\<close>

definition deaf :: "base_bridge \<Rightarrow> session_id \<Rightarrow> u64 \<Rightarrow> observer_event list \<Rightarrow> bool" where
  "deaf base sid g es \<longleftrightarrow> (\<exists>st. bb_sessions base sid = Some st
     \<and> (g < sb_generation st \<or> g = sb_generation st
         \<and> (\<exists>m. sb_last_seq st = Some m \<and> (\<forall>e \<in> set es. ev_seq e \<le> m))))"

lemma deaf_Cons: "deaf base sid g (e # es) \<Longrightarrow> deaf base sid g [e] \<and> deaf base sid g es"
  unfolding deaf_def by auto

lemma deaf_event:
  assumes "deaf base sid g [e]"
  shows "\<exists>r t. base_ingest_collect base \<lparr>ob_session_id = sid, ob_generation = g, ob_events = [e]\<rparr>
      = ((r, t), base) \<and> ir_accepted r = 0 \<and> ir_rejected_stale r = 1"
  using assms by (auto simp: deaf_def base_ingest_collect_def session_or_default_Some put_session_def
      Let_def fun_upd_idem intro!: base_bridge.equality)

lemma deaf_events:
  assumes "deaf base sid (pcs_legacy_generation s) es" "pcs_event_continuity s = CContinuous"
    and "contiguous (pcs_last_seq s) (map ev_seq es)"
  shows "\<exists>t. ingest_provider_events sid es s base = (0, length es, t, base)
    \<and> pcs_event_continuity t = CContinuous"
  using assms
proof (induction es arbitrary: s)
  case (Cons e es)
  define s1 where "s1 = s\<lparr>pcs_last_seq := Some (ev_seq e)\<rparr>"
  have o: "snd (observe_sequence s (ev_seq e)) = s1"
    using Cons.prems (3) by (cases "pcs_last_seq s")
      (simp_all add: observe_continues s1_def, simp add: observe_sequence_def)
  have g: "pcs_legacy_generation s1 = pcs_legacy_generation s" "pcs_event_continuity s1 = CContinuous"
    using Cons.prems (2) by (simp_all add: s1_def)
  note heard = deaf_Cons [OF Cons.prems (1)]
  obtain r t where i: "base_ingest_collect base \<lparr>ob_session_id = sid,
      ob_generation = pcs_legacy_generation s1, ob_events = [e]\<rparr> = ((r, t), base)"
    "ir_accepted r = 0" "ir_rejected_stale r = 1"
    using deaf_event heard g by metis
  have "contiguous (pcs_last_seq s1) (map ev_seq es)"
    using Cons.prems (3) by (cases "pcs_last_seq s") (simp_all add: s1_def)
  then obtain u where "ingest_provider_events sid es s1 base = (0, length es, u, base)"
    "pcs_event_continuity u = CContinuous"
    using Cons.IH [of s1] heard g by auto
  then show ?case using i by (simp add: o Let_def)
qed simp

section \<open>Demonstration\<close>

definition demo_binding :: provider_observation_binding where
  "demo_binding = \<lparr>bind_session_id = 7, bind_generation = 1, bind_provider_incarnation_ref = ProviderIncarnationRef ''p1'',
     bind_target_incarnation_ref = TargetIncarnationRef ''t1'', bind_initial_continuity = CContinuous,
     bind_sequence_baseline = Some 4\<rparr>"

definition demo_event :: "u64 \<Rightarrow> observer_event" where
  "demo_event q = \<lparr>ev_seq = q, ev_captured_at = 0, ev_kind = ConsoleEvent, ev_reference = None,
     ev_route = None, ev_payload = JNull\<rparr>"

definition demo_batch :: "u64 list \<Rightarrow> provider_observer_batch" where
  "demo_batch qs = \<lparr>pb_session_id = 7, pb_generation = 1, pb_provider_incarnation_ref = ProviderIncarnationRef ''p1'',
     pb_target_incarnation_ref = TargetIncarnationRef ''t1'', pb_events = map demo_event qs\<rparr>"

definition demo_live :: live_bridge where
  "demo_live = run_lives no_payload [LiveBind demo_binding, LiveIngest (demo_batch [5, 6])]
     (live_bridge_new 8 8)"

section \<open>The properties\<close>

text \<open>C18. Continuity debt is never laundered. Once the events of a session are not continuous
  (a gap, a reset, a new provider, an opaque order), no sequence of operations that keeps the
  observation makes them continuous again: not later batches, not a reconciliation, not a
  second binding, not anything done to the actions or to the bridge below.\<close>

theorem continuity_debt_survives:
  assumes "lb_continuity b sid = Some s" "pcs_event_continuity s \<noteq> CContinuous"
    and "\<forall>op \<in> set ops. \<not> ends_observation sid op"
  shows "\<exists>t. lb_continuity (run_lives plen ops b) sid = Some t
    \<and> pcs_event_continuity t \<noteq> CContinuous"
proof -
  have "indebted b sid" using assms (1,2) by (simp add: indebted_def)
  then have "indebted (run_lives plen ops b) sid"
    using assms (3) unfolding run_lives_def
    by (induction ops arbitrary: b) (simp_all add: run_live_indebted del: run_live.simps)
  then show ?thesis by (simp add: indebted_def)
qed

theorem continuity_debt_survives_witness:
  "\<exists>t. lb_continuity (run_lives no_payload
        [LiveIngest (demo_batch [9, 10]), LiveBind demo_binding] (snd (ingest_provider demo_live (demo_batch [8])))) 7
       = Some t \<and> pcs_event_continuity t \<noteq> CContinuous"
proof -
  define b where "b = snd (ingest_provider demo_live (demo_batch [8]))"
  have "map_option pcs_event_continuity (lb_continuity b 7) = Some CGapDetected"
    unfolding b_def by code_simp
  then obtain s where "lb_continuity b 7 = Some s" "pcs_event_continuity s \<noteq> CContinuous" by auto
  from continuity_debt_survives [OF this, of "[LiveIngest (demo_batch [9, 10]), LiveBind demo_binding]" no_payload]
  show ?thesis by (simp add: b_def del: run_live.simps)
qed

text \<open>A reconciliation snapshot that the bridge calls current was taken of the provider and
  the target the session is bound to now: in every state reached from a new bridge, whatever
  was ingested, rebound, reconciled and released in between.\<close>

theorem current_snapshot_matches_lineage:
  assumes "current_reconciliation_snapshot (run_lives plen ops (live_bridge_new ec ac)) sid = Some r"
  shows "\<exists>s. lb_continuity (run_lives plen ops (live_bridge_new ec ac)) sid = Some s
    \<and> snap_provider_incarnation_ref r = pcs_provider_incarnation_ref s
    \<and> snap_target_incarnation_ref r = pcs_target_incarnation_ref s"
proof -
  have "snapshots_ok (run_lives plen ops (live_bridge_new ec ac))"
    by (rule run_lives_snapshots) (simp add: snapshots_ok_def live_bridge_new_def)
  then show ?thesis using assms snapshots_okD
    by (auto simp: current_reconciliation_snapshot_def bind_eq_Some_conv)
qed

definition demo_snapshot :: reconciliation_snapshot_receipt where
  "demo_snapshot = \<lparr>snap_receipt_id = ''r'', snap_provider_incarnation_ref = ProviderIncarnationRef ''p1'',
     snap_target_incarnation_ref = TargetIncarnationRef ''t1'', snap_snapshot_cut_ref = ''cut'',
     snap_surface_scope = ''all'', snap_completeness = SEstablished, snap_cache_profile_revision = ''c'',
     snap_permission_visibility_revision = ''v'', snap_capture_sequence = 4, snap_observed_digest = ''d'',
     snap_incompleteness_debt = []\<rparr>"

theorem current_snapshot_matches_lineage_witness:
  "map_option pcs_provider_incarnation_ref (lb_continuity (run_lives no_payload
      [LiveBind demo_binding, LiveReconcile 7 demo_snapshot, LiveIngest (demo_batch [5])]
      (live_bridge_new 8 8)) 7) = Some (ProviderIncarnationRef ''p1'')"
proof -
  have "current_reconciliation_snapshot (run_lives no_payload
      [LiveBind demo_binding, LiveReconcile 7 demo_snapshot, LiveIngest (demo_batch [5])]
      (live_bridge_new 8 8)) 7 = Some demo_snapshot" by code_simp
  from current_snapshot_matches_lineage [OF this] show ?thesis by (auto simp: demo_snapshot_def)
qed

text \<open>Exactly the contiguous batches keep a session continuous. A session that is
  continuous and has seen sequence number \<open>p\<close> is still continuous after a batch of the
  lineage and generation it is bound to, if and only if each event repeats or directly follows the one
  before it, starting from \<open>p\<close>; then its reconciliation snapshot stays current, and
  otherwise it is dropped. A batch of any other lineage or of a later generation ends both.\<close>

theorem batch_keeps_continuity_iff:
  assumes "lb_continuity b (pb_session_id batch) = Some s" "pcs_event_continuity s = CContinuous"
    and "\<not> (same_lineage s batch \<and> pb_generation batch < pcs_generation s)"
    and "ingest_provider b batch = (report, b')"
  shows "(pir_continuity report = CContinuous \<longleftrightarrow>
        same_lineage s batch \<and> pb_generation batch = pcs_generation s
        \<and> contiguous (pcs_last_seq s) (map ev_seq (pb_events batch)))
    \<and> current_reconciliation_snapshot b' (pb_session_id batch) =
        (if pir_continuity report = CContinuous then pcs_reconciliation s else None)"
proof -
  let ?sid = "pb_session_id batch" and ?s = "batch_start s batch"
  have base: "batch_base b batch = s" using assms (1) by (simp add: batch_base_def)
  let ?f = "fst (fold (step_of ?sid) (pb_events batch) (?s, cb_base (lb_legacy b)))"
  have f: "lb_continuity b' ?sid = Some ?f" "pir_continuity report = pcs_event_continuity ?f"
    using ingest_provider_state (1,3) [OF assms (4)] assms (3) base by auto
  then have snap: "current_reconciliation_snapshot b' ?sid = pcs_reconciliation ?f"
    by (simp add: current_reconciliation_snapshot_def)
  show ?thesis
  proof (cases "same_lineage s batch \<and> pb_generation batch = pcs_generation s")
    case True
    then have start: "?s = s" by (simp add: batch_start_facts)
    show ?thesis
    proof (cases "contiguous (pcs_last_seq s) (map ev_seq (pb_events batch))")
      case c: True
      show ?thesis using fold_contiguous [OF assms (2) c] f snap start True c by auto
    next
      case c: False
      show ?thesis using fold_anomaly [OF assms (2) c] f snap start True c by auto
    qed
  next
    case False
    then have "\<not> same_lineage s batch \<or> pcs_generation s < pb_generation batch"
      using assms (3) by (auto simp: not_less)
    then have "pcs_event_continuity ?s \<noteq> CContinuous" "pcs_reconciliation ?s = None"
      using batch_start_facts (1,4) by blast+
    then show ?thesis
      using fold_debt [of ?s] fold_reconciliation [of ?sid "pb_events batch" ?s] f snap False by auto
  qed
qed

theorem batch_keeps_continuity_iff_witness:
  "pir_continuity (fst (ingest_provider demo_live (demo_batch [7, 7, 8]))) = CContinuous
   \<and> pir_continuity (fst (ingest_provider demo_live (demo_batch [7, 9]))) \<noteq> CContinuous"
proof -
  have "map_option (\<lambda>s. (pcs_event_continuity s, pcs_last_seq s, pcs_generation s,
      same_lineage s (demo_batch []))) (lb_continuity demo_live 7)
      = Some (CContinuous, Some 6, 1, True)" by code_simp
  then obtain s where s: "lb_continuity demo_live 7 = Some s" "pcs_event_continuity s = CContinuous"
    "pcs_last_seq s = Some 6" "pcs_generation s = 1" "same_lineage s (demo_batch [])" by auto
  have "same_lineage s (demo_batch qs)" for qs
    using s (5) by (simp add: same_lineage_def demo_batch_def)
  then have "(pir_continuity (fst (ingest_provider demo_live (demo_batch qs))) = CContinuous) =
      contiguous (Some 6) (map ev_seq (map demo_event qs))" for qs
    using batch_keeps_continuity_iff [of demo_live "demo_batch qs" s, OF _ s (2) _ prod.collapse [symmetric]]
      s by (simp add: demo_batch_def)
  moreover have "contiguous (Some 6) (map ev_seq (map demo_event [7, 7, 8]))"
    "\<not> contiguous (Some 6) (map ev_seq (map demo_event [7, 9]))" by code_simp+
  ultimately show ?thesis by blast
qed






text \<open>C17. A managed surface that changes hands starts empty. When another executor asks for the
  actions of a session, it is given none of those queued for the previous one: the public
  queues of the session are emptied, nothing of it is in flight, no action of it can be
  claimed (internal captures apart), no bound envelope of it can be dispatched, and the
  other sessions keep their envelopes and their queues. What the previous executor still
  completes is refused as stale, and the new one has nothing to complete.\<close>

theorem managed_rotation_isolates:
  assumes "lb_managed_surface_action_authority b sid \<noteq> Some authority"
    and "take_managed_surface_actions b sid authority limit now = (out, b')"
  shows "out = [] \<and> queued (cb_base (lb_legacy b')) sid = [] \<and> inflight (cb_base (lb_legacy b')) sid = []
    \<and> (\<forall>i. i \<notin> capture_ids (cb_base (lb_legacy b)) sid \<longrightarrow>
          fst (claim_action (lb_legacy b') sid i) = None)
    \<and> (\<forall>q. act_session_id (q_action q) = sid \<longrightarrow>
          (\<exists>err. enqueue_bound_canonical_action_for_dispatch b' q = (Inl err, b')))
    \<and> (\<forall>i e. env_session_id e \<noteq> sid \<longrightarrow>
          (lb_action_envelopes b' i = Some e \<longleftrightarrow> lb_action_envelopes b i = Some e))
    \<and> (\<forall>sid'. sid' \<noteq> sid \<longrightarrow> queued (cb_base (lb_legacy b')) sid' = queued (cb_base (lb_legacy b)) sid')
    \<and> (\<forall>old url_parse result t. old \<noteq> authority \<longrightarrow>
          complete_managed_surface_action url_parse b' sid old result t = (AuthorityStale, b'))
    \<and> (\<forall>url_parse result t. bar_action_id result \<notin> capture_ids (cb_base (lb_legacy b)) sid \<longrightarrow>
          fst (complete_managed_surface_action url_parse b' sid authority result t) = ActionNotInflight)"
proof -
  obtain n c1 where d: "discard_public_actions_for_session (lb_legacy b) sid = (n, c1)" by force
  obtain c2 where t: "take_public_actions c1 sid limit now = (out, c2)"
    and b': "b' = b\<lparr>lb_legacy := c2,
      lb_action_envelopes := drop_session_envelopes (lb_action_envelopes b) sid,
      lb_managed_surface_action_authority :=
        (lb_managed_surface_action_authority b)(sid \<mapsto> authority)\<rparr>"
    using assms d by (auto simp: take_managed_surface_actions_def rotate_managed_authority_def
        live_take_public_actions_def split: prod.splits)
  note empty = discard_then_take [OF d t]
  have "\<not> bound_live b' q" if "act_session_id (q_action q) = sid" for q
    using that by (auto simp: bound_live_def b' drop_session_envelopes_def split: option.splits if_splits)
  then have "\<forall>q. act_session_id (q_action q) = sid \<longrightarrow>
      (\<exists>err. enqueue_bound_canonical_action_for_dispatch b' q = (Inl err, b'))"
    using bound_dispatch.rejected by blast
  moreover have "\<forall>i. i \<notin> capture_ids (cb_base (lb_legacy b)) sid \<longrightarrow> fst (claim_action c2 sid i) = None"
    using empty claim_nothing [of c2 sid] by simp
  moreover from this have "\<forall>url_parse result t. bar_action_id result \<notin> capture_ids (cb_base (lb_legacy b)) sid \<longrightarrow>
      fst (complete_managed_surface_action url_parse b' sid authority result t) = ActionNotInflight"
    by (auto simp: complete_managed_surface_action_def b' split: prod.split option.split)
  moreover have "\<forall>old url_parse result t. old \<noteq> authority \<longrightarrow>
      complete_managed_surface_action url_parse b' sid old result t = (AuthorityStale, b')"
    by (simp add: complete_managed_surface_action_def b')
  moreover have "\<forall>i e. env_session_id e \<noteq> sid \<longrightarrow>
      (lb_action_envelopes b' i = Some e \<longleftrightarrow> lb_action_envelopes b i = Some e)"
    by (auto simp: b' drop_session_envelopes_def split: option.splits)
  ultimately show ?thesis using empty by (simp add: b')
qed

definition handover :: live_bridge where
  "handover = run_lives no_payload [LiveTakeManaged 7 ''first'' 4 1, LiveLegacy (click 1),
     LiveLegacy (click 2), LiveTakeManaged 7 ''first'' 1 2] (live_bridge_new 8 8)"

theorem managed_rotation_isolates_witness:
  "queued (cb_base (lb_legacy handover)) 7 \<noteq> []
   \<and> fst (take_managed_surface_actions handover 7 ''second'' 4 3) = []
   \<and> fst (claim_action (lb_legacy (snd (take_managed_surface_actions handover 7 ''second'' 4 3))) 7 1) = None"
proof -
  have "lb_managed_surface_action_authority handover 7 = Some ''first''"
    and q: "length (queued (cb_base (lb_legacy handover)) 7) = 1"
    and "1 \<notin> capture_ids (cb_base (lb_legacy handover)) 7" by code_simp+
  then have "lb_managed_surface_action_authority handover 7 \<noteq> Some ''second''" by simp
  from managed_rotation_isolates [OF this prod.collapse [symmetric], of 4 3] q
    \<open>1 \<notin> capture_ids (cb_base (lb_legacy handover)) 7\<close>
  show ?thesis by auto
qed

text \<open>A provider that is bound again can be deaf. Releasing the observation of a session
  forgets its lineage counter but keeps the session's observer stream, and a new binding
  starts that counter where the first one did: if the stream had been restarted meanwhile, or
  had seen every sequence number the new provider sends, then every event of a contiguous
  batch of the new provider is rejected as stale, and the bridge still reports the session as
  continuous.\<close>

theorem rebound_provider_is_deaf:
  assumes "release_provider_observation b sid = (True, b1)"
    and "bind_provider_observation b1 binding = (Inr status, b2)"
    and "bind_session_id binding = sid" "bind_initial_continuity binding = CContinuous"
    and "pb_session_id batch = sid" "same_lineage (continuity_from_binding binding) batch"
    and "pb_generation batch = bind_generation binding"
    and "contiguous (bind_sequence_baseline binding) (map ev_seq (pb_events batch))"
    and "deaf (cb_base (lb_legacy b)) sid provider_bound_generation_base (pb_events batch)"
    and "ingest_provider b2 batch = (report, b3)"
  shows "ir_accepted (pir_ingest report) = 0
    \<and> ir_rejected_stale (pir_ingest report) = length (pb_events batch)
    \<and> pir_continuity report = CContinuous
    \<and> base_recent (cb_base (lb_legacy b3)) sid = base_recent (cb_base (lb_legacy b)) sid"
proof -
  let ?s = "continuity_from_binding binding"
  have b2: "b2 = b\<lparr>lb_continuity := (lb_continuity b)(sid \<mapsto> ?s)\<rparr>"
    using assms (1-4) by (auto simp: release_provider_observation_def bind_provider_observation_def
        Let_def split: if_splits)
  have s: "pcs_legacy_generation ?s = provider_bound_generation_base"
    "pcs_event_continuity ?s = CContinuous" "pcs_last_seq ?s = bind_sequence_baseline binding"
    "pcs_generation ?s = pb_generation batch"
    using assms (4,7) by (simp_all add: continuity_from_binding_def)
  obtain t where "ingest_provider_events sid (pb_events batch) ?s (cb_base (lb_legacy b))
      = (0, length (pb_events batch), t, cb_base (lb_legacy b))" "pcs_event_continuity t = CContinuous"
    using deaf_events [of "cb_base (lb_legacy b)" sid ?s] assms (8,9) s by auto
  then show ?thesis using assms (5,6,10) s
    by (auto simp: ingest_provider_def b2 Let_def same_lineage_def)
qed

text \<open>The first provider of a session sends events 5 to 7 and stops; a second one, bound with
  baseline 0, sends 1 and 2.\<close>

definition second_binding :: provider_observation_binding where
  "second_binding = demo_binding\<lparr>bind_provider_incarnation_ref := ProviderIncarnationRef ''p2'',
     bind_sequence_baseline := Some 0\<rparr>"

definition second_batch :: provider_observer_batch where
  "second_batch = (demo_batch [1, 2])\<lparr>pb_provider_incarnation_ref := ProviderIncarnationRef ''p2''\<rparr>"

definition rebound :: live_bridge where
  "rebound = run_lives no_payload [LiveReleaseObservation 7, LiveBind second_binding] demo_live"

theorem rebound_provider_is_deaf_witness:
  "ir_accepted (pir_ingest (fst (ingest_provider rebound second_batch))) = 0
   \<and> ir_rejected_stale (pir_ingest (fst (ingest_provider rebound second_batch))) = 2
   \<and> pir_continuity (fst (ingest_provider rebound second_batch)) = CContinuous"
proof -
  obtain b1 where release: "release_provider_observation demo_live 7 = (True, b1)"
    and b1: "b1 = demo_live\<lparr>lb_continuity := (lb_continuity demo_live)(7 := None)\<rparr>"
  proof -
    have "fst (release_provider_observation demo_live 7)" by code_simp
    then show ?thesis using that by (simp add: release_provider_observation_def)
  qed
  obtain status where bind: "bind_provider_observation b1 second_binding = (Inr status, rebound)"
    by (simp add: rebound_def run_lives_def release b1 bind_provider_observation_def second_binding_def
        demo_binding_def Let_def)
  have st: "map_option (\<lambda>st. (sb_generation st, sb_last_seq st)) (bb_sessions (cb_base (lb_legacy demo_live)) 7)
      = Some (provider_bound_generation_base, Some 6)" by code_simp
  have "deaf (cb_base (lb_legacy demo_live)) 7 provider_bound_generation_base (pb_events second_batch)"
    using st by (auto simp: deaf_def second_batch_def demo_batch_def demo_event_def)
  moreover have "contiguous (bind_sequence_baseline second_binding) (map ev_seq (pb_events second_batch))"
    by code_simp
  moreover have "same_lineage (continuity_from_binding second_binding) second_batch" by code_simp
  ultimately show ?thesis
    using rebound_provider_is_deaf [OF release bind _ _ _ _ _ _ _ prod.collapse [symmetric]]
    by (simp add: second_binding_def second_batch_def demo_binding_def demo_batch_def)
qed

end
