(* ===== verification/Native_Snapshot.thy ===== *)
theory Native_Snapshot
  imports Protocol Ordered_Map
begin

text \<open>
  What a native provider observes (\<open>src/crates/native-provider/src/lib.rs\<close>): the identity it
  derives for a window, the budget of one snapshot, and the cache that publishes immutable
  snapshot revisions of one lineage. \<open>usize\<close> is 64 bits wide. The digest of a draft
  (\<open>object_hash\<close>, whose serialization and SHA-256 are library code) and the display of a UUID
  are parameters.
\<close>

section \<open>Identity\<close>

record user_selected_window_target =
  sel_native_window_handle :: u64
  sel_expected_process_id :: u32
  sel_selection_nonce :: uuid

record windows_target_fingerprint =
  fp_native_window_handle :: u64
  fp_process_id :: u32
  fp_process_start_time_ticks :: u64
  fp_root_runtime_id_hint :: "int list"

datatype native_provider_identity_error =
    InvalidSelection | WindowSelectionMismatch | ProcessSelectionMismatch | InvalidProcessLifetime

fun show_hex :: "nat \<Rightarrow> string" where
  "show_hex n =
     (let d = n mod 16; c = char_of (if d < 10 then d + 48 else d + 87)
      in if n < 16 then [c] else show_hex (n div 16) @ [c])"

declare show_hex.simps [simp del]

definition show_int :: "int \<Rightarrow> string" where
  "show_int i = (if i < 0 then ''-'' @ show_nat (nat (- i)) else show_nat (nat i))"

definition derive_windows_target_incarnation ::
  "(uuid \<Rightarrow> string) \<Rightarrow> user_selected_window_target \<Rightarrow> windows_target_fingerprint
    \<Rightarrow> native_provider_identity_error + target_incarnation_ref" where
  "derive_windows_target_incarnation us sel fp =
     bind_result (check_all
       [(sel_native_window_handle sel = 0 \<or> sel_expected_process_id sel = 0
           \<or> sel_selection_nonce sel = 0, InvalidSelection),
        (fp_native_window_handle fp \<noteq> sel_native_window_handle sel, WindowSelectionMismatch),
        (fp_process_id fp \<noteq> sel_expected_process_id sel, ProcessSelectionMismatch),
        (fp_process_start_time_ticks fp = 0, InvalidProcessLifetime)])
     (\<lambda>_. Inr (TargetIncarnationRef
       (''target:windows:selection='' @ us (sel_selection_nonce sel)
        @ '':hwnd='' @ show_hex (unat (fp_native_window_handle fp))
        @ '':pid='' @ show_nat (unat (fp_process_id fp))
        @ '':started='' @ show_u64 (fp_process_start_time_ticks fp))))"

datatype provider_element_realization =
    DiscoveredVirtual | RealizationRequired | Realizing | RealizedCurrent | RealizationFailed
  | StaleAfterRealization

record provider_element_ref =
  per_provider_family :: string
  per_provider_incarnation_ref :: provider_incarnation_ref
  per_target_incarnation_ref :: target_incarnation_ref
  per_opaque_provider_element_id :: string
  per_semantic_locator_hints :: "string list"
  per_parent_surface_ref :: "string option"
  per_acquisition_cut_ref :: string
  per_realization :: provider_element_realization
  per_lifetime_profile_revision :: string

fun join_comma :: "string list \<Rightarrow> string" where
  "join_comma [] = ''''"
| "join_comma [x] = x"
| "join_comma (x # xs) = x @ '','' @ join_comma xs"

definition provider_element_ref_from_runtime_id ::
  "provider_incarnation_ref \<Rightarrow> target_incarnation_ref \<Rightarrow> int list \<Rightarrow> string
    \<Rightarrow> provider_element_realization \<Rightarrow> provider_element_ref" where
  "provider_element_ref_from_runtime_id provider target runtime_id cut_ref realization =
     \<lparr>per_provider_family = ''windows_uia'', per_provider_incarnation_ref = provider,
      per_target_incarnation_ref = target,
      per_opaque_provider_element_id =
        (if runtime_id = [] then ''uia-runtime:unavailable''
         else ''uia-runtime:['' @ join_comma (map show_int runtime_id) @ '']''),
      per_semantic_locator_hints = [], per_parent_surface_ref = None,
      per_acquisition_cut_ref = cut_ref, per_realization = realization,
      per_lifetime_profile_revision = ''windows-uia-lifetime-v1''\<rparr>"

datatype provider_event_ordering =
    TotalWithinProviderStream | PerObjectOnly | PerThreadOnly | ActionCorrelated | OpaqueBestEffort

record provider_event_reliability_profile =
  erp_profile_revision :: string
  erp_ordering :: provider_event_ordering
  erp_property_change_events_complete :: bool
  erp_structure_change_events_complete :: bool
  erp_action_critical_properties_require_reconciliation :: bool
  erp_global_polling_required :: bool

definition windows_uia_v1 :: provider_event_reliability_profile where
  "windows_uia_v1 = \<lparr>erp_profile_revision = ''windows-uia-events-v1'',
     erp_ordering = OpaqueBestEffort, erp_property_change_events_complete = False,
     erp_structure_change_events_complete = False,
     erp_action_critical_properties_require_reconciliation = True,
     erp_global_polling_required = False\<rparr>"

record native_provider_capabilities =
  npc_semantic_snapshot :: bool
  npc_event_subscription :: bool
  npc_reconciliation :: bool
  npc_resource_accounting :: bool
  npc_write_actions :: bool
  npc_input_dispatch :: bool

definition windows_observe_only :: native_provider_capabilities where
  "windows_observe_only = \<lparr>npc_semantic_snapshot = True, npc_event_subscription = True,
     npc_reconciliation = True, npc_resource_accounting = True, npc_write_actions = False,
     npc_input_dispatch = False\<rparr>"

section \<open>The budget of a snapshot\<close>

record snapshot_budget =
  max_nodes :: u64
  max_depth :: u64
  max_properties :: u64

definition default_snapshot_budget :: snapshot_budget where
  "default_snapshot_budget = \<lparr>max_nodes = 512, max_depth = 16, max_properties = 4096\<rparr>"

datatype snapshot_budget_limit = LimitNodes | LimitDepth | LimitProperties

record snapshot_resource_usage =
  ru_nodes_observed :: u64
  ru_properties_read :: u64
  ru_max_depth_observed :: u64
  ru_exhausted :: "snapshot_budget_limit list"
  ru_incomplete :: bool

record snapshot_budget_guard =
  g_budget :: snapshot_budget
  g_nodes_observed :: u64
  g_properties_read :: u64
  g_max_depth_observed :: u64
  g_exhausted :: "snapshot_budget_limit set"

definition guard_new :: "snapshot_budget \<Rightarrow> snapshot_budget_guard" where
  "guard_new budget = \<lparr>g_budget = budget, g_nodes_observed = 0, g_properties_read = 0,
     g_max_depth_observed = 0, g_exhausted = {}\<rparr>"

definition violated_limits :: "snapshot_budget_guard \<Rightarrow> u64 \<Rightarrow> u64 \<Rightarrow> snapshot_budget_limit list" where
  "violated_limits g depth properties_to_read =
     (if max_nodes (g_budget g) \<le> g_nodes_observed g then [LimitNodes] else [])
     @ (if max_depth (g_budget g) < depth then [LimitDepth] else [])
     @ (if max_properties (g_budget g) < saturating_add (g_properties_read g) properties_to_read
        then [LimitProperties] else [])"

definition admit_node :: "snapshot_budget_guard \<Rightarrow> u64 \<Rightarrow> u64 \<Rightarrow> bool \<times> snapshot_budget_guard" where
  "admit_node g depth properties_to_read =
     (let violated = violated_limits g depth properties_to_read
      in if violated \<noteq> [] then (False, g\<lparr>g_exhausted := g_exhausted g \<union> set violated\<rparr>)
         else (True, g\<lparr>g_nodes_observed := saturating_add (g_nodes_observed g) 1,
                g_properties_read := saturating_add (g_properties_read g) properties_to_read,
                g_max_depth_observed := max (g_max_depth_observed g) depth\<rparr>))"

text \<open>A \<open>BTreeSet\<close> is read in the order of the enum.\<close>

definition guard_finish :: "snapshot_budget_guard \<Rightarrow> snapshot_resource_usage" where
  "guard_finish g =
     (let exhausted = filter (\<lambda>l. l \<in> g_exhausted g) [LimitNodes, LimitDepth, LimitProperties]
      in \<lparr>ru_nodes_observed = g_nodes_observed g, ru_properties_read = g_properties_read g,
          ru_max_depth_observed = g_max_depth_observed g, ru_exhausted = exhausted,
          ru_incomplete = (exhausted \<noteq> [])\<rparr>)"

section \<open>Snapshots and their cache\<close>

record native_semantic_node_observation =
  n_element_ref :: provider_element_ref
  n_parent_index :: "nat option"
  n_depth :: nat
  n_role :: "string option"
  n_name :: "string option"
  n_control_type :: "string option"
  n_automation_id :: "string option"
  n_class_name :: "string option"
  n_is_enabled :: "bool option"
  n_is_offscreen :: "bool option"
  n_attributes :: "(string, string) btree_map"

record native_semantic_snapshot_draft =
  sd_provider_incarnation_ref :: provider_incarnation_ref
  sd_target_incarnation_ref :: target_incarnation_ref
  sd_snapshot_cut_ref :: string
  sd_surface_scope :: string
  sd_cache_profile_revision :: string
  sd_permission_visibility_revision :: string
  sd_capture_sequence :: u64
  sd_nodes :: "native_semantic_node_observation list"
  sd_resource_usage :: snapshot_resource_usage
  sd_completeness :: reconciliation_completeness
  sd_incompleteness_debt :: "string list"

datatype snapshot_publish_error =
    PublishProviderIncarnationMismatch | PublishTargetIncarnationMismatch
  | EstablishedSnapshotHasIncompleteness | ResourceUsageInconsistent | MissingSnapshotCut
  | MissingSurfaceScope | MissingCacheProfileRevision | MissingPermissionVisibilityRevision
  | NonMonotonicCaptureSequence | NodeProviderIncarnationMismatch | NodeTargetIncarnationMismatch
  | MixedObservationCut | InvalidNodeParent

text \<open>A revision is the draft it was published from, with the digest and the name of both.\<close>

record native_semantic_snapshot_revision = native_semantic_snapshot_draft +
  sr_cache_revision_ref :: string
  sr_observed_digest :: string

record semantic_snapshot_cache =
  sc_provider_incarnation_ref :: provider_incarnation_ref
  sc_target_incarnation_ref :: target_incarnation_ref
  sc_current :: "native_semantic_snapshot_revision option"

definition for_lineage :: "provider_incarnation_ref \<Rightarrow> target_incarnation_ref \<Rightarrow> semantic_snapshot_cache" where
  "for_lineage provider target = \<lparr>sc_provider_incarnation_ref = provider,
     sc_target_incarnation_ref = target, sc_current = None\<rparr>"

text \<open>The loop of \<open>validate\<close> over the nodes, with their indices.\<close>

fun validate_nodes ::
  "native_semantic_snapshot_draft \<Rightarrow> nat \<Rightarrow> native_semantic_node_observation list
    \<Rightarrow> snapshot_publish_error + unit" where
  "validate_nodes d index [] = Inr ()"
| "validate_nodes d index (n # ns) =
     bind_result (check_all
       [(per_provider_incarnation_ref (n_element_ref n) \<noteq> sd_provider_incarnation_ref d,
         NodeProviderIncarnationMismatch),
        (per_target_incarnation_ref (n_element_ref n) \<noteq> sd_target_incarnation_ref d,
         NodeTargetIncarnationMismatch),
        (per_acquisition_cut_ref (n_element_ref n) \<noteq> sd_snapshot_cut_ref d, MixedObservationCut),
        (case n_parent_index n of None \<Rightarrow> False | Some parent \<Rightarrow> index \<le> parent, InvalidNodeParent)])
     (\<lambda>_. validate_nodes d (index + 1) ns)"

definition validate_draft ::
  "semantic_snapshot_cache \<Rightarrow> native_semantic_snapshot_draft \<Rightarrow> snapshot_publish_error + unit" where
  "validate_draft c d =
     (let usage = sd_resource_usage d;
          usage_incomplete = (ru_incomplete usage \<or> ru_exhausted usage \<noteq> [] \<or> sd_incompleteness_debt d \<noteq> [])
      in bind_result (check_all
       [(sd_provider_incarnation_ref d \<noteq> sc_provider_incarnation_ref c, PublishProviderIncarnationMismatch),
        (sd_target_incarnation_ref d \<noteq> sc_target_incarnation_ref c, PublishTargetIncarnationMismatch),
        (is_blank (sd_snapshot_cut_ref d), MissingSnapshotCut),
        (is_blank (sd_surface_scope d), MissingSurfaceScope),
        (is_blank (sd_cache_profile_revision d), MissingCacheProfileRevision),
        (is_blank (sd_permission_visibility_revision d), MissingPermissionVisibilityRevision),
        (case sc_current c of None \<Rightarrow> False
          | Some current \<Rightarrow> sd_capture_sequence d \<le> sd_capture_sequence current,
         NonMonotonicCaptureSequence),
        (sd_completeness d = SEstablished \<and> usage_incomplete, EstablishedSnapshotHasIncompleteness),
        (ru_incomplete usage \<noteq> (ru_exhausted usage \<noteq> []), ResourceUsageInconsistent),
        (unat (ru_nodes_observed usage) \<noteq> length (sd_nodes d), ResourceUsageInconsistent)])
      (\<lambda>_. validate_nodes d 0 (sd_nodes d)))"

definition revision_of :: "native_semantic_snapshot_draft \<Rightarrow> string \<Rightarrow> native_semantic_snapshot_revision" where
  "revision_of d digest = native_semantic_snapshot_draft.extend d
     (native_semantic_snapshot_revision.fields
       (''native-semantic-cache:'' @ show_u64 (sd_capture_sequence d) @ '':'' @ digest) digest)"

definition publish ::
  "(native_semantic_snapshot_draft \<Rightarrow> string) \<Rightarrow> semantic_snapshot_cache \<Rightarrow> native_semantic_snapshot_draft
    \<Rightarrow> (snapshot_publish_error + native_semantic_snapshot_revision) \<times> semantic_snapshot_cache" where
  "publish digest c d =
     (case validate_draft c d of
        Inl err \<Rightarrow> (Inl err, c)
      | Inr _ \<Rightarrow> (let revision = revision_of d (digest d)
                  in (Inr revision, c\<lparr>sc_current := Some revision\<rparr>)))"

definition reconciliation_receipt_of ::
  "native_semantic_snapshot_revision \<Rightarrow> string \<Rightarrow> reconciliation_snapshot_receipt" where
  "reconciliation_receipt_of r receipt_id =
     \<lparr>snap_receipt_id = receipt_id, snap_provider_incarnation_ref = sd_provider_incarnation_ref r,
      snap_target_incarnation_ref = sd_target_incarnation_ref r,
      snap_snapshot_cut_ref = sd_snapshot_cut_ref r, snap_surface_scope = sd_surface_scope r,
      snap_completeness = sd_completeness r, snap_cache_profile_revision = sd_cache_profile_revision r,
      snap_permission_visibility_revision = sd_permission_visibility_revision r,
      snap_capture_sequence = sd_capture_sequence r, snap_observed_digest = sr_observed_digest r,
      snap_incompleteness_debt = sd_incompleteness_debt r\<rparr>"

section \<open>What a published revision is\<close>

lemma validate_nodes_Inr:
  "validate_nodes d i ns = Inr () \<longleftrightarrow> (\<forall>k < length ns.
     per_provider_incarnation_ref (n_element_ref (ns ! k)) = sd_provider_incarnation_ref d
     \<and> per_target_incarnation_ref (n_element_ref (ns ! k)) = sd_target_incarnation_ref d
     \<and> per_acquisition_cut_ref (n_element_ref (ns ! k)) = sd_snapshot_cut_ref d
     \<and> (\<forall>p \<in> set_option (n_parent_index (ns ! k)). p < i + k))"
proof (induction d i ns rule: validate_nodes.induct)
  case (2 d i n ns)
  have split: "(\<forall>k < length (n # ns). P ((n # ns) ! k) (i + k)) \<longleftrightarrow>
      P n i \<and> (\<forall>k < length ns. P (ns ! k) (i + 1 + k))" for P
    by (auto simp: less_Suc_eq_0_disj nth_Cons split: nat.splits)
  have head: "check_all
       [(per_provider_incarnation_ref (n_element_ref n) \<noteq> sd_provider_incarnation_ref d,
         NodeProviderIncarnationMismatch),
        (per_target_incarnation_ref (n_element_ref n) \<noteq> sd_target_incarnation_ref d,
         NodeTargetIncarnationMismatch),
        (per_acquisition_cut_ref (n_element_ref n) \<noteq> sd_snapshot_cut_ref d, MixedObservationCut),
        (case n_parent_index n of None \<Rightarrow> False | Some parent \<Rightarrow> i \<le> parent, InvalidNodeParent)]
      = Inr u \<longleftrightarrow> per_provider_incarnation_ref (n_element_ref n) = sd_provider_incarnation_ref d
     \<and> per_target_incarnation_ref (n_element_ref n) = sd_target_incarnation_ref d
     \<and> per_acquisition_cut_ref (n_element_ref n) = sd_snapshot_cut_ref d
     \<and> (\<forall>p \<in> set_option (n_parent_index n). p < i)" for u
    by (auto simp: check_all_Inr not_le split: option.splits)
  show ?case unfolding split [of "\<lambda>n i. per_provider_incarnation_ref (n_element_ref n) = sd_provider_incarnation_ref d
     \<and> per_target_incarnation_ref (n_element_ref n) = sd_target_incarnation_ref d
     \<and> per_acquisition_cut_ref (n_element_ref n) = sd_snapshot_cut_ref d
     \<and> (\<forall>p \<in> set_option (n_parent_index n). p < i)"]
    using "2.IH" by (simp only: validate_nodes.simps bind_result_eq_Inr head) blast
qed simp

section \<open>Runs of the guard\<close>

fun admit_all :: "snapshot_budget_guard \<Rightarrow> (u64 \<times> u64) list \<Rightarrow> bool list \<times> snapshot_budget_guard" where
  "admit_all g [] = ([], g)"
| "admit_all g ((depth, properties) # requests) =
     (case admit_node g depth properties of
        (answer, g1) \<Rightarrow> (case admit_all g1 requests of (answers, g2) \<Rightarrow> (answer # answers, g2)))"

text \<open>The property counts of the requests that were admitted.\<close>

definition admitted :: "bool list \<Rightarrow> (u64 \<times> u64) list \<Rightarrow> nat list" where
  "admitted answers requests = map (\<lambda>(_, request). unat (snd request)) (filter fst (zip answers requests))"

definition guard_bounded :: "snapshot_budget_guard \<Rightarrow> bool" where
  "guard_bounded g \<longleftrightarrow> g_nodes_observed g \<le> max_nodes (g_budget g)
     \<and> g_properties_read g \<le> max_properties (g_budget g)
     \<and> g_max_depth_observed g \<le> max_depth (g_budget g)"

lemma admit_node_rejected:
  assumes "admit_node g d p = (False, g')"
  shows "g_budget g' = g_budget g \<and> g_nodes_observed g' = g_nodes_observed g
    \<and> g_properties_read g' = g_properties_read g \<and> g_max_depth_observed g' = g_max_depth_observed g
    \<and> g_exhausted g' \<noteq> {}"
  using assms by (auto simp: admit_node_def Let_def split: if_splits)

lemma admit_node_accepted:
  assumes "admit_node g d p = (True, g')"
  shows "g_budget g' = g_budget g \<and> g_exhausted g' = g_exhausted g
    \<and> unat (g_nodes_observed g') = unat (g_nodes_observed g) + 1
    \<and> g_nodes_observed g' \<le> max_nodes (g_budget g)
    \<and> g_properties_read g' = saturating_add (g_properties_read g) p
    \<and> g_properties_read g' \<le> max_properties (g_budget g)
    \<and> g_max_depth_observed g' = max (g_max_depth_observed g) d \<and> d \<le> max_depth (g_budget g)"
proof -
  have v: "violated_limits g d p = []" and g': "g' = g\<lparr>g_nodes_observed := saturating_add (g_nodes_observed g) 1,
      g_properties_read := saturating_add (g_properties_read g) p,
      g_max_depth_observed := max (g_max_depth_observed g) d\<rparr>"
    using assms by (auto simp: admit_node_def Let_def split: if_splits)
  have less: "g_nodes_observed g < max_nodes (g_budget g)"
    using v by (auto simp: violated_limits_def not_le split: if_splits)
  have "unat (max_nodes (g_budget g)) < 2 ^ 64" using unsigned_less [of "max_nodes (g_budget g)"] by simp
  with less have nodes: "unat (saturating_add (g_nodes_observed g) 1) = unat (g_nodes_observed g) + 1"
    using unat_saturating_add [of "g_nodes_observed g" 1] by (simp add: word_less_nat_alt)
  then have "saturating_add (g_nodes_observed g) 1 \<le> max_nodes (g_budget g)"
    using less by (simp add: word_le_nat_alt word_less_nat_alt)
  with v nodes show ?thesis by (auto simp: g' violated_limits_def not_less split: if_splits)
qed

lemma admit_all_facts:
  assumes "admit_all g requests = (answers, g')" "guard_bounded g"
  shows "guard_bounded g' \<and> g_budget g' = g_budget g \<and> length answers = length requests
    \<and> unat (g_nodes_observed g') = unat (g_nodes_observed g) + length (filter id answers)
    \<and> (max_properties (g_budget g) \<noteq> - 1 \<longrightarrow>
         unat (g_properties_read g') = unat (g_properties_read g) + sum_list (admitted answers requests))
    \<and> (g_exhausted g' \<noteq> {} \<longleftrightarrow> g_exhausted g \<noteq> {} \<or> False \<in> set answers)"
  using assms
proof (induction g requests arbitrary: answers rule: admit_all.induct)
  case (2 g d p requests)
  obtain answer g1 where step: "admit_node g d p = (answer, g1)" by force
  obtain rest where rest: "admit_all g1 requests = (rest, g')" and answers: "answers = answer # rest"
    using "2.prems" (1) step by (auto split: prod.splits)
  note IH = "2.IH" [OF step [symmetric] rest]
  show ?case
  proof (cases answer)
    case True
    have "admit_node g d p = (True, g1)" using step True by simp
    note acc = admit_node_accepted [OF this]
    have "guard_bounded g1" using acc "2.prems" (2) by (auto simp: guard_bounded_def)
    moreover have "unat (g_properties_read g1) = unat (g_properties_read g) + unat p"
      if "max_properties (g_budget g) \<noteq> - 1"
    proof -
      have "g_properties_read g1 < - 1" using acc that by (metis max_word_max order_le_less order_less_le_trans word_order.extremum_strict)
      then have "unat (g_properties_read g1) < 2 ^ 64 - 1" by (simp add: word_less_nat_alt unat_max_word)
      then show ?thesis using acc unat_saturating_add [of "g_properties_read g" p] by simp
    qed
    ultimately show ?thesis using IH acc True by (simp add: answers admitted_def)
  next
    case False
    have "admit_node g d p = (False, g1)" using step False by simp
    note rej = admit_node_rejected [OF this]
    have "guard_bounded g1" using rej "2.prems" (2) by (simp add: guard_bounded_def)
    with IH rej False show ?thesis by (auto simp: answers admitted_def)
  qed
qed (auto simp: admitted_def)

lemma guard_finish_incomplete: "ru_incomplete (guard_finish g) \<longleftrightarrow> g_exhausted g \<noteq> {}"
proof -
  have "l \<in> set [LimitNodes, LimitDepth, LimitProperties]" for l by (cases l) simp_all
  then have "set (filter (\<lambda>l. l \<in> g_exhausted g) [LimitNodes, LimitDepth, LimitProperties]) = g_exhausted g"
    unfolding set_filter by blast
  then show ?thesis by (simp only: guard_finish_def Let_def snapshot_resource_usage.simps) (metis set_empty)
qed

text \<open>C21. The budget of a snapshot accounts exactly. Whatever nodes are offered, the nodes and
  properties read and the depth seen stay within the budget; the counters are the number of
  admitted nodes and the sum of their properties (the addition saturates only under a
  budget of \<open>u64::MAX\<close> properties, and a rejected node counts for nothing); and the usage is
  marked incomplete exactly when a node was rejected.\<close>

theorem snapshot_budget_accounts:
  assumes "admit_all (guard_new budget) requests = (answers, g)" "guard_finish g = usage"
  shows "ru_nodes_observed usage \<le> max_nodes budget \<and> ru_properties_read usage \<le> max_properties budget
    \<and> ru_max_depth_observed usage \<le> max_depth budget
    \<and> unat (ru_nodes_observed usage) = length (filter id answers)
    \<and> (max_properties budget \<noteq> - 1 \<longrightarrow>
         unat (ru_properties_read usage) = sum_list (admitted answers requests))
    \<and> (ru_incomplete usage \<longleftrightarrow> False \<in> set answers)
    \<and> (ru_incomplete usage \<longleftrightarrow> ru_exhausted usage \<noteq> [])"
proof -
  have "guard_bounded (guard_new budget)" by (simp add: guard_bounded_def guard_new_def)
  note facts = admit_all_facts [OF assms (1) this]
  have "ru_nodes_observed usage = g_nodes_observed g" "ru_properties_read usage = g_properties_read g"
    "ru_max_depth_observed usage = g_max_depth_observed g" "ru_incomplete usage \<longleftrightarrow> ru_exhausted usage \<noteq> []"
    using assms (2) by (auto simp: guard_finish_def Let_def)
  then show ?thesis using facts guard_finish_incomplete [of g] assms (2)
    by (auto simp: guard_bounded_def guard_new_def)
qed

theorem snapshot_budget_accounts_witness:
  "unat (ru_properties_read (guard_finish (snd (admit_all (guard_new \<lparr>max_nodes = 2, max_depth = 1,
      max_properties = 9\<rparr>) [(0, 4), (2, 1), (1, 5), (1, 1)])))) = 9
   \<and> ru_incomplete (guard_finish (snd (admit_all (guard_new \<lparr>max_nodes = 2, max_depth = 1,
      max_properties = 9\<rparr>) [(0, 4), (2, 1), (1, 5), (1, 1)])))"
proof -
  let ?b = "\<lparr>max_nodes = 2, max_depth = 1, max_properties = 9\<rparr> :: snapshot_budget"
  let ?rs = "[(0, 4), (2, 1), (1, 5), (1, 1)] :: (u64 \<times> u64) list"
  have answers: "fst (admit_all (guard_new ?b) ?rs) = [True, False, True, False]" by code_simp
  then obtain g where run: "admit_all (guard_new ?b) ?rs = ([True, False, True, False], g)"
    by (metis prod.collapse)
  have "max_properties ?b \<noteq> - 1" by simp
  with snapshot_budget_accounts [OF run refl] show ?thesis
    unfolding run snd_conv by (simp add: admitted_def del: admit_all.simps)
qed

section \<open>Runs of the cache\<close>

fun publish_all ::
  "(native_semantic_snapshot_draft \<Rightarrow> string) \<Rightarrow> semantic_snapshot_cache
    \<Rightarrow> native_semantic_snapshot_draft list \<Rightarrow> native_semantic_snapshot_revision list" where
  "publish_all digest c [] = []"
| "publish_all digest c (d # ds) =
     (case publish digest c d of
        (Inl _, c1) \<Rightarrow> publish_all digest c1 ds
      | (Inr r, c1) \<Rightarrow> r # publish_all digest c1 ds)"

definition revision_ok :: "provider_incarnation_ref \<Rightarrow> target_incarnation_ref
    \<Rightarrow> native_semantic_snapshot_revision \<Rightarrow> bool" where
  "revision_ok provider target r \<longleftrightarrow>
     sd_provider_incarnation_ref r = provider \<and> sd_target_incarnation_ref r = target
     \<and> (sd_completeness r = SEstablished \<longrightarrow> sd_incompleteness_debt r = []
          \<and> ru_exhausted (sd_resource_usage r) = [] \<and> \<not> ru_incomplete (sd_resource_usage r))
     \<and> unat (ru_nodes_observed (sd_resource_usage r)) = length (sd_nodes r)
     \<and> (\<forall>k < length (sd_nodes r).
          per_provider_incarnation_ref (n_element_ref (sd_nodes r ! k)) = provider
          \<and> per_target_incarnation_ref (n_element_ref (sd_nodes r ! k)) = target
          \<and> per_acquisition_cut_ref (n_element_ref (sd_nodes r ! k)) = sd_snapshot_cut_ref r
          \<and> (\<forall>p \<in> set_option (n_parent_index (sd_nodes r ! k)). p < k))"

lemma revision_of_simps [simp]:
  "sd_provider_incarnation_ref (revision_of d h) = sd_provider_incarnation_ref d"
  "sd_target_incarnation_ref (revision_of d h) = sd_target_incarnation_ref d"
  "sd_snapshot_cut_ref (revision_of d h) = sd_snapshot_cut_ref d"
  "sd_surface_scope (revision_of d h) = sd_surface_scope d"
  "sd_capture_sequence (revision_of d h) = sd_capture_sequence d"
  "sd_nodes (revision_of d h) = sd_nodes d"
  "sd_resource_usage (revision_of d h) = sd_resource_usage d"
  "sd_completeness (revision_of d h) = sd_completeness d"
  "sd_incompleteness_debt (revision_of d h) = sd_incompleteness_debt d"
  "sr_observed_digest (revision_of d h) = h"
  "sr_cache_revision_ref (revision_of d h) = ''native-semantic-cache:'' @ show_u64 (sd_capture_sequence d) @ '':'' @ h"
  by (simp_all add: revision_of_def native_semantic_snapshot_draft.defs native_semantic_snapshot_revision.defs)

lemma publish_Inr:
  assumes "publish digest c d = (Inr r, c')"
  shows "r = revision_of d (digest d) \<and> c' = c\<lparr>sc_current := Some r\<rparr>
    \<and> revision_ok (sc_provider_incarnation_ref c) (sc_target_incarnation_ref c) r
    \<and> (\<forall>s \<in> set_option (sc_current c). sd_capture_sequence s < sd_capture_sequence r)"
proof -
  have v: "validate_draft c d = Inr ()" and r: "r = revision_of d (digest d)" "c' = c\<lparr>sc_current := Some r\<rparr>"
    using assms by (auto simp: publish_def Let_def split: sum.splits)
  have "validate_nodes d 0 (sd_nodes d) = Inr ()"
    using v by (auto simp: validate_draft_def Let_def)
  moreover have "sd_provider_incarnation_ref d = sc_provider_incarnation_ref c"
    "sd_target_incarnation_ref d = sc_target_incarnation_ref c"
    "sd_completeness d = SEstablished \<Longrightarrow> sd_incompleteness_debt d = []
      \<and> ru_exhausted (sd_resource_usage d) = [] \<and> \<not> ru_incomplete (sd_resource_usage d)"
    "unat (ru_nodes_observed (sd_resource_usage d)) = length (sd_nodes d)"
    "\<forall>s \<in> set_option (sc_current c). sd_capture_sequence s < sd_capture_sequence d"
    using v by (auto simp: validate_draft_def Let_def check_all_Inr not_le simp del: check_all.simps
        split: option.splits)
  ultimately show ?thesis by (simp add: r revision_ok_def validate_nodes_Inr)
qed

lemma publish_Inl: "publish digest c d = (Inl e, c') \<Longrightarrow> c' = c"
  by (auto simp: publish_def Let_def split: sum.splits)

definition published_after :: "(native_semantic_snapshot_draft \<Rightarrow> string) \<Rightarrow> semantic_snapshot_cache
    \<Rightarrow> native_semantic_snapshot_draft list \<Rightarrow> native_semantic_snapshot_revision \<Rightarrow> bool" where
  "published_after digest c ds r \<longleftrightarrow>
     revision_ok (sc_provider_incarnation_ref c) (sc_target_incarnation_ref c) r
     \<and> (\<forall>s \<in> set_option (sc_current c). sd_capture_sequence s < sd_capture_sequence r)
     \<and> (\<exists>d \<in> set ds. r = revision_of d (digest d))"

lemma published_after_Cons: "published_after digest c ds r \<Longrightarrow> published_after digest c (d # ds) r"
  unfolding published_after_def by (meson list.set_intros(2))

lemma published_after_step:
  assumes "publish digest c d = (Inr r, c1)" "published_after digest c1 ds s"
  shows "published_after digest c (d # ds) s \<and> sd_capture_sequence r < sd_capture_sequence s"
proof -
  have c1: "c1 = c\<lparr>sc_current := Some r\<rparr>"
    and less: "\<forall>s \<in> set_option (sc_current c). sd_capture_sequence s < sd_capture_sequence r"
    using publish_Inr [OF assms (1)] by blast+
  have "sd_capture_sequence r < sd_capture_sequence s" using assms (2) c1 by (simp add: published_after_def)
  moreover from this less have "\<forall>t \<in> set_option (sc_current c). sd_capture_sequence t < sd_capture_sequence s"
    by (meson order_less_trans)
  ultimately show ?thesis using assms (2) unfolding published_after_def c1 by simp
qed

lemma publish_all_facts:
  "list_all (published_after digest c ds) (publish_all digest c ds)
   \<and> sorted_wrt (\<lambda>r s. sd_capture_sequence r < sd_capture_sequence s) (publish_all digest c ds)"
proof (induction digest c ds rule: publish_all.induct)
  case (2 digest c d ds)
  obtain res c1 where p: "publish digest c d = (res, c1)" by force
  show ?case
  proof (cases res)
    case (Inl e)
    with p have "c1 = c" using publish_Inl by blast
    with "2.IH" (1) [OF p [symmetric] Inl] p Inl show ?thesis
      by (auto simp: list_all_iff intro: published_after_Cons)
  next
    case (Inr r)
    note IH = "2.IH" (2) [OF p [symmetric] Inr] and pr = p [unfolded Inr]
    have "published_after digest c (d # ds) r"
      using publish_Inr [OF pr] unfolding published_after_def by auto
    moreover have "list_all (published_after digest c (d # ds)) (publish_all digest c1 ds)"
      "\<forall>s \<in> set (publish_all digest c1 ds). sd_capture_sequence r < sd_capture_sequence s"
      using IH published_after_step [OF pr] unfolding list_all_iff by blast+
    ultimately show ?thesis using IH by (simp add: pr)
  qed
qed simp

text \<open>The name of a revision determines its capture sequence.\<close>

lemma colon_code: "of_char (CHR '':'') = (58 :: nat)"
  by simp

lemma show_nat_digits: "CHR '':'' \<notin> set (show_nat n)"
proof (induction n rule: show_nat.induct)
  case (1 n)
  have digit: "CHR '':'' \<noteq> show_digit d" if "d < 10" for d
  proof
    assume "CHR '':'' = show_digit d"
    then have "(58 :: nat) = of_char (show_digit d)" using colon_code by simp
    with that show False by (simp add: show_digit_def)
  qed
  show ?case
  proof (cases "n < 10")
    case True
    then show ?thesis using digit [of n] by (subst show_nat.simps) simp
  next
    case False
    then show ?thesis using 1 digit [of "n mod 10"] by (subst show_nat.simps) simp
  qed
qed

lemma append_sep_inj: "c \<notin> set xs \<Longrightarrow> c \<notin> set ys \<Longrightarrow> xs @ c # zs = ys @ c # ws \<Longrightarrow> xs = ys"
  by (induction xs arbitrary: ys) (case_tac ys; auto)+

lemma revision_ref_inj:
  assumes "sr_cache_revision_ref (revision_of d h) = sr_cache_revision_ref (revision_of d' h')"
  shows "sd_capture_sequence d = sd_capture_sequence d'"
proof -
  have "show_u64 (sd_capture_sequence d) @ CHR '':'' # h = show_u64 (sd_capture_sequence d') @ CHR '':'' # h'"
    using assms by simp
  then have "show_u64 (sd_capture_sequence d) = show_u64 (sd_capture_sequence d')"
    by (rule append_sep_inj [rotated 2]) (simp_all only: show_u64_def show_nat_digits not_False_eq_True)
  then show ?thesis by (simp add: show_u64_inj)
qed

text \<open>C22. What a snapshot cache publishes. For any sequence of drafts offered to the cache of a
  lineage, the revisions it publishes belong to that provider and target, carry strictly increasing
  capture sequences under pairwise different names, claim to be established only without any
  debt, exhausted budget or incompleteness, and hold nodes that all stem from the one cut of
  the snapshot and from a parent before them.\<close>

theorem published_revisions_are_sound:
  "list_all (revision_ok provider target) (publish_all digest (for_lineage provider target) drafts)
   \<and> sorted_wrt (\<lambda>r s. sd_capture_sequence r < sd_capture_sequence s
        \<and> sr_cache_revision_ref r \<noteq> sr_cache_revision_ref s)
      (publish_all digest (for_lineage provider target) drafts)"
proof -
  note facts = publish_all_facts [of digest "for_lineage provider target" drafts]
  let ?rs = "publish_all digest (for_lineage provider target) drafts"
  have "sr_cache_revision_ref r \<noteq> sr_cache_revision_ref s"
    if "r \<in> set ?rs" "s \<in> set ?rs" "sd_capture_sequence r < sd_capture_sequence s" for r s
  proof -
    obtain d d' where "r = revision_of d (digest d)" "s = revision_of d' (digest d')"
      using facts \<open>r \<in> set ?rs\<close> \<open>s \<in> set ?rs\<close> unfolding list_all_iff published_after_def by blast
    then show ?thesis using revision_ref_inj that (3) by (metis less_irrefl revision_of_simps (5))
  qed
  then have "sorted_wrt (\<lambda>r s. sd_capture_sequence r < sd_capture_sequence s
      \<and> sr_cache_revision_ref r \<noteq> sr_cache_revision_ref s) ?rs"
    using facts by (auto intro: sorted_wrt_mono_rel [of ?rs "\<lambda>r s. sd_capture_sequence r < sd_capture_sequence s"])
  moreover have "list_all (revision_ok provider target) ?rs"
    using facts by (simp add: list_all_iff published_after_def for_lineage_def)
  ultimately show ?thesis by blast
qed

end
