(* ===== verification/Contract_Codec.thy ===== *)
theory Contract_Codec
  imports Native_Snapshot Bridge_Types
begin

text \<open>
  The postcondition contracts (\<open>src/crates/postcondition-contracts/src/lib.rs\<close>): the four
  registered schemas, their references (the durable text an action names a contract by), the
  registry that decodes a reference, and the evaluation of a contract against a snapshot.
  Writing and reading JSON text is \<open>serde_json\<close>, a parameter \<open>serde\<close>; its object is a
  \<open>BTreeMap\<close>, whose members are kept in the order of their keys. \<open>unreachable!\<close> is \<open>None\<close>.
\<close>

section \<open>Strings and JSON values\<close>

record serde =
  write_value :: "json \<Rightarrow> string option"
  write_string :: "string \<Rightarrow> string option"
  write_string_map :: "(string, string) btree_map \<Rightarrow> string option"
  parse :: "string \<Rightarrow> json option"

definition ok_or :: "'e \<Rightarrow> 'a option \<Rightarrow> 'e + 'a" where
  "ok_or e x = (case x of None \<Rightarrow> Inl e | Some v \<Rightarrow> Inr v)"

lemma ok_or_Inr [simp]: "ok_or e x = Inr v \<longleftrightarrow> x = Some v"
  by (simp add: ok_or_def split: option.split)

text \<open>\<open>split(':').next()\<close>, and what \<open>splitn\<close> finds after the first separator.\<close>

definition colon :: char where
  "colon = CHR '':''"

definition before_colon :: "string \<Rightarrow> string" where
  "before_colon s = takeWhile (\<lambda>c. c \<noteq> colon) s"

definition after_colon :: "string \<Rightarrow> string option" where
  "after_colon s = (case dropWhile (\<lambda>c. c \<noteq> colon) s of [] \<Rightarrow> None | _ # rest \<Rightarrow> Some rest)"

lemma before_colon_append [simp]: "colon \<notin> set p \<Longrightarrow> before_colon (p @ colon # t) = p"
  unfolding before_colon_def by (subst takeWhile_append2) auto

lemma after_colon_append [simp]: "colon \<notin> set p \<Longrightarrow> after_colon (p @ colon # t) = Some t"
  unfolding after_colon_def by (subst dropWhile_append2) auto

fun join_with_comma :: "string list \<Rightarrow> string" where
  "join_with_comma [] = ''''"
| "join_with_comma [x] = x"
| "join_with_comma (x # y # xs) = x @ '','' @ join_with_comma (y # xs)"

fun as_str :: "json \<Rightarrow> string option" where
  "as_str (JString s) = Some s"
| "as_str _ = None"

fun as_object :: "json \<Rightarrow> (string \<times> json) list option" where
  "as_object (JObject members) = Some members"
| "as_object _ = None"

fun as_u64 :: "json \<Rightarrow> u64 option" where
  "as_u64 (JNumber (PosInt n)) = Some n"
| "as_u64 _ = None"

definition contains_key :: "(string \<times> json) list \<Rightarrow> string \<Rightarrow> bool" where
  "contains_key members k \<longleftrightarrow> map_of members k \<noteq> None"

definition quoted :: "string \<Rightarrow> string" where
  "quoted s = ''\"'' @ s @ ''\"''"

section \<open>Payload equality\<close>

datatype payload_equality_mode_v1 = ReplaceValue | ClearValue

fun mode_as_str :: "payload_equality_mode_v1 \<Rightarrow> string" where
  "mode_as_str ReplaceValue = ''replace_value''"
| "mode_as_str ClearValue = ''clear_value''"

datatype payload_equality_error =
    PEUnsupportedVersion string | PEUnsupportedFamily | PEInvalidPayload | PEUnknownField
  | PEInvalidPayloadRef | PENonCanonicalReference

definition mode_parse :: "json \<Rightarrow> payload_equality_error + payload_equality_mode_v1" where
  "mode_parse v = (if as_str v = Some ''replace_value'' then Inr ReplaceValue
     else if as_str v = Some ''clear_value'' then Inr ClearValue else Inl PEInvalidPayload)"

record payload_equality_contract_v1 =
  pe_mode :: payload_equality_mode_v1
  pe_payload_ref :: string

definition is_canonical_uuid :: "string \<Rightarrow> bool" where
  "is_canonical_uuid s \<longleftrightarrow> length s = 36 \<and>
     (\<forall>i \<in> {0..<36}. if i \<in> {8, 13, 18, 23} then s ! i = CHR ''-''
       else s ! i \<in> set ''0123456789abcdef'')"

definition payload_equality_prefix_v1 :: string where
  "payload_equality_prefix_v1 = ''lvpc:payload-equality:v1:''"

definition payload_equality_family_prefix :: string where
  "payload_equality_family_prefix = ''lvpc:payload-equality:v''"

definition pe_to_contract_ref ::
  "serde \<Rightarrow> payload_equality_contract_v1 \<Rightarrow> payload_equality_error + string" where
  "pe_to_contract_ref ser c =
     (if \<not> is_canonical_uuid (pe_payload_ref c) then Inl PEInvalidPayloadRef
      else bind_result (ok_or PEInvalidPayload (write_string ser (pe_payload_ref c)))
        (\<lambda>payload_ref. Inr (payload_equality_prefix_v1 @ ''{\"mode\":'' @ quoted (mode_as_str (pe_mode c))
           @ '',\"payload_ref\":'' @ payload_ref @ ''}'')))"

definition pe_payload_for_version :: "string \<Rightarrow> payload_equality_error + string" where
  "pe_payload_for_version r =
     (case strip_prefix payload_equality_prefix_v1 r of
        Some payload \<Rightarrow> Inr payload
      | None \<Rightarrow> (case strip_prefix payload_equality_family_prefix r of
                  Some rest \<Rightarrow> Inl (PEUnsupportedVersion (before_colon rest))
                | None \<Rightarrow> Inl PEUnsupportedFamily))"

definition pe_from_contract_ref ::
  "serde \<Rightarrow> string \<Rightarrow> payload_equality_error + payload_equality_contract_v1" where
  "pe_from_contract_ref ser r =
     bind_result (pe_payload_for_version r) (\<lambda>payload.
     bind_result (ok_or PEInvalidPayload (parse ser payload)) (\<lambda>value.
     bind_result (ok_or PEInvalidPayload (as_object value)) (\<lambda>object.
       if length object \<noteq> 2 \<or> \<not> contains_key object ''mode'' \<or> \<not> contains_key object ''payload_ref''
       then Inl PEUnknownField
       else
     bind_result (ok_or PEInvalidPayload (Option.bind (map_of object ''payload_ref'') as_str)) (\<lambda>payload_ref.
       if \<not> is_canonical_uuid payload_ref then Inl PEInvalidPayloadRef
       else
     bind_result (bind_result (ok_or PEInvalidPayload (map_of object ''mode'')) mode_parse) (\<lambda>mode.
       let contract = \<lparr>pe_mode = mode, pe_payload_ref = payload_ref\<rparr>
       in bind_result (pe_to_contract_ref ser contract) (\<lambda>canonical.
            if canonical \<noteq> r then Inl PENonCanonicalReference else Inr contract))))))"

section \<open>Web semantic\<close>

datatype presence_expectation = Present | Absent

fun expectation_as_str :: "presence_expectation \<Rightarrow> string" where
  "expectation_as_str Present = ''present''"
| "expectation_as_str Absent = ''absent''"

text \<open>The two \<open>parse\<close> functions differ in the type of their error only.\<close>

definition expectation_parse :: "'e \<Rightarrow> json \<Rightarrow> 'e + presence_expectation" where
  "expectation_parse invalid v = (if as_str v = Some ''present'' then Inr Present
     else if as_str v = Some ''absent'' then Inr Absent else Inl invalid)"

datatype postcondition_evaluation = EvalVerifiedPass | EvalVerifiedFail | EvalUnknown

definition presence_evaluation :: "presence_expectation \<Rightarrow> bool \<Rightarrow> postcondition_evaluation" where
  "presence_evaluation expectation found =
     (case (expectation, found) of
        (Present, True) \<Rightarrow> EvalVerifiedPass | (Absent, False) \<Rightarrow> EvalVerifiedPass
      | (Present, False) \<Rightarrow> EvalVerifiedFail | (Absent, True) \<Rightarrow> EvalVerifiedFail)"

record web_semantic_contract_v1 =
  ws_expectation :: presence_expectation
  ws_reference :: string

datatype web_semantic_error =
    WSUnsupportedVersion string | WSUnsupportedFamily | WSInvalidPayload | WSUnknownField
  | WSInvalidReference | WSNonCanonicalReference

definition web_semantic_prefix_v1 :: string where
  "web_semantic_prefix_v1 = ''lvpc:web-semantic:v1:''"

definition web_semantic_family_prefix :: string where
  "web_semantic_family_prefix = ''lvpc:web-semantic:v''"

definition valid_web_reference :: "string \<Rightarrow> bool" where
  "valid_web_reference reference =
     (case strip_prefix ''@e'' reference of
        None \<Rightarrow> False
      | Some rest \<Rightarrow> rest \<noteq> [] \<and> length reference \<le> 256
          \<and> list_all (\<lambda>c. c \<in> set ''0123456789abcdefABCDEF'') rest)"

definition ws_to_contract_ref :: "serde \<Rightarrow> web_semantic_contract_v1 \<Rightarrow> web_semantic_error + string" where
  "ws_to_contract_ref ser c =
     (if \<not> valid_web_reference (ws_reference c) then Inl WSInvalidReference
      else bind_result (ok_or WSInvalidPayload (write_string ser (ws_reference c)))
        (\<lambda>reference. Inr (web_semantic_prefix_v1 @ ''{\"expectation\":''
           @ quoted (expectation_as_str (ws_expectation c)) @ '',\"ref\":'' @ reference @ ''}'')))"

definition ws_payload_for_version :: "string \<Rightarrow> web_semantic_error + string" where
  "ws_payload_for_version r =
     (case strip_prefix web_semantic_prefix_v1 r of
        Some payload \<Rightarrow> Inr payload
      | None \<Rightarrow> (case strip_prefix web_semantic_family_prefix r of
                  Some rest \<Rightarrow> Inl (WSUnsupportedVersion (before_colon rest))
                | None \<Rightarrow> Inl WSUnsupportedFamily))"

definition ws_from_contract_ref :: "serde \<Rightarrow> string \<Rightarrow> web_semantic_error + web_semantic_contract_v1" where
  "ws_from_contract_ref ser r =
     bind_result (ws_payload_for_version r) (\<lambda>payload.
     bind_result (ok_or WSInvalidPayload (parse ser payload)) (\<lambda>value.
     bind_result (ok_or WSInvalidPayload (as_object value)) (\<lambda>object.
       if length object \<noteq> 2 \<or> \<not> contains_key object ''expectation'' \<or> \<not> contains_key object ''ref''
       then Inl WSUnknownField
       else
     bind_result (ok_or WSInvalidPayload (Option.bind (map_of object ''ref'') as_str)) (\<lambda>reference.
     bind_result (bind_result (ok_or WSInvalidPayload (map_of object ''expectation''))
         (expectation_parse WSInvalidPayload)) (\<lambda>expectation.
       let contract = \<lparr>ws_expectation = expectation, ws_reference = reference\<rparr>
       in if \<not> valid_web_reference (ws_reference contract) then Inl WSInvalidReference
          else bind_result (ws_to_contract_ref ser contract) (\<lambda>canonical.
            if canonical \<noteq> r then Inl WSNonCanonicalReference else Inr contract))))))"

end
