(* ===== verification/Contract_Registry.thy ===== *)
theory Contract_Registry
  imports Contract_Codec
begin

text \<open>
  The native semantic contracts of both versions, the page snapshots of the web contracts, the
  evaluation of contracts and the immutable registry that admits references
  (\<open>src/crates/postcondition-contracts/src/lib.rs\<close>, \<open>src/crates/protocol/src/lib.rs\<close>).
\<close>

section \<open>Matchers\<close>

datatype native_semantic_error =
    NSUnsupportedVersion string | NSUnsupportedFamily | NSInvalidPayload | NSUnknownField
  | NSEmptyMatcher | NSNonCanonicalReference

text \<open>The fields of a matcher, which the two versions wrap in types of their own.\<close>

record parsed_matcher =
  pm_role :: "string option"
  pm_name :: "string option"
  pm_control_type :: "string option"
  pm_automation_id :: "string option"
  pm_class_name :: "string option"
  pm_is_enabled :: "bool option"
  pm_is_offscreen :: "bool option"
  pm_attributes :: "(string, string) btree_map"

datatype node_matcher_v1 = MatcherV1 (matcher_v1_fields: parsed_matcher)
datatype node_matcher_v2 = MatcherV2 (matcher_v2_fields: parsed_matcher)

definition matcher_is_empty :: "parsed_matcher \<Rightarrow> bool" where
  "matcher_is_empty p \<longleftrightarrow> pm_role p = None \<and> pm_name p = None \<and> pm_control_type p = None
     \<and> pm_automation_id p = None \<and> pm_class_name p = None \<and> pm_is_enabled p = None
     \<and> pm_is_offscreen p = None \<and> pm_attributes p = []"

definition option_matches :: "'a option \<Rightarrow> 'a option \<Rightarrow> bool" where
  "option_matches expected observed \<longleftrightarrow> (case expected of None \<Rightarrow> True | Some e \<Rightarrow> observed = Some e)"

definition matcher_matches :: "parsed_matcher \<Rightarrow> native_semantic_node_observation \<Rightarrow> bool" where
  "matcher_matches p n \<longleftrightarrow> option_matches (pm_role p) (n_role n) \<and> option_matches (pm_name p) (n_name n)
     \<and> option_matches (pm_control_type p) (n_control_type n)
     \<and> option_matches (pm_automation_id p) (n_automation_id n)
     \<and> option_matches (pm_class_name p) (n_class_name n)
     \<and> option_matches (pm_is_enabled p) (n_is_enabled n)
     \<and> option_matches (pm_is_offscreen p) (n_is_offscreen n)
     \<and> list_all (\<lambda>(k, v). map_of (n_attributes n) k = Some v) (pm_attributes p)"

definition insert_optional :: "string \<Rightarrow> json option \<Rightarrow> (string, json) btree_map \<Rightarrow> (string, json) btree_map"
  where
  "insert_optional k v object = (case v of None \<Rightarrow> object | Some v \<Rightarrow> bt_insert k v object)"

definition attributes_object :: "(string, string) btree_map \<Rightarrow> json" where
  "attributes_object attributes = JObject (bt_of_list (map (\<lambda>(k, v). (k, JString v)) attributes))"

definition matcher_to_json :: "parsed_matcher \<Rightarrow> json" where
  "matcher_to_json p = JObject (
     insert_optional ''attributes''
       (if pm_attributes p = [] then None else Some (attributes_object (pm_attributes p)))
     (insert_optional ''is_offscreen'' (map_option JBool (pm_is_offscreen p))
     (insert_optional ''is_enabled'' (map_option JBool (pm_is_enabled p))
     (insert_optional ''class_name'' (map_option JString (pm_class_name p))
     (insert_optional ''automation_id'' (map_option JString (pm_automation_id p))
     (insert_optional ''control_type'' (map_option JString (pm_control_type p))
     (insert_optional ''name'' (map_option JString (pm_name p))
     (insert_optional ''role'' (map_option JString (pm_role p)) []))))))))"

definition optional_string :: "json option \<Rightarrow> native_semantic_error + string option" where
  "optional_string v = (case v of None \<Rightarrow> Inr None | Some (JString s) \<Rightarrow> Inr (Some s)
     | Some _ \<Rightarrow> Inl NSInvalidPayload)"

definition optional_bool :: "json option \<Rightarrow> native_semantic_error + bool option" where
  "optional_bool v = (case v of None \<Rightarrow> Inr None | Some (JBool b) \<Rightarrow> Inr (Some b)
     | Some _ \<Rightarrow> Inl NSInvalidPayload)"

definition matcher_keys :: "string list" where
  "matcher_keys = [''role'', ''name'', ''control_type'', ''automation_id'', ''class_name'',
     ''is_enabled'', ''is_offscreen'', ''attributes'']"

text \<open>Collecting the attributes stops at the first member that is not a string.\<close>

fun string_members :: "(string \<times> json) list \<Rightarrow> native_semantic_error + (string \<times> string) list" where
  "string_members [] = Inr []"
| "string_members ((k, v) # members) =
     bind_result (ok_or NSInvalidPayload (as_str v)) (\<lambda>s.
       bind_result (string_members members) (\<lambda>rest. Inr ((k, s) # rest)))"

definition parse_attributes :: "json option \<Rightarrow> native_semantic_error + (string, string) btree_map" where
  "parse_attributes v = (case v of
     None \<Rightarrow> Inr []
   | Some (JObject members) \<Rightarrow> bind_result (string_members members) (\<lambda>entries. Inr (bt_of_list entries))
   | Some _ \<Rightarrow> Inl NSInvalidPayload)"

definition parse_matcher :: "json \<Rightarrow> native_semantic_error + parsed_matcher" where
  "parse_matcher v =
     bind_result (ok_or NSInvalidPayload (as_object v)) (\<lambda>object.
       if \<exists>(k, _) \<in> set object. k \<notin> set matcher_keys then Inl NSUnknownField
       else
     bind_result (parse_attributes (map_of object ''attributes'')) (\<lambda>attributes.
     bind_result (optional_string (map_of object ''role'')) (\<lambda>role.
     bind_result (optional_string (map_of object ''name'')) (\<lambda>name.
     bind_result (optional_string (map_of object ''control_type'')) (\<lambda>control_type.
     bind_result (optional_string (map_of object ''automation_id'')) (\<lambda>automation_id.
     bind_result (optional_string (map_of object ''class_name'')) (\<lambda>class_name.
     bind_result (optional_bool (map_of object ''is_enabled'')) (\<lambda>is_enabled.
     bind_result (optional_bool (map_of object ''is_offscreen'')) (\<lambda>is_offscreen.
       Inr \<lparr>pm_role = role, pm_name = name, pm_control_type = control_type,
            pm_automation_id = automation_id, pm_class_name = class_name, pm_is_enabled = is_enabled,
            pm_is_offscreen = is_offscreen, pm_attributes = attributes\<rparr>)))))))))"

definition matcher_from_json :: "json \<Rightarrow> native_semantic_error + parsed_matcher" where
  "matcher_from_json v =
     bind_result (parse_matcher v) (\<lambda>p. if matcher_is_empty p then Inl NSEmptyMatcher else Inr p)"

text \<open>The canonical text of a version 2 matcher lists its fields in the order of the schema.\<close>

definition push_field :: "string \<Rightarrow> string option \<Rightarrow> string list \<Rightarrow> string list" where
  "push_field key text fs =
     (case text of None \<Rightarrow> fs | Some t \<Rightarrow> fs @ [quoted key @ '':'' @ t])"

definition push_string_field ::
  "serde \<Rightarrow> string \<Rightarrow> string option \<Rightarrow> string list \<Rightarrow> native_semantic_error + string list" where
  "push_string_field ser key v fs =
     (case v of
        None \<Rightarrow> Inr fs
      | Some s \<Rightarrow> bind_result (ok_or NSInvalidPayload (write_string ser s))
                   (\<lambda>t. Inr (push_field key (Some t) fs)))"

definition show_bool :: "bool \<Rightarrow> string" where
  "show_bool b = (if b then ''true'' else ''false'')"

definition matcher_to_canonical_json :: "serde \<Rightarrow> parsed_matcher \<Rightarrow> native_semantic_error + string" where
  "matcher_to_canonical_json ser p =
     (if matcher_is_empty p then Inl NSEmptyMatcher
      else
     bind_result (push_string_field ser ''role'' (pm_role p) []) (\<lambda>fs.
     bind_result (push_string_field ser ''name'' (pm_name p) fs) (\<lambda>fs.
     bind_result (push_string_field ser ''control_type'' (pm_control_type p) fs) (\<lambda>fs.
     bind_result (push_string_field ser ''automation_id'' (pm_automation_id p) fs) (\<lambda>fs.
     bind_result (push_string_field ser ''class_name'' (pm_class_name p) fs) (\<lambda>fs.
       let fs = push_field ''is_enabled'' (map_option show_bool (pm_is_enabled p)) fs;
           fs = push_field ''is_offscreen'' (map_option show_bool (pm_is_offscreen p)) fs
       in bind_result (if pm_attributes p = [] then Inr fs
            else bind_result (ok_or NSInvalidPayload (write_string_map ser (pm_attributes p)))
              (\<lambda>t. Inr (push_field ''attributes'' (Some t) fs)))
          (\<lambda>fs. Inr (''{'' @ join_with_comma fs @ ''}''))))))))"

section \<open>Native semantic contracts\<close>

record native_semantic_contract_v1 =
  ns1_expectation :: presence_expectation
  ns1_matcher :: node_matcher_v1

datatype count_comparison_v2 = CountEqual | CountAtLeast | CountAtMost

fun comparison_as_str :: "count_comparison_v2 \<Rightarrow> string" where
  "comparison_as_str CountEqual = ''equal''"
| "comparison_as_str CountAtLeast = ''at_least''"
| "comparison_as_str CountAtMost = ''at_most''"

definition comparison_parse :: "json \<Rightarrow> native_semantic_error + count_comparison_v2" where
  "comparison_parse v = (if as_str v = Some ''equal'' then Inr CountEqual
     else if as_str v = Some ''at_least'' then Inr CountAtLeast
     else if as_str v = Some ''at_most'' then Inr CountAtMost else Inl NSInvalidPayload)"

record native_semantic_contract_v2 =
  ns2_comparison :: count_comparison_v2
  ns2_count :: u32
  ns2_matcher :: node_matcher_v2

definition contract_prefix_v1 :: string where
  "contract_prefix_v1 = ''lvpc:native-semantic:v1:''"

definition contract_prefix_v2 :: string where
  "contract_prefix_v2 = ''lvpc:native-semantic:v2:''"

definition contract_family_prefix :: string where
  "contract_family_prefix = ''lvpc:native-semantic:v''"

definition contract_payload_for_version :: "string \<Rightarrow> string \<Rightarrow> native_semantic_error + string" where
  "contract_payload_for_version r expected_prefix =
     (case strip_prefix expected_prefix r of
        Some payload \<Rightarrow> Inr payload
      | None \<Rightarrow> (case strip_prefix contract_family_prefix r of
                  Some rest \<Rightarrow> Inl (NSUnsupportedVersion (before_colon rest))
                | None \<Rightarrow> Inl NSUnsupportedFamily))"

definition ns1_to_json :: "native_semantic_contract_v1 \<Rightarrow> json" where
  "ns1_to_json c = JObject (bt_insert ''matcher'' (matcher_to_json (matcher_v1_fields (ns1_matcher c)))
     (bt_insert ''expectation'' (JString (expectation_as_str (ns1_expectation c))) []))"

definition ns1_to_contract_ref :: "serde \<Rightarrow> native_semantic_contract_v1 \<Rightarrow> native_semantic_error + string"
  where
  "ns1_to_contract_ref ser c =
     (if matcher_is_empty (matcher_v1_fields (ns1_matcher c)) then Inl NSEmptyMatcher
      else bind_result (ok_or NSInvalidPayload (write_value ser (ns1_to_json c)))
        (\<lambda>payload. Inr (contract_prefix_v1 @ payload)))"

definition ns1_from_contract_ref :: "serde \<Rightarrow> string \<Rightarrow> native_semantic_error + native_semantic_contract_v1"
  where
  "ns1_from_contract_ref ser r =
     bind_result (contract_payload_for_version r contract_prefix_v1) (\<lambda>payload.
     bind_result (ok_or NSInvalidPayload (parse ser payload)) (\<lambda>value.
     bind_result (ok_or NSInvalidPayload (as_object value)) (\<lambda>object.
       if length object \<noteq> 2 \<or> \<not> contains_key object ''expectation'' \<or> \<not> contains_key object ''matcher''
       then Inl NSUnknownField
       else
     bind_result (bind_result (ok_or NSInvalidPayload (map_of object ''expectation''))
         (expectation_parse NSInvalidPayload)) (\<lambda>expectation.
     bind_result (bind_result (ok_or NSInvalidPayload (map_of object ''matcher'')) matcher_from_json) (\<lambda>matcher.
       let contract = \<lparr>ns1_expectation = expectation, ns1_matcher = MatcherV1 matcher\<rparr>
       in bind_result (ns1_to_contract_ref ser contract) (\<lambda>canonical.
            if canonical \<noteq> r then Inl NSNonCanonicalReference else Inr contract))))))"

definition ns2_to_contract_ref :: "serde \<Rightarrow> native_semantic_contract_v2 \<Rightarrow> native_semantic_error + string"
  where
  "ns2_to_contract_ref ser c =
     bind_result (matcher_to_canonical_json ser (matcher_v2_fields (ns2_matcher c)))
       (\<lambda>matcher. Inr (contract_prefix_v2 @ ''{\"comparison\":'' @ quoted (comparison_as_str (ns2_comparison c))
          @ '',\"count\":'' @ show_nat (unat (ns2_count c)) @ '',\"matcher\":'' @ matcher @ ''}''))"

definition ns2_from_contract_ref :: "serde \<Rightarrow> string \<Rightarrow> native_semantic_error + native_semantic_contract_v2"
  where
  "ns2_from_contract_ref ser r =
     bind_result (contract_payload_for_version r contract_prefix_v2) (\<lambda>payload.
     bind_result (ok_or NSInvalidPayload (parse ser payload)) (\<lambda>value.
     bind_result (ok_or NSInvalidPayload (as_object value)) (\<lambda>object.
       if length object \<noteq> 3 \<or> \<not> contains_key object ''comparison'' \<or> \<not> contains_key object ''count''
          \<or> \<not> contains_key object ''matcher''
       then Inl NSUnknownField
       else
     bind_result (ok_or NSInvalidPayload (Option.bind (Option.bind (map_of object ''count'') as_u64)
         (\<lambda>n. if unat n < 2 ^ 32 then Some (of_nat (unat n) :: u32) else None))) (\<lambda>count.
     bind_result (bind_result (ok_or NSInvalidPayload (map_of object ''comparison'')) comparison_parse) (\<lambda>comparison.
     bind_result (bind_result (ok_or NSInvalidPayload (map_of object ''matcher'')) matcher_from_json) (\<lambda>matcher.
       let contract = \<lparr>ns2_comparison = comparison, ns2_count = count, ns2_matcher = MatcherV2 matcher\<rparr>
       in bind_result (ns2_to_contract_ref ser contract) (\<lambda>canonical.
            if canonical \<noteq> r then Inl NSNonCanonicalReference else Inr contract)))))))"

section \<open>Evaluation\<close>

definition snapshot_is_complete :: "native_semantic_snapshot_revision \<Rightarrow> bool" where
  "snapshot_is_complete s \<longleftrightarrow> sd_completeness s = SEstablished \<and> sd_incompleteness_debt s = []
     \<and> \<not> ru_incomplete (sd_resource_usage s)"

definition ns1_evaluate ::
  "native_semantic_contract_v1 \<Rightarrow> native_semantic_snapshot_revision \<Rightarrow> postcondition_evaluation" where
  "ns1_evaluate c s =
     (if \<not> snapshot_is_complete s then EvalUnknown
      else presence_evaluation (ns1_expectation c)
        (list_ex (matcher_matches (matcher_v1_fields (ns1_matcher c))) (sd_nodes s)))"

definition ns2_evaluate ::
  "native_semantic_contract_v2 \<Rightarrow> native_semantic_snapshot_revision \<Rightarrow> postcondition_evaluation" where
  "ns2_evaluate c s =
     (if \<not> snapshot_is_complete s then EvalUnknown
      else
        let observed = length (filter (matcher_matches (matcher_v2_fields (ns2_matcher c))) (sd_nodes s));
            expected = unat (ns2_count c);
            passed = (case ns2_comparison c of
               CountEqual \<Rightarrow> observed = expected
             | CountAtLeast \<Rightarrow> expected \<le> observed
             | CountAtMost \<Rightarrow> observed \<le> expected)
        in if passed then EvalVerifiedPass else EvalVerifiedFail)"

text \<open>What the observer of a page reports; \<open>f64\<close> coordinates are only passed on.\<close>

record rect =
  rect_x :: f64_bits
  rect_y :: f64_bits
  rect_width :: f64_bits
  rect_height :: f64_bits

record source_location =
  src_file :: string
  src_line :: u32
  src_column :: "u32 option"
  src_component :: "string option"

record component_ownership =
  own_framework :: "string option"
  own_file :: string
  own_component :: string
  own_signal :: string

datatype semantic_node = SemanticNode
  (sn_reference: element_ref) (sn_role: "string option") (sn_name: "string option") (sn_tag: string)
  (sn_rect: "rect option") (sn_interactive: bool) (sn_attributes: "(string \<times> string) list")
  (sn_source: "source_location option") (sn_ownership: "component_ownership option")
  (sn_children: "semantic_node list")

record console_issue =
  ci_level :: string
  ci_message :: string
  ci_source :: "string option"
  ci_count :: u32

record network_issue =
  ni_method :: string
  ni_url :: string
  ni_status :: "16 word option"
  ni_error :: "string option"

record page_snapshot =
  ps_version :: u64
  ps_route :: string
  ps_viewport :: "u32 \<times> u32"
  ps_root :: semantic_node
  ps_console_errors :: "console_issue list"
  ps_failed_requests :: "network_issue list"
  ps_captured_at :: timestamp

fun find_web_reference :: "semantic_node \<Rightarrow> string \<Rightarrow> bool" where
  "find_web_reference (SemanticNode reference' role name tag rect interactive attributes source ownership children)
     reference \<longleftrightarrow> reference' = reference \<or> list_ex (\<lambda>child. find_web_reference child reference) children"

definition ws_evaluate :: "web_semantic_contract_v1 \<Rightarrow> page_snapshot \<Rightarrow> postcondition_evaluation" where
  "ws_evaluate c s =
     presence_evaluation (ws_expectation c) (find_web_reference (ps_root s) (ws_reference c))"

section \<open>The registry\<close>

datatype registered_contract =
    NativeSemanticV1 native_semantic_contract_v1
  | NativeSemanticV2 native_semantic_contract_v2
  | PayloadEqualityV1 payload_equality_contract_v1
  | WebSemanticV1 web_semantic_contract_v1

datatype registry_error =
    RegInvalidReference | RegUnsupportedFamily string | RegUnsupportedVersion string string
  | RegNativeSemanticContract native_semantic_error
  | RegPayloadEqualityContract payload_equality_error
  | RegWebSemanticContract web_semantic_error

definition standard_schemas :: "(string \<times> string) list" where
  "standard_schemas = [(''native-semantic'', ''1''), (''native-semantic'', ''2''),
     (''payload-equality'', ''1''), (''web-semantic'', ''1'')]"

text \<open>The parts of \<open>rest.splitn(3, ':')\<close>: the family, the version tag and the payload.\<close>

definition parse_registry_header :: "string \<Rightarrow> registry_error + string \<times> string" where
  "parse_registry_header r =
     (case strip_prefix ''lvpc:'' r of
        None \<Rightarrow> Inl RegInvalidReference
      | Some rest \<Rightarrow>
          if before_colon rest = [] then Inl RegInvalidReference
          else case after_colon rest of
            None \<Rightarrow> Inl RegInvalidReference
          | Some rest2 \<Rightarrow>
              let version_tag = before_colon rest2
              in if \<not> (take 1 version_tag = ''v'' \<and> 1 < length version_tag) then Inl RegInvalidReference
                 else case after_colon rest2 of
                   None \<Rightarrow> Inl RegInvalidReference
                 | Some payload \<Rightarrow>
                     if payload = [] then Inl RegInvalidReference
                     else Inr (before_colon rest, drop 1 version_tag))"

definition map_result :: "('e \<Rightarrow> 'f) \<Rightarrow> ('a \<Rightarrow> 'b) \<Rightarrow> 'e + 'a \<Rightarrow> 'f + 'b" where
  "map_result f g r = (case r of Inl e \<Rightarrow> Inl (f e) | Inr a \<Rightarrow> Inr (g a))"

lemma map_result_Inr [simp]: "map_result f g r = Inr b \<longleftrightarrow> (\<exists>a. r = Inr a \<and> b = g a)"
  by (auto simp: map_result_def split: sum.splits)

definition decode :: "serde \<Rightarrow> string \<Rightarrow> (registry_error + registered_contract) option" where
  "decode ser r =
     (case parse_registry_header r of
        Inl e \<Rightarrow> Some (Inl e)
      | Inr (family, version) \<Rightarrow>
          if family \<notin> fst ` set standard_schemas then Some (Inl (RegUnsupportedFamily family))
          else if (family, version) \<notin> set standard_schemas then
            Some (Inl (RegUnsupportedVersion family version))
          else if (family, version) = (''native-semantic'', ''1'') then
            Some (map_result RegNativeSemanticContract NativeSemanticV1 (ns1_from_contract_ref ser r))
          else if (family, version) = (''native-semantic'', ''2'') then
            Some (map_result RegNativeSemanticContract NativeSemanticV2 (ns2_from_contract_ref ser r))
          else if (family, version) = (''payload-equality'', ''1'') then
            Some (map_result RegPayloadEqualityContract PayloadEqualityV1 (pe_from_contract_ref ser r))
          else if (family, version) = (''web-semantic'', ''1'') then
            Some (map_result RegWebSemanticContract WebSemanticV1 (ws_from_contract_ref ser r))
          else None)"

definition evaluate_native_semantic ::
  "serde \<Rightarrow> string \<Rightarrow> native_semantic_snapshot_revision \<Rightarrow> (registry_error + postcondition_evaluation) option"
  where
  "evaluate_native_semantic ser r s = map_option (\<lambda>res. bind_result res (\<lambda>c. case c of
      NativeSemanticV1 c \<Rightarrow> Inr (ns1_evaluate c s)
    | NativeSemanticV2 c \<Rightarrow> Inr (ns2_evaluate c s)
    | PayloadEqualityV1 _ \<Rightarrow> Inr EvalUnknown
    | WebSemanticV1 _ \<Rightarrow> Inr EvalUnknown)) (decode ser r)"

definition evaluate_web_semantic ::
  "serde \<Rightarrow> string \<Rightarrow> page_snapshot \<Rightarrow> (registry_error + postcondition_evaluation) option" where
  "evaluate_web_semantic ser r s = map_option (\<lambda>res. bind_result res (\<lambda>c. case c of
      WebSemanticV1 c \<Rightarrow> Inr (ws_evaluate c s)
    | NativeSemanticV1 _ \<Rightarrow> Inr EvalUnknown
    | NativeSemanticV2 _ \<Rightarrow> Inr EvalUnknown
    | PayloadEqualityV1 _ \<Rightarrow> Inr EvalUnknown)) (decode ser r)"

section \<open>Canonical codecs\<close>

text \<open>
  A codec that reads back only what it would write: a decoded value is well formed and its
  encoding is the very text it was decoded from.
\<close>

locale canonical_codec =
  fixes encode :: "'c \<Rightarrow> 'e + string"
    and decode_text :: "string \<Rightarrow> 'e + 'c"
    and well_formed :: "'c \<Rightarrow> bool"
  assumes canonical: "decode_text r = Inr c \<Longrightarrow> encode c = Inr r"
    and decoded_ok: "decode_text r = Inr c \<Longrightarrow> well_formed c"
begin

lemma decode_injective: "decode_text r = Inr c \<Longrightarrow> decode_text r' = Inr c \<Longrightarrow> r = r'"
  using canonical [of r c] canonical [of r' c] by simp

lemma other_text_rejected: "encode c = Inr r \<Longrightarrow> r' \<noteq> r \<Longrightarrow> decode_text r' \<noteq> Inr c"
  using canonical [of r' c] by auto

end

definition matcher_ok :: "parsed_matcher \<Rightarrow> bool" where
  "matcher_ok p \<longleftrightarrow> \<not> matcher_is_empty p \<and> bt_wf (pm_attributes p)"

lemma parse_attributes_wf: "parse_attributes v = Inr m \<Longrightarrow> bt_wf m"
  by (auto simp: parse_attributes_def split: option.splits json.splits)

lemma matcher_from_json_ok: "matcher_from_json v = Inr p \<Longrightarrow> matcher_ok p"
  by (auto simp: matcher_from_json_def parse_matcher_def matcher_ok_def parse_attributes_wf split: if_splits)

interpretation payload_equality: canonical_codec "pe_to_contract_ref ser" "pe_from_contract_ref ser"
    "\<lambda>c. is_canonical_uuid (pe_payload_ref c)" for ser
  by unfold_locales (auto simp: pe_from_contract_ref_def Let_def split: if_splits)

interpretation web_semantic: canonical_codec "ws_to_contract_ref ser" "ws_from_contract_ref ser"
    "\<lambda>c. valid_web_reference (ws_reference c)" for ser
  by unfold_locales (auto simp: ws_from_contract_ref_def Let_def split: if_splits)

interpretation native_semantic_v1: canonical_codec "ns1_to_contract_ref ser" "ns1_from_contract_ref ser"
    "\<lambda>c. matcher_ok (matcher_v1_fields (ns1_matcher c))" for ser
  by unfold_locales (auto simp: ns1_from_contract_ref_def Let_def matcher_from_json_ok split: if_splits)

interpretation native_semantic_v2: canonical_codec "ns2_to_contract_ref ser" "ns2_from_contract_ref ser"
    "\<lambda>c. matcher_ok (matcher_v2_fields (ns2_matcher c))" for ser
  by unfold_locales (auto simp: ns2_from_contract_ref_def Let_def matcher_from_json_ok split: if_splits)

section \<open>References\<close>

text \<open>The reference of a contract, and what makes one well formed.\<close>

fun reference_of :: "serde \<Rightarrow> registered_contract \<Rightarrow> string option" where
  "reference_of ser (NativeSemanticV1 c) = (case ns1_to_contract_ref ser c of Inl _ \<Rightarrow> None | Inr r \<Rightarrow> Some r)"
| "reference_of ser (NativeSemanticV2 c) = (case ns2_to_contract_ref ser c of Inl _ \<Rightarrow> None | Inr r \<Rightarrow> Some r)"
| "reference_of ser (PayloadEqualityV1 c) = (case pe_to_contract_ref ser c of Inl _ \<Rightarrow> None | Inr r \<Rightarrow> Some r)"
| "reference_of ser (WebSemanticV1 c) = (case ws_to_contract_ref ser c of Inl _ \<Rightarrow> None | Inr r \<Rightarrow> Some r)"

fun contract_ok :: "registered_contract \<Rightarrow> bool" where
  "contract_ok (NativeSemanticV1 c) = matcher_ok (matcher_v1_fields (ns1_matcher c))"
| "contract_ok (NativeSemanticV2 c) = matcher_ok (matcher_v2_fields (ns2_matcher c))"
| "contract_ok (PayloadEqualityV1 c) = is_canonical_uuid (pe_payload_ref c)"
| "contract_ok (WebSemanticV1 c) = valid_web_reference (ws_reference c)"

lemma decode_contract:
  assumes "decode ser r = Some (Inr c)"
  shows "reference_of ser c = Some r \<and> contract_ok c"
  using assms
  by (auto simp: decode_def native_semantic_v1.canonical native_semantic_v2.canonical
      payload_equality.canonical web_semantic.canonical native_semantic_v1.decoded_ok
      native_semantic_v2.decoded_ok payload_equality.decoded_ok web_semantic.decoded_ok
      split: sum.splits prod.splits if_splits)

lemma decode_total: "decode ser r \<noteq> None"
  by (auto simp: decode_def standard_schemas_def split: sum.splits prod.splits)

section \<open>Reading a written reference\<close>

text \<open>The JSON value a reference of the contract stands for, and the text after its prefix.\<close>

fun payload_value :: "registered_contract \<Rightarrow> json" where
  "payload_value (NativeSemanticV1 c) = ns1_to_json c"
| "payload_value (NativeSemanticV2 c) = JObject
     [(''comparison'', JString (comparison_as_str (ns2_comparison c))),
      (''count'', JNumber (PosInt (of_nat (unat (ns2_count c))))),
      (''matcher'', matcher_to_json (matcher_v2_fields (ns2_matcher c)))]"
| "payload_value (PayloadEqualityV1 c) = JObject
     [(''mode'', JString (mode_as_str (pe_mode c))), (''payload_ref'', JString (pe_payload_ref c))]"
| "payload_value (WebSemanticV1 c) = JObject
     [(''expectation'', JString (expectation_as_str (ws_expectation c))),
      (''ref'', JString (ws_reference c))]"

fun schema_prefix :: "registered_contract \<Rightarrow> string" where
  "schema_prefix (NativeSemanticV1 _) = contract_prefix_v1"
| "schema_prefix (NativeSemanticV2 _) = contract_prefix_v2"
| "schema_prefix (PayloadEqualityV1 _) = payload_equality_prefix_v1"
| "schema_prefix (WebSemanticV1 _) = web_semantic_prefix_v1"

text \<open>What \<open>serde_json\<close> promises of one contract: the writers succeed, and the text that was
  written, which is not empty, is read back to the value it stands for.\<close>

definition serde_reads :: "serde \<Rightarrow> registered_contract \<Rightarrow> bool" where
  "serde_reads ser c \<longleftrightarrow> (\<exists>t. reference_of ser c = Some (schema_prefix c @ t) \<and> t \<noteq> []
     \<and> parse ser t = Some (payload_value c))"

lemma insert_optional_wf [simp]: "bt_wf m \<Longrightarrow> bt_wf (insert_optional k v m)"
  by (simp add: insert_optional_def split: option.split)

lemma insert_optional_lookup:
  "bt_wf m \<Longrightarrow> map_of (insert_optional k v m) k' =
     (if k = k' then (case v of None \<Rightarrow> map_of m k' | Some x \<Rightarrow> Some x) else map_of m k')"
  by (simp add: insert_optional_def split: option.split)

lemma insert_optional_keys: "fst ` set m \<subseteq> K \<Longrightarrow> k \<in> K \<Longrightarrow> fst ` set (insert_optional k v m) \<subseteq> K"
  by (auto simp: insert_optional_def simp flip: image_eqI split: option.splits)

lemma string_members_map: "string_members (map (\<lambda>(k, v). (k, JString v)) m) = Inr m"
  by (induction m) auto

lemma parse_attributes_object: "bt_wf m \<Longrightarrow> parse_attributes (Some (attributes_object m)) = Inr m"
proof -
  assume wf: "bt_wf m"
  then have "bt_wf (map (\<lambda>(k, v). (k, JString v)) m)"
    by (simp add: bt_wf_def split_beta comp_def)
  with wf show ?thesis
    by (simp add: attributes_object_def parse_attributes_def bt_of_list_id string_members_map)
qed

lemma optional_of_map [simp]:
  "optional_string (map_option JString x) = Inr x" "optional_bool (map_option JBool y) = Inr y"
  by (cases x; simp add: optional_string_def) (cases y; simp add: optional_bool_def)

lemma matcher_to_json_object:
  "\<exists>object. matcher_to_json p = JObject object \<and> fst ` set object \<subseteq> set matcher_keys
    \<and> map_of object ''role'' = map_option JString (pm_role p)
    \<and> map_of object ''name'' = map_option JString (pm_name p)
    \<and> map_of object ''control_type'' = map_option JString (pm_control_type p)
    \<and> map_of object ''automation_id'' = map_option JString (pm_automation_id p)
    \<and> map_of object ''class_name'' = map_option JString (pm_class_name p)
    \<and> map_of object ''is_enabled'' = map_option JBool (pm_is_enabled p)
    \<and> map_of object ''is_offscreen'' = map_option JBool (pm_is_offscreen p)
    \<and> map_of object ''attributes''
        = (if pm_attributes p = [] then None else Some (attributes_object (pm_attributes p)))"
proof -
  have keys: "''role'' \<in> set matcher_keys" "''name'' \<in> set matcher_keys" "''control_type'' \<in> set matcher_keys"
    "''automation_id'' \<in> set matcher_keys" "''class_name'' \<in> set matcher_keys"
    "''is_enabled'' \<in> set matcher_keys" "''is_offscreen'' \<in> set matcher_keys" "''attributes'' \<in> set matcher_keys"
    by (simp_all add: matcher_keys_def)
  show ?thesis unfolding matcher_to_json_def
    by (rule exI, rule conjI [OF refl], intro conjI insert_optional_keys keys)
      (simp_all add: insert_optional_lookup split: option.split)
qed

lemma matcher_round_trip:
  assumes "matcher_ok p"
  shows "matcher_from_json (matcher_to_json p) = Inr p"
proof -
  obtain object where o: "matcher_to_json p = JObject object" "fst ` set object \<subseteq> set matcher_keys"
    "map_of object ''role'' = map_option JString (pm_role p)"
    "map_of object ''name'' = map_option JString (pm_name p)"
    "map_of object ''control_type'' = map_option JString (pm_control_type p)"
    "map_of object ''automation_id'' = map_option JString (pm_automation_id p)"
    "map_of object ''class_name'' = map_option JString (pm_class_name p)"
    "map_of object ''is_enabled'' = map_option JBool (pm_is_enabled p)"
    "map_of object ''is_offscreen'' = map_option JBool (pm_is_offscreen p)"
    "map_of object ''attributes''
        = (if pm_attributes p = [] then None else Some (attributes_object (pm_attributes p)))"
    using matcher_to_json_object by blast
  have "parse_attributes (if pm_attributes p = [] then None else Some (attributes_object (pm_attributes p)))
      = Inr (pm_attributes p)"
    using assms parse_attributes_object by (simp add: matcher_ok_def parse_attributes_def)
  moreover have "\<not> (\<exists>(k, _) \<in> set object. k \<notin> set matcher_keys)" using o (2) by force
  ultimately show ?thesis using assms
    by (simp add: matcher_from_json_def parse_matcher_def o ok_or_def matcher_ok_def matcher_is_empty_def
        del: bex_simps ball_simps)
qed

text \<open>The header a schema prefix gives.\<close>

lemma parse_header:
  assumes "colon \<notin> set family" "colon \<notin> set version" "family \<noteq> []" "version \<noteq> []" "payload \<noteq> []"
  shows "parse_registry_header (''lvpc:'' @ family @ colon # ''v'' @ version @ colon # payload)
    = Inr (family, version)"
proof -
  have rest: "before_colon (family @ colon # ''v'' @ version @ colon # payload) = family"
    "after_colon (family @ colon # ''v'' @ version @ colon # payload) = Some ((''v'' @ version) @ colon # payload)"
    using assms (1) by simp_all
  have "colon \<notin> set (''v'' @ version)" using assms (2) by (simp add: colon_def)
  then have "before_colon ((''v'' @ version) @ colon # payload) = ''v'' @ version"
    "after_colon ((''v'' @ version) @ colon # payload) = Some payload"
    by (rule before_colon_append, rule after_colon_append)
  with rest assms (3-5) show ?thesis
    unfolding parse_registry_header_def strip_prefix_append by (simp add: Let_def)
qed

lemma schema_header:
  assumes "payload \<noteq> []"
  shows "parse_registry_header (contract_prefix_v1 @ payload) = Inr (''native-semantic'', ''1'')"
    "parse_registry_header (contract_prefix_v2 @ payload) = Inr (''native-semantic'', ''2'')"
    "parse_registry_header (payload_equality_prefix_v1 @ payload) = Inr (''payload-equality'', ''1'')"
    "parse_registry_header (web_semantic_prefix_v1 @ payload) = Inr (''web-semantic'', ''1'')"
  using parse_header [of "''native-semantic''" "''1''" payload] parse_header [of "''native-semantic''" "''2''" payload]
    parse_header [of "''payload-equality''" "''1''" payload] parse_header [of "''web-semantic''" "''1''" payload] assms
  by (simp_all add: contract_prefix_v1_def contract_prefix_v2_def payload_equality_prefix_v1_def
      web_semantic_prefix_v1_def colon_def)

lemma expectation_parse_str [simp]: "expectation_parse e (JString (expectation_as_str x)) = Inr x"
  by (cases x) (simp_all add: expectation_parse_def)

lemma mode_parse_str [simp]: "mode_parse (JString (mode_as_str x)) = Inr x"
  by (cases x) (simp_all add: mode_parse_def)

lemma comparison_parse_str [simp]: "comparison_parse (JString (comparison_as_str x)) = Inr x"
  by (cases x) (simp_all add: comparison_parse_def)

lemma ns1_to_json_object:
  "ns1_to_json c = JObject [(''expectation'', JString (expectation_as_str (ns1_expectation c))),
     (''matcher'', matcher_to_json (matcher_v1_fields (ns1_matcher c)))]"
  by (simp add: ns1_to_json_def less_char_def)

lemma count_round_trip:
  "unat (ucast (n :: u32) :: u64) = unat n" "(ucast (ucast n :: u64) :: u32) = n"
proof -
  have "unat n < 2 ^ 32" using unsigned_less [of n] by simp
  then show u: "unat (ucast n :: u64) = unat n" using unat_of_nat_64 [of "unat n"] by simp
  have "(ucast (ucast n :: u64) :: u32) = of_nat (unat (ucast n :: u64))" by simp
  also have "\<dots> = n" by (simp only: u) simp
  finally show "(ucast (ucast n :: u64) :: u32) = n" .
qed

lemma reads_back:
  assumes "contract_ok c" "serde_reads ser c" "reference_of ser c = Some r"
  shows "decode ser r = Some (Inr c)"
proof -
  obtain t where t: "r = schema_prefix c @ t" "t \<noteq> []" "parse ser t = Some (payload_value c)"
    using assms (2,3) by (auto simp: serde_reads_def)
  show ?thesis
  proof (cases c)
    case (NativeSemanticV1 x)
    obtain e m where x: "x = \<lparr>ns1_expectation = e, ns1_matcher = MatcherV1 m\<rparr>"
      by (metis native_semantic_contract_v1.cases node_matcher_v1.exhaust)
    have "ns1_from_contract_ref ser r = Inr x"
      using assms (1,3) t matcher_round_trip
      by (simp add: NativeSemanticV1 x ns1_from_contract_ref_def contract_payload_for_version_def
          ns1_to_json_object ok_or_def contains_key_def Let_def split: sum.splits)
    then show ?thesis using t by (simp add: NativeSemanticV1 x decode_def schema_header standard_schemas_def)
  next
    case (NativeSemanticV2 x)
    obtain e n m where x: "x = \<lparr>ns2_comparison = e, ns2_count = n, ns2_matcher = MatcherV2 m\<rparr>"
      by (metis native_semantic_contract_v2.cases node_matcher_v2.exhaust)
    have "unat n < 2 ^ 32" using unsigned_less [of n] by simp
    then have "ns2_from_contract_ref ser r = Inr x"
      using assms (1,3) t matcher_round_trip
      by (simp add: NativeSemanticV2 x ns2_from_contract_ref_def contract_payload_for_version_def
          ok_or_def contains_key_def Let_def count_round_trip split: sum.splits)
    then show ?thesis using t by (simp add: NativeSemanticV2 x decode_def schema_header standard_schemas_def)
  next
    case (PayloadEqualityV1 x)
    obtain e m where x: "x = \<lparr>pe_mode = e, pe_payload_ref = m\<rparr>"
      by (metis payload_equality_contract_v1.cases)
    have "pe_from_contract_ref ser r = Inr x"
      using assms (1,3) t by (simp add: PayloadEqualityV1 x pe_from_contract_ref_def pe_payload_for_version_def
          ok_or_def contains_key_def Let_def split: sum.splits)
    then show ?thesis using t by (simp add: PayloadEqualityV1 x decode_def schema_header standard_schemas_def)
  next
    case (WebSemanticV1 x)
    obtain e m where x: "x = \<lparr>ws_expectation = e, ws_reference = m\<rparr>"
      by (metis web_semantic_contract_v1.cases)
    have "ws_from_contract_ref ser r = Inr x"
      using assms (1,3) t by (simp add: WebSemanticV1 x ws_from_contract_ref_def ws_payload_for_version_def
          ok_or_def contains_key_def Let_def split: sum.splits)
    then show ?thesis using t by (simp add: WebSemanticV1 x decode_def schema_header standard_schemas_def)
  qed
qed

text \<open>C19. A decoded reference is canonical. The registry answers every text without reaching
  its \<open>unreachable!\<close>; a contract it decodes is well formed (a matcher that matches on
  something, attributes in key order, a canonical UUID, a valid element reference), the
  text is exactly the reference that contract is written as, and no other text decodes to
  it: what a journal names durably has one meaning and one spelling.\<close>

theorem decoded_reference_is_canonical:
  assumes "decode ser r = Some (Inr c)"
  shows "contract_ok c \<and> reference_of ser c = Some r \<and> decode ser r' \<noteq> None
    \<and> (decode ser r' = Some (Inr c) \<longrightarrow> r' = r)"
  using decode_contract [OF assms] decode_contract [of ser r' c] decode_total [of ser r'] by auto


text \<open>A library that knows two texts.\<close>

definition demo_contract :: registered_contract where
  "demo_contract = NativeSemanticV2 \<lparr>ns2_comparison = CountAtMost, ns2_count = 2,
     ns2_matcher = MatcherV2 \<lparr>pm_role = Some ''button'', pm_name = None, pm_control_type = None,
       pm_automation_id = None, pm_class_name = None, pm_is_enabled = Some True,
       pm_is_offscreen = None, pm_attributes = []\<rparr>\<rparr>"

definition demo_text :: string where
  "demo_text = ''{\"comparison\":\"at_most\",\"count\":2,\"matcher\":{\"role\":\"button\",\"is_enabled\":true}}''"

definition demo_serde :: serde where
  "demo_serde = \<lparr>write_value = (\<lambda>_. None), write_string = (\<lambda>s. Some (quoted s)), write_string_map = (\<lambda>_. None),
     parse = (\<lambda>t. if t = demo_text then Some (payload_value demo_contract) else None)\<rparr>"

lemma two_shown: "show_nat 2 = ''2''"
  by code_simp

lemma demo_reference: "reference_of demo_serde demo_contract = Some (contract_prefix_v2 @ demo_text)"
  by (simp add: demo_contract_def ns2_to_contract_ref_def matcher_to_canonical_json_def matcher_is_empty_def
      push_string_field_def push_field_def demo_serde_def ok_or_def Let_def show_bool_def quoted_def
      demo_text_def two_shown)

lemma demo_reads: "contract_ok demo_contract" "serde_reads demo_serde demo_contract"
  using demo_reference
  by (simp_all add: serde_reads_def) (simp_all add: demo_contract_def matcher_ok_def matcher_is_empty_def
      demo_text_def demo_serde_def)


theorem decoded_reference_is_canonical_witness:
  "decode demo_serde (contract_prefix_v2 @ '' '' @ demo_text) \<noteq> Some (Inr demo_contract)"
proof -
  have "decode demo_serde (contract_prefix_v2 @ demo_text) = Some (Inr demo_contract)"
    using reads_back [OF demo_reads demo_reference] .
  from decoded_reference_is_canonical [OF this, of "contract_prefix_v2 @ '' '' @ demo_text"]
  show ?thesis by (simp add: demo_text_def)
qed

section \<open>The two native versions\<close>

lemma count_zero_iff: "length (filter P xs) = 0 \<longleftrightarrow> \<not> list_ex P xs"
  by (auto simp: filter_empty_conv list_ex_iff)

text \<open>A presence contract is a count contract. Version 1 asks whether a matching node is
  present or absent, version 2 counts matching nodes: on every snapshot, \<open>present\<close> evaluates as
  \<open>at_least 1\<close> and \<open>absent\<close> as \<open>at_most 0\<close> and as \<open>equal 0\<close> over the same matcher, and
  over whatever snapshot both refuse an answer exactly when it is not complete.\<close>

theorem versions_agree:
  "ns1_evaluate \<lparr>ns1_expectation = Present, ns1_matcher = MatcherV1 p\<rparr> s
     = ns2_evaluate \<lparr>ns2_comparison = CountAtLeast, ns2_count = 1, ns2_matcher = MatcherV2 p\<rparr> s
   \<and> ns1_evaluate \<lparr>ns1_expectation = Absent, ns1_matcher = MatcherV1 p\<rparr> s
     = ns2_evaluate \<lparr>ns2_comparison = CountAtMost, ns2_count = 0, ns2_matcher = MatcherV2 p\<rparr> s
   \<and> ns1_evaluate \<lparr>ns1_expectation = Absent, ns1_matcher = MatcherV1 p\<rparr> s
     = ns2_evaluate \<lparr>ns2_comparison = CountEqual, ns2_count = 0, ns2_matcher = MatcherV2 p\<rparr> s
   \<and> (ns1_evaluate c1 s = EvalUnknown \<longleftrightarrow> \<not> snapshot_is_complete s)
   \<and> (ns2_evaluate c2 s = EvalUnknown \<longleftrightarrow> \<not> snapshot_is_complete s)"
proof -
  have "1 \<le> length (filter P xs) \<longleftrightarrow> list_ex P xs" for P and xs :: "'a list"
    using count_zero_iff [of P xs] by linarith
  then show ?thesis using count_zero_iff
    by (auto simp: ns1_evaluate_def ns2_evaluate_def presence_evaluation_def Let_def
        split: presence_expectation.split bool.split)
qed

text \<open>What a snapshot cache published as established is always answered.\<close>

lemma published_is_complete:
  "revision_ok provider target s \<Longrightarrow> sd_completeness s = SEstablished \<Longrightarrow> snapshot_is_complete s"
  by (simp add: revision_ok_def snapshot_is_complete_def)

end
