(* ===== verification/Content_Store.thy ===== *)
theory Content_Store
  imports Ordered_Map Bridge_Types
begin

text \<open>
  The content-addressed store (\<open>src/crates/content-addressed/src/lib.rs\<close>): canonical
  hashing, insertion, dependency closure, garbage collection and the baseline envelope. The
  hash map of the store is kept as its entries by key; nothing depends on the order in which
  the code iterates it. What serializes a value (\<open>serde_json\<close>) and digests the bytes
  (\<open>sha2\<close>, \<open>hex\<close>) is a parameter.
\<close>

type_synonym object_hash = string

section \<open>Canonical values\<close>

text \<open>\<open>canonical_value\<close>: the members of every object in the order of their keys, a repeated
  key keeping its last value.\<close>

fun canonical_value :: "json \<Rightarrow> json" where
  "canonical_value (JObject members) =
     JObject (bt_of_list (map (\<lambda>(k, v). (k, canonical_value v)) members))"
| "canonical_value (JArray values) = JArray (map canonical_value values)"
| "canonical_value v = v"

text \<open>\<open>object_hash\<close> of the value \<open>serde_json::to_value\<close> gives, if it gives one.\<close>

definition object_hash_of :: "(json \<Rightarrow> bytes option) \<Rightarrow> (bytes \<Rightarrow> string) \<Rightarrow> json option \<Rightarrow> object_hash"
  where
  "object_hash_of write_bytes digest value =
     (let canonical = canonical_value (case value of None \<Rightarrow> JNull | Some v \<Rightarrow> v);
          bs = (case write_bytes canonical of None \<Rightarrow> [] | Some bs \<Rightarrow> bs)
      in ''sha256:'' @ digest bs)"

section \<open>Objects and the store\<close>

datatype runtime_object_kind =
    SemanticObject | LayoutObject | VisualObject | RegionObject | EvidenceObject | ProofObject
  | ContractObject | StateObject | AssetObject | ReportObject | BaselineObject | AttestationObject

record runtime_object =
  ro_kind :: runtime_object_kind
  ro_schema_version :: u32
  ro_payload :: json
  ro_dependencies :: "object_hash list"

type_synonym content_store = "(object_hash, runtime_object) btree_map"

text \<open>\<open>sort\<close> followed by \<open>dedup\<close>, which drops consecutive duplicates.\<close>

definition sort_dedup :: "'a::linorder list \<Rightarrow> 'a list" where
  "sort_dedup xs = remdups_adj (sort xs)"

lemma set_sort_dedup [simp]: "set (sort_dedup xs) = set xs"
  by (simp add: sort_dedup_def)

lemma remdups_adj_strict: "sorted xs \<Longrightarrow> sorted_wrt (<) (remdups_adj xs)"
  by (induction xs rule: remdups_adj.induct) (auto simp: less_le)

lemma sort_dedup_sorted: "sorted_wrt (<) (sort_dedup xs)"
  by (simp add: sort_dedup_def remdups_adj_strict)

lemma sort_dedup_id: "sorted_wrt (<) xs \<Longrightarrow> sort_dedup xs = xs"
  by (simp add: sort_dedup_def strict_sorted_iff sorted_sort_id remdups_adj_distinct)

lemma sort_dedup_set: "set xs = set ys \<Longrightarrow> sort_dedup xs = sort_dedup ys"
  using sort_dedup_sorted [of xs] sort_dedup_sorted [of ys]
  by (intro sorted_distinct_set_unique) (auto simp: strict_sorted_iff)

definition store_insert ::
  "(runtime_object \<Rightarrow> object_hash) \<Rightarrow> content_store \<Rightarrow> runtime_object \<Rightarrow> object_hash \<times> content_store"
  where
  "store_insert hash store object =
     (let object = object\<lparr>ro_dependencies := sort_dedup (ro_dependencies object)\<rparr>;
          h = hash object
      in (h, if map_of store h = None then bt_insert h object store else store))"

definition store_get :: "content_store \<Rightarrow> object_hash \<Rightarrow> runtime_object option" where
  "store_get store h = map_of store h"

definition dependencies_of :: "content_store \<Rightarrow> object_hash \<Rightarrow> object_hash list" where
  "dependencies_of store h = (case map_of store h of None \<Rightarrow> [] | Some object \<Rightarrow> ro_dependencies object)"

section \<open>Dependency closure\<close>

text \<open>The \<open>while let\<close> loop of \<open>dependency_closure\<close>. A hash that is stored is expanded once;
  everything else only shortens the queue.\<close>

function closure_loop :: "content_store \<Rightarrow> object_hash set \<Rightarrow> object_hash list \<Rightarrow> object_hash set" where
  "closure_loop store visited [] = visited"
| "closure_loop store visited (h # queue) =
     (if h \<in> visited then closure_loop store visited queue
      else closure_loop store (insert h visited) (queue @ dependencies_of store h))"
  by pat_completeness auto

termination
proof (relation "(\<lambda>(store, visited, _). card (fst ` set store - visited)) <*mlex*>
    measure (\<lambda>(_, _, queue). length queue)", goal_cases)
  case 1
  show ?case by (simp add: wf_mlex)
next
  case (2 store visited h queue)
  then show ?case by (intro mlex_leq) auto
next
  case (3 store visited h queue)
  show ?case
  proof (cases "h \<in> fst ` set store")
    case True
    then have "card (fst ` set store - insert h visited) < card (fst ` set store - visited)"
      using 3 by (intro psubset_card_mono) auto
    then show ?thesis by (intro mlex_less) simp
  next
    case False
    then have "dependencies_of store h = []"
      by (simp add: dependencies_of_def map_of_eq_None_iff [THEN iffD2])
    moreover have "card (fst ` set store - insert h visited) \<le> card (fst ` set store - visited)"
      by (intro card_mono) auto
    ultimately show ?thesis by (intro mlex_leq) auto
  qed
qed

definition dependency_closure :: "content_store \<Rightarrow> object_hash \<Rightarrow> object_hash set" where
  "dependency_closure store root = closure_loop store {} [root]"

definition collect_garbage :: "content_store \<Rightarrow> object_hash list \<Rightarrow> nat \<times> content_store" where
  "collect_garbage store roots =
     (let keep = \<Union> (dependency_closure store ` set roots);
          kept = filter (\<lambda>(h, _). h \<in> keep) store
      in (length store - length kept, kept))"

definition validate_dependencies :: "content_store \<Rightarrow> object_hash \<Rightarrow> object_hash list" where
  "validate_dependencies store root =
     (case map_of store root of
        None \<Rightarrow> [root]
      | Some object \<Rightarrow> filter (\<lambda>d. map_of store d = None) (ro_dependencies object))"

section \<open>Baselines, regions and deltas\<close>

record baseline_envelope =
  bl_schema_version :: u32
  bl_state_identity :: object_hash
  bl_route :: string
  bl_viewport :: "u32 \<times> u32"
  bl_evidence_hashes :: "object_hash list"
  bl_design_baseline_hash :: "object_hash option"
  bl_created_revision :: "string option"
  bl_provenance :: "(string, string) btree_map"

definition baseline_normalized :: "baseline_envelope \<Rightarrow> baseline_envelope" where
  "baseline_normalized e = e\<lparr>bl_evidence_hashes := sort_dedup (bl_evidence_hashes e)\<rparr>"

definition baseline_object :: "(baseline_envelope \<Rightarrow> json option) \<Rightarrow> baseline_envelope \<Rightarrow> runtime_object"
  where
  "baseline_object to_value e =
     (let n = baseline_normalized e;
          dependencies = bl_evidence_hashes n
            @ (case bl_design_baseline_hash n of None \<Rightarrow> [] | Some design \<Rightarrow> [design])
      in \<lparr>ro_kind = BaselineObject, ro_schema_version = bl_schema_version n,
          ro_payload = (case to_value n of None \<Rightarrow> JNull | Some v \<Rightarrow> v),
          ro_dependencies = sort_dedup dependencies\<rparr>)"

definition canonical_hash ::
  "(runtime_object \<Rightarrow> object_hash) \<Rightarrow> (baseline_envelope \<Rightarrow> json option) \<Rightarrow> baseline_envelope \<Rightarrow> object_hash"
  where
  "canonical_hash hash to_value e = hash (baseline_object to_value e)"

record region_merkle_node =
  rm_region_id :: string
  rm_semantic_hash :: "object_hash option"
  rm_layout_hash :: "object_hash option"
  rm_visual_hash :: "object_hash option"
  rm_children :: "object_hash list"

record runtime_delta =
  rd_unchanged :: "object_hash list"
  rd_added :: "object_hash list"
  rd_removed :: "object_hash list"

text \<open>The set operations of \<open>BTreeSet\<close> iterate in ascending order.\<close>

definition diff_hash_sets :: "object_hash list \<Rightarrow> object_hash list \<Rightarrow> runtime_delta" where
  "diff_hash_sets before after =
     (let b = sort_dedup before; a = sort_dedup after
      in \<lparr>rd_unchanged = filter (\<lambda>h. h \<in> set a) b, rd_added = filter (\<lambda>h. h \<notin> set b) a,
          rd_removed = filter (\<lambda>h. h \<notin> set a) b\<rparr>)"

section \<open>The closure is reachability\<close>

definition depends :: "content_store \<Rightarrow> (object_hash \<times> object_hash) set" where
  "depends store = {(h, d). d \<in> set (dependencies_of store h)}"

lemma closure_loop_spec:
  assumes "\<forall>h \<in> visited. \<forall>d. (h, d) \<in> depends store \<longrightarrow> d \<in> visited \<union> set queue"
  shows "closure_loop store visited queue = visited \<union> (depends store)\<^sup>* `` set queue"
  using assms
proof (induction store visited queue rule: closure_loop.induct)
  case (2 store visited h queue)
  let ?R = "depends store"
  show ?case
  proof (cases "h \<in> visited")
    case True
    have closed: "?R\<^sup>* `` {h} \<subseteq> visited \<union> ?R\<^sup>* `` set queue"
    proof
      fix x assume "x \<in> ?R\<^sup>* `` {h}"
      then have "(h, x) \<in> ?R\<^sup>*" by simp
      then show "x \<in> visited \<union> ?R\<^sup>* `` set queue"
      proof (induction rule: rtrancl_induct)
        case (step y z)
        show ?case
        proof (cases "y \<in> visited")
          case True
          then have "z \<in> visited \<union> set (h # queue)" using "2.prems" step.hyps (2) by blast
          then show ?thesis using \<open>h \<in> visited\<close> by auto
        next
          case False
          then obtain q where "q \<in> set queue" "(q, y) \<in> ?R\<^sup>*" using step.IH by auto
          then show ?thesis using step.hyps (2) by (auto intro: rtrancl_into_rtrancl)
        qed
      qed (use True in auto)
    qed
    have "closure_loop store visited queue = visited \<union> ?R\<^sup>* `` set queue"
      using "2.IH" (1) [OF True] "2.prems" True by auto
    with True closed show ?thesis by auto
  next
    case False
    have "closure_loop store (insert h visited) (queue @ dependencies_of store h)
        = insert h visited \<union> ?R\<^sup>* `` set (queue @ dependencies_of store h)"
      by (rule "2.IH" (2) [OF False]) (use "2.prems" in \<open>auto simp: depends_def\<close>)
    also have "\<dots> = visited \<union> ?R\<^sup>* `` set (h # queue)"
      by (auto simp: depends_def elim: converse_rtranclE intro: converse_rtrancl_into_rtrancl)
    finally show ?thesis using False by simp
  qed
qed simp

lemma dependency_closure_reachable:
  "dependency_closure store root = {d. (root, d) \<in> (depends store)\<^sup>*}"
  using closure_loop_spec [of "{}" store "[root]"] by (auto simp: dependency_closure_def)

section \<open>Garbage collection\<close>

lemma depends_filter:
  assumes "\<And>h. h \<in> keep \<Longrightarrow> dependencies_of kept h = dependencies_of store h"
    and "\<And>h d. h \<in> keep \<Longrightarrow> (h, d) \<in> depends store \<Longrightarrow> d \<in> keep" and "r \<in> keep"
  shows "(r, d) \<in> (depends kept)\<^sup>* \<longleftrightarrow> (r, d) \<in> (depends store)\<^sup>*"
proof
  assume "(r, d) \<in> (depends kept)\<^sup>*"
  then have "(r, d) \<in> (depends store)\<^sup>* \<and> d \<in> keep"
    by induction (use assms in \<open>auto simp: depends_def intro: rtrancl_into_rtrancl\<close>)
  then show "(r, d) \<in> (depends store)\<^sup>*" by simp
next
  assume "(r, d) \<in> (depends store)\<^sup>*"
  then have "(r, d) \<in> (depends kept)\<^sup>* \<and> d \<in> keep"
  proof induction
    case (step y z)
    then have "(y, z) \<in> depends kept" using assms (1) by (simp add: depends_def)
    with step assms (2) show ?case by (meson rtrancl_into_rtrancl)
  qed (use assms (3) in simp)
  then show "(r, d) \<in> (depends kept)\<^sup>*" by simp
qed

lemma map_of_filter_keys: "map_of (filter (\<lambda>(h, _). h \<in> keep) m) h = (if h \<in> keep then map_of m h else None)"
  by (induction m) auto

text \<open>C23. Garbage collection is exact. The worklist of the dependency closure terminates on
  every store, cyclic and dangling dependencies included, and finds exactly what is reachable
  from its root; a collection keeps exactly the stored objects that are reachable from one of its
  roots, and for each root the closure after the collection is the closure before it.\<close>

theorem collection_keeps_the_reachable:
  assumes "collect_garbage store roots = (n, kept)"
  shows "dependency_closure store root = {d. (root, d) \<in> (depends store)\<^sup>*}
    \<and> store_get kept h = (if \<exists>r \<in> set roots. (r, h) \<in> (depends store)\<^sup>* then store_get store h else None)
    \<and> n = length store - length kept
    \<and> (root \<in> set roots \<longrightarrow> dependency_closure kept root = dependency_closure store root
        \<and> validate_dependencies kept root = validate_dependencies store root)"
proof -
  define keep where "keep = (depends store)\<^sup>* `` set roots"
  have "\<Union> (dependency_closure store ` set roots) = keep"
    by (auto simp: keep_def dependency_closure_reachable)
  then have kept: "kept = filter (\<lambda>(h, _). h \<in> keep) store" and n: "n = length store - length kept"
    using assms by (auto simp: collect_garbage_def Let_def)
  have get: "map_of kept h = (if h \<in> keep then map_of store h else None)" for h
    by (simp add: kept map_of_filter_keys)
  have same: "dependencies_of kept h = dependencies_of store h" if "h \<in> keep" for h
    using that by (simp add: dependencies_of_def get)
  have closed: "d \<in> keep" if "h \<in> keep" "(h, d) \<in> depends store" for h d
    using that by (auto simp: keep_def intro: rtrancl_into_rtrancl)
  have "dependency_closure kept root = dependency_closure store root
      \<and> validate_dependencies kept root = validate_dependencies store root" if r: "root \<in> set roots"
  proof
    have root: "root \<in> keep" using r by (auto simp: keep_def)
    then show "dependency_closure kept root = dependency_closure store root"
      using depends_filter [of keep kept store root] same closed
      by (simp add: dependency_closure_reachable)
    have "d \<in> keep" if "d \<in> set (dependencies_of store root)" for d
      using closed [OF root] that by (simp add: depends_def)
    then show "validate_dependencies kept root = validate_dependencies store root"
      using root by (auto simp: validate_dependencies_def get dependencies_of_def
          split: option.split intro!: filter_cong)
  qed
  with n show ?thesis
    by (auto simp: dependency_closure_reachable store_get_def get keep_def)
qed

text \<open>A cycle, a dangling dependency and garbage.\<close>

definition demo_object :: "object_hash list \<Rightarrow> runtime_object" where
  "demo_object deps = \<lparr>ro_kind = ProofObject, ro_schema_version = 1, ro_payload = JNull, ro_dependencies = deps\<rparr>"

definition demo_store :: content_store where
  "demo_store = [(''a'', demo_object [''b'', ''x'']), (''b'', demo_object [''a'']), (''c'', demo_object [''b''])]"

theorem collection_keeps_the_reachable_witness:
  "map fst (snd (collect_garbage demo_store [''b''])) = [''a'', ''b'']
   \<and> dependency_closure (snd (collect_garbage demo_store [''b''])) ''b'' = {''a'', ''b'', ''x''}"
proof -
  have "dependency_closure demo_store ''b'' = {''a'', ''b'', ''x''}"
    by (simp add: dependency_closure_def demo_store_def demo_object_def dependencies_of_def insert_commute)
  moreover have "dependency_closure (snd (collect_garbage demo_store [''b''])) ''b''
      = dependency_closure demo_store ''b''"
    using collection_keeps_the_reachable [OF prod.collapse [symmetric], where store = demo_store and roots = "[''b'']" and root = "''b''"]
    by simp
  ultimately show ?thesis
    by (simp add: collect_garbage_def demo_store_def)
qed

end
