(* ===== verification/Resource_Governor.thy ===== *)
theory Resource_Governor
  imports Ordered_Map Rust_Float
begin

text \<open>
  The resource governor (\<open>src/crates/resource-governor/src\<close>): pressure and degradation
  decisions, the work scheduler, the runtime governor that admits reservations and turns them
  into live leases, and the ledger of retained bytes. \<open>usize\<close> is 64 bits wide; the
  governor's mutex makes every operation atomic. A handle is consumed by the operation that
  takes it by value, and is released by \<open>Drop\<close> where the code returns early.
\<close>

section \<open>Decisions\<close>

record resource_budget =
  bu_memory_mb :: u64
  bu_cpu_percent :: float
  bu_capture_storage_mb :: u64
  bu_network_kb_per_minute :: u64
  bu_chromium_instances :: u64
  bu_concurrent_captures :: u64
  bu_hidden_surfaces :: u64

definition default_budget :: resource_budget where
  "default_budget = \<lparr>bu_memory_mb = 256, bu_cpu_percent = Finite 10, bu_capture_storage_mb = 512,
     bu_network_kb_per_minute = 1024, bu_chromium_instances = 1, bu_concurrent_captures = 2,
     bu_hidden_surfaces = 4\<rparr>"

record resource_sample =
  sa_memory_mb :: u64
  sa_cpu_percent :: float
  sa_capture_storage_mb :: u64
  sa_network_kb_per_minute :: u64
  sa_chromium_instances :: u64
  sa_concurrent_captures :: u64
  sa_hidden_surfaces :: u64

record runtime_resource_sample =
  rs_memory_mb :: u64
  rs_cpu_percent :: float
  rs_capture_storage_mb :: u64
  rs_network_kb_per_minute :: u64

definition default_runtime_sample :: runtime_resource_sample where
  "default_runtime_sample = \<lparr>rs_memory_mb = 0, rs_cpu_percent = Finite 0, rs_capture_storage_mb = 0,
     rs_network_kb_per_minute = 0\<rparr>"

definition sample_is_valid :: "runtime_resource_sample \<Rightarrow> bool" where
  "sample_is_valid s \<longleftrightarrow> is_finite (rs_cpu_percent s) \<and> float_le (Finite 0) (rs_cpu_percent s)"

record process_resource_metrics =
  prm_memory_mb :: u64
  prm_cpu_percent :: float

text \<open>\<open>div_ceil\<close> of a \<open>u64\<close> by the bytes of a megabyte does not overflow.\<close>

definition normalize_process_metrics :: "u64 \<Rightarrow> float \<Rightarrow> u64 \<Rightarrow> process_resource_metrics option" where
  "normalize_process_metrics memory_bytes raw_cpu_percent logical_cpus =
     (if \<not> is_finite raw_cpu_percent \<or> float_lt raw_cpu_percent (Finite 0) then None
      else
        let mb = 1024 * 1024 :: u64;
            memory = memory_bytes div mb + (if memory_bytes mod mb = 0 then 0 else 1);
            cpu = float_div binary32 raw_cpu_percent (float_of_nat binary32 (unat (max logical_cpus 1)))
        in if \<not> is_finite cpu then None
           else Some \<lparr>prm_memory_mb = memory, prm_cpu_percent = cpu\<rparr>)"

datatype pressure_level = PressureNormal | PressureElevated | PressureHigh | PressureCritical

fun pressure_rank :: "pressure_level \<Rightarrow> nat" where
  "pressure_rank PressureNormal = 0" | "pressure_rank PressureElevated = 1"
| "pressure_rank PressureHigh = 2" | "pressure_rank PressureCritical = 3"

lemma pressure_rank_inj: "pressure_rank p = pressure_rank q \<longleftrightarrow> p = q"
  by (cases p; cases q) simp_all

text \<open>The derived order of the enum.\<close>

instantiation pressure_level :: linorder
begin

definition less_eq_pressure_level :: "pressure_level \<Rightarrow> pressure_level \<Rightarrow> bool" where
  "less_eq_pressure_level p q \<longleftrightarrow> pressure_rank p \<le> pressure_rank q"

definition less_pressure_level :: "pressure_level \<Rightarrow> pressure_level \<Rightarrow> bool" where
  "less_pressure_level p q \<longleftrightarrow> pressure_rank p < pressure_rank q"

instance
  by standard (auto simp: less_eq_pressure_level_def less_pressure_level_def pressure_rank_inj)

end

datatype degradation_action =
    NoDegradation | ReduceObservationRate | PreferSemanticOverVisual | ReduceCaptureResolution
  | EvictOldArtifacts | SuspendBackgroundResponsiveSweeps | BlockChromiumEscalation
  | SerializeCaptures | SuspendInactiveRenderSurfaces

fun action_rank :: "degradation_action \<Rightarrow> nat" where
  "action_rank NoDegradation = 0" | "action_rank ReduceObservationRate = 1"
| "action_rank PreferSemanticOverVisual = 2" | "action_rank ReduceCaptureResolution = 3"
| "action_rank EvictOldArtifacts = 4" | "action_rank SuspendBackgroundResponsiveSweeps = 5"
| "action_rank BlockChromiumEscalation = 6" | "action_rank SerializeCaptures = 7"
| "action_rank SuspendInactiveRenderSurfaces = 8"

record governor_decision =
  gd_pressure :: pressure_level
  gd_actions :: "degradation_action list"
  gd_reasons :: "string list"

definition resource_ratio :: "float \<Rightarrow> float \<Rightarrow> float" where
  "resource_ratio v limit =
     (if float_le limit (Finite 0) then (if float_lt (Finite 0) v then Infinite False else Finite 0)
      else float_div binary32 v limit)"

definition f32_of_u64 :: "u64 \<Rightarrow> float" where
  "f32_of_u64 n = float_of_nat binary32 (unat n)"

definition resource_ratios :: "resource_sample \<Rightarrow> resource_budget \<Rightarrow> float list" where
  "resource_ratios s b =
     [resource_ratio (f32_of_u64 (sa_memory_mb s)) (f32_of_u64 (bu_memory_mb b)),
      resource_ratio (sa_cpu_percent s) (bu_cpu_percent b),
      resource_ratio (f32_of_u64 (sa_capture_storage_mb s)) (f32_of_u64 (bu_capture_storage_mb b)),
      resource_ratio (f32_of_u64 (sa_network_kb_per_minute s)) (f32_of_u64 (bu_network_kb_per_minute b)),
      resource_ratio (f32_of_u64 (sa_chromium_instances s)) (f32_of_u64 (max (bu_chromium_instances b) 1)),
      resource_ratio (f32_of_u64 (sa_concurrent_captures s)) (f32_of_u64 (max (bu_concurrent_captures b) 1)),
      resource_ratio (f32_of_u64 (sa_hidden_surfaces s)) (f32_of_u64 (max (bu_hidden_surfaces b) 1))]"

definition pressure_of :: "float \<Rightarrow> pressure_level" where
  "pressure_of peak =
     (if float_lt peak (Finite (3 / 4)) then PressureNormal
      else if float_lt peak (Finite 1) then PressureElevated
      else if float_lt peak (Finite (3 / 2)) then PressureHigh
      else PressureCritical)"

text \<open>The guarded actions and their reasons, in the order the code pushes them. The product
  \<open>capture_storage_mb * 3\<close> wraps around, as it does without overflow checks.\<close>

definition guarded_actions ::
  "resource_sample \<Rightarrow> resource_budget \<Rightarrow> (bool \<times> degradation_action \<times> string) list" where
  "guarded_actions s b =
     [(float_lt (float_mul binary32 (bu_cpu_percent b) (Finite (3 / 4))) (sa_cpu_percent s),
       ReduceObservationRate, ''CPU budget is under pressure''),
      (bu_memory_mb b < sa_memory_mb s, PreferSemanticOverVisual, ''memory budget exceeded''),
      (bu_capture_storage_mb b * 3 div 4 < sa_capture_storage_mb s,
       EvictOldArtifacts, ''capture store is approaching its bound''),
      (max (bu_concurrent_captures b) 1 \<le> sa_concurrent_captures s,
       SerializeCaptures, ''capture concurrency budget reached''),
      (max (bu_chromium_instances b) 1 \<le> sa_chromium_instances s,
       BlockChromiumEscalation, ''Chromium instance budget reached''),
      (max (bu_hidden_surfaces b) 1 \<le> sa_hidden_surfaces s,
       SuspendInactiveRenderSurfaces, ''hidden surface budget reached'')]"

definition evaluate :: "resource_sample \<Rightarrow> resource_budget \<Rightarrow> governor_decision" where
  "evaluate s b =
     (let peak = fold (\<lambda>r m. float_max m r) (resource_ratios s b) (Finite 0);
          pressure = pressure_of peak;
          held = map snd (filter fst (guarded_actions s b));
          actions = map fst held
            @ (if PressureHigh \<le> pressure then [SuspendBackgroundResponsiveSweeps] else [])
            @ (if pressure = PressureCritical then [ReduceCaptureResolution] else []);
          actions = (if actions = [] then [NoDegradation] else actions)
      in \<lparr>gd_pressure = pressure, gd_actions = remdups_adj (sort_key action_rank actions),
          gd_reasons = map snd held\<rparr>)"

section \<open>The scheduler\<close>

record work_candidate =
  wc_id :: string
  wc_priority :: "16 word"
  wc_estimated_cpu_ms :: u64
  wc_estimated_memory_mb :: u64
  wc_requires_chromium :: bool

text \<open>The order of \<open>sort_by\<close>: priority first, the highest first, then the cheaper, then the id.\<close>

definition schedule_key :: "work_candidate \<Rightarrow> int \<times> nat \<times> string" where
  "schedule_key c = (- uint (wc_priority c), unat (wc_estimated_cpu_ms c), wc_id c)"

fun schedule_loop :: "u64 \<Rightarrow> u64 \<Rightarrow> bool \<Rightarrow> u64 \<Rightarrow> u64 \<Rightarrow> work_candidate list \<Rightarrow> work_candidate list" where
  "schedule_loop cpu_limit memory_limit chromium cpu memory [] = []"
| "schedule_loop cpu_limit memory_limit chromium cpu memory (c # cs) =
     (if wc_requires_chromium c \<and> \<not> chromium then
        schedule_loop cpu_limit memory_limit chromium cpu memory cs
      else if cpu_limit < saturating_add cpu (wc_estimated_cpu_ms c)
          \<or> memory_limit < saturating_add memory (wc_estimated_memory_mb c) then
        schedule_loop cpu_limit memory_limit chromium cpu memory cs
      else c # schedule_loop cpu_limit memory_limit chromium (cpu + wc_estimated_cpu_ms c)
                 (memory + wc_estimated_memory_mb c) cs)"

definition schedule :: "work_candidate list \<Rightarrow> u64 \<Rightarrow> u64 \<Rightarrow> bool \<Rightarrow> work_candidate list" where
  "schedule candidates available_cpu_ms available_memory_mb allow_chromium =
     schedule_loop available_cpu_ms available_memory_mb allow_chromium 0 0
       (sort_key schedule_key candidates)"

section \<open>The runtime governor\<close>

datatype resource_work_kind =
    NativeVisualCapture | ChromiumWork | NativeSemanticObservation | NativeSemanticReconciliation
  | NativeSurfaceWork

datatype live_resource_kind = LiveChromiumProcess | LiveNativeSurface

record live_surface_identity =
  ls_surface_kind :: string
  ls_label :: string
  ls_incarnation :: u64

datatype surface_visibility = SurfaceVisible | SurfaceHidden

datatype resource_activation_error = ReservationMissing | KindMismatch | SurfaceIdentityMismatch

record resource_admission_denial =
  rad_work_kind :: resource_work_kind
  rad_decision :: governor_decision

type_synonym reservation_key = "string \<times> string"

datatype live_resource_state =
    ChromiumProcessLive | NativeSurfaceLive live_surface_identity surface_visibility

datatype reservation_state = Pending resource_work_kind | Live live_resource_state

record runtime_governor_state =
  rg_budget :: resource_budget
  rg_sample :: runtime_resource_sample
  rg_process_memory_mb :: u64
  rg_process_cpu_percent :: float
  rg_reservations :: "(reservation_key, reservation_state) btree_map"

definition governor_new :: "resource_budget \<Rightarrow> runtime_governor_state" where
  "governor_new budget = \<lparr>rg_budget = budget, rg_sample = default_runtime_sample,
     rg_process_memory_mb = 0, rg_process_cpu_percent = Finite 0, rg_reservations = []\<rparr>"

definition update_sample :: "runtime_governor_state \<Rightarrow> runtime_resource_sample \<Rightarrow> bool \<times> runtime_governor_state"
  where
  "update_sample g s = (if \<not> sample_is_valid s then (False, g) else (True, g\<lparr>rg_sample := s\<rparr>))"

definition update_process_metrics ::
  "runtime_governor_state \<Rightarrow> u64 \<Rightarrow> float \<Rightarrow> bool \<times> runtime_governor_state" where
  "update_process_metrics g memory_mb cpu_percent =
     (if \<not> is_finite cpu_percent \<or> float_lt cpu_percent (Finite 0) then (False, g)
      else (True, g\<lparr>rg_process_memory_mb := memory_mb, rg_process_cpu_percent := cpu_percent\<rparr>))"

fun is_capture :: "reservation_state \<Rightarrow> bool" where
  "is_capture (Pending NativeVisualCapture) = True" | "is_capture _ = False"

fun is_chromium :: "reservation_state \<Rightarrow> bool" where
  "is_chromium (Pending ChromiumWork) = True" | "is_chromium (Live ChromiumProcessLive) = True"
| "is_chromium _ = False"

fun is_hidden_surface :: "reservation_state \<Rightarrow> bool" where
  "is_hidden_surface (Pending NativeSurfaceWork) = True"
| "is_hidden_surface (Live (NativeSurfaceLive _ SurfaceHidden)) = True"
| "is_hidden_surface _ = False"

text \<open>The counting loop of \<open>decision_for_state\<close>, one saturating counter per class.\<close>

definition count_reservations ::
  "(reservation_state \<Rightarrow> bool) \<Rightarrow> (reservation_key, reservation_state) btree_map \<Rightarrow> u64" where
  "count_reservations P rs = fold (\<lambda>(_, r) n. if P r then saturating_add n 1 else n) rs 0"

definition decision_for_state :: "runtime_governor_state \<Rightarrow> governor_decision" where
  "decision_for_state g =
     (let cpu = float_cast binary32 (float_min
            (float_add binary64 (rs_cpu_percent (rg_sample g)) (rg_process_cpu_percent g))
            (Finite max_binary32))
      in evaluate
        \<lparr>sa_memory_mb = saturating_add (rs_memory_mb (rg_sample g)) (rg_process_memory_mb g),
         sa_cpu_percent = cpu,
         sa_capture_storage_mb = rs_capture_storage_mb (rg_sample g),
         sa_network_kb_per_minute = rs_network_kb_per_minute (rg_sample g),
         sa_chromium_instances = count_reservations is_chromium (rg_reservations g),
         sa_concurrent_captures = count_reservations is_capture (rg_reservations g),
         sa_hidden_surfaces = count_reservations is_hidden_surface (rg_reservations g)\<rparr>
        (rg_budget g))"

definition denied_by_decision :: "resource_work_kind \<Rightarrow> governor_decision \<Rightarrow> bool" where
  "denied_by_decision kind d =
     (case kind of
        NativeVisualCapture \<Rightarrow> gd_pressure d = PressureCritical
          \<or> PreferSemanticOverVisual \<in> set (gd_actions d) \<or> SerializeCaptures \<in> set (gd_actions d)
      | ChromiumWork \<Rightarrow> PressureHigh \<le> gd_pressure d \<or> BlockChromiumEscalation \<in> set (gd_actions d)
      | NativeSurfaceWork \<Rightarrow> PressureHigh \<le> gd_pressure d
          \<or> SuspendInactiveRenderSurfaces \<in> set (gd_actions d)
      | NativeSemanticObservation \<Rightarrow> gd_pressure d = PressureCritical
      | NativeSemanticReconciliation \<Rightarrow> gd_pressure d = PressureCritical)"

definition governor_check ::
  "runtime_governor_state \<Rightarrow> resource_work_kind \<Rightarrow> resource_admission_denial + governor_decision" where
  "governor_check g kind =
     (let d = decision_for_state g
      in if denied_by_decision kind d then Inl \<lparr>rad_work_kind = kind, rad_decision = d\<rparr> else Inr d)"

section \<open>Reservations and leases\<close>

text \<open>A handle without a key was already released; dropping it does nothing.\<close>

record resource_reservation =
  rr_key :: "reservation_key option"

record live_resource_lease =
  ll_key :: "reservation_key option"
  ll_kind :: live_resource_kind
  ll_surface_identity :: "live_surface_identity option"

definition with_reservations ::
  "runtime_governor_state \<Rightarrow> (reservation_key, reservation_state) btree_map \<Rightarrow> runtime_governor_state" where
  "with_reservations g rs = g\<lparr>rg_reservations := rs\<rparr>"

definition reserve ::
  "runtime_governor_state \<Rightarrow> string \<Rightarrow> string \<Rightarrow> resource_work_kind
    \<Rightarrow> (resource_admission_denial + resource_reservation) \<times> runtime_governor_state" where
  "reserve g session_id request_id kind =
     (let key = (session_id, request_id); d = decision_for_state g;
          taken = map_of (rg_reservations g) key \<noteq> None
      in if denied_by_decision kind d \<or> taken then
           (Inl \<lparr>rad_work_kind = kind, rad_decision =
              (if taken then d\<lparr>gd_reasons := gd_reasons d @ [''resource reservation already exists'']\<rparr> else d)\<rparr>,
            g)
         else (Inr \<lparr>rr_key = Some key\<rparr>,
               with_reservations g (bt_insert key (Pending kind) (rg_reservations g))))"

fun is_live :: "reservation_state \<Rightarrow> bool" where
  "is_live (Live _) = True" | "is_live (Pending _) = False"

definition governor_release_session :: "runtime_governor_state \<Rightarrow> string \<Rightarrow> nat \<times> runtime_governor_state" where
  "governor_release_session g session_id =
     (let kept = filter (\<lambda>((s, _), r). is_live r \<or> s \<noteq> session_id) (rg_reservations g)
      in (length (rg_reservations g) - length kept, with_reservations g kept))"

definition activate_key ::
  "runtime_governor_state \<Rightarrow> reservation_key \<Rightarrow> live_resource_kind
    \<Rightarrow> (resource_activation_error + unit) \<times> runtime_governor_state" where
  "activate_key g key kind =
     (if kind \<noteq> LiveChromiumProcess then (Inl KindMismatch, g)
      else case map_of (rg_reservations g) key of
        None \<Rightarrow> (Inl ReservationMissing, g)
      | Some (Pending ChromiumWork) \<Rightarrow>
          (Inr (), with_reservations g (bt_insert key (Live ChromiumProcessLive) (rg_reservations g)))
      | Some (Pending _) \<Rightarrow> (Inl KindMismatch, g)
      | Some (Live _) \<Rightarrow> (Inl ReservationMissing, g))"

definition activate_surface_key ::
  "runtime_governor_state \<Rightarrow> reservation_key \<Rightarrow> live_surface_identity \<Rightarrow> surface_visibility
    \<Rightarrow> (resource_activation_error + unit) \<times> runtime_governor_state" where
  "activate_surface_key g key identity visibility =
     (case map_of (rg_reservations g) key of
        None \<Rightarrow> (Inl ReservationMissing, g)
      | Some (Pending NativeSurfaceWork) \<Rightarrow>
          (Inr (), with_reservations g
             (bt_insert key (Live (NativeSurfaceLive identity visibility)) (rg_reservations g)))
      | Some (Pending _) \<Rightarrow> (Inl KindMismatch, g)
      | Some (Live _) \<Rightarrow> (Inl ReservationMissing, g))"

definition set_surface_visibility_key ::
  "runtime_governor_state \<Rightarrow> reservation_key \<Rightarrow> live_surface_identity \<Rightarrow> surface_visibility
    \<Rightarrow> (resource_activation_error + unit) \<times> runtime_governor_state" where
  "set_surface_visibility_key g key identity visibility =
     (case map_of (rg_reservations g) key of
        None \<Rightarrow> (Inl ReservationMissing, g)
      | Some (Live (NativeSurfaceLive current _)) \<Rightarrow>
          if current = identity then
            (Inr (), with_reservations g
               (bt_insert key (Live (NativeSurfaceLive current visibility)) (rg_reservations g)))
          else (Inl SurfaceIdentityMismatch, g)
      | Some _ \<Rightarrow> (Inl KindMismatch, g))"

definition release_key :: "runtime_governor_state \<Rightarrow> reservation_key \<Rightarrow> runtime_governor_state" where
  "release_key g key = with_reservations g (bt_remove key (rg_reservations g))"

definition release_live_key ::
  "runtime_governor_state \<Rightarrow> reservation_key \<Rightarrow> live_resource_kind \<Rightarrow> live_surface_identity option
    \<Rightarrow> runtime_governor_state" where
  "release_live_key g key kind surface_identity =
     (let should_remove = (case map_of (rg_reservations g) key of
          Some (Live ChromiumProcessLive) \<Rightarrow> kind = LiveChromiumProcess \<and> surface_identity = None
        | Some (Live (NativeSurfaceLive current _)) \<Rightarrow>
            kind = LiveNativeSurface \<and> surface_identity = Some current
        | _ \<Rightarrow> False)
      in if should_remove then release_key g key else g)"

text \<open>\<open>release\<close> and \<open>drop\<close> of a reservation and of a lease do the same.\<close>

definition reservation_drop :: "runtime_governor_state \<Rightarrow> resource_reservation \<Rightarrow> runtime_governor_state" where
  "reservation_drop g h = (case rr_key h of None \<Rightarrow> g | Some key \<Rightarrow> release_key g key)"

definition lease_drop :: "runtime_governor_state \<Rightarrow> live_resource_lease \<Rightarrow> runtime_governor_state" where
  "lease_drop g l = (case ll_key l of None \<Rightarrow> g
     | Some key \<Rightarrow> release_live_key g key (ll_kind l) (ll_surface_identity l))"

definition activate_live ::
  "runtime_governor_state \<Rightarrow> resource_reservation \<Rightarrow> live_resource_kind
    \<Rightarrow> (resource_activation_error + live_resource_lease) \<times> runtime_governor_state" where
  "activate_live g h kind =
     (case rr_key h of
        None \<Rightarrow> (Inl ReservationMissing, g)
      | Some key \<Rightarrow>
          (case activate_key g key kind of
             (Inl err, g1) \<Rightarrow> (Inl err, reservation_drop g1 h)
           | (Inr _, g1) \<Rightarrow>
               (Inr \<lparr>ll_key = Some key, ll_kind = kind, ll_surface_identity = None\<rparr>, g1)))"

definition activate_surface ::
  "runtime_governor_state \<Rightarrow> resource_reservation \<Rightarrow> live_surface_identity \<Rightarrow> surface_visibility
    \<Rightarrow> (resource_activation_error + live_resource_lease) \<times> runtime_governor_state" where
  "activate_surface g h identity visibility =
     (case rr_key h of
        None \<Rightarrow> (Inl ReservationMissing, g)
      | Some key \<Rightarrow>
          (case activate_surface_key g key identity visibility of
             (Inl err, g1) \<Rightarrow> (Inl err, reservation_drop g1 h)
           | (Inr _, g1) \<Rightarrow>
               (Inr \<lparr>ll_key = Some key, ll_kind = LiveNativeSurface,
                     ll_surface_identity = Some identity\<rparr>, g1)))"

definition set_surface_visibility ::
  "runtime_governor_state \<Rightarrow> live_resource_lease \<Rightarrow> live_surface_identity \<Rightarrow> surface_visibility
    \<Rightarrow> (resource_activation_error + unit) \<times> runtime_governor_state" where
  "set_surface_visibility g l identity visibility =
     (if ll_kind l \<noteq> LiveNativeSurface then (Inl KindMismatch, g)
      else case ll_key l of
        None \<Rightarrow> (Inl ReservationMissing, g)
      | Some key \<Rightarrow> set_surface_visibility_key g key identity visibility)"

section \<open>Retained bytes\<close>

datatype retained_resource_kind = CaptureStorage | CacheBytes

record retained_resource_budget =
  rb_capture_storage_bytes :: u64
  rb_cache_bytes :: u64

record retained_resource_usage =
  ruu_capture_storage_bytes :: u64
  ruu_cache_bytes :: u64

record retained_resource_violation =
  rv_kind :: retained_resource_kind
  rv_current_bytes :: u64
  rv_projected_or_observed_bytes :: u64
  rv_limit_bytes :: u64

record retained_resource_state =
  rt_budget :: retained_resource_budget
  rt_usage :: retained_resource_usage

definition retained_new :: "retained_resource_budget \<Rightarrow> retained_resource_violation + retained_resource_state"
  where
  "retained_new b =
     (let zero = (\<lambda>kind. Inl \<lparr>rv_kind = kind, rv_current_bytes = 0, rv_projected_or_observed_bytes = 0,
                            rv_limit_bytes = 0\<rparr>)
      in if rb_capture_storage_bytes b = 0 then zero CaptureStorage
         else if rb_cache_bytes b = 0 then zero CacheBytes
         else Inr \<lparr>rt_budget = b, rt_usage = \<lparr>ruu_capture_storage_bytes = 0, ruu_cache_bytes = 0\<rparr>\<rparr>)"

definition retained_limit :: "retained_resource_state \<Rightarrow> retained_resource_kind \<Rightarrow> u64" where
  "retained_limit s kind = (case kind of CaptureStorage \<Rightarrow> rb_capture_storage_bytes (rt_budget s)
     | CacheBytes \<Rightarrow> rb_cache_bytes (rt_budget s))"

definition retained_selected :: "retained_resource_state \<Rightarrow> retained_resource_kind \<Rightarrow> u64 \<times> u64" where
  "retained_selected s kind = (case kind of
       CaptureStorage \<Rightarrow> (ruu_capture_storage_bytes (rt_usage s), rb_capture_storage_bytes (rt_budget s))
     | CacheBytes \<Rightarrow> (ruu_cache_bytes (rt_usage s), rb_cache_bytes (rt_budget s)))"

definition admit_projected ::
  "retained_resource_state \<Rightarrow> retained_resource_kind \<Rightarrow> u64 \<Rightarrow> retained_resource_violation + unit" where
  "admit_projected s kind projected =
     (case retained_selected s kind of (current, limit) \<Rightarrow>
        if limit < current \<or> limit < projected then
          Inl \<lparr>rv_kind = kind, rv_current_bytes = current, rv_projected_or_observed_bytes = projected,
               rv_limit_bytes = limit\<rparr>
        else Inr ())"

definition synchronize ::
  "retained_resource_state \<Rightarrow> retained_resource_kind \<Rightarrow> u64
    \<Rightarrow> (retained_resource_violation + unit) \<times> retained_resource_state" where
  "synchronize s kind actual =
     (let current = fst (retained_selected s kind);
          s1 = s\<lparr>rt_usage := (case kind of
              CaptureStorage \<Rightarrow> (rt_usage s)\<lparr>ruu_capture_storage_bytes := actual\<rparr>
            | CacheBytes \<Rightarrow> (rt_usage s)\<lparr>ruu_cache_bytes := actual\<rparr>)\<rparr>;
          limit = retained_limit s1 kind
      in if limit < actual then
           (Inl \<lparr>rv_kind = kind, rv_current_bytes = current, rv_projected_or_observed_bytes = actual,
                 rv_limit_bytes = limit\<rparr>, s1)
         else (Inr (), s1))"

end
