(* ===== verification/Governor_Properties.thy ===== *)
theory Governor_Properties
  imports Resource_Governor "HOL-Library.Multiset"
begin

text \<open>
  What the governor guarantees of the work that is outstanding: the world is the governor
  with the reservations and leases its clients hold, each reservation with the kind of work it was
  admitted for. The scheduler's bounds are at the end.
\<close>

section \<open>Clients\<close>

record governor_world =
  gw_governor :: runtime_governor_state
  gw_reservations :: "(resource_reservation \<times> resource_work_kind) list"
  gw_leases :: "live_resource_lease list"

definition world_new :: "resource_budget \<Rightarrow> governor_world" where
  "world_new budget = \<lparr>gw_governor = governor_new budget, gw_reservations = [], gw_leases = []\<rparr>"

definition remove_nth :: "nat \<Rightarrow> 'a list \<Rightarrow> 'a list" where
  "remove_nth n xs = take n xs @ drop (Suc n) xs"

datatype governor_op =
    GovReserve string string resource_work_kind
  | GovDropReservation nat
  | GovActivateLive nat live_resource_kind
  | GovActivateSurface nat live_surface_identity surface_visibility
  | GovDropLease nat
  | GovSetVisibility nat live_surface_identity surface_visibility
  | GovSample runtime_resource_sample
  | GovMetrics u64 float
  | GovReleaseSession string

definition activated ::
  "governor_world \<Rightarrow> nat \<Rightarrow> (resource_activation_error + live_resource_lease) \<times> runtime_governor_state
    \<Rightarrow> governor_world" where
  "activated w n result = w\<lparr>gw_governor := snd result, gw_reservations := remove_nth n (gw_reservations w),
     gw_leases := (case fst result of Inl _ \<Rightarrow> gw_leases w | Inr lease \<Rightarrow> lease # gw_leases w)\<rparr>"

fun run_gov :: "governor_op \<Rightarrow> governor_world \<Rightarrow> governor_world" where
  "run_gov (GovReserve sid rid kind) w =
     (case reserve (gw_governor w) sid rid kind of
        (Inl _, g) \<Rightarrow> w\<lparr>gw_governor := g\<rparr>
      | (Inr h, g) \<Rightarrow> w\<lparr>gw_governor := g, gw_reservations := (h, kind) # gw_reservations w\<rparr>)"
| "run_gov (GovDropReservation n) w =
     (if n < length (gw_reservations w) then
        w\<lparr>gw_governor := reservation_drop (gw_governor w) (fst (gw_reservations w ! n)),
          gw_reservations := remove_nth n (gw_reservations w)\<rparr>
      else w)"
| "run_gov (GovActivateLive n kind) w =
     (if n < length (gw_reservations w) then
        activated w n (activate_live (gw_governor w) (fst (gw_reservations w ! n)) kind)
      else w)"
| "run_gov (GovActivateSurface n identity visibility) w =
     (if n < length (gw_reservations w) then
        activated w n (activate_surface (gw_governor w) (fst (gw_reservations w ! n)) identity visibility)
      else w)"
| "run_gov (GovDropLease n) w =
     (if n < length (gw_leases w) then
        w\<lparr>gw_governor := lease_drop (gw_governor w) (gw_leases w ! n),
          gw_leases := remove_nth n (gw_leases w)\<rparr>
      else w)"
| "run_gov (GovSetVisibility n identity visibility) w =
     (if n < length (gw_leases w) then
        w\<lparr>gw_governor := snd (set_surface_visibility (gw_governor w) (gw_leases w ! n) identity visibility)\<rparr>
      else w)"
| "run_gov (GovSample s) w = w\<lparr>gw_governor := snd (update_sample (gw_governor w) s)\<rparr>"
| "run_gov (GovMetrics m c) w = w\<lparr>gw_governor := snd (update_process_metrics (gw_governor w) m c)\<rparr>"
| "run_gov (GovReleaseSession sid) w =
     w\<lparr>gw_governor := snd (governor_release_session (gw_governor w) sid)\<rparr>"

definition run_govs :: "governor_op list \<Rightarrow> governor_world \<Rightarrow> governor_world" where
  "run_govs ops w = fold run_gov ops w"

section \<open>Admission\<close>

lemma count_reservations_eq:
  "unat (count_reservations P rs) = min (length (filter (\<lambda>e. P (snd e)) rs)) (2 ^ 64 - 1)"
proof -
  have "unat (fold (\<lambda>(_, r) n. if P r then saturating_add n 1 else n) rs k)
      = min (unat k + length (filter (\<lambda>e. P (snd e)) rs)) (2 ^ 64 - 1)" for k :: u64
  proof (induction rs arbitrary: k)
    case Nil
    have "unat k < 2 ^ 64" using unsigned_less [of k] by simp
    then show ?case by simp
  next
    case (Cons e rs)
    obtain key r where e: "e = (key, r)" by (cases e)
    show ?case
    proof (cases "P r")
      case True
      have "unat (saturating_add k 1) = min (unat k + 1) (2 ^ 64 - 1)"
        using unat_saturating_add [of k 1] by simp
      then show ?thesis using Cons.IH [of "saturating_add k 1"] True by (simp add: e)
    qed (simp add: e Cons.IH)
  qed
  from this [of 0] show ?thesis by (simp add: count_reservations_def)
qed

lemma evaluate_actions:
  "a \<in> set (gd_actions (evaluate s b)) \<longleftrightarrow>
     (\<exists>held reason. (held, a, reason) \<in> set (guarded_actions s b) \<and> held)
     \<or> a = SuspendBackgroundResponsiveSweeps \<and> PressureHigh \<le> gd_pressure (evaluate s b)
     \<or> a = ReduceCaptureResolution \<and> gd_pressure (evaluate s b) = PressureCritical
     \<or> a = NoDegradation \<and> gd_actions (evaluate s b) = [NoDegradation]"
proof -
  define p where "p = pressure_of (fold (\<lambda>r m. float_max m r) (resource_ratios s b) (Finite 0))"
  define held where "held = map fst (map snd (filter fst (guarded_actions s b)))"
  define all where "all = held @ (if PressureHigh \<le> p then [SuspendBackgroundResponsiveSweeps] else [])
    @ (if p = PressureCritical then [ReduceCaptureResolution] else [])"
  have ev: "gd_pressure (evaluate s b) = p"
    "gd_actions (evaluate s b) = remdups_adj (sort_key action_rank (if all = [] then [NoDegradation] else all))"
    by (simp_all add: evaluate_def p_def held_def all_def Let_def)
  have held: "a \<in> set held \<longleftrightarrow> (\<exists>h reason. (h, a, reason) \<in> set (guarded_actions s b) \<and> h)"
    by (force simp: held_def)
  have no: "NoDegradation \<notin> set all"
    by (auto simp: all_def held_def guarded_actions_def)
  show ?thesis
  proof (cases "all = []")
    case True
    then have "held = []" "\<not> PressureHigh \<le> p" "p \<noteq> PressureCritical"
      by (auto simp: all_def split: if_splits)
    with True held show ?thesis by (auto simp: ev)
  next
    case False
    then have "set (gd_actions (evaluate s b)) = set all" by (simp add: ev)
    moreover from this no have "gd_actions (evaluate s b) \<noteq> [NoDegradation]" by force
    ultimately show ?thesis using held by (auto simp: all_def ev (1))
  qed
qed

lemma capacity_action:
  "SerializeCaptures \<in> set (gd_actions (evaluate s b)) \<longleftrightarrow>
     max (bu_concurrent_captures b) 1 \<le> sa_concurrent_captures s"
  "BlockChromiumEscalation \<in> set (gd_actions (evaluate s b)) \<longleftrightarrow>
     max (bu_chromium_instances b) 1 \<le> sa_chromium_instances s"
  "SuspendInactiveRenderSurfaces \<in> set (gd_actions (evaluate s b)) \<longleftrightarrow>
     max (bu_hidden_surfaces b) 1 \<le> sa_hidden_surfaces s"
  by (auto simp: evaluate_actions guarded_actions_def)

text \<open>What is admitted is below its bound.\<close>

definition entries_with :: "(reservation_state \<Rightarrow> bool) \<Rightarrow> runtime_governor_state \<Rightarrow> nat" where
  "entries_with P g = length (filter (\<lambda>e. P (snd e)) (rg_reservations g))"

lemma not_full:
  assumes "\<not> max limit 1 \<le> count_reservations P (rg_reservations g)"
  shows "entries_with P g < max (unat limit) 1"
proof -
  have "unat (count_reservations P (rg_reservations g)) < unat (max limit 1)"
    using assms by (simp add: word_le_nat_alt not_le)
  moreover have "unat (max limit 1) = max (unat limit) 1"
    by (simp add: max_def word_le_nat_alt)
  moreover have "unat (max limit 1) < 2 ^ 64" using unsigned_less [of "max limit 1"] by simp
  ultimately show ?thesis using count_reservations_eq [of P "rg_reservations g"]
    by (simp add: entries_with_def min_def split: if_splits)
qed

lemma admitted_below:
  assumes "\<not> denied_by_decision kind (decision_for_state g)"
  shows "kind = NativeVisualCapture \<Longrightarrow>
      entries_with is_capture g < max (unat (bu_concurrent_captures (rg_budget g))) 1" (is "_ \<Longrightarrow> ?C")
    "kind = ChromiumWork \<Longrightarrow>
      entries_with is_chromium g < max (unat (bu_chromium_instances (rg_budget g))) 1" (is "_ \<Longrightarrow> ?H")
    "kind = NativeSurfaceWork \<Longrightarrow>
      entries_with is_hidden_surface g < max (unat (bu_hidden_surfaces (rg_budget g))) 1" (is "_ \<Longrightarrow> ?S")
proof -
  note d = assms [unfolded denied_by_decision_def decision_for_state_def Let_def]
  show "kind = NativeVisualCapture \<Longrightarrow> ?C" "kind = ChromiumWork \<Longrightarrow> ?H" "kind = NativeSurfaceWork \<Longrightarrow> ?S"
    using d by (simp_all only: resource_work_kind.case capacity_action de_Morgan_disj
        resource_sample.select_convs) (blast intro: not_full)+
qed

section \<open>The table\<close>

text \<open>What a class of entries gains and loses when a key is written.\<close>

lemma entries_insert:
  assumes "bt_wf m"
  shows "length (filter (\<lambda>e. P (snd e)) (bt_insert k v m))
      + (case map_of m k of Some v0 \<Rightarrow> if P v0 then 1 else 0 | None \<Rightarrow> 0)
    = length (filter (\<lambda>e. P (snd e)) m) + (if P v then 1 else 0)"
  using assms
proof (induction k v m rule: bt_insert.induct)
  case (2 k v k' v' m)
  have "k < k' \<Longrightarrow> map_of m k = None"
    using 2 (2) by (force simp: bt_wf_Cons map_of_eq_None_iff)
  with 2 show ?case by (auto simp: bt_wf_Cons)
qed auto

lemma entries_filter:
  "length (filter (\<lambda>e. P (snd e)) (filter Q m)) \<le> length (filter (\<lambda>e. P (snd e)) m)"
  by (induction m) auto

fun is_pending_surface :: "reservation_state \<Rightarrow> bool" where
  "is_pending_surface (Pending NativeSurfaceWork) = True" | "is_pending_surface _ = False"

definition within_budget :: "runtime_governor_state \<Rightarrow> bool" where
  "within_budget g \<longleftrightarrow> bt_wf (rg_reservations g)
     \<and> entries_with is_capture g \<le> max (unat (bu_concurrent_captures (rg_budget g))) 1
     \<and> entries_with is_chromium g \<le> max (unat (bu_chromium_instances (rg_budget g))) 1
     \<and> entries_with is_pending_surface g \<le> max (unat (bu_hidden_surfaces (rg_budget g))) 1"

lemma within_budget_filter:
  "within_budget g \<Longrightarrow> within_budget (with_reservations g (filter Q (rg_reservations g)))"
  unfolding within_budget_def entries_with_def with_reservations_def
  using entries_filter [of _ Q "rg_reservations g"]
  by (auto simp: bt_wf_def sorted_wrt_map sorted_wrt_filter intro: le_trans)

lemma within_budget_release: "within_budget g \<Longrightarrow> within_budget (release_key g key)"
  unfolding release_key_def bt_remove_def by (rule within_budget_filter)

lemma length_filter_mono:
  "(\<And>x. P x \<Longrightarrow> Q x) \<Longrightarrow> length (filter P xs) \<le> length (filter Q xs)"
  by (induction xs) (auto intro: le_SucI)

lemma pending_surfaces_le:
  "entries_with is_pending_surface g \<le> entries_with is_hidden_surface g"
proof -
  have "is_pending_surface r \<Longrightarrow> is_hidden_surface r" for r
    by (cases r rule: is_pending_surface.cases) auto
  then show ?thesis by (simp add: entries_with_def length_filter_mono)
qed

lemma entries_with_insert:
  assumes "bt_wf (rg_reservations g)"
  shows "entries_with P (with_reservations g (bt_insert k v (rg_reservations g)))
      + (case map_of (rg_reservations g) k of Some v0 \<Rightarrow> if P v0 then 1 else 0 | None \<Rightarrow> 0)
    = entries_with P g + (if P v then 1 else 0)"
  using entries_insert [OF assms, of P k v] by (simp add: entries_with_def with_reservations_def)

text \<open>Overwriting an entry keeps the bounds unless it adds to a counted class.\<close>

lemma within_budget_overwrite:
  assumes "within_budget g" "map_of (rg_reservations g) k = Some v0"
    and "is_capture v \<Longrightarrow> is_capture v0" "is_chromium v \<Longrightarrow> is_chromium v0"
    and "is_pending_surface v \<Longrightarrow> is_pending_surface v0"
  shows "within_budget (with_reservations g (bt_insert k v (rg_reservations g)))"
proof -
  have wf: "bt_wf (rg_reservations g)" using assms (1) by (simp add: within_budget_def)
  have le: "(P v \<Longrightarrow> P v0) \<Longrightarrow>
      entries_with P (with_reservations g (bt_insert k v (rg_reservations g))) \<le> entries_with P g" for P
    using entries_with_insert [OF wf, of P k v] assms (2) by (auto split: if_splits)
  have "bt_wf (rg_reservations (with_reservations g (bt_insert k v (rg_reservations g))))"
    "rg_budget (with_reservations g (bt_insert k v (rg_reservations g))) = rg_budget g"
    using wf by (simp_all add: with_reservations_def)
  moreover note assms (1) [unfolded within_budget_def]
    le [of is_capture, OF assms (3)] le [of is_chromium, OF assms (4)]
    le [of is_pending_surface, OF assms (5)]
  ultimately show ?thesis by (simp add: within_budget_def)
qed

lemma within_budget_reserve:
  assumes "within_budget g"
  shows "within_budget (snd (reserve g sid rid kind))"
proof (cases "denied_by_decision kind (decision_for_state g) \<or> map_of (rg_reservations g) (sid, rid) \<noteq> None")
  case False
  let ?g = "with_reservations g (bt_insert (sid, rid) (Pending kind) (rg_reservations g))"
  have wf: "bt_wf (rg_reservations g)" using assms by (simp add: within_budget_def)
  have eq: "entries_with P ?g = entries_with P g + (if P (Pending kind) then 1 else 0)" for P
    using entries_with_insert [OF wf, of P "(sid, rid)" "Pending kind"] False by simp
  have "snd (reserve g sid rid kind) = ?g" "rg_budget ?g = rg_budget g" "bt_wf (rg_reservations ?g)"
    using False wf by (simp_all add: reserve_def Let_def with_reservations_def)
  moreover have "\<not> denied_by_decision kind (decision_for_state g)" using False by simp
  note admitted_below [OF this]
  ultimately show ?thesis
    using assms pending_surfaces_le [of g] eq [of is_capture] eq [of is_chromium] eq [of is_pending_surface]
    by (cases kind) (simp_all add: within_budget_def)
qed (use assms in \<open>auto simp: reserve_def Let_def\<close>)

lemma within_budget_activate_key:
  "within_budget g \<Longrightarrow> within_budget (snd (activate_key g key kind))"
  by (auto simp: activate_key_def split: option.splits reservation_state.splits resource_work_kind.splits
      intro!: within_budget_overwrite)

lemma within_budget_activate_surface_key:
  "within_budget g \<Longrightarrow> within_budget (snd (activate_surface_key g key identity visibility))"
  by (auto simp: activate_surface_key_def
      split: option.splits reservation_state.splits resource_work_kind.splits
      intro!: within_budget_overwrite)

lemma within_budget_reservation_drop: "within_budget g \<Longrightarrow> within_budget (reservation_drop g h)"
  by (simp add: reservation_drop_def within_budget_release split: option.splits)

lemma within_budget_lease_drop: "within_budget g \<Longrightarrow> within_budget (lease_drop g l)"
  by (simp add: lease_drop_def release_live_key_def Let_def within_budget_release split: option.splits)

lemma within_budget_activate:
  assumes "within_budget g"
  shows "within_budget (snd (activate_live g h kind))"
    "within_budget (snd (activate_surface g h identity visibility))"
  using within_budget_activate_key [OF assms] within_budget_activate_surface_key [OF assms]
  by (auto simp: activate_live_def activate_surface_def assms
      split: option.splits prod.splits sum.splits intro!: within_budget_reservation_drop)
    (metis snd_conv)+

lemma within_budget_visibility:
  "within_budget g \<Longrightarrow> within_budget (snd (set_surface_visibility g l identity visibility))"
  by (auto simp: set_surface_visibility_def set_surface_visibility_key_def
      split: option.splits reservation_state.splits live_resource_state.splits
      intro!: within_budget_overwrite)

lemma within_budget_other:
  assumes "within_budget g"
  shows "within_budget (snd (update_sample g s))" "within_budget (snd (update_process_metrics g m c))"
    "within_budget (snd (governor_release_session g sid))"
  using assms within_budget_filter [OF assms]
  by (simp_all add: update_sample_def update_process_metrics_def governor_release_session_def Let_def
      within_budget_def entries_with_def)

lemmas within_budget_ops = within_budget_reserve within_budget_activate within_budget_reservation_drop
  within_budget_lease_drop within_budget_visibility within_budget_other

lemma reserve_world:
  "run_gov (GovReserve sid rid kind) w =
     w\<lparr>gw_governor := snd (reserve (gw_governor w) sid rid kind),
       gw_reservations := (case fst (reserve (gw_governor w) sid rid kind) of Inl _ \<Rightarrow> gw_reservations w
         | Inr h \<Rightarrow> (h, kind) # gw_reservations w)\<rparr>"
  by (simp split: prod.splits sum.splits)

lemma run_gov_within_budget:
  assumes "within_budget (gw_governor w)"
  shows "within_budget (gw_governor (run_gov op w))"
  using within_budget_ops [OF assms] assms
  by (cases op) (simp_all only: reserve_world, simp_all add: activated_def)

section \<open>Who owns which entry\<close>

type_synonym holding = "resource_work_kind + live_resource_kind"

fun holding_of :: "reservation_state \<Rightarrow> holding" where
  "holding_of (Pending kind) = Inl kind"
| "holding_of (Live ChromiumProcessLive) = Inr LiveChromiumProcess"
| "holding_of (Live (NativeSurfaceLive _ _)) = Inr LiveNativeSurface"

definition held_by :: "governor_world \<Rightarrow> (reservation_key option \<times> holding) list" where
  "held_by w = map (\<lambda>(h, kind). (rr_key h, Inl kind)) (gw_reservations w)
     @ map (\<lambda>l. (ll_key l, Inr (ll_kind l))) (gw_leases w)"

text \<open>Every outstanding handle has an entry of its own, in the state the handle stands for.\<close>

fun backed :: "(reservation_key, reservation_state) btree_map \<Rightarrow> reservation_key option \<times> holding \<Rightarrow> bool"
  where
  "backed m (k, c) = (case k of None \<Rightarrow> False
     | Some key \<Rightarrow> map_option holding_of (map_of m key) = Some c)"

definition owns :: "(reservation_key, reservation_state) btree_map \<Rightarrow> (reservation_key option \<times> holding) list
    \<Rightarrow> bool" where
  "owns m hs \<longleftrightarrow> distinct (map fst hs) \<and> list_all (backed m) hs"

lemma owns_Cons: "owns m (h # hs) \<longleftrightarrow> fst h \<notin> fst ` set hs \<and> backed m h \<and> owns m hs"
  by (auto simp: owns_def)

lemma owns_perm: "mset hs' = mset hs \<Longrightarrow> owns m hs' = owns m hs"
  unfolding owns_def by (metis (no_types) list_all_iff mset_eq_imp_distinct_iff mset_map mset_eq_setD)

lemma owns_cong:
  assumes "owns m hs" "\<And>key. Some key \<in> fst ` set hs \<Longrightarrow> map_of m' key = map_of m key"
  shows "owns m' hs"
proof -
  have "backed m' h" if "h \<in> set hs" for h
  proof -
    have "backed m h" using assms (1) that by (simp add: owns_def list_all_iff)
    moreover obtain k c where h: "h = (k, c)" by (cases h)
    moreover have "k = Some key \<Longrightarrow> map_of m' key = map_of m key" for key
      using assms (2) [of key] that h by force
    ultimately show ?thesis by (auto split: option.splits)
  qed
  with assms (1) show ?thesis by (simp add: owns_def list_all_iff)
qed

text \<open>Giving a handle up, taking one, and turning one into another.\<close>

lemma owns_drop:
  assumes "owns m (h # hs)"
  shows "owns m hs" "fst h = Some key \<Longrightarrow> owns (bt_remove key m) hs"
  using assms by (auto simp: owns_Cons elim!: owns_cong) (force+)?

lemma owns_take:
  assumes "owns m hs" "bt_wf m" "Some key \<notin> fst ` set hs"
  shows "owns (bt_insert key r m) ((Some key, holding_of r) # hs)"
  using assms by (auto simp: owns_Cons elim!: owns_cong) (force+)?

lemma owns_fresh: "owns m hs \<Longrightarrow> map_of m key = None \<Longrightarrow> Some key \<notin> fst ` set hs"
  by (fastforce simp: owns_def list_all_iff)

lemma owns_count:
  assumes "owns m hs"
  shows "length (filter (\<lambda>h. P (snd h)) hs) \<le> length (filter (\<lambda>e. P (holding_of (snd e))) m)"
proof -
  let ?hs = "filter (\<lambda>h. P (snd h)) hs" and ?m = "filter (\<lambda>e. P (holding_of (snd e))) m"
  have "fst ` set ?hs \<subseteq> Some ` fst ` set ?m"
  proof
    fix k assume "k \<in> fst ` set ?hs"
    then obtain c where c: "(k, c) \<in> set hs" "P c" by auto
    with assms (1) have "backed m (k, c)" by (auto simp: owns_def list_all_iff simp del: backed.simps)
    then obtain key r where r: "k = Some key" "map_of m key = Some r" "holding_of r = c"
      by (auto split: option.splits)
    then have "(key, r) \<in> set ?m" using \<open>P c\<close> by (auto dest: map_of_SomeD)
    with r show "k \<in> Some ` fst ` set ?m" by force
  qed
  moreover have "distinct (map fst ?hs)" using assms (1) by (simp add: owns_def distinct_map_filter)
  then have "length ?hs = card (fst ` set ?hs)" by (metis distinct_card length_map list.set_map)
  moreover have "card (Some ` fst ` set ?m) \<le> length ?m"
    using card_length [of "map (Some \<circ> fst) ?m"] by (simp add: image_comp)
  ultimately show ?thesis using card_mono [of "Some ` fst ` set ?m" "fst ` set ?hs"] by simp
qed

lemma owns_overwrite:
  assumes "owns m hs" "bt_wf m" "map_of m key = Some v0" "holding_of v = holding_of v0"
  shows "owns (bt_insert key v m) hs"
proof -
  have "backed (bt_insert key v m) h = backed m h" for h
    using assms (2,3,4) by (cases h) (auto split: option.splits)
  then have "backed (bt_insert key v m) = backed m" by (rule ext)
  then show ?thesis using assms (1) by (simp add: owns_def)
qed

definition table :: "runtime_governor_state \<Rightarrow> (reservation_key, reservation_state) btree_map" where
  "table g = rg_reservations g"

lemma table_with [simp]: "table (with_reservations g rs) = rs"
  by (simp add: table_def with_reservations_def)

lemma owns_reservation_drop:
  "owns (table g) ((rr_key h, c) # hs) \<Longrightarrow> owns (table (reservation_drop g h)) hs"
  using owns_drop [of "table g" "(rr_key h, c)" hs]
  by (auto simp: reservation_drop_def release_key_def table_def [symmetric] split: option.splits)

lemma owns_lease_drop:
  "owns (table g) ((ll_key l, c) # hs) \<Longrightarrow> owns (table (lease_drop g l)) hs"
  using owns_drop [of "table g" "(ll_key l, c)" hs]
  by (auto simp: lease_drop_def release_live_key_def release_key_def table_def [symmetric] Let_def
      split: option.splits)

lemma owns_activate_live:
  assumes "owns (table g) ((rr_key h, c) # hs)" "bt_wf (table g)" "activate_live g h kind = (r, g')"
  shows "owns (table g') (case r of Inl _ \<Rightarrow> hs | Inr l \<Rightarrow> (ll_key l, Inr (ll_kind l)) # hs)"
proof (cases r)
  case (Inl e)
  then have "g' = reservation_drop g h"
    using assms (1,3) by (auto simp: activate_live_def activate_key_def owns_Cons split: option.splits
        if_splits reservation_state.splits resource_work_kind.splits)
  with Inl owns_reservation_drop [OF assms (1)] show ?thesis by simp
next
  case (Inr l)
  then obtain key where "rr_key h = Some key" "ll_key l = Some key" "ll_kind l = LiveChromiumProcess"
    "table g' = bt_insert key (Live ChromiumProcessLive) (table g)"
    using assms (3) by (auto simp: activate_live_def activate_key_def table_def with_reservations_def
        split: option.splits if_splits reservation_state.splits resource_work_kind.splits)
  with Inr owns_take [OF owns_drop (1) [OF assms (1)] assms (2), of key "Live ChromiumProcessLive"] assms (1)
  show ?thesis by (simp add: owns_Cons)
qed

lemma owns_activate_surface:
  assumes "owns (table g) ((rr_key h, c) # hs)" "bt_wf (table g)"
    "activate_surface g h identity visibility = (r, g')"
  shows "owns (table g') (case r of Inl _ \<Rightarrow> hs | Inr l \<Rightarrow> (ll_key l, Inr (ll_kind l)) # hs)"
proof (cases r)
  case (Inl e)
  then have "g' = reservation_drop g h"
    using assms (1,3) by (auto simp: activate_surface_def activate_surface_key_def owns_Cons split: option.splits
        if_splits reservation_state.splits resource_work_kind.splits)
  with Inl owns_reservation_drop [OF assms (1)] show ?thesis by simp
next
  case (Inr l)
  let ?v = "Live (NativeSurfaceLive identity visibility)"
  from Inr obtain key where "rr_key h = Some key" "ll_key l = Some key" "ll_kind l = LiveNativeSurface"
    "table g' = bt_insert key ?v (table g)"
    using assms (3) by (auto simp: activate_surface_def activate_surface_key_def table_def with_reservations_def
        split: option.splits if_splits reservation_state.splits resource_work_kind.splits)
  with Inr owns_take [OF owns_drop (1) [OF assms (1)] assms (2), of key ?v] assms (1)
  show ?thesis by (simp add: owns_Cons)
qed

lemma owns_set_visibility:
  assumes "owns (table g) hs" "bt_wf (table g)"
  shows "owns (table (snd (set_surface_visibility g l identity visibility))) hs"
  using assms owns_overwrite [OF assms]
  by (auto simp: set_surface_visibility_def set_surface_visibility_key_def table_def [symmetric]
      split: option.splits reservation_state.splits live_resource_state.splits)

lemma owns_reserve:
  assumes "owns (table g) hs" "bt_wf (table g)" "reserve g sid rid kind = (r, g')"
  shows "owns (table g') (case r of Inl _ \<Rightarrow> hs | Inr h \<Rightarrow> (rr_key h, Inl kind) # hs)"
proof (cases r)
  case (Inr h)
  then have "map_of (table g) (sid, rid) = None" "rr_key h = Some (sid, rid)"
    "table g' = bt_insert (sid, rid) (Pending kind) (table g)"
    using assms (3) by (auto simp: reserve_def Let_def table_def with_reservations_def split: if_splits)
  with Inr owns_take [OF assms (1,2) owns_fresh [OF assms (1)], of "(sid, rid)" "Pending kind"]
  show ?thesis by simp
qed (use assms in \<open>auto simp: reserve_def Let_def split: if_splits\<close>)

text \<open>Taking the \<open>n\<close>-th handle out of the world.\<close>

lemma mset_remove_nth: "n < length xs \<Longrightarrow> mset xs = add_mset (xs ! n) (mset (remove_nth n xs))"
  by (subst id_take_nth_drop, assumption) (simp add: remove_nth_def)

lemma held_by_reservation:
  assumes "n < length (gw_reservations w)"
  shows "mset (held_by w) = mset ((rr_key (fst (gw_reservations w ! n)), Inl (snd (gw_reservations w ! n)))
    # held_by (w\<lparr>gw_reservations := remove_nth n (gw_reservations w)\<rparr>))"
  by (simp add: held_by_def mset_remove_nth [OF assms] split_def)

lemma held_by_lease:
  assumes "n < length (gw_leases w)"
  shows "mset (held_by w) = mset ((ll_key (gw_leases w ! n), Inr (ll_kind (gw_leases w ! n)))
    # held_by (w\<lparr>gw_leases := remove_nth n (gw_leases w)\<rparr>))"
  by (simp add: held_by_def mset_remove_nth [OF assms])

lemma held_by_new_lease:
  "mset (held_by (w\<lparr>gw_leases := l # gw_leases w\<rparr>)) = mset ((ll_key l, Inr (ll_kind l)) # held_by w)"
  by (simp add: held_by_def)

lemma held_by_governor [simp]: "held_by (w\<lparr>gw_governor := g\<rparr>) = held_by w"
  by (simp add: held_by_def)

definition all_owned :: "governor_world \<Rightarrow> bool" where
  "all_owned w \<longleftrightarrow> owns (table (gw_governor w)) (held_by w)"

lemma all_owned_activated:
  assumes "n < length (gw_reservations w)" "bt_wf (table (gw_governor w))" "all_owned w"
    and "\<And>c hs. owns (table (gw_governor w)) ((rr_key (fst (gw_reservations w ! n)), c) # hs) \<Longrightarrow>
      owns (table (snd result)) (case fst result of Inl _ \<Rightarrow> hs | Inr l \<Rightarrow> (ll_key l, Inr (ll_kind l)) # hs)"
  shows "all_owned (activated w n result)"
proof -
  let ?w = "w\<lparr>gw_reservations := remove_nth n (gw_reservations w)\<rparr>"
  let ?c = "Inl (snd (gw_reservations w ! n))"
  have "owns (table (gw_governor w)) ((rr_key (fst (gw_reservations w ! n)), ?c) # held_by ?w)"
    using assms (3) owns_perm [OF held_by_reservation [OF assms (1)]] by (simp add: all_owned_def)
  note o = assms (4) [OF this]
  show ?thesis
  proof (cases "fst result")
    case (Inl e)
    then show ?thesis using o by (simp add: all_owned_def activated_def held_by_def)
  next
    case (Inr l)
    then show ?thesis using o owns_perm [OF held_by_new_lease [where w = ?w and l = l]]
      by (simp add: all_owned_def activated_def held_by_def)
  qed
qed

fun releases_session :: "governor_op \<Rightarrow> bool" where
  "releases_session (GovReleaseSession _) = True" | "releases_session _ = False"

lemma run_gov_all_owned:
  assumes "all_owned w" "bt_wf (table (gw_governor w))" "\<not> releases_session op"
  shows "all_owned (run_gov op w)"
proof (cases op)
  case (GovReserve sid rid kind)
  obtain r g' where r: "reserve (gw_governor w) sid rid kind = (r, g')" by (cases "reserve (gw_governor w) sid rid kind")
  from owns_reserve [OF assms (1) [unfolded all_owned_def] assms (2) r] show ?thesis
    by (cases r) (simp_all add: GovReserve r all_owned_def held_by_def)
next
  case (GovDropReservation n)
  show ?thesis
  proof (cases "n < length (gw_reservations w)")
    case True
    with assms (1) owns_perm [OF held_by_reservation [OF True]] show ?thesis
      by (simp add: GovDropReservation all_owned_def owns_reservation_drop held_by_def)
  qed (use assms (1) in \<open>simp add: GovDropReservation\<close>)
next
  case (GovActivateLive n kind)
  show ?thesis
  proof (cases "n < length (gw_reservations w)")
    case True
    from all_owned_activated [OF True assms (2,1) owns_activate_live [OF _ assms (2)]] show ?thesis
      by (simp add: GovActivateLive True)
  qed (use assms (1) in \<open>simp add: GovActivateLive\<close>)
next
  case (GovActivateSurface n identity visibility)
  show ?thesis
  proof (cases "n < length (gw_reservations w)")
    case True
    from all_owned_activated [OF True assms (2,1) owns_activate_surface [OF _ assms (2)]] show ?thesis
      by (simp add: GovActivateSurface True)
  qed (use assms (1) in \<open>simp add: GovActivateSurface\<close>)
next
  case (GovDropLease n)
  show ?thesis
  proof (cases "n < length (gw_leases w)")
    case True
    with assms (1) owns_perm [OF held_by_lease [OF True]] show ?thesis
      by (simp add: GovDropLease all_owned_def owns_lease_drop held_by_def)
  qed (use assms (1) in \<open>simp add: GovDropLease\<close>)
next
  case (GovSetVisibility n identity visibility)
  with assms (1) owns_set_visibility [OF _ assms (2)] show ?thesis
    by (simp add: all_owned_def)
next
  case (GovSample s)
  with assms (1) show ?thesis by (simp add: all_owned_def update_sample_def table_def)
next
  case (GovMetrics m c)
  with assms (1) show ?thesis by (simp add: all_owned_def update_process_metrics_def table_def)
qed (use assms (3) in simp)

section \<open>Runs\<close>

lemma reserve_budget [simp]: "rg_budget (snd (reserve g sid rid kind)) = rg_budget g"
  by (simp add: reserve_def Let_def with_reservations_def)

lemma drop_budget [simp]: "rg_budget (reservation_drop g h) = rg_budget g"
  "rg_budget (lease_drop g l) = rg_budget g"
  by (simp_all add: reservation_drop_def lease_drop_def release_live_key_def release_key_def
      with_reservations_def Let_def split: option.splits)

lemma activate_budget [simp]: "rg_budget (snd (activate_live g h kind)) = rg_budget g"
  "rg_budget (snd (activate_surface g h identity visibility)) = rg_budget g"
  by (auto simp: activate_live_def activate_surface_def activate_key_def activate_surface_key_def
      with_reservations_def split: option.splits reservation_state.splits resource_work_kind.splits)

lemma other_budget [simp]: "rg_budget (snd (set_surface_visibility g l identity visibility)) = rg_budget g"
  "rg_budget (snd (update_sample g s)) = rg_budget g" "rg_budget (snd (update_process_metrics g m c)) = rg_budget g"
  "rg_budget (snd (governor_release_session g sid)) = rg_budget g"
  by (auto simp: set_surface_visibility_def set_surface_visibility_key_def update_sample_def
      update_process_metrics_def governor_release_session_def with_reservations_def Let_def
      split: option.splits reservation_state.splits live_resource_state.splits)

lemma run_gov_budget [simp]: "rg_budget (gw_governor (run_gov op w)) = rg_budget (gw_governor w)"
  by (cases op) (simp_all only: reserve_world, simp_all add: activated_def)

lemma run_govs_within_budget:
  "within_budget (gw_governor w) \<Longrightarrow> within_budget (gw_governor (run_govs ops w))"
  unfolding run_govs_def by (induction ops arbitrary: w) (auto simp: run_gov_within_budget)

lemma run_govs_budget: "rg_budget (gw_governor (run_govs ops w)) = rg_budget (gw_governor w)"
  unfolding run_govs_def by (induction ops arbitrary: w) simp_all

lemma run_govs_all_owned:
  assumes "within_budget (gw_governor w)" "all_owned w" "True \<notin> set (map releases_session ops)"
  shows "all_owned (run_govs ops w)"
  using assms unfolding run_govs_def
proof (induction ops arbitrary: w)
  case (Cons op ops)
  then have "bt_wf (table (gw_governor w))" by (simp add: within_budget_def table_def)
  with Cons show ?case by (simp add: run_gov_all_owned run_gov_within_budget)
qed simp

lemma within_budget_new: "within_budget (gw_governor (world_new b))"
  by (simp add: within_budget_def world_new_def governor_new_def entries_with_def)

lemma all_owned_new: "all_owned (world_new b)"
  by (simp add: all_owned_def world_new_def held_by_def owns_def)

text \<open>However reservations, activations, leases, samples and session releases interleave, the
  governor's table never holds more pending captures, more pending or running Chromium
  instances, or more pending native surfaces than the budget allows, where a budget of zero counts as one.
\<close>

theorem reservations_stay_within_budget:
  "entries_with is_capture (gw_governor (run_govs ops (world_new b))) \<le> max (unat (bu_concurrent_captures b)) 1
   \<and> entries_with is_chromium (gw_governor (run_govs ops (world_new b))) \<le> max (unat (bu_chromium_instances b)) 1
   \<and> entries_with is_pending_surface (gw_governor (run_govs ops (world_new b)))
       \<le> max (unat (bu_hidden_surfaces b)) 1"
  using run_govs_within_budget [OF within_budget_new, of ops b] run_govs_budget [of ops "world_new b"]
  unfolding within_budget_def by (simp add: world_new_def governor_new_def)

definition outstanding :: "(holding \<Rightarrow> bool) \<Rightarrow> governor_world \<Rightarrow> nat" where
  "outstanding P w = length (filter (\<lambda>h. P (snd h)) (held_by w))"

lemma outstanding_le:
  assumes "all_owned w" "\<And>r. P (holding_of r) = Q r"
  shows "outstanding P w \<le> entries_with Q (gw_governor w)"
  using owns_count [OF assms (1) [unfolded all_owned_def], of P]
  by (simp add: outstanding_def entries_with_def table_def assms (2))

lemma holding_classes:
  "holding_of r = Inl NativeVisualCapture \<longleftrightarrow> is_capture r"
  "holding_of r \<in> {Inl ChromiumWork, Inr LiveChromiumProcess} \<longleftrightarrow> is_chromium r"
  "holding_of r = Inl NativeSurfaceWork \<longleftrightarrow> is_pending_surface r"
  by (cases r rule: holding_of.cases; auto elim: is_capture.elims is_chromium.elims is_pending_surface.elims)+

text \<open>C24. As long as no session is released, the work that clients actually have in flight is
  bounded too: every outstanding reservation or lease has an entry of its own, so captures,
  Chromium reservations and processes together, and surface reservations stay within the budget.
\<close>

theorem outstanding_work_is_bounded:
  assumes "True \<notin> set (map releases_session ops)"
  shows "outstanding (\<lambda>c. c = Inl NativeVisualCapture) (run_govs ops (world_new b))
      \<le> max (unat (bu_concurrent_captures b)) 1
    \<and> outstanding (\<lambda>c. c \<in> {Inl ChromiumWork, Inr LiveChromiumProcess}) (run_govs ops (world_new b))
      \<le> max (unat (bu_chromium_instances b)) 1
    \<and> outstanding (\<lambda>c. c = Inl NativeSurfaceWork) (run_govs ops (world_new b))
      \<le> max (unat (bu_hidden_surfaces b)) 1"
proof -
  let ?w = "run_govs ops (world_new b)"
  have o: "all_owned ?w" by (rule run_govs_all_owned [OF within_budget_new all_owned_new assms])
  have b: "within_budget (gw_governor ?w)" "rg_budget (gw_governor ?w) = b"
    using run_govs_within_budget [OF within_budget_new, of ops b] run_govs_budget [of ops "world_new b"]
    by (simp_all add: world_new_def governor_new_def)
  show ?thesis
    using b outstanding_le [where P = "\<lambda>c. c = Inl NativeVisualCapture" and Q = is_capture, OF o holding_classes (1)]
      outstanding_le [where P = "\<lambda>c. c \<in> {Inl ChromiumWork, Inr LiveChromiumProcess}" and Q = is_chromium,
        OF o holding_classes (2)]
      outstanding_le [where P = "\<lambda>c. c = Inl NativeSurfaceWork" and Q = is_pending_surface,
        OF o holding_classes (3)]
    unfolding within_budget_def by simp
qed

definition sample_budget :: resource_budget where
  "sample_budget = \<lparr>bu_memory_mb = 0, bu_cpu_percent = Finite 0, bu_capture_storage_mb = 0,
     bu_network_kb_per_minute = 0, bu_chromium_instances = 1, bu_concurrent_captures = 2, bu_hidden_surfaces = 1\<rparr>"

definition sample_governor_run :: "governor_op list" where
  "sample_governor_run = [GovReserve ''s'' ''a'' NativeVisualCapture, GovReserve ''s'' ''b'' ChromiumWork,
     GovReserve ''s'' ''c'' NativeVisualCapture, GovReserve ''s'' ''d'' NativeVisualCapture,
     GovActivateLive 1 LiveChromiumProcess]"

lemma sample_governor_outstanding:
  "(map releases_session sample_governor_run,
    outstanding (\<lambda>c. c = Inl NativeVisualCapture) (run_govs sample_governor_run (world_new sample_budget)),
    outstanding (\<lambda>c. c = Inr LiveChromiumProcess) (run_govs sample_governor_run (world_new sample_budget)))
    = ([False, False, False, False, False], 2, 1)"
  by code_simp

lemma outstanding_work_is_bounded_witness:
  "True \<notin> set (map releases_session sample_governor_run)
   \<and> outstanding (\<lambda>c. c = Inl NativeVisualCapture) (run_govs sample_governor_run (world_new sample_budget)) = 2
   \<and> outstanding (\<lambda>c. c = Inl NativeVisualCapture) (run_govs sample_governor_run (world_new sample_budget))
      \<le> max (unat (bu_concurrent_captures sample_budget)) 1"
proof -
  have "True \<notin> set (map releases_session sample_governor_run)" using sample_governor_outstanding by simp
  from outstanding_work_is_bounded [OF this, of sample_budget] this sample_governor_outstanding
  show ?thesis by simp
qed

text \<open>
  Releasing a session whose captures are still in flight forgets them: the next captures are
  admitted beside the ones that still run. And a stale reservation removes the entry its
  successor has made under the same key.
\<close>

lemma released_session_overruns_budget:
  "outstanding (\<lambda>c. c = Inl NativeVisualCapture)
     (run_govs [GovReserve ''s'' ''a'' NativeVisualCapture, GovReserve ''s'' ''b'' NativeVisualCapture,
        GovReleaseSession ''s'', GovReserve ''t'' ''c'' NativeVisualCapture] (world_new sample_budget)) = 3
   \<and> bu_concurrent_captures sample_budget = 2"
  by code_simp

lemma stale_reservation_removes_successor:
  "rg_reservations (gw_governor
     (run_govs [GovReserve ''s'' ''a'' NativeVisualCapture, GovReleaseSession ''s'',
        GovReserve ''s'' ''a'' NativeVisualCapture, GovDropReservation 1] (world_new sample_budget))) = []"
  by code_simp

section \<open>The scheduler\<close>
















text \<open>A limit of \<open>u64::MAX\<close> does not bound the work: the test saturates, the sum wraps around.\<close>

lemma schedule_without_limit:
  "map (schedule_loop (- 1) (- 1) False 0 0)
     [[c\<lparr>wc_estimated_cpu_ms := - 1\<rparr>, c\<lparr>wc_estimated_cpu_ms := 2\<rparr>]]
   = [[c\<lparr>wc_estimated_cpu_ms := - 1\<rparr>, c\<lparr>wc_estimated_cpu_ms := 2\<rparr>]]"
  if "\<not> wc_requires_chromium c"
  using that by simp

end
