(* ===== verification/Action_Companions.thy ===== *)
theory Action_Companions
  imports Journal_Run
begin

text \<open>
  The companion records of an admitted action: the operation it was admitted for
  (\<open>src/crates/live-bridge/src/consequential_journal/operation_binding.rs\<close>) and the keyed
  commitments to the payload of a \<open>SetValue\<close> (\<open>set_value_payload.rs\<close>) or managed WebView
  action (\<open>managed_web_payload.rs\<close>). A companion is a file of its own beside the journal,
  created once and never overwritten. The state lock is held from the check of the history to
  the end of the write, so that is one step; what was read before the lock was taken is an
  argument. \<open>serde_json\<close> and HMAC-SHA256 are the parameter \<open>companion_codec\<close>.
\<close>

section \<open>Bytes\<close>

definition bytes_of_string :: "string \<Rightarrow> bytes" where
  "bytes_of_string s = map (\<lambda>c. of_nat (of_char c)) s"

text \<open>The big-endian bytes of a word (\<open>to_be_bytes\<close>, \<open>Uuid::as_bytes\<close>).\<close>

definition be_bytes :: "nat \<Rightarrow> 'a::len word \<Rightarrow> bytes" where
  "be_bytes n w = map (\<lambda>i. ucast (drop_bit (8 * i) w)) (rev [0..<n])"

lemma length_be_bytes [simp]: "length (be_bytes n w) = n"
  by (simp add: be_bytes_def)

section \<open>The bindings\<close>

record operation_binding =
  ob_action_id :: uuid
  ob_intent_journal_sequence :: u64
  ob_operation :: canonical_action_operation

datatype set_value_mode = ReplaceValue | ClearValue

fun commitment_tag :: "set_value_mode \<Rightarrow> u8" where
  "commitment_tag ReplaceValue = 1" | "commitment_tag ClearValue = 2"

datatype set_value_payload_ref = SetValuePayloadRef (set_value_uuid: uuid)
datatype managed_web_payload_ref = ManagedWebPayloadRef (managed_web_uuid: uuid)

record set_value_payload_binding =
  sv_action_id :: uuid
  sv_intent_journal_sequence :: u64
  sv_payload_ref :: set_value_payload_ref
  sv_mode :: set_value_mode
  sv_payload_utf8_len :: u64
  sv_commitment_algorithm :: string
  sv_commitment_digest :: bytes

record managed_web_payload_binding =
  mw_action_id :: uuid
  mw_intent_journal_sequence :: u64
  mw_payload_ref :: managed_web_payload_ref
  mw_operation :: canonical_action_operation
  mw_payload_len :: u64
  mw_commitment_algorithm :: string
  mw_commitment_digest :: bytes

text \<open>The libraries: JSON text of each binding, the keyed hash (\<open>None\<close> when it refuses the
  key), and the message of the operating system for a file that already exists.\<close>

record companion_codec =
  operation_to_vec :: "operation_binding \<Rightarrow> string + bytes"
  operation_from_slice :: "bytes \<Rightarrow> string + operation_binding"
  set_value_to_vec :: "set_value_payload_binding \<Rightarrow> string + bytes"
  set_value_from_slice :: "bytes \<Rightarrow> string + set_value_payload_binding"
  managed_web_to_vec :: "managed_web_payload_binding \<Rightarrow> string + bytes"
  managed_web_from_slice :: "bytes \<Rightarrow> string + managed_web_payload_binding"
  hmac_sha256 :: "bytes \<Rightarrow> bytes \<Rightarrow> bytes option"
  already_exists_message :: string

section \<open>Companion files\<close>

text \<open>What fails while a companion is created: the open, the write after some bytes, the flush,
  the sync, or the worker before or after the file was created.\<close>

record create_faults =
  create_fault :: "string option"
  create_write_fault :: "(nat \<times> string) option"
  create_flush_fault :: "string option"
  create_sync_fault :: "string option"
  create_worker_fault :: "(nat option \<times> string) option"

record companion_read_faults =
  companion_open_fault :: "string option"
  companion_read_fault :: "string option"
  companion_worker_fault :: "string option"

definition no_create_faults :: create_faults where
  "no_create_faults = \<lparr>create_fault = None, create_write_fault = None, create_flush_fault = None,
     create_sync_fault = None, create_worker_fault = None\<rparr>"

definition no_companion_read_faults :: companion_read_faults where
  "no_companion_read_faults = \<lparr>companion_open_fault = None, companion_read_fault = None,
     companion_worker_fault = None\<rparr>"

definition write_binding_create_new ::
  "companion_codec \<Rightarrow> string \<Rightarrow> path \<Rightarrow> bytes \<Rightarrow> create_faults \<Rightarrow> file_system
    \<Rightarrow> (journal_error + unit) \<times> file_system" where
  "write_binding_create_new cx what p encoded faults fs =
     (case create_fault faults of
        Some message \<Rightarrow> (Inl (Io (''create_'' @ what) message), fs)
      | None \<Rightarrow>
          if fs p \<noteq> None then (Inl (Io (''create_'' @ what) (already_exists_message cx)), fs)
          else case create_write_fault faults of
            Some (n, message) \<Rightarrow> (Inl (Io (''write_'' @ what) message), fs(p \<mapsto> take n encoded))
          | None \<Rightarrow>
              (case create_flush_fault faults of
                 Some message \<Rightarrow> (Inl (Io (''flush_'' @ what) message), fs(p \<mapsto> encoded))
               | None \<Rightarrow>
                   (case create_sync_fault faults of
                      Some message \<Rightarrow> (Inl (Io (''sync_'' @ what) message), fs(p \<mapsto> encoded))
                    | None \<Rightarrow> (Inr (), fs(p \<mapsto> encoded)))))"

definition create_on_worker ::
  "companion_codec \<Rightarrow> string \<Rightarrow> path \<Rightarrow> bytes \<Rightarrow> create_faults \<Rightarrow> file_system
    \<Rightarrow> (journal_error + unit) \<times> file_system" where
  "create_on_worker cx what p encoded faults fs =
     (case create_worker_fault faults of
        Some (progress, message) \<Rightarrow>
          (Inl (Worker message),
           (case progress of None \<Rightarrow> fs
            | Some n \<Rightarrow> if fs p \<noteq> None then fs else fs(p \<mapsto> take n encoded)))
      | None \<Rightarrow> write_binding_create_new cx what p encoded faults fs)"

definition read_binding ::
  "(bytes \<Rightarrow> string + 'b) \<Rightarrow> string \<Rightarrow> string \<Rightarrow> path \<Rightarrow> companion_read_faults \<Rightarrow> file_system
    \<Rightarrow> journal_error + 'b option" where
  "read_binding decode what invalid p faults fs =
     (case companion_worker_fault faults of
        Some message \<Rightarrow> Inl (Worker message)
      | None \<Rightarrow>
          (case companion_open_fault faults of
             Some message \<Rightarrow> Inl (Io (''open_'' @ what) message)
           | None \<Rightarrow>
               (case fs p of
                  None \<Rightarrow> Inr None
                | Some content \<Rightarrow>
                    (case companion_read_fault faults of
                       Some message \<Rightarrow> Inl (Io (''read_'' @ what) message)
                     | None \<Rightarrow>
                         (case decode content of
                            Inl message \<Rightarrow> Inl (Serialization (invalid @ message))
                          | Inr b \<Rightarrow> Inr (Some b))))))"

section \<open>The operation of an intent\<close>

definition operation_binding_path :: "externals \<Rightarrow> path \<Rightarrow> uuid \<Rightarrow> path" where
  "operation_binding_path ext p aid = p @ ''.operation-'' @ uuid_display ext aid @ ''.json''"

definition exact_intent :: "consequential_journal \<Rightarrow> canonical_queued_action \<Rightarrow> journal_entry option" where
  "exact_intent j queued = find (\<lambda>e. action_id e = act_id (q_action queued)
     \<and> transition e = IntentAdmitted (q_envelope queued)) (journal_entries j)"

fun is_intent :: "journal_transition \<Rightarrow> bool" where
  "is_intent (IntentAdmitted _) = True" | "is_intent _ = False"

definition intent_of :: "consequential_journal \<Rightarrow> uuid \<Rightarrow> journal_entry option" where
  "intent_of j aid = find (\<lambda>e. action_id e = aid \<and> is_intent (transition e)) (journal_entries j)"

definition record_intent_operation_bound_explicit ::
  "externals \<Rightarrow> companion_codec \<Rightarrow> consequential_journal \<Rightarrow> canonical_queued_action
    \<Rightarrow> canonical_action_operation \<Rightarrow> create_faults \<Rightarrow> file_system
    \<Rightarrow> (journal_error + operation_binding) \<times> file_system" where
  "record_intent_operation_bound_explicit ext cx j queued operation faults fs =
     (let aid = act_id (q_action queued); current = recovery_state_of j aid
      in if transport_action_id (q_envelope queued) \<noteq> aid
            \<or> env_session_id (q_envelope queued) \<noteq> act_session_id (q_action queued) then
           (Inl (InvalidTransition aid ''intent_operation_binding_action_mismatch'' None), fs)
         else if current \<noteq> Some RAdmitted then
           (Inl (InvalidTransition aid ''intent_operation_binding_after_authorization'' current), fs)
         else case exact_intent j queued of
           None \<Rightarrow> (Inl (InvalidTransition aid ''intent_operation_binding_without_exact_intent'' current), fs)
         | Some intent_entry \<Rightarrow>
             let binding = \<lparr>ob_action_id = aid, ob_intent_journal_sequence = journal_sequence intent_entry,
                            ob_operation = operation\<rparr>
             in case operation_to_vec cx binding of
               Inl message \<Rightarrow> (Inl (Serialization message), fs)
             | Inr encoded \<Rightarrow>
                 (case create_on_worker cx ''operation_binding''
                         (operation_binding_path ext (journal_path j) aid) encoded faults fs of
                    (Inl err, fs') \<Rightarrow> (Inl err, fs')
                  | (Inr _, fs') \<Rightarrow> (Inr binding, fs')))"

definition record_intent_operation_bound ::
  "externals \<Rightarrow> companion_codec \<Rightarrow> consequential_journal \<Rightarrow> canonical_queued_action
    \<Rightarrow> create_faults \<Rightarrow> file_system \<Rightarrow> (journal_error + operation_binding) \<times> file_system" where
  "record_intent_operation_bound ext cx j queued faults fs =
     (case from_bridge_action_kind (act_action (q_action queued)) of
        None \<Rightarrow> (Inl (InvalidTransition (act_id (q_action queued))
                  ''intent_operation_binding_for_internal_action'' None), fs)
      | Some operation \<Rightarrow> record_intent_operation_bound_explicit ext cx j queued operation faults fs)"

definition admitted_operation ::
  "externals \<Rightarrow> companion_codec \<Rightarrow> consequential_journal \<Rightarrow> uuid \<Rightarrow> companion_read_faults \<Rightarrow> file_system
    \<Rightarrow> journal_error + canonical_action_operation option" where
  "admitted_operation ext cx j aid faults fs =
     (case intent_of j aid of
        None \<Rightarrow> Inr None
      | Some intent_entry \<Rightarrow>
          (case read_binding (operation_from_slice cx) ''operation_binding''
                  ''invalid canonical operation binding: ''
                  (operation_binding_path ext (journal_path j) aid) faults fs of
             Inl err \<Rightarrow> Inl err
           | Inr None \<Rightarrow> Inr None
           | Inr (Some binding) \<Rightarrow>
               if ob_action_id binding \<noteq> aid
                  \<or> ob_intent_journal_sequence binding \<noteq> journal_sequence intent_entry then
                 Inl (Serialization ''canonical operation binding does not match admitted intent'')
               else Inr (Some (ob_operation binding))))"

section \<open>The payload of a set-value action\<close>

text \<open>The operation is looked up in the state \<open>j1\<close>, \<open>fs1\<close> before the lock is taken; a refusal reads the
  recovery state again, in \<open>j2\<close>.\<close>

definition set_value_commitment_domain :: bytes where
  "set_value_commitment_domain = bytes_of_string ''localview:set-value-payload:v1'' @ [0]"

definition set_value_commitment_algorithm :: string where
  "set_value_commitment_algorithm = ''hmac-sha256-process-v1''"

text \<open>The bytes that the keyed hash is fed, in the order of the updates.\<close>

definition commitment_message :: "bytes \<Rightarrow> uuid \<Rightarrow> uuid \<Rightarrow> u8 \<Rightarrow> u64 \<Rightarrow> bytes \<Rightarrow> bytes" where
  "commitment_message domain aid payload_ref tag len payload =
     domain @ be_bytes 16 aid @ be_bytes 16 payload_ref @ [tag] @ be_bytes 8 len @ payload"

definition set_value_message :: "uuid \<Rightarrow> set_value_payload_ref \<Rightarrow> set_value_mode \<Rightarrow> u64 \<Rightarrow> bytes \<Rightarrow> bytes" where
  "set_value_message aid payload_ref mode len payload = commitment_message set_value_commitment_domain
     aid (set_value_uuid payload_ref) (commitment_tag mode) len payload"

definition compute_set_value_commitment ::
  "companion_codec \<Rightarrow> bytes \<Rightarrow> uuid \<Rightarrow> set_value_payload_ref \<Rightarrow> set_value_mode \<Rightarrow> u64 \<Rightarrow> bytes
    \<Rightarrow> journal_error + bytes" where
  "compute_set_value_commitment cx key aid payload_ref mode len payload =
     (case hmac_sha256 cx key (set_value_message aid payload_ref mode len payload) of
        None \<Rightarrow> Inl (Serialization ''SetValue payload commitment could not be initialized'')
      | Some digest \<Rightarrow> Inr digest)"

datatype set_value_verification_error =
    InvalidPayloadRef | UnsupportedCommitmentAlgorithm | PayloadLengthMismatch
  | CommitmentInitializationFailed | CommitmentMismatch

definition verify_set_value_payload_binding ::
  "companion_codec \<Rightarrow> bytes \<Rightarrow> set_value_payload_binding \<Rightarrow> bytes \<Rightarrow> set_value_verification_error + unit" where
  "verify_set_value_payload_binding cx key binding payload =
     (if set_value_uuid (sv_payload_ref binding) = 0 then Inl InvalidPayloadRef
      else if sv_commitment_algorithm binding \<noteq> set_value_commitment_algorithm then
        Inl UnsupportedCommitmentAlgorithm
      else if sv_payload_utf8_len binding \<noteq> of_nat (length payload) then Inl PayloadLengthMismatch
      else case hmac_sha256 cx key (set_value_message (sv_action_id binding) (sv_payload_ref binding)
             (sv_mode binding) (sv_payload_utf8_len binding) payload) of
        None \<Rightarrow> Inl CommitmentInitializationFailed
      | Some digest \<Rightarrow> if digest = sv_commitment_digest binding then Inr () else Inl CommitmentMismatch)"

definition set_value_payload_binding_path :: "externals \<Rightarrow> path \<Rightarrow> uuid \<Rightarrow> path" where
  "set_value_payload_binding_path ext p aid = p @ ''.set-value-payload-'' @ uuid_display ext aid @ ''.json''"

definition record_set_value_payload_binding ::
  "externals \<Rightarrow> companion_codec \<Rightarrow> consequential_journal \<times> companion_read_faults \<times> file_system
    \<Rightarrow> consequential_journal \<Rightarrow> consequential_journal \<Rightarrow> canonical_queued_action \<Rightarrow> bytes
    \<Rightarrow> set_value_payload_ref \<Rightarrow> set_value_mode \<Rightarrow> bytes \<Rightarrow> create_faults \<Rightarrow> file_system
    \<Rightarrow> (journal_error + set_value_payload_binding) \<times> file_system" where
  "record_set_value_payload_binding ext cx = (\<lambda>(j1, faults1, fs1) j2 j queued key payload_ref mode payload faults fs.
     (let aid = act_id (q_action queued); current = recovery_state_of j aid
      in if transport_action_id (q_envelope queued) \<noteq> aid
            \<or> env_session_id (q_envelope queued) \<noteq> act_session_id (q_action queued)
            \<or> set_value_uuid payload_ref = 0 then
           (Inl (InvalidTransition aid ''set_value_payload_binding_action_mismatch'' None), fs)
         else case admitted_operation ext cx j1 aid faults1 fs1 of
           Inl err \<Rightarrow> (Inl err, fs)
         | Inr operation \<Rightarrow>
             if operation \<noteq> Some OpSetValue then
               (Inl (InvalidTransition aid ''set_value_payload_binding_without_set_value_operation''
                  (recovery_state_of j2 aid)), fs)
             else if current \<noteq> Some RAdmitted then
               (Inl (InvalidTransition aid ''set_value_payload_binding_after_authorization'' current), fs)
             else case exact_intent j queued of
               None \<Rightarrow> (Inl (InvalidTransition aid ''set_value_payload_binding_without_exact_intent'' current), fs)
             | Some intent_entry \<Rightarrow>
                 let len = of_nat (length payload)
                 in case compute_set_value_commitment cx key aid payload_ref mode len payload of
                   Inl err \<Rightarrow> (Inl err, fs)
                 | Inr digest \<Rightarrow>
                     let binding = \<lparr>sv_action_id = aid,
                           sv_intent_journal_sequence = journal_sequence intent_entry,
                           sv_payload_ref = payload_ref, sv_mode = mode, sv_payload_utf8_len = len,
                           sv_commitment_algorithm = set_value_commitment_algorithm,
                           sv_commitment_digest = digest\<rparr>
                     in case set_value_to_vec cx binding of
                       Inl message \<Rightarrow> (Inl (Serialization message), fs)
                     | Inr encoded \<Rightarrow>
                         (case create_on_worker cx ''set_value_payload_binding''
                                 (set_value_payload_binding_path ext (journal_path j) aid) encoded faults fs of
                            (Inl err, fs') \<Rightarrow> (Inl err, fs')
                          | (Inr _, fs') \<Rightarrow> (Inr binding, fs'))))"

definition set_value_payload_binding_of ::
  "externals \<Rightarrow> companion_codec \<Rightarrow> consequential_journal \<times> companion_read_faults \<times> file_system
    \<Rightarrow> consequential_journal \<Rightarrow> uuid \<Rightarrow> companion_read_faults \<Rightarrow> file_system
    \<Rightarrow> journal_error + set_value_payload_binding option" where
  "set_value_payload_binding_of ext cx = (\<lambda>(j1, faults1, fs1) j aid faults fs.
     (case admitted_operation ext cx j1 aid faults1 fs1 of
        Inl err \<Rightarrow> Inl err
      | Inr operation \<Rightarrow>
          if operation \<noteq> Some OpSetValue then Inr None
          else case intent_of j aid of
            None \<Rightarrow> Inr None
          | Some intent_entry \<Rightarrow>
              (case read_binding (set_value_from_slice cx) ''set_value_payload_binding''
                      ''invalid SetValue payload binding: ''
                      (set_value_payload_binding_path ext (journal_path j) aid) faults fs of
                 Inl err \<Rightarrow> Inl err
               | Inr None \<Rightarrow> Inr None
               | Inr (Some binding) \<Rightarrow>
                   if sv_action_id binding \<noteq> aid
                      \<or> sv_intent_journal_sequence binding \<noteq> journal_sequence intent_entry
                      \<or> set_value_uuid (sv_payload_ref binding) = 0
                      \<or> sv_commitment_algorithm binding \<noteq> set_value_commitment_algorithm
                      \<or> length (sv_commitment_digest binding) \<noteq> 32 then
                     Inl (Serialization ''SetValue payload binding does not match admitted intent'')
                   else Inr (Some binding))))"

section \<open>The payload of a managed WebView action\<close>

fun managed_web_payload_operation :: "canonical_action_operation \<Rightarrow> bool" where
  "managed_web_payload_operation OpInputText = True"
| "managed_web_payload_operation OpKeyInput = True"
| "managed_web_payload_operation OpScroll = True"
| "managed_web_payload_operation _ = False"

fun operation_tag :: "canonical_action_operation \<Rightarrow> u8 option" where
  "operation_tag OpInputText = Some 1"
| "operation_tag OpKeyInput = Some 2"
| "operation_tag OpScroll = Some 3"
| "operation_tag _ = None"

definition managed_web_commitment_domain :: bytes where
  "managed_web_commitment_domain = bytes_of_string ''localview:managed-web-payload:v1'' @ [0]"

definition managed_web_commitment_algorithm :: string where
  "managed_web_commitment_algorithm = ''hmac-sha256-process-v1''"

definition managed_web_message ::
  "uuid \<Rightarrow> managed_web_payload_ref \<Rightarrow> canonical_action_operation \<Rightarrow> u64 \<Rightarrow> bytes \<Rightarrow> bytes" where
  "managed_web_message aid payload_ref operation len payload =
     commitment_message managed_web_commitment_domain aid (managed_web_uuid payload_ref)
       (case operation_tag operation of None \<Rightarrow> 0xFF | Some tag \<Rightarrow> tag) len payload"

definition compute_managed_web_commitment ::
  "companion_codec \<Rightarrow> bytes \<Rightarrow> uuid \<Rightarrow> managed_web_payload_ref \<Rightarrow> canonical_action_operation \<Rightarrow> u64
    \<Rightarrow> bytes \<Rightarrow> journal_error + bytes" where
  "compute_managed_web_commitment cx key aid payload_ref operation len payload =
     (case hmac_sha256 cx key (managed_web_message aid payload_ref operation len payload) of
        None \<Rightarrow> Inl (Serialization ''managed-WebView payload commitment could not be initialized'')
      | Some digest \<Rightarrow> Inr digest)"

datatype managed_web_verification_error =
    MWInvalidPayloadRef | MWUnsupportedOperation | MWUnsupportedCommitmentAlgorithm
  | MWPayloadLengthMismatch | MWCommitmentInitializationFailed | MWCommitmentMismatch

definition verify_managed_web_payload_binding ::
  "companion_codec \<Rightarrow> bytes \<Rightarrow> managed_web_payload_binding \<Rightarrow> bytes \<Rightarrow> managed_web_verification_error + unit" where
  "verify_managed_web_payload_binding cx key binding payload =
     (if managed_web_uuid (mw_payload_ref binding) = 0 then Inl MWInvalidPayloadRef
      else if \<not> managed_web_payload_operation (mw_operation binding) then Inl MWUnsupportedOperation
      else if mw_commitment_algorithm binding \<noteq> managed_web_commitment_algorithm then
        Inl MWUnsupportedCommitmentAlgorithm
      else if mw_payload_len binding \<noteq> of_nat (length payload) then Inl MWPayloadLengthMismatch
      else case hmac_sha256 cx key (managed_web_message (mw_action_id binding) (mw_payload_ref binding)
             (mw_operation binding) (mw_payload_len binding) payload) of
        None \<Rightarrow> Inl MWCommitmentInitializationFailed
      | Some digest \<Rightarrow> if digest = mw_commitment_digest binding then Inr () else Inl MWCommitmentMismatch)"

definition managed_web_payload_binding_path :: "externals \<Rightarrow> path \<Rightarrow> uuid \<Rightarrow> path" where
  "managed_web_payload_binding_path ext p aid =
     p @ ''.managed-web-payload-'' @ uuid_display ext aid @ ''.json''"

definition record_managed_web_payload_binding ::
  "externals \<Rightarrow> companion_codec \<Rightarrow> consequential_journal \<times> companion_read_faults \<times> file_system
    \<Rightarrow> consequential_journal \<Rightarrow> consequential_journal \<Rightarrow> canonical_queued_action \<Rightarrow> bytes
    \<Rightarrow> managed_web_payload_ref \<Rightarrow> bytes \<Rightarrow> create_faults \<Rightarrow> file_system
    \<Rightarrow> (journal_error + managed_web_payload_binding) \<times> file_system" where
  "record_managed_web_payload_binding ext cx = (\<lambda>(j1, faults1, fs1) j2 j queued key payload_ref payload faults fs.
     (let aid = act_id (q_action queued); current = recovery_state_of j aid
      in if transport_action_id (q_envelope queued) \<noteq> aid
            \<or> env_session_id (q_envelope queued) \<noteq> act_session_id (q_action queued)
            \<or> managed_web_uuid payload_ref = 0 then
           (Inl (InvalidTransition aid ''managed_web_payload_binding_action_mismatch'' None), fs)
         else case admitted_operation ext cx j1 aid faults1 fs1 of
           Inl err \<Rightarrow> (Inl err, fs)
         | Inr None \<Rightarrow> (Inl (InvalidTransition aid ''managed_web_payload_binding_without_operation''
                           (recovery_state_of j2 aid)), fs)
         | Inr (Some operation) \<Rightarrow>
             if \<not> managed_web_payload_operation operation then
               (Inl (InvalidTransition aid ''managed_web_payload_binding_unsupported_operation''
                  (recovery_state_of j2 aid)), fs)
             else if current \<noteq> Some RAdmitted then
               (Inl (InvalidTransition aid ''managed_web_payload_binding_after_authorization'' current), fs)
             else case exact_intent j queued of
               None \<Rightarrow> (Inl (InvalidTransition aid ''managed_web_payload_binding_without_exact_intent'' current), fs)
             | Some intent_entry \<Rightarrow>
                 let len = of_nat (length payload)
                 in case compute_managed_web_commitment cx key aid payload_ref operation len payload of
                   Inl err \<Rightarrow> (Inl err, fs)
                 | Inr digest \<Rightarrow>
                     let binding = \<lparr>mw_action_id = aid,
                           mw_intent_journal_sequence = journal_sequence intent_entry,
                           mw_payload_ref = payload_ref, mw_operation = operation, mw_payload_len = len,
                           mw_commitment_algorithm = managed_web_commitment_algorithm,
                           mw_commitment_digest = digest\<rparr>
                     in case managed_web_to_vec cx binding of
                       Inl message \<Rightarrow> (Inl (Serialization message), fs)
                     | Inr encoded \<Rightarrow>
                         (case create_on_worker cx ''managed_web_payload_binding''
                                 (managed_web_payload_binding_path ext (journal_path j) aid) encoded faults fs of
                            (Inl err, fs') \<Rightarrow> (Inl err, fs')
                          | (Inr _, fs') \<Rightarrow> (Inr binding, fs'))))"

definition managed_web_payload_binding_of ::
  "externals \<Rightarrow> companion_codec \<Rightarrow> consequential_journal \<times> companion_read_faults \<times> file_system
    \<Rightarrow> consequential_journal \<Rightarrow> uuid \<Rightarrow> companion_read_faults \<Rightarrow> file_system
    \<Rightarrow> journal_error + managed_web_payload_binding option" where
  "managed_web_payload_binding_of ext cx = (\<lambda>(j1, faults1, fs1) j aid faults fs.
     (case admitted_operation ext cx j1 aid faults1 fs1 of
        Inl err \<Rightarrow> Inl err
      | Inr None \<Rightarrow> Inr None
      | Inr (Some operation) \<Rightarrow>
          if \<not> managed_web_payload_operation operation then Inr None
          else case intent_of j aid of
            None \<Rightarrow> Inr None
          | Some intent_entry \<Rightarrow>
              (case read_binding (managed_web_from_slice cx) ''managed_web_payload_binding'' []
                      (managed_web_payload_binding_path ext (journal_path j) aid) faults fs of
                 Inl err \<Rightarrow> Inl err
               | Inr None \<Rightarrow> Inr None
               | Inr (Some binding) \<Rightarrow>
                   if mw_action_id binding \<noteq> aid
                      \<or> mw_intent_journal_sequence binding \<noteq> journal_sequence intent_entry
                      \<or> managed_web_uuid (mw_payload_ref binding) = 0
                      \<or> mw_operation binding \<noteq> operation
                      \<or> \<not> managed_web_payload_operation (mw_operation binding)
                      \<or> mw_commitment_algorithm binding \<noteq> managed_web_commitment_algorithm
                      \<or> length (mw_commitment_digest binding) \<noteq> 32 then
                     Inl (Serialization ''managed-WebView payload binding does not match admitted intent'')
                   else Inr (Some binding))))"

end
