(* ===== verification/Recovery_Inventory.thy ===== *)
theory Recovery_Inventory
  imports Journal_Run
begin

text \<open>
  The recovery inventories of the journal
  (\<open>src/crates/live-bridge/src/consequential_journal/recovery_inventory.rs\<close>): what a restart
  has left to do for every durable action, in causal order. The two hash maps a method
  builds are maps here, and the order in which the code iterates over one is the argument
  \<open>keys\<close>. A panic of \<open>expect\<close> is \<open>None\<close>.
\<close>

section \<open>Dispositions\<close>

datatype recovery_debt_disposition =
    NoDispatchProven | ObservationRequired | CommitOnly | HistoricalTerminal | DebtReconciliationRequired

fun recovery_debt_disposition_of :: "recovery_state \<Rightarrow> recovery_debt_disposition" where
  "recovery_debt_disposition_of RAdmitted = NoDispatchProven"
| "recovery_debt_disposition_of RAuthorizedNotDispatched = NoDispatchProven"
| "recovery_debt_disposition_of RKnownNotDispatched = NoDispatchProven"
| "recovery_debt_disposition_of RDispatchPrepared = ObservationRequired"
| "recovery_debt_disposition_of RPossiblyDispatched = ObservationRequired"
| "recovery_debt_disposition_of ROutcomeObservedUnverified = ObservationRequired"
| "recovery_debt_disposition_of RVerifiedUncommitted = CommitOnly"
| "recovery_debt_disposition_of RCompensated = HistoricalTerminal"
| "recovery_debt_disposition_of RCommitted = HistoricalTerminal"
| "recovery_debt_disposition_of RCompensationFailed = DebtReconciliationRequired"

section \<open>The inventory\<close>

record recovery_inventory_entry =
  rie_action_id :: uuid
  rie_recovery_state :: recovery_state
  rie_latest_journal_sequence :: u64

definition latest_sequence_by_action :: "journal_entry list \<Rightarrow> uuid \<rightharpoonup> u64" where
  "latest_sequence_by_action es = fold (\<lambda>e m. m(action_id e \<mapsto> journal_sequence e)) es (\<lambda>_. None)"

definition recovery_inventory ::
  "uuid list \<Rightarrow> consequential_journal \<Rightarrow> recovery_inventory_entry list option" where
  "recovery_inventory keys j =
     (let es = journal_entries j; latest = latest_sequence_by_action es
      in map_option (sort_key rie_latest_journal_sequence)
           (those (map (\<lambda>aid. case latest aid of
                None \<Rightarrow> None
              | Some n \<Rightarrow> map_option (\<lambda>s. \<lparr>rie_action_id = aid, rie_recovery_state = s,
                    rie_latest_journal_sequence = n\<rparr>) (recovery_state_for es aid)) keys)))"

text \<open>The identities a recovery epoch is restricted to.\<close>

type_synonym recovery_action_scope = "uuid set"

definition scope_from_inventory :: "recovery_inventory_entry list \<Rightarrow> recovery_action_scope" where
  "scope_from_inventory inventory = set (map rie_action_id inventory)"

definition scope_contains :: "recovery_action_scope \<Rightarrow> uuid \<Rightarrow> bool" where
  "scope_contains scope aid \<longleftrightarrow> aid \<in> scope"

section \<open>The inventory with lineage\<close>

record recovery_binding_entry =
  rbe_action_id :: uuid
  rbe_session_id :: session_id
  rbe_provider_incarnation_ref :: provider_incarnation_ref
  rbe_target_incarnation_ref :: target_incarnation_ref
  rbe_expected_postcondition_contract_refs :: "string list"
  rbe_recovery_state :: recovery_state
  rbe_latest_journal_sequence :: u64

definition admitted_by_action :: "journal_entry list \<Rightarrow> uuid \<rightharpoonup> canonical_action_envelope" where
  "admitted_by_action es =
     fold (\<lambda>e m. case transition e of IntentAdmitted envelope \<Rightarrow> m(action_id e \<mapsto> envelope) | _ \<Rightarrow> m)
       es (\<lambda>_. None)"

definition binding_entry ::
  "uuid \<Rightarrow> canonical_action_envelope \<Rightarrow> recovery_state \<Rightarrow> u64 \<Rightarrow> recovery_binding_entry" where
  "binding_entry aid envelope s n =
     \<lparr>rbe_action_id = aid, rbe_session_id = env_session_id envelope,
      rbe_provider_incarnation_ref = provider_incarnation_ref (metadata envelope),
      rbe_target_incarnation_ref = target_incarnation_ref (metadata envelope),
      rbe_expected_postcondition_contract_refs = expected_postcondition_contract_refs (metadata envelope),
      rbe_recovery_state = s, rbe_latest_journal_sequence = n\<rparr>"

definition recovery_binding_inventory ::
  "uuid list \<Rightarrow> consequential_journal \<Rightarrow> recovery_binding_entry list option" where
  "recovery_binding_inventory keys j =
     (let es = journal_entries j; latest = latest_sequence_by_action es; admitted = admitted_by_action es
      in map_option (sort_key rbe_latest_journal_sequence)
           (those (map (\<lambda>aid. case (latest aid, admitted aid, recovery_state_for es aid) of
                (Some n, Some envelope, Some s) \<Rightarrow> Some (binding_entry aid envelope s n)
              | _ \<Rightarrow> None) keys)))"

definition recovery_bindings_for_attachment ::
  "uuid list \<Rightarrow> consequential_journal \<Rightarrow> session_id \<Rightarrow> provider_incarnation_ref \<Rightarrow> target_incarnation_ref
    \<Rightarrow> recovery_binding_entry list option" where
  "recovery_bindings_for_attachment keys j sid provider target =
     map_option (filter (\<lambda>e. rbe_session_id e = sid \<and> rbe_provider_incarnation_ref e = provider
         \<and> rbe_target_incarnation_ref e = target)) (recovery_binding_inventory keys j)"

section \<open>The reference: the last entry of every action\<close>

text \<open>The entries that no later entry of the same action follows, in the order of the history.\<close>

fun last_entries :: "journal_entry list \<Rightarrow> journal_entry list" where
  "last_entries [] = []"
| "last_entries (e # es) =
     (if action_id e \<in> action_id ` set es then last_entries es else e # last_entries es)"

lemma last_entries_snoc:
  "last_entries (es @ [e]) = filter (\<lambda>x. action_id x \<noteq> action_id e) (last_entries es) @ [e]"
  by (induction es) auto

lemma last_entries_subset: "set (last_entries es) \<subseteq> set es"
  by (induction es) auto

lemma last_entries_ids: "action_id ` set (last_entries es) = action_id ` set es"
  by (induction es) auto

lemma last_entries_sorted:
  "sorted_wrt P (map journal_sequence es) \<Longrightarrow> sorted_wrt P (map journal_sequence (last_entries es))"
  using last_entries_subset by (induction es) (fastforce simp: image_iff)+

lemma last_entries_state:
  assumes "e \<in> set (last_entries es)"
  shows "latest_sequence_by_action es (action_id e) = Some (journal_sequence e)"
    "recovery_state_for es (action_id e) = Some (transition_state (transition e))"
  using assms by (induction es arbitrary: e rule: rev_induct)
    (auto simp: last_entries_snoc latest_sequence_by_action_def)

lemma history_sequences_sorted:
  assumes "history_ok us mode es" "length es < 2 ^ 64 - 1"
  shows "sorted_wrt (<) (map journal_sequence es)"
proof -
  have "journal_sequence (es ! i) < journal_sequence (es ! k)" if "i < k" "k < length es" for i k
  proof -
    have "unat (of_nat n + 1 :: u64) = n + 1" if "n < length es" for n
      using unat_of_nat_64 [of "n + 1"] that assms (2) by (simp add: add.commute)
    with that show ?thesis
      using history_sequence [OF assms (1), of i] history_sequence [OF assms (1), of k]
      by (simp add: word_less_nat_alt)
  qed
  then show ?thesis by (simp add: sorted_wrt_iff_nth_less)
qed

lemma those_map_Some: "(\<And>x. x \<in> set xs \<Longrightarrow> f x = Some (g x)) \<Longrightarrow> those (map f xs) = Some (map g xs)"
  by (induction xs) auto

text \<open>Sorting the summaries of the actions gives those of the last entries, whatever the order of the keys.\<close>

lemma sorted_summaries:
  fixes f :: "uuid \<Rightarrow> 'b option" and g :: "journal_entry \<Rightarrow> 'b" and n :: "'b \<Rightarrow> u64"
  assumes h: "history_ok us mode es" "length es < 2 ^ 64 - 1"
    and keys: "distinct keys" "set keys = action_id ` set es"
    and fg: "\<And>e. e \<in> set (last_entries es) \<Longrightarrow> f (action_id e) = Some (g e)"
    and n: "\<And>e. n (g e) = journal_sequence e"
  shows "map_option (sort_key n) (those (map f keys)) = Some (map g (last_entries es))"
proof -
  define last_of where "last_of aid = (SOME e. e \<in> set (last_entries es) \<and> action_id e = aid)" for aid
  have last_of: "last_of aid \<in> set (last_entries es) \<and> action_id (last_of aid) = aid" if "aid \<in> set keys" for aid
  proof -
    have "\<exists>e. e \<in> set (last_entries es) \<and> action_id e = aid"
      using that keys (2) last_entries_ids [of es] by (metis imageE)
    then show ?thesis unfolding last_of_def by (rule someI_ex)
  qed
  have sorted: "sorted_wrt (<) (map journal_sequence (last_entries es))"
    by (rule last_entries_sorted [OF history_sequences_sorted [OF h]])
  then have strict: "sorted (map n (map g (last_entries es)))" "distinct (map n (map g (last_entries es)))"
    by (simp_all add: n strict_sorted_iff o_def)
  have unique: "e = e'" if "e \<in> set (last_entries es)" "e' \<in> set (last_entries es)" "action_id e = action_id e'"
    for e e'
  proof -
    have "journal_sequence e = journal_sequence e'"
      using last_entries_state (1) [OF that (1)] last_entries_state (1) [OF that (2)] that (3) by simp
    then show ?thesis using sorted that (1,2) by (auto simp: strict_sorted_iff distinct_map dest: inj_onD)
  qed
  have those: "those (map f keys) = Some (map (g \<circ> last_of) keys)"
    using last_of fg by (intro those_map_Some) (metis comp_apply)
  have set_eq: "set (map (g \<circ> last_of) keys) = set (map g (last_entries es))"
  proof -
    have "last_of ` set keys = set (last_entries es)"
    proof
      show "last_of ` set keys \<subseteq> set (last_entries es)" using last_of by blast
      show "set (last_entries es) \<subseteq> last_of ` set keys"
      proof
        fix e assume e: "e \<in> set (last_entries es)"
        then have "action_id e \<in> set keys" using keys (2) last_entries_subset [of es] by auto
        moreover from this last_of [OF this] e have "last_of (action_id e) = e" using unique by blast
        ultimately show "e \<in> last_of ` set keys" by (metis image_eqI)
      qed
    qed
    then show ?thesis by (metis image_comp image_set list.map_comp)
  qed
  have "inj_on n (set (map g (last_entries es)))"
    using strict (2) by (simp only: distinct_map)
  moreover have "distinct (map n (map (g \<circ> last_of) keys))"
  proof -
    have "inj_on (n \<circ> (g \<circ> last_of)) (set keys)"
    proof (rule inj_onI)
      fix a b assume ab: "a \<in> set keys" "b \<in> set keys" "(n \<circ> (g \<circ> last_of)) a = (n \<circ> (g \<circ> last_of)) b"
      then have "journal_sequence (last_of a) = journal_sequence (last_of b)" by (simp add: n)
      then have "last_of a = last_of b"
        using sorted last_of [OF ab (1)] last_of [OF ab (2)]
        by (auto simp: strict_sorted_iff distinct_map dest: inj_onD)
      then show "a = b" using last_of [OF ab (1)] last_of [OF ab (2)] by metis
    qed
    then have "distinct (map (n \<circ> (g \<circ> last_of)) keys)"
      using keys (1) unfolding distinct_map by blast
    then show ?thesis by (simp only: map_map)
  qed
  then have "distinct (map n (sort_key n (map (g \<circ> last_of) keys)))"
    by (simp only: distinct_map [of n] distinct_sort set_sort)
  ultimately have "sort_key n (map (g \<circ> last_of) keys) = map g (last_entries es)"
    using strict set_eq by (intro map_sorted_distinct_set_unique [of n]) simp_all
  then show ?thesis by (simp add: those)
qed

section \<open>The admitted lineage\<close>

lemma recovery_state_unknown: "recovery_state_for es aid = None \<Longrightarrow> aid \<notin> action_id ` set es"
  by (induction es rule: rev_induct) (auto split: if_splits)

lemma admitted_by_action_eq:
  "history_ok us Replay es \<Longrightarrow> admitted_by_action es = admitted_envelope_for es"
proof (induction es rule: rev_induct)
  case Nil
  then show ?case by (simp add: admitted_by_action_def admitted_envelope_for_def fun_eq_iff)
next
  case (snoc e es)
  then have v: "entry_ok us Replay es e" and IH: "admitted_by_action es = admitted_envelope_for es" by simp_all
  show ?case
  proof (cases "transition e")
    case (IntentAdmitted envelope)
    have "replay_step (recovery_state_for es (action_id e)) RAdmitted"
      using replayed.step_ok [OF v] IntentAdmitted by simp
    then have "recovery_state_for es (action_id e) = None"
      by (auto simp: replay_step_iff append_step_iff)
    from recovery_state_unknown [OF this] have "admitted_envelope_for es (action_id e) = None"
      by (auto simp: admitted_envelope_for_def find_map_None_iff image_iff)
    then show ?thesis using IH IntentAdmitted
      by (auto simp: admitted_by_action_def admitted_envelope_for_snoc fun_eq_iff split: option.splits)
  qed (use IH in \<open>auto simp: admitted_by_action_def admitted_envelope_for_snoc fun_eq_iff split: option.splits\<close>)
qed

definition inventory_of_entry :: "journal_entry \<Rightarrow> recovery_inventory_entry" where
  "inventory_of_entry e = \<lparr>rie_action_id = action_id e,
     rie_recovery_state = transition_state (transition e), rie_latest_journal_sequence = journal_sequence e\<rparr>"

definition binding_of_entry :: "journal_entry list \<Rightarrow> journal_entry \<Rightarrow> recovery_binding_entry" where
  "binding_of_entry es e = binding_entry (action_id e) (the (admitted_envelope_for es (action_id e)))
     (transition_state (transition e)) (journal_sequence e)"

section \<open>Properties\<close>

text \<open>C28. The recovery inventory never panics and does not depend on the iteration order of
  its hash map: it is the summaries of the entries that no later entry of their action
  follows, in the order of the history.\<close>

theorem recovery_inventory_is_last_entries:
  assumes "journal_wf us j" "within_capacity j"
    and "distinct keys" "set keys = action_id ` set (journal_entries j)"
  shows "recovery_inventory keys j = Some (map inventory_of_entry (last_entries (journal_entries j)))"
  unfolding recovery_inventory_def Let_def
proof (rule sorted_summaries [OF _ _ assms (3,4)])
  show "history_ok us Replay (journal_entries j)" "length (journal_entries j) < 2 ^ 64 - 1"
    using assms (1,2) by (simp_all add: journal_wf_def within_capacity_def)
qed (simp_all add: last_entries_state inventory_of_entry_def)

lemma recovery_binding_inventory_eq:
  assumes "journal_wf us j" "within_capacity j"
    and "distinct keys" "set keys = action_id ` set (journal_entries j)"
  shows "recovery_binding_inventory keys j =
    Some (map (binding_of_entry (journal_entries j)) (last_entries (journal_entries j)))"
  unfolding recovery_binding_inventory_def Let_def
proof (rule sorted_summaries [OF _ _ assms (3,4)])
  show h: "history_ok us Replay (journal_entries j)" and "length (journal_entries j) < 2 ^ 64 - 1"
    using assms (1,2) by (simp_all add: journal_wf_def within_capacity_def)
  fix e assume e: "e \<in> set (last_entries (journal_entries j))"
  then obtain envelope where "admitted_envelope_for (journal_entries j) (action_id e) = Some envelope"
    using admitted_envelope_known [OF h, of "action_id e"] last_entries_state (2) [OF e] by auto
  with e show "(case (latest_sequence_by_action (journal_entries j) (action_id e),
        admitted_by_action (journal_entries j) (action_id e),
        recovery_state_for (journal_entries j) (action_id e)) of
      (Some n, Some envelope, Some s) \<Rightarrow> Some (binding_entry (action_id e) envelope s n) | _ \<Rightarrow> None)
    = Some (binding_of_entry (journal_entries j) e)"
    by (simp add: last_entries_state admitted_by_action_eq [OF h] binding_of_entry_def)
qed (simp add: binding_of_entry_def binding_entry_def)

text \<open>A provider that is attached again is given exactly the debt of its own lineage: the
  actions whose admitted envelope names its session and both its incarnations, in causal
  order, with the state the history gives them.\<close>

theorem recovery_bindings_match_lineage:
  assumes "journal_wf us j" "within_capacity j"
    and "distinct keys" "set keys = action_id ` set (journal_entries j)"
  shows "recovery_bindings_for_attachment keys j sid provider target =
    Some (map (binding_of_entry (journal_entries j))
      (filter (\<lambda>e. case admitted_envelope_for (journal_entries j) (action_id e) of
           None \<Rightarrow> False
         | Some envelope \<Rightarrow> env_session_id envelope = sid
             \<and> provider_incarnation_ref (metadata envelope) = provider
             \<and> target_incarnation_ref (metadata envelope) = target)
        (last_entries (journal_entries j))))"
proof -
  have h: "history_ok us Replay (journal_entries j)" using assms (1) by (simp add: journal_wf_def)
  let ?es = "journal_entries j"
  have known: "\<exists>envelope. admitted_envelope_for ?es (action_id e) = Some envelope"
    if "e \<in> set (last_entries ?es)" for e
    using admitted_envelope_known [OF h, of "action_id e"] last_entries_state (2) [OF that] by blast
  have "filter (\<lambda>b. rbe_session_id b = sid \<and> rbe_provider_incarnation_ref b = provider
        \<and> rbe_target_incarnation_ref b = target) (map (binding_of_entry ?es) (last_entries ?es))
    = map (binding_of_entry ?es) (filter (\<lambda>e. case admitted_envelope_for ?es (action_id e) of
           None \<Rightarrow> False
         | Some envelope \<Rightarrow> env_session_id envelope = sid
             \<and> provider_incarnation_ref (metadata envelope) = provider
             \<and> target_incarnation_ref (metadata envelope) = target) (last_entries ?es))"
    unfolding filter_map
  proof (intro arg_cong [where f = "map _"] filter_cong refl)
    fix e assume "e \<in> set (last_entries ?es)"
    from known [OF this] show "((\<lambda>b. rbe_session_id b = sid \<and> rbe_provider_incarnation_ref b = provider
        \<and> rbe_target_incarnation_ref b = target) \<circ> binding_of_entry ?es) e
      = (case admitted_envelope_for ?es (action_id e) of
           None \<Rightarrow> False
         | Some envelope \<Rightarrow> env_session_id envelope = sid
             \<and> provider_incarnation_ref (metadata envelope) = provider
             \<and> target_incarnation_ref (metadata envelope) = target)"
      by (auto simp: binding_of_entry_def binding_entry_def)
  qed
  then show ?thesis
    by (simp add: recovery_bindings_for_attachment_def recovery_binding_inventory_eq [OF assms])
qed

end
