(* ===== verification/Companion_Properties.thy ===== *)
theory Companion_Properties
  imports Action_Companions Recovery_Inventory Scenario
begin

text \<open>
  The companions of an action along the runs of a journal: a companion file, once it exists, is
  never changed, so what was recorded for an admitted intent is what is read back; and a
  payload that verifies against a commitment is the payload that was committed to, unless the
  keyed hash collides.
\<close>

section \<open>Files\<close>

lemma create_on_worker_cases:
  assumes "create_on_worker cx what p encoded faults fs = (r, fs')"
  obtains (created) "r = Inr ()" "fs p = None" "fs' = fs(p \<mapsto> encoded)"
  | (partly) err n where "r = Inl err" "fs p = None" "fs' = fs(p \<mapsto> take n encoded)"
  | (refused) err where "r = Inl err" "fs' = fs"
proof (cases "create_worker_fault faults")
  case (Some w)
  obtain progress message where w: "w = (progress, message)" by (cases w)
  show thesis
  proof (cases "progress = None \<or> fs p \<noteq> None")
    case True
    then show thesis using assms Some w refused
      by (auto simp: create_on_worker_def split: option.splits)
  next
    case False
    then obtain n where "progress = Some n" "fs p = None" by auto
    then show thesis using assms Some w
      by (intro partly [of "Worker message" n]) (auto simp: create_on_worker_def)
  qed
next
  case None
  note d = assms [unfolded create_on_worker_def None option.case write_binding_create_new_def]
  show thesis
  proof (cases "create_fault faults = None \<and> fs p = None")
    case False
    then show thesis using d refused by (auto split: option.splits if_splits)
  next
    case True
    show thesis
    proof (cases "create_write_fault faults")
      case (Some w)
      then show thesis using d True partly by (auto split: prod.splits)
    next
      case None
      then show thesis
        using d True created partly [of _ "length encoded"]
        by (cases "create_flush_fault faults"; cases "create_sync_fault faults") auto
    qed
  qed
qed

text \<open>An operation that creates files only where there are none.\<close>

definition keeps_files :: "path \<Rightarrow> file_system \<Rightarrow> file_system \<Rightarrow> bool" where
  "keeps_files p fs fs' \<longleftrightarrow> (\<forall>q c. q \<noteq> p \<longrightarrow> fs q = Some c \<longrightarrow> fs' q = Some c)"

lemma keeps_files_refl [simp]: "keeps_files p fs fs"
  by (simp add: keeps_files_def)

lemma keeps_files_trans: "keeps_files p fs fs1 \<Longrightarrow> keeps_files p fs1 fs2 \<Longrightarrow> keeps_files p fs fs2"
  by (simp add: keeps_files_def)

lemma create_keeps_files: "create_on_worker cx what p encoded faults fs = (r, fs') \<Longrightarrow> keeps_files q fs fs'"
  by (erule create_on_worker_cases) (auto simp: keeps_files_def)

lemma append_keeps_files:
  assumes "append_validated_locked ext j aid t now faults fs = (r, j', fs')"
  shows "keeps_files (journal_path j) fs fs'"
proof -
  have worker: "keeps_files q fs fs1" if "append_on_worker q encoded faults fs = (r1, fs1)" for q encoded r1 fs1
    by (rule append_on_worker_outcome [of q encoded faults fs]) (use that in \<open>auto simp: keeps_files_def\<close>)
  show ?thesis
    using assms worker [of "journal_path j"]
    by (auto simp: append_validated_locked_def Let_def split: sum.splits prod.splits)
qed

lemma append_outcome:
  assumes "append_validated_locked ext j aid t now faults fs = (r, c)"
  shows "keeps_files (journal_path j) fs (snd c)"
  using append_keeps_files [of ext j aid t now faults fs r "fst c" "snd c"] assms by simp

lemma journal_step_keeps_files:
  assumes "journal_step ext (j, fs) (j', fs')"
  shows "keeps_files (journal_path j) fs fs'"
  using assms
  by (cases rule: journal_stepE)
    (auto simp: record_defs record_dispatch_prepared_def record_dispatch_linearized_def
      record_action_postcondition_receipt_def Let_def
      split: prod.splits sum.splits option.splits if_splits dest!: append_keeps_files)

section \<open>Runs\<close>

text \<open>One operation of the journal or one recording of a companion, under any faults.\<close>

inductive companion_step ::
  "externals \<Rightarrow> companion_codec \<Rightarrow> consequential_journal \<times> file_system
    \<Rightarrow> consequential_journal \<times> file_system \<Rightarrow> bool" for ext cx where
  step_journal: "journal_step ext c c' \<Longrightarrow> companion_step ext cx c c'"
| step_operation:
    "record_intent_operation_bound_explicit ext cx j queued operation faults fs = (a, fs') \<Longrightarrow>
     companion_step ext cx (j, fs) (j, fs')"
| step_derived_operation:
    "record_intent_operation_bound ext cx j queued faults fs = (a, fs') \<Longrightarrow>
     companion_step ext cx (j, fs) (j, fs')"
| step_set_value:
    "record_set_value_payload_binding ext cx seen j2 j queued key payload_ref mode payload faults fs = (b, fs') \<Longrightarrow>
     companion_step ext cx (j, fs) (j, fs')"
| step_managed_web:
    "record_managed_web_payload_binding ext cx seen j2 j queued key web_ref payload faults fs = (d, fs') \<Longrightarrow>
     companion_step ext cx (j, fs) (j, fs')"

lemma record_operation_keeps_files:
  "record_intent_operation_bound_explicit ext cx j queued operation faults fs = (a, fs') \<Longrightarrow> keeps_files q fs fs'"
  by (auto simp: record_intent_operation_bound_explicit_def Let_def
      split: if_splits option.splits sum.splits prod.splits intro: create_keeps_files)

lemma record_payload_keeps_files:
  "record_set_value_payload_binding ext cx seen j2 j queued key payload_ref mode payload faults fs = (b, fs') \<Longrightarrow>
     keeps_files q fs fs'"
  "record_managed_web_payload_binding ext cx seen j2 j queued key web_ref payload faults fs = (d, fs') \<Longrightarrow>
     keeps_files q fs fs'"
  by (auto simp: record_set_value_payload_binding_def record_managed_web_payload_binding_def Let_def
      split: if_splits option.splits sum.splits prod.splits intro: create_keeps_files)

lemma companion_step_frame:
  assumes "companion_step ext cx c c'"
  shows "keeps_files (journal_path (fst c)) (snd c) (snd c')
    \<and> journal_path (fst c') = journal_path (fst c)
    \<and> (\<exists>new. journal_entries (fst c') = journal_entries (fst c) @ new)"
  using assms
proof cases
  case step_journal
  then have "journal_step ext (fst c, snd c) (fst c', snd c')" by simp
  from journal_step_keeps_files [OF this] journal_step_appends [OF this] show ?thesis
    by (auto simp: appends_def)
next
  case step_derived_operation
  then show ?thesis by (auto simp: record_intent_operation_bound_def record_operation_keeps_files
        split: option.splits)
qed (auto simp: record_operation_keeps_files record_payload_keeps_files)

lemma companion_steps_frame:
  assumes "(companion_step ext cx)\<^sup>*\<^sup>* c c'"
  shows "keeps_files (journal_path (fst c)) (snd c) (snd c')
    \<and> journal_path (fst c') = journal_path (fst c)
    \<and> (\<exists>new. journal_entries (fst c') = journal_entries (fst c) @ new)"
  using assms
proof (induction rule: rtranclp_induct)
  case (step c1 c2)
  from companion_step_frame [OF step.hyps (2)] step.IH show ?case
    by (auto intro: keeps_files_trans)
qed simp

section \<open>The intent of an action\<close>

lemma find_append: "find P (xs @ ys) = (case find P xs of None \<Rightarrow> find P ys | Some x \<Rightarrow> Some x)"
  by (induction xs) auto

lemma intent_unique:
  assumes "history_ok us Replay es" "e \<in> set es" "e' \<in> set es" "action_id e = action_id e'"
    "is_intent (transition e)" "is_intent (transition e')"
  shows "e = e'"
  using assms
proof (induction es arbitrary: e e' rule: rev_induct)
  case (snoc x es)
  have v: "entry_ok us Replay es x" and h: "history_ok us Replay es" using snoc.prems (1) by simp_all
  have fresh: "action_id x \<notin> action_id ` set es" if i: "is_intent (transition x)"
  proof -
    have "transition_state (transition x) = RAdmitted" using i by (cases "transition x") auto
    then have "replay_step (recovery_state_for es (action_id x)) RAdmitted"
      using replayed.step_ok [OF v] by simp
    then have "recovery_state_for es (action_id x) = None"
      by (auto simp: replay_step_iff append_step_iff)
    then show ?thesis using replayed.state_Some_entry [of es "action_id x"] by simp
  qed
  show ?case
    using snoc.prems snoc.IH [OF h] fresh by auto (metis image_eqI)+
qed simp

lemma exact_intent_is_intent:
  assumes "history_ok us Replay (journal_entries j)" "exact_intent j queued = Some e"
    and "journal_entries j' = journal_entries j @ new"
  shows "intent_of j' (act_id (q_action queued)) = Some e"
proof -
  let ?P = "\<lambda>e. action_id e = act_id (q_action queued) \<and> is_intent (transition e)"
  have e: "e \<in> set (journal_entries j)" "?P e"
    using assms (2) by (auto simp: exact_intent_def find_Some_iff)
  then obtain x where "find ?P (journal_entries j) = Some x"
    by (metis (mono_tags, lifting) find_None_iff not_Some_eq)
  moreover from this have "x \<in> set (journal_entries j)" "?P x" by (auto simp: find_Some_iff)
  with e have "x = e" by (intro intent_unique [OF assms (1)]) auto
  ultimately show ?thesis by (simp add: intent_of_def assms (3) find_append)
qed

section \<open>Operations are read back\<close>

definition operation_codec_ok :: "companion_codec \<Rightarrow> bool" where
  "operation_codec_ok cx \<longleftrightarrow>
     (\<forall>b encoded. operation_to_vec cx b = Inr encoded \<longrightarrow> operation_from_slice cx encoded = Inr b)"

lemma record_operation_Inr:
  assumes "record_intent_operation_bound_explicit ext cx j queued operation faults fs = (Inr binding, fs')"
  obtains e encoded where "recovery_state_of j (act_id (q_action queued)) = Some RAdmitted"
    "exact_intent j queued = Some e"
    "binding = \<lparr>ob_action_id = act_id (q_action queued), ob_intent_journal_sequence = journal_sequence e,
       ob_operation = operation\<rparr>"
    "operation_to_vec cx binding = Inr encoded"
    "fs' (operation_binding_path ext (journal_path j) (act_id (q_action queued))) = Some encoded"
    "fs (operation_binding_path ext (journal_path j) (act_id (q_action queued))) = None"
proof -
  have "recovery_state_of j (act_id (q_action queued)) = Some RAdmitted"
    using assms by (auto simp: record_intent_operation_bound_explicit_def Let_def split: if_splits)
  moreover obtain e where e: "exact_intent j queued = Some e"
    using assms by (auto simp: record_intent_operation_bound_explicit_def Let_def split: if_splits option.splits)
  moreover obtain encoded where b:
    "binding = \<lparr>ob_action_id = act_id (q_action queued), ob_intent_journal_sequence = journal_sequence e,
       ob_operation = operation\<rparr>"
    "operation_to_vec cx binding = Inr encoded"
    "create_on_worker cx ''operation_binding'' (operation_binding_path ext (journal_path j)
       (act_id (q_action queued))) encoded faults fs = (Inr (), fs')"
    using assms e by (auto simp: record_intent_operation_bound_explicit_def Let_def
        split: if_splits sum.splits prod.splits)
  moreover have "fs (operation_binding_path ext (journal_path j) (act_id (q_action queued))) = None
      \<and> fs' = fs(operation_binding_path ext (journal_path j) (act_id (q_action queued)) \<mapsto> encoded)"
    using b (3) by (cases rule: create_on_worker_cases) auto
  ultimately show thesis using that by auto
qed

lemma operation_path_neq: "operation_binding_path ext p aid \<noteq> p"
  by (simp add: operation_binding_path_def)

text \<open>C26. Once the operation of an admitted intent was recorded, every later look-up returns it,
  whatever the journal and the recordings of companions do in between and whichever of them
  fail; it can be recorded only while the action is merely admitted.\<close>

theorem recorded_operation_is_permanent:
  assumes wf: "journal_wf us j" and codec: "operation_codec_ok cx"
    and r: "record_intent_operation_bound_explicit ext cx j queued operation faults fs = (Inr binding, fs1)"
    and run: "(companion_step ext cx)\<^sup>*\<^sup>* (j, fs1) (j', fs')"
  shows "recovery_state_of j (act_id (q_action queued)) = Some RAdmitted
    \<and> admitted_operation ext cx j' (act_id (q_action queued)) no_companion_read_faults fs' = Inr (Some operation)"
proof -
  let ?aid = "act_id (q_action queued)"
  from r obtain e encoded where o: "recovery_state_of j ?aid = Some RAdmitted" "exact_intent j queued = Some e"
    "binding = \<lparr>ob_action_id = ?aid, ob_intent_journal_sequence = journal_sequence e, ob_operation = operation\<rparr>"
    "operation_to_vec cx binding = Inr encoded"
    "fs1 (operation_binding_path ext (journal_path j) ?aid) = Some encoded"
    by (rule record_operation_Inr)
  from companion_steps_frame [OF run] obtain new where frame: "keeps_files (journal_path j) fs1 fs'"
    "journal_path j' = journal_path j" "journal_entries j' = journal_entries j @ new" by auto
  have "fs' (operation_binding_path ext (journal_path j) ?aid) = Some encoded"
    using frame (1) o (5) operation_path_neq by (auto simp: keeps_files_def)
  moreover have "operation_from_slice cx encoded = Inr binding"
    using codec o (4) by (simp add: operation_codec_ok_def)
  moreover have "intent_of j' ?aid = Some e"
    using wf by (intro exact_intent_is_intent [OF _ o (2) frame (3), of us]) (simp add: journal_wf_def)
  ultimately show ?thesis
    using o (1,3) frame (2) by (simp add: admitted_operation_def read_binding_def no_companion_read_faults_def)
qed

text \<open>An operation is recorded at most once: after a success, and also after a failure that
  left a part of the record in the file, every further recording for the action fails.\<close>

lemma operation_recorded_at_most_once:
  assumes r: "record_intent_operation_bound_explicit ext cx j queued operation faults fs = (r1, fs1)"
    and left: "fs1 (operation_binding_path ext (journal_path j) (act_id (q_action queued))) \<noteq> None"
    and run: "(companion_step ext cx)\<^sup>*\<^sup>* (j, fs1) (j', fs')"
    and again: "act_id (q_action queued') = act_id (q_action queued)"
  shows "isl (fst (record_intent_operation_bound_explicit ext cx j' queued' operation' faults' fs'))"
proof -
  let ?p = "operation_binding_path ext (journal_path j) (act_id (q_action queued))"
  from companion_steps_frame [OF run] have "fs' ?p \<noteq> None" "journal_path j' = journal_path j"
    using left operation_path_neq by (auto simp: keeps_files_def)
  then have "\<not> (\<exists>binding fs2. record_intent_operation_bound_explicit ext cx j' queued' operation' faults' fs'
      = (Inr binding, fs2))"
    using again by (auto elim!: record_operation_Inr)
  then show ?thesis
    by (cases "record_intent_operation_bound_explicit ext cx j' queued' operation' faults' fs'" rule: prod.exhaust)
      (metis fst_conv sum.collapse(2))
qed

section \<open>Commitments\<close>

lemma be_bytes_inj:
  fixes w w' :: "'a::len word"
  assumes "be_bytes n w = be_bytes n w'" "LENGTH('a) \<le> 8 * n"
  shows "w = w'"
proof (rule bit_word_eqI)
  fix k assume k: "k < LENGTH('a)"
  then have "k div 8 < n" using assms (2) by (simp add: less_mult_imp_div_less mult.commute)
  moreover have "\<forall>i \<in> set (rev [0..<n]). (ucast (drop_bit (8 * i) w) :: u8) = ucast (drop_bit (8 * i) w')"
    using assms (1) unfolding be_bytes_def by (simp only: map_eq_conv)
  ultimately have "(ucast (drop_bit (8 * (k div 8)) w) :: u8) = ucast (drop_bit (8 * (k div 8)) w')" by simp
  then have "bit (ucast (drop_bit (8 * (k div 8)) w) :: u8) (k mod 8)
      = bit (ucast (drop_bit (8 * (k div 8)) w') :: u8) (k mod 8)" by (simp only:)
  then show "bit w k = bit w' k" using k by (simp add: bit_unsigned_iff bit_drop_bit_eq)
qed

lemma commitment_message_inj:
  assumes "commitment_message domain aid payload_ref tag len payload
      = commitment_message domain aid' payload_ref' tag' len' payload'"
  shows "aid = aid' \<and> payload_ref = payload_ref' \<and> tag = tag' \<and> len = len' \<and> payload = payload'"
  using assms by (auto simp: commitment_message_def dest: be_bytes_inj)

lemma commitment_tag_inj: "commitment_tag m = commitment_tag m' \<longleftrightarrow> m = m'"
  by (cases m; cases m') simp_all

definition hmac_collision :: "companion_codec \<Rightarrow> bytes \<Rightarrow> bool" where
  "hmac_collision cx key \<longleftrightarrow>
     (\<exists>m m' digest. m \<noteq> m' \<and> hmac_sha256 cx key m = Some digest \<and> hmac_sha256 cx key m' = Some digest)"

lemma record_set_value_Inr:
  assumes "record_set_value_payload_binding ext cx seen j2 j queued key payload_ref mode payload faults fs
      = (Inr binding, fs')"
  obtains e encoded digest where "recovery_state_of j (act_id (q_action queued)) = Some RAdmitted"
    "exact_intent j queued = Some e" "set_value_uuid payload_ref \<noteq> 0"
    "binding = \<lparr>sv_action_id = act_id (q_action queued), sv_intent_journal_sequence = journal_sequence e,
       sv_payload_ref = payload_ref, sv_mode = mode, sv_payload_utf8_len = of_nat (length payload),
       sv_commitment_algorithm = set_value_commitment_algorithm, sv_commitment_digest = digest\<rparr>"
    "hmac_sha256 cx key (set_value_message (act_id (q_action queued)) payload_ref mode
       (of_nat (length payload)) payload) = Some digest"
    "set_value_to_vec cx binding = Inr encoded"
    "fs' (set_value_payload_binding_path ext (journal_path j) (act_id (q_action queued))) = Some encoded"
proof -
  obtain j1 f1 fs1 where seen: "seen = (j1, f1, fs1)" by (metis prod_cases3)
  note d = assms [unfolded seen record_set_value_payload_binding_def prod.case Let_def]
  have "recovery_state_of j (act_id (q_action queued)) = Some RAdmitted" "set_value_uuid payload_ref \<noteq> 0"
    using d by (auto split: if_splits sum.splits)
  moreover obtain e where e: "exact_intent j queued = Some e"
    using d by (auto split: if_splits sum.splits option.splits)
  moreover obtain digest where digest: "hmac_sha256 cx key (set_value_message (act_id (q_action queued))
      payload_ref mode (of_nat (length payload)) payload) = Some digest"
    using d e by (auto simp: compute_set_value_commitment_def split: if_splits sum.splits option.splits)
  moreover obtain encoded where b:
    "binding = \<lparr>sv_action_id = act_id (q_action queued), sv_intent_journal_sequence = journal_sequence e,
       sv_payload_ref = payload_ref, sv_mode = mode, sv_payload_utf8_len = of_nat (length payload),
       sv_commitment_algorithm = set_value_commitment_algorithm, sv_commitment_digest = digest\<rparr>"
    "set_value_to_vec cx binding = Inr encoded"
    "create_on_worker cx ''set_value_payload_binding'' (set_value_payload_binding_path ext (journal_path j)
       (act_id (q_action queued))) encoded faults fs = (Inr (), fs')"
    using d e digest by (auto simp: compute_set_value_commitment_def split: if_splits sum.splits prod.splits)
  moreover have "fs' (set_value_payload_binding_path ext (journal_path j) (act_id (q_action queued)))
      = Some encoded"
    using b (3) by (cases rule: create_on_worker_cases) auto
  ultimately show thesis using that by auto
qed

text \<open>C27. The binding that was recorded for a payload verifies that payload. Whatever binding
  carries its digest later, it verifies only the recorded payload under the recorded action,
  reference and mode, unless the keyed hash collides under the key.\<close>

theorem set_value_payload_is_committed:
  assumes "record_set_value_payload_binding ext cx seen j2 j queued key payload_ref mode payload faults fs
      = (Inr binding, fs')"
    and "sv_commitment_digest found = sv_commitment_digest binding"
    and "verify_set_value_payload_binding cx key found payload' = Inr ()"
  shows "verify_set_value_payload_binding cx key binding payload = Inr ()
    \<and> (payload' = payload \<and> sv_action_id found = act_id (q_action queued)
        \<and> sv_payload_ref found = payload_ref \<and> sv_mode found = mode
       \<or> hmac_collision cx key)"
proof -
  from assms (1) obtain digest where b:
    "binding = \<lparr>sv_action_id = act_id (q_action queued),
       sv_intent_journal_sequence = sv_intent_journal_sequence binding,
       sv_payload_ref = payload_ref, sv_mode = mode, sv_payload_utf8_len = of_nat (length payload),
       sv_commitment_algorithm = set_value_commitment_algorithm, sv_commitment_digest = digest\<rparr>"
    "hmac_sha256 cx key (set_value_message (act_id (q_action queued)) payload_ref mode
       (of_nat (length payload)) payload) = Some digest" "set_value_uuid payload_ref \<noteq> 0"
    by (rule record_set_value_Inr) auto
  let ?m = "set_value_message (act_id (q_action queued)) payload_ref mode (of_nat (length payload)) payload"
  let ?m' = "set_value_message (sv_action_id found) (sv_payload_ref found) (sv_mode found)
    (sv_payload_utf8_len found) payload'"
  have verified: "verify_set_value_payload_binding cx key binding payload = Inr ()"
    by (subst b (1)) (simp add: verify_set_value_payload_binding_def b (2,3))
  have "hmac_sha256 cx key ?m' = Some (sv_commitment_digest found)"
    using assms (3) by (auto simp: verify_set_value_payload_binding_def split: if_splits option.splits)
  moreover have "sv_commitment_digest binding = digest" by (subst b (1)) simp
  ultimately have same: "hmac_sha256 cx key ?m' = Some digest" using assms (2) by simp
  show ?thesis
  proof (cases "?m = ?m'")
    case True
    from commitment_message_inj [OF this [unfolded set_value_message_def]] show ?thesis
      using verified by (simp add: commitment_tag_inj set_value_payload_ref.expand)
  next
    case False
    then show ?thesis using verified same b (2) by (auto simp: hmac_collision_def)
  qed
qed

text \<open>The two kinds of commitment never hash the same message.\<close>

lemma commitment_domains_differ:
  "set_value_message aid payload_ref mode len payload \<noteq> managed_web_message aid' web_ref operation len' payload'"
  by (simp add: set_value_message_def managed_web_message_def commitment_message_def
      set_value_commitment_domain_def managed_web_commitment_domain_def bytes_of_string_def)

section \<open>Witnesses\<close>

definition demo_queued :: canonical_queued_action where
  "demo_queued = \<lparr>q_action = \<lparr>act_id = 7, act_session_id = 5, act_reference = None, act_action = Focus,
     act_created_at = 0\<rparr>, q_envelope = demo_envelope\<rparr>"

definition demo_operation_binding :: operation_binding where
  "demo_operation_binding = \<lparr>ob_action_id = 7, ob_intent_journal_sequence = 1, ob_operation = OpSetValue\<rparr>"

definition demo_payload_binding :: set_value_payload_binding where
  "demo_payload_binding = \<lparr>sv_action_id = 7, sv_intent_journal_sequence = 1,
     sv_payload_ref = SetValuePayloadRef 11, sv_mode = ReplaceValue, sv_payload_utf8_len = 2,
     sv_commitment_algorithm = set_value_commitment_algorithm,
     sv_commitment_digest = set_value_message 7 (SetValuePayloadRef 11) ReplaceValue 2 [104, 105]\<rparr>"

definition demo_codec :: companion_codec where
  "demo_codec = \<lparr>operation_to_vec = (\<lambda>b. if b = demo_operation_binding then Inr [1] else Inl ''unknown''),
     operation_from_slice = (\<lambda>bs. if bs = [1] then Inr demo_operation_binding else Inl ''unknown''),
     set_value_to_vec = (\<lambda>b. if b = demo_payload_binding then Inr [2] else Inl ''unknown''),
     set_value_from_slice = (\<lambda>bs. if bs = [2] then Inr demo_payload_binding else Inl ''unknown''),
     managed_web_to_vec = (\<lambda>b. Inl ''unknown''), managed_web_from_slice = (\<lambda>bs. Inl ''unknown''),
     hmac_sha256 = (\<lambda>key m. Some m), already_exists_message = ''exists''\<rparr>"

definition demo_operation_path :: path where
  "demo_operation_path = operation_binding_path demo_externals ''journal'' 7"

definition demo_payload_path :: path where
  "demo_payload_path = set_value_payload_binding_path demo_externals ''journal'' 7"

lemma demo_record_operation:
  "record_intent_operation_bound_explicit demo_externals demo_codec (demo_journal 1) demo_queued OpSetValue
     no_create_faults (demo_fs 1)
   = (Inr demo_operation_binding, (demo_fs 1)(demo_operation_path \<mapsto> [1]))"
proof -
  have "demo_fs 1 demo_operation_path = None"
    by (simp add: demo_fs_def demo_operation_path_def operation_binding_path_def)
  moreover have "recovery_state_for (take 1 demo_history) 7 = Some RAdmitted"
    "exact_intent (demo_journal 1) demo_queued = Some (demo_entry 1 (IntentAdmitted demo_envelope))"
    by (simp_all add: recovery_state_for_def exact_intent_def demo_history_def demo_entry_def demo_queued_def)
  ultimately show ?thesis
    by (simp add: record_intent_operation_bound_explicit_def recovery_state_of_def demo_queued_def
        demo_envelope_def demo_codec_def demo_operation_binding_def create_on_worker_def no_create_faults_def
        write_binding_create_new_def demo_operation_path_def demo_entry_def Let_def)
qed

lemma demo_codec_ok: "operation_codec_ok demo_codec"
  by (simp add: operation_codec_ok_def demo_codec_def)

lemma demo_second_recording:
  "(companion_step demo_externals demo_codec)\<^sup>*\<^sup>* (demo_journal 1, (demo_fs 1)(demo_operation_path \<mapsto> [1]))
     (demo_journal 1, (demo_fs 1)(demo_operation_path \<mapsto> [1]))"
  by simp

lemma recorded_operation_is_permanent_witness:
  "admitted_operation demo_externals demo_codec (demo_journal 1) 7 no_companion_read_faults
     ((demo_fs 1)(demo_operation_path \<mapsto> [1])) = Inr (Some OpSetValue)"
proof -
  have "journal_wf demo_display (demo_journal 1)" by (rule demo_wf) simp
  from recorded_operation_is_permanent [OF this demo_codec_ok demo_record_operation demo_second_recording]
  show ?thesis by (simp add: demo_queued_def)
qed

lemma demo_record_payload:
  "record_set_value_payload_binding demo_externals demo_codec
     (demo_journal 1, no_companion_read_faults, (demo_fs 1)(demo_operation_path \<mapsto> [1])) (demo_journal 1)
     (demo_journal 1) demo_queued [42] (SetValuePayloadRef 11) ReplaceValue [104, 105] no_create_faults (demo_fs 1)
   = (Inr demo_payload_binding, (demo_fs 1)(demo_payload_path \<mapsto> [2]))"
proof -
  have "demo_fs 1 demo_payload_path = None"
    by (simp add: demo_fs_def demo_payload_path_def set_value_payload_binding_path_def)
  moreover have "recovery_state_for (take 1 demo_history) 7 = Some RAdmitted"
    "exact_intent (demo_journal 1) demo_queued = Some (demo_entry 1 (IntentAdmitted demo_envelope))"
    by (simp_all add: recovery_state_for_def exact_intent_def demo_history_def demo_entry_def demo_queued_def)
  moreover have "admitted_operation demo_externals demo_codec (demo_journal 1) 7 no_companion_read_faults
      ((demo_fs 1)(demo_operation_path \<mapsto> [1])) = Inr (Some OpSetValue)"
    by (simp add: admitted_operation_def intent_of_def demo_history_def demo_entry_def read_binding_def
        no_companion_read_faults_def demo_operation_path_def demo_codec_def demo_operation_binding_def)
  ultimately show ?thesis
    by (simp add: record_set_value_payload_binding_def recovery_state_of_def demo_queued_def
        demo_envelope_def compute_set_value_commitment_def demo_codec_def demo_payload_binding_def
        create_on_worker_def no_create_faults_def
        write_binding_create_new_def demo_payload_path_def demo_entry_def Let_def)
qed

lemma set_value_payload_is_committed_witness:
  "record_set_value_payload_binding demo_externals demo_codec
     (demo_journal 1, no_companion_read_faults, (demo_fs 1)(demo_operation_path \<mapsto> [1])) (demo_journal 1)
     (demo_journal 1) demo_queued [42] (SetValuePayloadRef 11) ReplaceValue [104, 105] no_create_faults (demo_fs 1)
   = (Inr demo_payload_binding, (demo_fs 1)(demo_payload_path \<mapsto> [2]))
   \<and> verify_set_value_payload_binding demo_codec [42] demo_payload_binding [104, 105] = Inr ()"
proof -
  have "verify_set_value_payload_binding demo_codec [42] demo_payload_binding [104, 105] = Inr ()"
    by (simp add: verify_set_value_payload_binding_def demo_codec_def demo_payload_binding_def)
  from set_value_payload_is_committed [OF demo_record_payload refl this] demo_record_payload
  show ?thesis by simp
qed

lemma demo_keys: "distinct [7 :: uuid]" "set [7 :: uuid] = action_id ` set (journal_entries (demo_journal 6))"
  by (simp_all add: demo_history_def demo_entry_def)

lemma recovery_inventory_is_last_entries_witness:
  "recovery_inventory [7] (demo_journal 6) = Some [\<lparr>rie_action_id = 7, rie_recovery_state = RCommitted,
     rie_latest_journal_sequence = 6\<rparr>]"
  using recovery_inventory_is_last_entries [OF demo_wf [of 6] demo_keys]
  by (simp add: demo_history_def demo_entry_def inventory_of_entry_def)

lemma recovery_bindings_match_lineage_witness:
  "map_option (map rbe_action_id) (recovery_bindings_for_attachment [7] (demo_journal 6) 5
     (ProviderIncarnationRef ''provider'') (TargetIncarnationRef ''target'')) = Some [7]
   \<and> recovery_bindings_for_attachment [7] (demo_journal 6) 5
     (ProviderIncarnationRef ''other'') (TargetIncarnationRef ''target'') = Some []"
proof -
  have "admitted_envelope_for demo_history 7 = Some demo_envelope"
    by (simp add: demo_history_def demo_entry_def admitted_envelope_for_def)
  with recovery_bindings_match_lineage [OF demo_wf [of 6] demo_keys, of 5 "ProviderIncarnationRef ''provider''"
      "TargetIncarnationRef ''target''"]
    recovery_bindings_match_lineage [OF demo_wf [of 6] demo_keys, of 5 "ProviderIncarnationRef ''other''"
      "TargetIncarnationRef ''target''"]
  show ?thesis
    by (simp add: demo_history_def demo_entry_def demo_envelope_def demo_metadata_def binding_of_entry_def
        binding_entry_def)
qed

end
