(* ===== verification/Result_Privacy.thy ===== *)
theory Result_Privacy
  imports Action_Results
begin

text \<open>
  What a stored result can still say about the page: the texts in the payload of a stored
  result, by the action that it completes.
\<close>

section \<open>The texts of a JSON value\<close>

fun json_texts :: "json \<Rightarrow> string list" where
  "json_texts (JString s) = [s]"
| "json_texts (JArray vs) = concat (map json_texts vs)"
| "json_texts (JObject members) = concat (map (\<lambda>(k, v). json_texts v) members)"
| "json_texts _ = []"

lemma texts_object_insert:
  "set (json_texts (JObject (object_insert k v m))) \<subseteq> set (json_texts (JObject m)) \<union> set (json_texts v)"
  by (induction k v m rule: object_insert.induct) auto

lemma texts_json_object:
  "set (json_texts (json_object members)) \<subseteq> (\<Union>(k, v) \<in> set members. set (json_texts v))"
proof -
  have "set (json_texts (JObject (fold (\<lambda>(k, v) m. object_insert k v m) members m)))
      \<subseteq> set (json_texts (JObject m)) \<union> (\<Union>(k, v) \<in> set members. set (json_texts v))" for m
  proof (induction members arbitrary: m)
    case (Cons e members)
    obtain k v where e: "e = (k, v)" by (cases e)
    show ?case using Cons [of "object_insert k v m"] texts_object_insert [of k v m]
      by (fastforce simp: e)
  qed simp
  from this [of "[]"] show ?thesis by (simp add: json_object_def)
qed

lemma texts_json_f64 [simp]: "json_texts (json_f64 x) = []"
  by (simp add: json_f64_def)

lemma texts_empty: "(\<And>k v. (k, v) \<in> set members \<Longrightarrow> json_texts v = []) \<Longrightarrow> json_texts (json_object members) = []"
proof -
  assume "\<And>k v. (k, v) \<in> set members \<Longrightarrow> json_texts v = []"
  then have "(\<Union>(k, v) \<in> set members. set (json_texts v)) = {}" by auto
  with texts_json_object [of members] show ?thesis by simp
qed

lemma texts_rect_json [simp]: "json_texts (rect_json r) = []"
  by (cases r) (auto simp: rect_json.simps intro!: texts_empty)

lemma texts_members_json [simp]: "(k, v) \<in> set (members_json rules payload) \<Longrightarrow> json_texts v = []"
  by (auto simp: members_json_def)



section \<open>Stored results\<close>










end
