(* ===== verification/Session_Identity.thy ===== *)
theory Session_Identity
  imports Ordered_Map Json_Access
begin

text \<open>
  The durable identity of sessions (\<open>src/crates/sessions/src/identity.rs\<close>): the lineage of a
  discovered server, the lexical normalization of project paths, and the registry that gives a
  lineage the same session id after every restart. The registry file is bytes or absent; its
  serialization is the library \<open>serde_json\<close> and Unicode lower-casing the tables of the standard
  library, both parameters. \<open>AtomicWriteFile\<close> replaces the file in its commit or not at all.
  Random identifiers are the finite sequence of draws an operation makes: it has no result when
  none of them is accepted, as the loop of the code then goes on.
\<close>

section \<open>Lineages\<close>

datatype server_kind = FrontendDevServer | Storybook | ApiServer | StaticSite | UnknownHttp

datatype session_server_kind =
    SkFrontendDevServer | SkStorybook | SkApiServer | SkStaticSite | SkUnknownHttp

fun session_server_kind_of :: "server_kind \<Rightarrow> session_server_kind" where
  "session_server_kind_of FrontendDevServer = SkFrontendDevServer"
| "session_server_kind_of Storybook = SkStorybook"
| "session_server_kind_of ApiServer = SkApiServer"
| "session_server_kind_of StaticSite = SkStaticSite"
| "session_server_kind_of UnknownHttp = SkUnknownHttp"

datatype session_lineage_anchor =
    ProjectAnchor string
  | EndpointAnchor string string "16 word"

datatype session_lineage = LineageV1 session_lineage_anchor session_server_kind

text \<open>The derived order of a lineage: the variant, then the fields, compared in turn.\<close>

fun server_kind_rank :: "session_server_kind \<Rightarrow> nat" where
  "server_kind_rank SkFrontendDevServer = 0" | "server_kind_rank SkStorybook = 1"
| "server_kind_rank SkApiServer = 2" | "server_kind_rank SkStaticSite = 3"
| "server_kind_rank SkUnknownHttp = 4"

fun lineage_rank :: "session_lineage \<Rightarrow> nat \<times> string \<times> string \<times> nat \<times> nat" where
  "lineage_rank (LineageV1 (ProjectAnchor path) kind) = (0, path, [], 0, server_kind_rank kind)"
| "lineage_rank (LineageV1 (EndpointAnchor scheme host port) kind)
     = (1, scheme, host, unat port, server_kind_rank kind)"

lemma server_kind_rank_inj: "server_kind_rank a = server_kind_rank b \<longleftrightarrow> a = b"
  by (cases a; cases b) auto

lemma lineage_rank_inj: "lineage_rank a = lineage_rank b \<longleftrightarrow> a = b"
  by (cases a rule: lineage_rank.cases; cases b rule: lineage_rank.cases)
    (auto simp: server_kind_rank_inj word_unat_eq_iff)

instantiation session_lineage :: linorder
begin

definition less_eq_session_lineage :: "session_lineage \<Rightarrow> session_lineage \<Rightarrow> bool" where
  "less_eq_session_lineage a b \<longleftrightarrow> lineage_rank a \<le> lineage_rank b"

definition less_session_lineage :: "session_lineage \<Rightarrow> session_lineage \<Rightarrow> bool" where
  "less_session_lineage a b \<longleftrightarrow> lineage_rank a < lineage_rank b"

instance
  by standard (auto simp: less_eq_session_lineage_def less_session_lineage_def lineage_rank_inj less_le)

end

datatype session_identity_error =
    InvalidProjectPath | ParentTraversal | InvalidEndpointScheme | InvalidEndpointHost

definition max_normalized_project_path_bytes :: nat where "max_normalized_project_path_bytes = 4096"
definition max_endpoint_host_bytes :: nat where "max_endpoint_host_bytes = 255"
definition max_endpoint_scheme_bytes :: nat where "max_endpoint_scheme_bytes = 32"
definition max_session_identity_registry_bytes :: nat where "max_session_identity_registry_bytes = 1048576"
definition max_session_identity_records :: nat where "max_session_identity_records = 4096"

section \<open>Normalized paths\<close>

text \<open>\<open>chars().any(char::is_control)\<close>: U+0000 to U+001F and U+007F are one byte, U+0080 to
  U+009F two.\<close>

fun has_control :: "string \<Rightarrow> bool" where
  "has_control [] = False"
| "has_control (c # cs) =
     (let n = of_char c :: nat
      in n < 32 \<or> n = 127
         \<or> n = 194 \<and> (case cs of [] \<Rightarrow> False | d # _ \<Rightarrow> 128 \<le> (of_char d :: nat) \<and> (of_char d :: nat) \<le> 159)
         \<or> has_control cs)"

text \<open>\<open>str::split\<close> at a character and \<open>join\<close>.\<close>

fun split_at :: "char \<Rightarrow> string \<Rightarrow> string list" where
  "split_at c [] = [[]]"
| "split_at c (d # s) =
     (if d = c then [] # split_at c s
      else case split_at c s of part # parts \<Rightarrow> (d # part) # parts | [] \<Rightarrow> [[d]])"

fun join_with :: "char \<Rightarrow> string list \<Rightarrow> string" where
  "join_with c [] = []"
| "join_with c [part] = part"
| "join_with c (part # parts) = part @ c # join_with c parts"

fun normalized_components :: "string list \<Rightarrow> session_identity_error + string list" where
  "normalized_components [] = Inr []"
| "normalized_components (component # components) =
     (if component = [] \<or> component = ''.'' then normalized_components components
      else if component = ''..'' then Inl ParentTraversal
      else case normalized_components components of
        Inl err \<Rightarrow> Inl err | Inr normalized \<Rightarrow> Inr (component # normalized))"

definition starts_with :: "string \<Rightarrow> string \<Rightarrow> bool" where
  "starts_with p s = (take (length p) s = p)"

definition normalize_unix_path :: "string \<Rightarrow> session_identity_error + string" where
  "normalize_unix_path raw =
     (let rooted = starts_with ''/'' raw
      in case normalized_components (split_at (CHR ''/'') raw) of
           Inl err \<Rightarrow> Inl err
         | Inr components \<Rightarrow>
             if components = [] then (if rooted then Inr ''/'' else Inl InvalidProjectPath)
             else let joined = join_with (CHR ''/'') components
               in Inr (if rooted then CHR ''/'' # joined else joined))"

definition is_ascii_alphabetic :: "char \<Rightarrow> bool" where
  "is_ascii_alphabetic c =
     (let n = of_char c :: nat in 65 \<le> n \<and> n \<le> 90 \<or> 97 \<le> n \<and> n \<le> 122)"

text \<open>The prefix of a Windows path and what is left to normalize. The argument \<open>lowercase\<close> is
  \<open>str::to_lowercase\<close>.\<close>

definition windows_prefix :: "string \<Rightarrow> string \<times> string" where
  "windows_prefix replaced =
     (let trimmed = dropWhile (\<lambda>c. c = CHR ''/'')
      in if starts_with ''//'' replaced then (''//'', trimmed replaced)
         else if 2 \<le> length replaced \<and> is_ascii_alphabetic (replaced ! 0) \<and> replaced ! 1 = CHR '':'' then
           (if starts_with ''/'' (drop 2 replaced) then (take 2 replaced @ ''/'', trimmed (drop 2 replaced))
            else (take 2 replaced, drop 2 replaced))
         else if starts_with ''/'' replaced then (''/'', trimmed replaced)
         else ([], replaced))"

definition normalize_windows_path :: "(string \<Rightarrow> string) \<Rightarrow> string \<Rightarrow> session_identity_error + string" where
  "normalize_windows_path lowercase raw =
     (case windows_prefix (lowercase (map (\<lambda>c. if c = char_of (92::nat) then CHR ''/'' else c) raw)) of
        (prefix, rest) \<Rightarrow>
          (case normalized_components (split_at (CHR ''/'') rest) of
             Inl err \<Rightarrow> Inl err
           | Inr components \<Rightarrow>
               if components = [] then (if prefix = [] then Inl InvalidProjectPath else Inr prefix)
               else Inr (prefix @ join_with (CHR ''/'') components)))"

datatype path_flavor = UnixFlavor | WindowsFlavor

definition normalize_project_path ::
  "path_flavor \<Rightarrow> (string \<Rightarrow> string) \<Rightarrow> string \<Rightarrow> session_identity_error + string" where
  "normalize_project_path flavor lowercase raw =
     (if raw = [] \<or> max_normalized_project_path_bytes < length raw \<or> has_control raw then Inl InvalidProjectPath
      else case flavor of
        UnixFlavor \<Rightarrow> normalize_unix_path raw
      | WindowsFlavor \<Rightarrow> normalize_windows_path lowercase raw)"

definition validate_endpoint_part ::
  "string \<Rightarrow> nat \<Rightarrow> session_identity_error \<Rightarrow> session_identity_error + string" where
  "validate_endpoint_part v max_bytes err =
     (if v = [] \<or> max_bytes < length v \<or> has_control v then Inl err else Inr v)"

section \<open>The lineage of a server\<close>

record endpoint =
  ep_host :: string
  ep_port :: "16 word"
  ep_scheme :: string

record project_identity =
  pi_key :: string
  pi_display_name :: string
  pi_cwd :: "string option"
  pi_git_root :: "string option"
  pi_pid :: "u32 option"
  pi_command :: "string option"

definition session_lineage_of ::
  "path_flavor \<Rightarrow> (string \<Rightarrow> string) \<Rightarrow> project_identity \<Rightarrow> endpoint \<Rightarrow> server_kind
    \<Rightarrow> session_identity_error + session_lineage" where
  "session_lineage_of flavor lowercase project e kind =
     (case (case pi_git_root project of Some path \<Rightarrow> Some path | None \<Rightarrow> pi_cwd project) of
        Some (c # cs) \<Rightarrow>
          (case normalize_project_path flavor lowercase (c # cs) of
             Inl err \<Rightarrow> Inl err
           | Inr path \<Rightarrow> Inr (LineageV1 (ProjectAnchor path) (session_server_kind_of kind)))
      | _ \<Rightarrow>
          (case validate_endpoint_part (ep_scheme e) max_endpoint_scheme_bytes InvalidEndpointScheme of
             Inl err \<Rightarrow> Inl err
           | Inr scheme \<Rightarrow>
          (case validate_endpoint_part (ep_host e) max_endpoint_host_bytes InvalidEndpointHost of
             Inl err \<Rightarrow> Inl err
           | Inr host \<Rightarrow> Inr (LineageV1 (EndpointAnchor scheme host (ep_port e)) (session_server_kind_of kind)))))"

section \<open>The registry\<close>

datatype session_identity_health = IdentityHealthy | VolatileDegraded

datatype session_identity_durability = DurableIdentity | VolatileIdentity

record resolved_session_identity =
  rs_session_id :: session_id
  rs_durability :: session_identity_durability

type_synonym identity_records = "(session_lineage, session_id) btree_map"

record identity_resolver =
  ir_health :: session_identity_health
  ir_diagnostic :: "string option"
  ir_records :: identity_records

record session_identity_record =
  rec_lineage :: session_lineage
  rec_session_id :: session_id

record registry_file =
  rf_schema_version :: u32
  rf_records :: "session_identity_record list"

text \<open>\<open>serde_json\<close> on the registry: parsing to a value, decoding a value, encoding; an error is its
  text.\<close>

record registry_codec =
  value_from_slice :: "bytes \<Rightarrow> string + json"
  registry_from_value :: "json \<Rightarrow> string + registry_file"
  registry_to_vec :: "registry_file \<Rightarrow> string + bytes"

datatype registry_load_error =
    LoadIo string | LoadTooLarge | InvalidJson string | InvalidSchemaVersion
  | UnsupportedSchemaVersion u64 | TooManyRecords | NonCanonicalLineage | NilSessionId
  | DuplicateLineage | DuplicateSessionId

datatype registry_commit_error = CommitSerialization string | CommitTooLarge | CommitIo string

fun load_error_text :: "registry_load_error \<Rightarrow> string" where
  "load_error_text (LoadIo e) = ''session identity registry I/O failed: '' @ e"
| "load_error_text LoadTooLarge =
     ''session identity registry exceeds '' @ show_nat max_session_identity_registry_bytes @ '' bytes''"
| "load_error_text (InvalidJson e) = ''session identity registry is not valid JSON: '' @ e"
| "load_error_text InvalidSchemaVersion =
     ''session identity registry schema version is missing or invalid''"
| "load_error_text (UnsupportedSchemaVersion v) =
     ''session identity registry schema version '' @ show_u64 v @ '' is unsupported''"
| "load_error_text TooManyRecords = ''session identity registry contains too many records''"
| "load_error_text NonCanonicalLineage = ''session identity registry contains a noncanonical lineage''"
| "load_error_text NilSessionId = ''session identity registry contains a nil session UUID''"
| "load_error_text DuplicateLineage = ''session identity registry maps one lineage more than once''"
| "load_error_text DuplicateSessionId =
     ''session identity registry maps one session UUID to multiple lineages''"

fun commit_error_text :: "registry_commit_error \<Rightarrow> string" where
  "commit_error_text (CommitSerialization e) = ''session identity registry serialization failed: '' @ e"
| "commit_error_text CommitTooLarge =
     ''session identity registry commit would exceed '' @ show_nat max_session_identity_registry_bytes @ '' bytes''"
| "commit_error_text (CommitIo e) = ''session identity registry commit I/O failed: '' @ e"

definition validate_canonical_lineage ::
  "path_flavor \<Rightarrow> (string \<Rightarrow> string) \<Rightarrow> session_lineage \<Rightarrow> registry_load_error + unit" where
  "validate_canonical_lineage flavor lowercase lineage =
     (case lineage of LineageV1 anchor kind \<Rightarrow>
        (case anchor of
           ProjectAnchor path \<Rightarrow>
             if normalize_project_path flavor lowercase path = Inr path then Inr () else Inl NonCanonicalLineage
         | EndpointAnchor scheme host port \<Rightarrow>
             if validate_endpoint_part scheme max_endpoint_scheme_bytes InvalidEndpointScheme = Inr scheme
                \<and> validate_endpoint_part host max_endpoint_host_bytes InvalidEndpointHost = Inr host
             then Inr () else Inl NonCanonicalLineage))"

text \<open>The loop of \<open>validate_records\<close>.\<close>

fun validate_each_record ::
  "path_flavor \<Rightarrow> (string \<Rightarrow> string) \<Rightarrow> session_identity_record list \<Rightarrow> identity_records \<Rightarrow> session_id set
    \<Rightarrow> registry_load_error + identity_records" where
  "validate_each_record flavor lowercase [] by_lineage ids = Inr by_lineage"
| "validate_each_record flavor lowercase (r # rs) by_lineage ids =
     (case validate_canonical_lineage flavor lowercase (rec_lineage r) of
        Inl err \<Rightarrow> Inl err
      | Inr _ \<Rightarrow>
          if rec_session_id r = 0 then Inl NilSessionId
          else if rec_session_id r \<in> ids then Inl DuplicateSessionId
          else if map_of by_lineage (rec_lineage r) \<noteq> None then Inl DuplicateLineage
          else validate_each_record flavor lowercase rs (bt_insert (rec_lineage r) (rec_session_id r) by_lineage)
                 (insert (rec_session_id r) ids))"

definition validate_records ::
  "path_flavor \<Rightarrow> (string \<Rightarrow> string) \<Rightarrow> session_identity_record list \<Rightarrow> registry_load_error + identity_records" where
  "validate_records flavor lowercase rs =
     (if max_session_identity_records < length rs then Inl TooManyRecords
      else validate_each_record flavor lowercase rs [] {})"

text \<open>The file as the load finds it: absent, unreadable, or its bytes.\<close>

definition load_registry ::
  "path_flavor \<Rightarrow> (string \<Rightarrow> string) \<Rightarrow> registry_codec \<Rightarrow> string option \<Rightarrow> bytes option
    \<Rightarrow> registry_load_error + identity_records" where
  "load_registry flavor lowercase codec read_fault registry =
     (case read_fault of Some e \<Rightarrow> Inl (LoadIo e)
      | None \<Rightarrow>
     (case registry of None \<Rightarrow> Inr []
      | Some content \<Rightarrow>
          let bytes = take (max_session_identity_registry_bytes + 1) content
          in if max_session_identity_registry_bytes < length bytes then Inl LoadTooLarge
             else case value_from_slice codec bytes of
               Inl e \<Rightarrow> Inl (InvalidJson e)
             | Inr v \<Rightarrow>
                 (case get_u64 v ''schema_version'' of
                    None \<Rightarrow> Inl InvalidSchemaVersion
                  | Some version \<Rightarrow>
                      if version \<noteq> 1 then Inl (UnsupportedSchemaVersion version)
                      else case Option.bind (json_get v ''records'') as_array of
                        None \<Rightarrow> Inl (InvalidJson ''records must be an array'')
                      | Some values \<Rightarrow>
                          if max_session_identity_records < length values then Inl TooManyRecords
                          else case registry_from_value codec v of
                            Inl e \<Rightarrow> Inl (InvalidJson e)
                          | Inr registry \<Rightarrow>
                              if rf_schema_version registry \<noteq> 1 then
                                Inl (UnsupportedSchemaVersion (ucast (rf_schema_version registry)))
                              else validate_records flavor lowercase (rf_records registry))))"

text \<open>What fails in a commit: before the file is replaced, or after.\<close>

datatype commit_fault = NoCommitFault | FailsBeforeReplace string | FailsAfterReplace string

definition commit_registry ::
  "registry_codec \<Rightarrow> commit_fault \<Rightarrow> bytes option \<Rightarrow> identity_records
    \<Rightarrow> (registry_commit_error + unit) \<times> bytes option" where
  "commit_registry codec fault registry records =
     (case registry_to_vec codec \<lparr>rf_schema_version = 1,
             rf_records = map (\<lambda>(l, i). \<lparr>rec_lineage = l, rec_session_id = i\<rparr>) records\<rparr> of
        Inl e \<Rightarrow> (Inl (CommitSerialization e), registry)
      | Inr bytes \<Rightarrow>
          if max_session_identity_registry_bytes < length bytes then (Inl CommitTooLarge, registry)
          else case fault of
            NoCommitFault \<Rightarrow> (Inr (), Some bytes)
          | FailsBeforeReplace e \<Rightarrow> (Inl (CommitIo e), registry)
          | FailsAfterReplace e \<Rightarrow> (Inl (CommitIo e), Some bytes))"

section \<open>The resolver\<close>

text \<open>The worker that loads or commits may also fail as a task (\<open>JoinError\<close>).\<close>

definition degraded_resolver :: "string \<Rightarrow> identity_resolver" where
  "degraded_resolver diagnostic =
     \<lparr>ir_health = VolatileDegraded, ir_diagnostic = Some diagnostic, ir_records = []\<rparr>"

definition open_identity_file ::
  "path_flavor \<Rightarrow> (string \<Rightarrow> string) \<Rightarrow> registry_codec \<Rightarrow> string option \<Rightarrow> string option \<Rightarrow> bytes option
    \<Rightarrow> identity_resolver" where
  "open_identity_file flavor lowercase codec join_fault read_fault registry =
     (case join_fault of
        Some e \<Rightarrow> degraded_resolver (''session identity registry loader task failed: '' @ e)
      | None \<Rightarrow>
          (case load_registry flavor lowercase codec read_fault registry of
             Inl err \<Rightarrow> degraded_resolver (load_error_text err)
           | Inr records \<Rightarrow>
               \<lparr>ir_health = IdentityHealthy, ir_diagnostic = None, ir_records = records\<rparr>))"

definition mark_degraded :: "string \<Rightarrow> identity_resolver \<Rightarrow> identity_resolver" where
  "mark_degraded diagnostic r = r\<lparr>ir_health := VolatileDegraded, ir_diagnostic := Some diagnostic\<rparr>"

definition fresh_session_id :: "identity_records \<Rightarrow> uuid list \<Rightarrow> session_id option" where
  "fresh_session_id records draws = find (\<lambda>c. c \<noteq> 0 \<and> c \<notin> snd ` set records) draws"

definition volatile_identity :: "identity_records \<Rightarrow> uuid list \<Rightarrow> resolved_session_identity option" where
  "volatile_identity records draws =
     map_option (\<lambda>i. \<lparr>rs_session_id = i, rs_durability = VolatileIdentity\<rparr>) (fresh_session_id records draws)"

definition existing_identity :: "identity_resolver \<Rightarrow> session_lineage \<Rightarrow> session_id option" where
  "existing_identity r lineage =
     (if ir_health r \<noteq> IdentityHealthy then None else map_of (ir_records r) lineage)"

record resolve_input =
  ri_candidates :: "uuid list"
  ri_volatile :: "uuid list"
  ri_commit :: commit_fault
  ri_join :: "string option"

definition resolve_new ::
  "path_flavor \<Rightarrow> (string \<Rightarrow> string) \<Rightarrow> registry_codec \<Rightarrow> session_lineage \<Rightarrow> resolve_input
    \<Rightarrow> identity_resolver \<times> bytes option
    \<Rightarrow> resolved_session_identity option \<times> identity_resolver \<times> bytes option" where
  "resolve_new flavor lowercase codec lineage i = (\<lambda>(r, registry).
     if ir_health r \<noteq> IdentityHealthy then (volatile_identity (ir_records r) (ri_volatile i), r, registry)
     else case map_of (ir_records r) lineage of
       Some sid \<Rightarrow> (Some \<lparr>rs_session_id = sid, rs_durability = DurableIdentity\<rparr>, r, registry)
     | None \<Rightarrow>
         if max_session_identity_records \<le> length (ir_records r)
            \<or> validate_canonical_lineage flavor lowercase lineage \<noteq> Inr () then
           (volatile_identity (ir_records r) (ri_volatile i), r, registry)
         else case fresh_session_id (ir_records r) (ri_candidates i) of
           None \<Rightarrow> (None, r, registry)
         | Some candidate \<Rightarrow>
             let next_records = bt_insert lineage candidate (ir_records r);
                 (committed, registry') = commit_registry codec (ri_commit i) registry next_records;
                 result = (case ri_join i of
                   Some e \<Rightarrow> Inl (''session identity registry commit task failed: '' @ e)
                 | None \<Rightarrow> (case committed of Inl err \<Rightarrow> Inl (commit_error_text err) | Inr u \<Rightarrow> Inr u))
             in case result of
                  Inr _ \<Rightarrow> (Some \<lparr>rs_session_id = candidate, rs_durability = DurableIdentity\<rparr>,
                     r\<lparr>ir_records := next_records\<rparr>, registry')
                | Inl diagnostic \<Rightarrow>
                    let r' = mark_degraded diagnostic r
                    in (volatile_identity (ir_records r') (ri_volatile i), r', registry'))"

end
