(* ===== verification/Session_Manager.thy ===== *)
theory Session_Manager
  imports Session_Identity
begin

text \<open>
  The session manager (\<open>src/crates/sessions/src/lib.rs\<close>) with the project identity it computes for
  a server (\<open>src/crates/core/src/lib.rs\<close>): servers that were discovered are matched with the
  sessions of before, by lineage, project or endpoint, and sessions whose server is gone expire.
  A timestamp counts nanoseconds. The order in which a \<open>HashMap\<close> is iterated is an argument, a
  list of its keys. Paths, the default hasher and the test for \<open>.git\<close> are the standard library's,
  fields of the host environment. Calls of \<open>set_preview_visible\<close> that run between the snapshot
  of a reconciliation and its application are an argument of it.
\<close>

section \<open>Projects\<close>

record host_env =
  he_flavor :: path_flavor
  he_lowercase :: "string \<Rightarrow> string"
  he_ancestors :: "string \<Rightarrow> string list"
  he_has_git :: "string \<Rightarrow> bool"
  he_file_name :: "string \<Rightarrow> string option"
  he_hash :: "string \<Rightarrow> string \<Rightarrow> u64"

record listener_candidate =
  lc_endpoint :: endpoint
  lc_pid :: "u32 option"
  lc_process_name :: "string option"
  lc_command :: "string option"
  lc_cwd :: "string option"

record classification =
  cl_kind :: server_kind
  cl_confidence :: u32
  cl_framework :: "string option"
  cl_title :: "string option"
  cl_hmr_detected :: bool
  cl_evidence :: "string list"

record discovered_server =
  ds_candidate :: listener_candidate
  ds_classification :: classification

text \<open>\<open>{:016x}\<close>.\<close>

definition hex16 :: "u64 \<Rightarrow> string" where
  "hex16 w = map (\<lambda>i. let d = nat (uint (drop_bit (4 * (15 - i)) w) mod 16)
     in char_of (if d < 10 then 48 + d else 87 + d)) [0..<16]"

definition git_root_or_cwd :: "host_env \<Rightarrow> string \<Rightarrow> string" where
  "git_root_or_cwd env cwd =
     (case find (he_has_git env) (he_ancestors env cwd) of Some dir \<Rightarrow> dir | None \<Rightarrow> cwd)"

definition text_or_empty :: "string option \<Rightarrow> string" where
  "text_or_empty v = (case v of None \<Rightarrow> [] | Some s \<Rightarrow> s)"

definition project_identity_of :: "host_env \<Rightarrow> listener_candidate \<Rightarrow> project_identity" where
  "project_identity_of env candidate =
     (let dir = map_option (git_root_or_cwd env) (lc_cwd candidate)
      in \<lparr>pi_key = ''project-'' @ hex16 (he_hash env (text_or_empty dir) (text_or_empty (lc_command candidate))),
          pi_display_name = (case Option.bind dir (he_file_name env) of
             Some (c # cs) \<Rightarrow> c # cs | _ \<Rightarrow> ''localhost''),
          pi_cwd = lc_cwd candidate, pi_git_root = dir, pi_pid = lc_pid candidate,
          pi_command = lc_command candidate\<rparr>)"

section \<open>Sessions\<close>

datatype session_status = SessionActive | SessionDisconnected | SessionHidden | SessionClosed

record session =
  se_id :: session_id
  se_endpoint :: endpoint
  se_classification :: classification
  se_project :: project_identity
  se_status :: session_status
  se_first_seen :: timestamp
  se_last_seen :: timestamp
  se_disconnected_at :: "timestamp option"
  se_preview_visible :: bool

record session_state =
  ss_sessions :: "session_id \<rightharpoonup> session"
  ss_lineages :: "session_id \<rightharpoonup> session_lineage"

definition empty_sessions :: session_state where
  "empty_sessions = \<lparr>ss_sessions = (\<lambda>_. None), ss_lineages = (\<lambda>_. None)\<rparr>"

record reconcile_result =
  rr_created :: "session_id list"
  rr_reconnected :: "session_id list"
  rr_disconnected :: "session_id list"
  rr_removed :: "session_id list"

definition empty_result :: reconcile_result where
  "empty_result = \<lparr>rr_created = [], rr_reconnected = [], rr_disconnected = [], rr_removed = []\<rparr>"

record prepared_discovery =
  pd_server :: discovered_server
  pd_project :: project_identity
  pd_lineage :: "session_lineage option"
  pd_ambiguous :: bool

text \<open>\<open>list\<close>: a stable sort of the values by display name and port.\<close>

definition list_sessions :: "session_id list \<Rightarrow> session_state \<Rightarrow> session list" where
  "list_sessions keys st =
     sort_key (\<lambda>s. (pi_display_name (se_project s), unat (ep_port (se_endpoint s))))
       (List.map_filter (ss_sessions st) keys)"

definition set_preview_visible :: "session_id \<Rightarrow> bool \<Rightarrow> session_state \<Rightarrow> bool \<times> session_state" where
  "set_preview_visible i visible st =
     (case ss_sessions st i of
        None \<Rightarrow> (False, st)
      | Some s \<Rightarrow>
          (True, st\<lparr>ss_sessions := (ss_sessions st)(i \<mapsto> s\<lparr>se_preview_visible := visible,
             se_status := (if visible \<or> se_status s = SessionActive then SessionActive else SessionHidden)\<rparr>)\<rparr>))"

section \<open>What was discovered\<close>

definition result_ok :: "'e + 'a \<Rightarrow> 'a option" where
  "result_ok r = (case r of Inl _ \<Rightarrow> None | Inr v \<Rightarrow> Some v)"

definition prepare_server :: "host_env \<Rightarrow> discovered_server \<Rightarrow> prepared_discovery" where
  "prepare_server env server =
     (let project = project_identity_of env (ds_candidate server)
      in \<lparr>pd_server = server, pd_project = project,
          pd_lineage = result_ok (session_lineage_of (he_flavor env) (he_lowercase env) project
             (lc_endpoint (ds_candidate server)) (cl_kind (ds_classification server))),
          pd_ambiguous = False\<rparr>)"

definition prepare_discovery_batch :: "host_env \<Rightarrow> discovered_server list \<Rightarrow> prepared_discovery list" where
  "prepare_discovery_batch env discovered =
     (let prepared = map (prepare_server env) discovered
      in map (\<lambda>item. item\<lparr>pd_ambiguous := (case pd_lineage item of
           None \<Rightarrow> False
         | Some l \<Rightarrow> 1 < length (filter (\<lambda>other. pd_lineage other = Some l) prepared))\<rparr>) prepared)"

section \<open>Assignments\<close>

definition same_endpoint :: "endpoint \<Rightarrow> endpoint \<Rightarrow> bool" where
  "same_endpoint a b \<longleftrightarrow> ep_host a = ep_host b \<and> ep_port a = ep_port b \<and> ep_scheme a = ep_scheme b"

text \<open>The iteration orders of the two maps of a snapshot.\<close>

record iteration_order =
  io_sessions :: "session_id list"
  io_lineages :: "session_id list"

definition find_lineage_match ::
  "iteration_order \<Rightarrow> session_state \<Rightarrow> session_lineage \<Rightarrow> session_id set \<Rightarrow> session_id option" where
  "find_lineage_match ord st lineage assigned =
     find (\<lambda>i. ss_lineages st i = Some lineage \<and> i \<notin> assigned) (io_lineages ord)"

definition find_session ::
  "iteration_order \<Rightarrow> session_state \<Rightarrow> (session \<Rightarrow> bool) \<Rightarrow> session_id set \<Rightarrow> session_id option" where
  "find_session ord st P assigned =
     map_option se_id (find (\<lambda>s. P s \<and> se_id s \<notin> assigned) (List.map_filter (ss_sessions st) (io_sessions ord)))"

definition find_legacy_project_match ::
  "iteration_order \<Rightarrow> session_state \<Rightarrow> prepared_discovery \<Rightarrow> session_id set \<Rightarrow> session_id option" where
  "find_legacy_project_match ord st item assigned =
     find_session ord st (\<lambda>s. pi_key (se_project s) = pi_key (pd_project item)
       \<and> cl_kind (se_classification s) = cl_kind (ds_classification (pd_server item))) assigned"

definition find_exact_endpoint_match ::
  "iteration_order \<Rightarrow> session_state \<Rightarrow> endpoint \<Rightarrow> session_id set \<Rightarrow> session_id option" where
  "find_exact_endpoint_match ord st e assigned =
     find_session ord st (\<lambda>s. same_endpoint (se_endpoint s) e) assigned"

definition id_available_for_lineage ::
  "session_state \<Rightarrow> session_id set \<Rightarrow> session_id \<Rightarrow> session_lineage \<Rightarrow> bool" where
  "id_available_for_lineage st assigned i lineage \<longleftrightarrow> i \<notin> assigned
     \<and> (ss_sessions st i = None \<or> ss_lineages st i = Some lineage)"

definition fresh_volatile_session_id :: "session_state \<Rightarrow> session_id set \<Rightarrow> uuid list \<Rightarrow> session_id option" where
  "fresh_volatile_session_id st assigned draws =
     find (\<lambda>c. c \<noteq> 0 \<and> c \<notin> assigned \<and> ss_sessions st c = None) draws"

record assign_input =
  ai_resolve :: resolve_input
  ai_draws :: "uuid list"

type_synonym resolver_state = "identity_resolver option \<times> bytes option"

text \<open>The session of one server; nothing when the draws run out.\<close>

definition current_match ::
  "iteration_order \<Rightarrow> session_state \<Rightarrow> session_id set \<Rightarrow> prepared_discovery \<Rightarrow> bool \<Rightarrow> session_id option" where
  "current_match ord st assigned item ambiguous =
     (let exact = find_exact_endpoint_match ord st (lc_endpoint (ds_candidate (pd_server item))) assigned
      in if ambiguous then exact
         else case Option.bind (pd_lineage item) (\<lambda>l. find_lineage_match ord st l assigned) of
           Some i \<Rightarrow> Some i
         | None \<Rightarrow> (case find_legacy_project_match ord st item assigned of Some i \<Rightarrow> Some i | None \<Rightarrow> exact))"

definition assign_one ::
  "host_env \<Rightarrow> registry_codec \<Rightarrow> iteration_order \<Rightarrow> session_state \<Rightarrow> session_id set \<Rightarrow> prepared_discovery
    \<Rightarrow> assign_input \<Rightarrow> resolver_state \<Rightarrow> session_id option \<times> resolver_state" where
  "assign_one env codec ord st assigned item i = (\<lambda>(resolver, registry).
     (let ambiguous = (pd_ambiguous item \<or> (case pd_lineage item of
            None \<Rightarrow> False
          | Some l \<Rightarrow> 1 < length (filter (\<lambda>j. ss_lineages st j = Some l) (io_lineages ord))));
          volatile = fresh_volatile_session_id st assigned (ai_draws i)
      in case current_match ord st assigned item ambiguous of
           Some sid \<Rightarrow> (Some sid, resolver, registry)
         | None \<Rightarrow>
             if ambiguous then (volatile, resolver, registry)
             else case (resolver, pd_lineage item) of
               (Some r, Some l) \<Rightarrow>
                 (case resolve_new (he_flavor env) (he_lowercase env) codec l (ai_resolve i) (r, registry) of
                    (answer, r', registry') \<Rightarrow>
                      (case answer of
                         None \<Rightarrow> None
                       | Some resolved \<Rightarrow>
                           if id_available_for_lineage st assigned (rs_session_id resolved) l
                           then Some (rs_session_id resolved) else volatile, Some r', registry'))
             | _ \<Rightarrow> (volatile, resolver, registry)))"

fun assign_all ::
  "host_env \<Rightarrow> registry_codec \<Rightarrow> iteration_order \<Rightarrow> session_state \<Rightarrow> session_id set
    \<Rightarrow> (prepared_discovery \<times> assign_input) list \<Rightarrow> resolver_state
    \<Rightarrow> session_id list option \<times> resolver_state" where
  "assign_all env codec ord st assigned [] rs = (Some [], rs)"
| "assign_all env codec ord st assigned ((item, i) # items) rs =
     (case assign_one env codec ord st assigned item i rs of
        (None, rs') \<Rightarrow> (None, rs')
      | (Some sid, rs') \<Rightarrow>
          (case assign_all env codec ord st (insert sid assigned) items rs' of
             (ids, rs'') \<Rightarrow> (map_option (\<lambda>sids. sid # sids) ids, rs'')))"

section \<open>Reconciliation\<close>

definition apply_item ::
  "timestamp \<Rightarrow> prepared_discovery \<times> session_id \<Rightarrow> session_state \<times> reconcile_result
    \<Rightarrow> session_state \<times> reconcile_result" where
  "apply_item now = (\<lambda>(item, i) (st, res).
     (let server = pd_server item; endpoint = lc_endpoint (ds_candidate server);
          (s, res') = (case ss_sessions st i of
            Some s \<Rightarrow>
              (s\<lparr>se_endpoint := endpoint, se_classification := ds_classification server,
                 se_project := pd_project item,
                 se_status := (if se_preview_visible s then SessionActive else SessionHidden),
                 se_last_seen := now, se_disconnected_at := None\<rparr>,
               if se_status s \<in> {SessionDisconnected, SessionHidden} \<and> se_disconnected_at s \<noteq> None
               then res\<lparr>rr_reconnected := rr_reconnected res @ [i]\<rparr> else res)
          | None \<Rightarrow>
              (\<lparr>se_id = i, se_endpoint = endpoint, se_classification = ds_classification server,
                se_project = pd_project item, se_status = SessionActive, se_first_seen = now,
                se_last_seen = now, se_disconnected_at = None, se_preview_visible = False\<rparr>,
               res\<lparr>rr_created := rr_created res @ [i]\<rparr>))
      in (st\<lparr>ss_sessions := (ss_sessions st)(i \<mapsto> s), ss_lineages := (ss_lineages st)(i := pd_lineage item)\<rparr>,
          res')))"

text \<open>\<open>chrono::Duration::from_std\<close>, which refuses more than \<open>i64::MAX\<close> milliseconds.\<close>

definition chrono_grace :: "nat \<Rightarrow> int" where
  "chrono_grace grace = (if int grace \<le> (2 ^ 63 - 1) * 1000000 then int grace else 3000000000)"

definition expire_session ::
  "timestamp \<Rightarrow> int \<Rightarrow> session_id set \<Rightarrow> session_id \<Rightarrow> session_state \<times> reconcile_result
    \<Rightarrow> session_state \<times> reconcile_result" where
  "expire_session now grace seen i = (\<lambda>(st, res).
     if i \<in> seen then (st, res)
     else case ss_sessions st i of
       None \<Rightarrow> (st, res)
     | Some s \<Rightarrow>
         (case se_disconnected_at s of
            None \<Rightarrow> (st\<lparr>ss_sessions := (ss_sessions st)(i \<mapsto>
                       s\<lparr>se_disconnected_at := Some now, se_status := SessionDisconnected\<rparr>)\<rparr>,
                     res\<lparr>rr_disconnected := rr_disconnected res @ [i]\<rparr>)
          | Some since \<Rightarrow>
              if grace \<le> now - since then
                (st\<lparr>ss_sessions := (ss_sessions st)(i := None), ss_lineages := (ss_lineages st)(i := None)\<rparr>,
                 res\<lparr>rr_removed := rr_removed res @ [i]\<rparr>)
              else (st, res)))"

text \<open>The argument \<open>keys\<close> is the order of the sessions after the items were applied.\<close>

definition apply_reconciliation ::
  "nat \<Rightarrow> session_id list \<Rightarrow> prepared_discovery list \<Rightarrow> session_id list \<Rightarrow> timestamp \<Rightarrow> session_state
    \<Rightarrow> session_state \<times> reconcile_result" where
  "apply_reconciliation grace keys prepared assignments now st =
     fold (expire_session now (chrono_grace grace) (set (take (length prepared) assignments))) keys
       (fold (apply_item now) (zip prepared assignments) (st, empty_result))"

record session_manager =
  sm_state :: session_state
  sm_grace :: nat
  sm_identity_resolver :: "identity_resolver option"

record reconcile_input =
  rc_order :: iteration_order
  rc_assign :: "assign_input list"
  rc_meanwhile :: "(session_id \<times> bool) list"
  rc_keys :: "session_id list"

definition reconcile ::
  "host_env \<Rightarrow> registry_codec \<Rightarrow> reconcile_input \<Rightarrow> discovered_server list \<Rightarrow> timestamp
    \<Rightarrow> session_manager \<times> bytes option \<Rightarrow> reconcile_result option \<times> session_manager \<times> bytes option" where
  "reconcile env codec i discovered now = (\<lambda>(m, registry).
     (let prepared = prepare_discovery_batch env discovered;
          st = fold (\<lambda>(sid, visible) st. snd (set_preview_visible sid visible st)) (rc_meanwhile i) (sm_state m)
      in case assign_all env codec (rc_order i) (sm_state m) {} (zip prepared (rc_assign i))
                (sm_identity_resolver m, registry) of
           (None, resolver, registry') \<Rightarrow>
             (None, m\<lparr>sm_state := st, sm_identity_resolver := resolver\<rparr>, registry')
         | (Some assignments, resolver, registry') \<Rightarrow>
             (case apply_reconciliation (sm_grace m) (rc_keys i) prepared assignments now st of
                (st', res) \<Rightarrow>
                  (Some res, m\<lparr>sm_state := st', sm_identity_resolver := resolver\<rparr>, registry'))))"

end
