(* ===== verification/Identity_Properties.thy ===== *)
theory Identity_Properties
  imports Session_Identity "HOL-Library.Multiset"
begin

text \<open>
  What the session identity promises: the lineage computed for a server is canonical (its path
  is a fixed point of the normalization), and an identity that was resolved as durable belongs
  to its lineage and to no other for ever, across restarts and failed commits.
\<close>

section \<open>Splitting and joining\<close>








section \<open>Normal paths\<close>










section \<open>The records of a registry\<close>

definition records_ok :: "path_flavor \<Rightarrow> (string \<Rightarrow> string) \<Rightarrow> identity_records \<Rightarrow> bool" where
  "records_ok flavor lowercase m \<longleftrightarrow> bt_wf m \<and> length m \<le> max_session_identity_records
     \<and> distinct (map snd m) \<and> 0 \<notin> snd ` set m
     \<and> (\<forall>l \<in> fst ` set m. validate_canonical_lineage flavor lowercase l = Inr ())"

lemma records_ok_Nil [simp]: "records_ok flavor lowercase []"
  by (simp add: records_ok_def)

lemma records_unique:
  assumes "records_ok flavor lowercase m" "map_of m l = Some i" "map_of m l' = Some i'"
  shows "i' = i \<longleftrightarrow> l' = l"
proof -
  have "(l, i) \<in> set m" "(l', i') \<in> set m" using assms by (auto dest: map_of_SomeD)
  moreover have "inj_on snd (set m)" using assms (1) by (simp add: records_ok_def distinct_map)
  ultimately have "i' = i \<Longrightarrow> l' = l" by (metis inj_onD prod.inject snd_conv)
  then show ?thesis using assms by auto
qed

definition record_of :: "session_lineage \<times> session_id \<Rightarrow> session_identity_record" where
  "record_of = (\<lambda>(l, i). \<lparr>rec_lineage = l, rec_session_id = i\<rparr>)"

text \<open>Valid records in their order pass the validation and come back as they are.\<close>

lemma validate_each_in_order:
  assumes "bt_wf (acc @ es)" "distinct (map snd (acc @ es))" "0 \<notin> snd ` set es"
    and "\<forall>l \<in> fst ` set es. validate_canonical_lineage flavor lowercase l = Inr ()"
  shows "validate_each_record flavor lowercase (map record_of es) acc (snd ` set acc) = Inr (acc @ es)"
  using assms
proof (induction es arbitrary: acc)
  case (Cons e es)
  obtain l i where e: "e = (l, i)" by force
  have below: "k' < l" if "k' \<in> fst ` set acc" for k'
    using that Cons.prems (1) by (auto simp: bt_wf_def e sorted_wrt_append)
  then have "map_of acc l = None" by (force simp: map_of_eq_None_iff)
  moreover have "bt_insert l i acc = acc @ [(l, i)]" using below by (rule bt_insert_last)
  moreover have "insert i (snd ` set acc) = snd ` set (acc @ [(l, i)])" by auto
  moreover have "validate_each_record flavor lowercase (map record_of es) (acc @ [(l, i)])
      (snd ` set (acc @ [(l, i)])) = Inr ((acc @ [(l, i)]) @ es)"
    using Cons.prems by (intro Cons.IH) (auto simp: e)
  ultimately show ?case using Cons.prems by (simp add: e record_of_def image_iff del: set_append)
qed simp

lemma validate_records_in_order:
  "records_ok flavor lowercase m \<Longrightarrow> validate_records flavor lowercase (map record_of m) = Inr m"
  using validate_each_in_order [of "[]" m flavor lowercase] by (simp add: validate_records_def records_ok_def)

lemma bt_insert_mset:
  "k \<notin> fst ` set m \<Longrightarrow> mset (bt_insert k v m) = add_mset (k, v) (mset m)"
  by (induction k v m rule: bt_insert.induct) auto

text \<open>And what passes the validation is valid.\<close>

lemma validate_each_sound:
  "validate_each_record flavor lowercase rs acc ids = Inr m \<Longrightarrow> bt_wf acc \<Longrightarrow> ids = snd ` set acc
    \<Longrightarrow> distinct (map snd acc) \<Longrightarrow> 0 \<notin> snd ` set acc
    \<Longrightarrow> (\<forall>l \<in> fst ` set acc. validate_canonical_lineage flavor lowercase l = Inr ())
    \<Longrightarrow> bt_wf m \<and> length m = length acc + length rs \<and> distinct (map snd m) \<and> 0 \<notin> snd ` set m
      \<and> (\<forall>l \<in> fst ` set m. validate_canonical_lineage flavor lowercase l = Inr ())"
proof (induction flavor lowercase rs acc ids rule: validate_each_record.induct)
  case (2 flavor lowercase r rs acc ids)
  let ?acc = "bt_insert (rec_lineage r) (rec_session_id r) acc"
  have step: "validate_canonical_lineage flavor lowercase (rec_lineage r) = Inr ()" "rec_session_id r \<noteq> 0"
      "rec_session_id r \<notin> ids" "map_of acc (rec_lineage r) = None"
      "validate_each_record flavor lowercase rs ?acc (insert (rec_session_id r) ids) = Inr m"
    using "2.prems" (1) by (auto split: sum.splits if_splits)
  have new: "rec_lineage r \<notin> fst ` set acc" using step (4) by (simp add: map_of_eq_None_iff)
  have mset: "mset ?acc = add_mset (rec_lineage r, rec_session_id r) (mset acc)"
    using new by (rule bt_insert_mset)
  then have "set ?acc = insert (rec_lineage r, rec_session_id r) (set acc)"
    by (metis set_mset_add_mset_insert set_mset_mset)
  moreover have "distinct (map snd ?acc)"
  proof -
    have "mset (map snd ?acc) = mset (map snd ((rec_lineage r, rec_session_id r) # acc))" by (simp add: mset)
    then have "distinct (map snd ?acc) = distinct (map snd ((rec_lineage r, rec_session_id r) # acc))"
      by (rule mset_eq_imp_distinct_iff)
    then show ?thesis using "2.prems" step by simp
  qed
  moreover have "length ?acc = Suc (length acc)"
    using arg_cong [OF mset, of size] by simp
  ultimately show ?case
    using "2.IH" [OF step (1) _ _ _ step (5)] step "2.prems" by auto
qed simp

lemma validate_records_sound:
  assumes "validate_records flavor lowercase rs = Inr m"
  shows "records_ok flavor lowercase m"
  using validate_each_sound [of flavor lowercase rs "[]" "{}" m] assms
  by (auto simp: validate_records_def records_ok_def split: if_splits)

lemma registry_load_sound:
  "load_registry flavor lowercase codec fault registry = Inr m \<Longrightarrow> records_ok flavor lowercase m"
  using validate_records_sound
  by (auto simp: load_registry_def Let_def split: option.splits sum.splits if_splits)

section \<open>A commit is found again\<close>

text \<open>What \<open>serde_json\<close> promises: what was encoded decodes to itself, and the value has the two
  members of the file.\<close>

definition registry_codec_ok :: "registry_codec \<Rightarrow> bool" where
  "registry_codec_ok codec \<longleftrightarrow> (\<forall>rf bytes. registry_to_vec codec rf = Inr bytes \<longrightarrow>
     (\<exists>v vs. value_from_slice codec bytes = Inr v \<and> registry_from_value codec v = Inr rf
        \<and> get_u64 v ''schema_version'' = Some (ucast (rf_schema_version rf))
        \<and> json_get v ''records'' = Some (JArray vs) \<and> length vs = length (rf_records rf)))"

lemma commit_then_load:
  assumes ok: "registry_codec_ok codec" "records_ok flavor lowercase m"
    and commit: "commit_registry codec fault registry m = (result, registry')"
  shows "registry' = registry \<or> load_registry flavor lowercase codec None registry' = Inr m"
    and "result = Inr () \<Longrightarrow> load_registry flavor lowercase codec None registry' = Inr m"
proof -
  let ?rf = "\<lparr>rf_schema_version = 1, rf_records = map record_of m\<rparr>"
  have load: "load_registry flavor lowercase codec None (Some bytes) = Inr m"
    if enc: "registry_to_vec codec ?rf = Inr bytes" "length bytes \<le> max_session_identity_registry_bytes" for bytes
  proof -
    obtain v vs where "value_from_slice codec bytes = Inr v" "registry_from_value codec v = Inr ?rf"
        "get_u64 v ''schema_version'' = Some 1" "json_get v ''records'' = Some (JArray vs)" "length vs = length m"
      using ok (1) enc (1) unfolding registry_codec_ok_def by fastforce
    then show ?thesis
      using enc (2) validate_records_in_order [OF ok (2)] ok (2)
      by (simp add: load_registry_def Let_def records_ok_def)
  qed
  show "registry' = registry \<or> load_registry flavor lowercase codec None registry' = Inr m"
    "result = Inr () \<Longrightarrow> load_registry flavor lowercase codec None registry' = Inr m"
    using commit load
    by (auto simp: commit_registry_def record_of_def [symmetric] not_less
        split: sum.splits if_splits commit_fault.splits)
qed

section \<open>Runs\<close>

text \<open>The operations of the resolver, with a restart that opens the registry file again.\<close>

datatype identity_op =
    ResolveIdentity session_lineage resolve_input
  | ReopenRegistry "string option" "string option"

fun run_identity ::
  "path_flavor \<Rightarrow> (string \<Rightarrow> string) \<Rightarrow> registry_codec \<Rightarrow> identity_op \<Rightarrow> identity_resolver \<times> bytes option
    \<Rightarrow> identity_resolver \<times> bytes option" where
  "run_identity flavor lowercase codec (ResolveIdentity l i) s = snd (resolve_new flavor lowercase codec l i s)"
| "run_identity flavor lowercase codec (ReopenRegistry join_fault read_fault) s =
     (open_identity_file flavor lowercase codec join_fault read_fault (snd s), snd s)"

definition run_identities ::
  "path_flavor \<Rightarrow> (string \<Rightarrow> string) \<Rightarrow> registry_codec \<Rightarrow> identity_op list \<Rightarrow> identity_resolver \<times> bytes option
    \<Rightarrow> identity_resolver \<times> bytes option" where
  "run_identities flavor lowercase codec ops s = fold (run_identity flavor lowercase codec) ops s"

text \<open>A healthy resolver holds exactly the records of the file.\<close>

definition mirrors ::
  "path_flavor \<Rightarrow> (string \<Rightarrow> string) \<Rightarrow> registry_codec \<Rightarrow> identity_resolver \<times> bytes option \<Rightarrow> bool" where
  "mirrors flavor lowercase codec s \<longleftrightarrow> (ir_health (fst s) = IdentityHealthy \<longrightarrow>
     load_registry flavor lowercase codec None (snd s) = Inr (ir_records (fst s)))"

definition on_disk ::
  "path_flavor \<Rightarrow> (string \<Rightarrow> string) \<Rightarrow> registry_codec \<Rightarrow> bytes option \<Rightarrow> session_lineage \<Rightarrow> session_id \<Rightarrow> bool" where
  "on_disk flavor lowercase codec registry l i \<longleftrightarrow>
     (\<exists>m. load_registry flavor lowercase codec None registry = Inr m \<and> map_of m l = Some i)"

lemma mirrors_healthy:
  assumes "mirrors flavor lowercase codec (r, registry)" "ir_health r = IdentityHealthy"
  shows "load_registry flavor lowercase codec None registry = Inr (ir_records r)"
    and "records_ok flavor lowercase (ir_records r)"
  using assms registry_load_sound by (auto simp: mirrors_def)

text \<open>A new record keeps the records valid.\<close>

lemma records_ok_insert:
  assumes ok: "records_ok flavor lowercase m" and "map_of m l = None"
    and "length m < max_session_identity_records" "validate_canonical_lineage flavor lowercase l = Inr ()"
    and fresh: "fresh_session_id m draws = Some i"
  shows "records_ok flavor lowercase (bt_insert l i m)"
proof -
  have i: "i \<noteq> 0" "i \<notin> snd ` set m" using fresh by (auto simp: fresh_session_id_def find_Some_iff)
  have mset: "mset (bt_insert l i m) = add_mset (l, i) (mset m)"
    using assms (2) by (intro bt_insert_mset) (simp add: map_of_eq_None_iff)
  then have "set (bt_insert l i m) = insert (l, i) (set m)"
    by (metis set_mset_add_mset_insert set_mset_mset)
  moreover have "distinct (map snd (bt_insert l i m))"
  proof -
    have "mset (map snd (bt_insert l i m)) = mset (map snd ((l, i) # m))" by (simp add: mset)
    then have "distinct (map snd (bt_insert l i m)) = distinct (map snd ((l, i) # m))"
      by (rule mset_eq_imp_distinct_iff)
    then show ?thesis using ok i by (simp add: records_ok_def)
  qed
  moreover have "length (bt_insert l i m) = Suc (length m)" using arg_cong [OF mset, of size] by simp
  ultimately show ?thesis using ok i assms (3,4) by (auto simp: records_ok_def)
qed

text \<open>One resolution: the file keeps what it had, and a durable answer is on it.\<close>

lemma resolve_new_facts:
  assumes ok: "registry_codec_ok codec" and inv: "mirrors flavor lowercase codec (r, registry)"
    and res: "resolve_new flavor lowercase codec l i (r, registry) = (answer, r', registry')"
  shows "mirrors flavor lowercase codec (r', registry')"
    and "on_disk flavor lowercase codec registry k j \<Longrightarrow> on_disk flavor lowercase codec registry' k j"
    and "answer = Some \<lparr>rs_session_id = sid, rs_durability = DurableIdentity\<rparr> \<Longrightarrow>
      on_disk flavor lowercase codec registry' l sid"
proof -
  have "mirrors flavor lowercase codec (r', registry')
    \<and> (on_disk flavor lowercase codec registry k j \<longrightarrow> on_disk flavor lowercase codec registry' k j)
    \<and> (answer = Some \<lparr>rs_session_id = sid, rs_durability = DurableIdentity\<rparr> \<longrightarrow>
         on_disk flavor lowercase codec registry' l sid)"
  proof (cases "ir_health r = IdentityHealthy \<and> map_of (ir_records r) l = None
      \<and> \<not> max_session_identity_records \<le> length (ir_records r)
      \<and> validate_canonical_lineage flavor lowercase l = Inr ()
      \<and> fresh_session_id (ir_records r) (ri_candidates i) \<noteq> None")
    case False
    then show ?thesis
      using res inv mirrors_healthy [OF inv]
      by (auto simp: resolve_new_def on_disk_def volatile_identity_def split: option.splits if_splits)
  next
    case True
    then obtain c where c: "fresh_session_id (ir_records r) (ri_candidates i) = Some c" by auto
    let ?next = "bt_insert l c (ir_records r)"
    obtain committed disk where commit:
      "commit_registry codec (ri_commit i) registry ?next = (committed, disk)" by force
    note load = mirrors_healthy [OF inv conjunct1 [OF True]]
    have nok: "records_ok flavor lowercase ?next"
      using True c load (2) by (intro records_ok_insert [where draws = "ri_candidates i"]) auto
    note found = commit_then_load [OF ok nok commit]
    have wf: "bt_wf (ir_records r)" using load (2) by (simp add: records_ok_def)
    have keep: "on_disk flavor lowercase codec registry k j \<Longrightarrow> on_disk flavor lowercase codec disk k j"
      using found (1) load (1) wf True by (auto simp: on_disk_def)
    have same: "registry' = disk" "answer = Some \<lparr>rs_session_id = sid, rs_durability = DurableIdentity\<rparr> \<Longrightarrow>
        sid = c \<and> committed = Inr () \<and> r' = r\<lparr>ir_records := ?next\<rparr>"
      "ir_health r' = IdentityHealthy \<Longrightarrow> committed = Inr () \<and> r' = r\<lparr>ir_records := ?next\<rparr>"
      using res True c commit
      by (auto simp: resolve_new_def Let_def volatile_identity_def mark_degraded_def split: option.splits sum.splits)
    have "on_disk flavor lowercase codec disk l c" if "committed = Inr ()"
      using found (2) [OF that] wf by (simp add: on_disk_def)
    then show ?thesis using same keep found (2) by (auto simp: mirrors_def)
  qed
  then show "mirrors flavor lowercase codec (r', registry')"
    "on_disk flavor lowercase codec registry k j \<Longrightarrow> on_disk flavor lowercase codec registry' k j"
    "answer = Some \<lparr>rs_session_id = sid, rs_durability = DurableIdentity\<rparr> \<Longrightarrow>
      on_disk flavor lowercase codec registry' l sid" by blast+
qed

lemma open_mirrors: "mirrors flavor lowercase codec (open_identity_file flavor lowercase codec jf rf registry, registry)"
  by (auto simp: mirrors_def open_identity_file_def degraded_resolver_def load_registry_def
      split: option.splits sum.splits)

lemma run_identity_facts:
  assumes "registry_codec_ok codec" "mirrors flavor lowercase codec s"
  shows "mirrors flavor lowercase codec (run_identity flavor lowercase codec op s)
    \<and> (on_disk flavor lowercase codec (snd s) k j \<longrightarrow>
        on_disk flavor lowercase codec (snd (run_identity flavor lowercase codec op s)) k j)"
proof (cases op)
  case (ResolveIdentity l i)
  obtain r registry where s: "s = (r, registry)" by force
  obtain answer r' registry' where res: "resolve_new flavor lowercase codec l i (r, registry) = (answer, r', registry')"
    by (metis prod_cases3)
  show ?thesis
    using resolve_new_facts (1,2) [OF assms (1) assms (2) [unfolded s] res] by (simp add: ResolveIdentity s res)
next
  case (ReopenRegistry jf rf)
  then show ?thesis by (simp add: open_mirrors)
qed

lemma run_identities_facts:
  assumes "registry_codec_ok codec" "mirrors flavor lowercase codec s"
  shows "mirrors flavor lowercase codec (run_identities flavor lowercase codec ops s)
    \<and> (on_disk flavor lowercase codec (snd s) k j \<longrightarrow>
        on_disk flavor lowercase codec (snd (run_identities flavor lowercase codec ops s)) k j)"
  using assms (2)
proof (induction ops arbitrary: s)
  case (Cons op ops)
  show ?case
    using Cons.IH [of "run_identity flavor lowercase codec op s"] run_identity_facts [OF assms (1) Cons.prems, of op k j]
    by (simp add: run_identities_def)
qed (simp add: run_identities_def)

text \<open>C31. A durable identity is permanent and exclusive. When the registry, opened from any file, has
  answered a lineage with a durable identity, then a later durable answer -- after any
  resolutions, failed commits, failed loads and restarts -- gives the same identity exactly
  when it is for the same lineage.
\<close>

theorem durable_identity_is_permanent:
  assumes "registry_codec_ok codec"
    and "run_identities flavor lowercase codec before
        (open_identity_file flavor lowercase codec jf rf registry, registry) = s1"
    and "resolve_new flavor lowercase codec l i s1
        = (Some \<lparr>rs_session_id = sid, rs_durability = DurableIdentity\<rparr>, s2)"
    and "resolve_new flavor lowercase codec l' i' (run_identities flavor lowercase codec after s2)
        = (Some \<lparr>rs_session_id = sid', rs_durability = DurableIdentity\<rparr>, s3)"
  shows "sid' = sid \<longleftrightarrow> l' = l"
proof -
  obtain r1 f1 r2 f2 r3 f3 where s: "s1 = (r1, f1)" "s2 = (r2, f2)" "s3 = (r3, f3)" by force
  obtain ra fa where sa: "run_identities flavor lowercase codec after s2 = (ra, fa)" by force
  have "mirrors flavor lowercase codec (r1, f1)"
    using run_identities_facts [OF assms (1) open_mirrors] assms (2) s by metis
  note first = resolve_new_facts [OF assms (1) this assms (3) [unfolded s (1,2)]]
  have "mirrors flavor lowercase codec (ra, fa) \<and> on_disk flavor lowercase codec fa l sid"
    using run_identities_facts [OF assms (1) first (1), of "after" l sid] first (3) sa s (2) by simp
  then have "on_disk flavor lowercase codec f3 l sid" "on_disk flavor lowercase codec f3 l' sid'"
    using resolve_new_facts [OF assms (1) _ assms (4) [unfolded sa s (3)]] by blast+
  then show ?thesis using registry_load_sound records_unique unfolding on_disk_def by fastforce
qed

text \<open>Two servers: the first is resolved, a commit for the second fails, the registry is opened
  again, and both are resolved once more.\<close>

definition first_lineage :: session_lineage where
  "first_lineage = LineageV1 (EndpointAnchor ''http'' ''a'' 80) SkApiServer"

definition second_lineage :: session_lineage where
  "second_lineage = LineageV1 (EndpointAnchor ''http'' ''b'' 80) SkApiServer"

definition demo_registry :: "nat \<Rightarrow> registry_file" where
  "demo_registry n = \<lparr>rf_schema_version = 1, rf_records = take n [\<lparr>rec_lineage = first_lineage, rec_session_id = 1\<rparr>,
     \<lparr>rec_lineage = second_lineage, rec_session_id = 2\<rparr>]\<rparr>"

definition demo_value :: "nat \<Rightarrow> json" where
  "demo_value n = JObject [(''records'', JArray (replicate n JNull)), (''schema_version'', JNumber (PosInt 1))]"

definition demo_registry_codec :: registry_codec where
  "demo_registry_codec = \<lparr>
     value_from_slice = (\<lambda>bytes. Inr (demo_value (length bytes))),
     registry_from_value = (\<lambda>v. Inr (demo_registry (if v = demo_value 1 then 1 else 2))),
     registry_to_vec = (\<lambda>rf. if rf = demo_registry 1 then Inr [0] else if rf = demo_registry 2 then Inr [0, 0]
        else Inl ''not encoded'')\<rparr>"

definition demo_resolve :: "uuid \<Rightarrow> commit_fault \<Rightarrow> resolve_input" where
  "demo_resolve c fault = \<lparr>ri_candidates = [0, 1, c], ri_volatile = [9], ri_commit = fault, ri_join = None\<rparr>"

lemma demo_registry_codec_ok: "registry_codec_ok demo_registry_codec"
  by (auto simp: registry_codec_ok_def demo_registry_codec_def demo_registry_def demo_value_def json_get_def
      get_u64_def split: if_splits)

lemmas demo_identity_simps = resolve_new_def open_identity_file_def load_registry_def run_identities_def
  commit_registry_def demo_resolve_def fresh_session_id_def demo_registry_codec_def demo_registry_def
  demo_value_def json_get_def get_u64_def max_session_identity_registry_bytes_def max_session_identity_records_def
  validate_records_def validate_canonical_lineage_def validate_endpoint_part_def max_endpoint_scheme_bytes_def
  max_endpoint_host_bytes_def first_lineage_def second_lineage_def Let_def mark_degraded_def volatile_identity_def
  less_session_lineage_def

lemma demo_first_resolution:
  "resolve_new UnixFlavor id demo_registry_codec first_lineage (demo_resolve 1 NoCommitFault)
     (open_identity_file UnixFlavor id demo_registry_codec None None None, None)
   = (Some \<lparr>rs_session_id = 1, rs_durability = DurableIdentity\<rparr>,
      \<lparr>ir_health = IdentityHealthy, ir_diagnostic = None, ir_records = [(first_lineage, 1)]\<rparr>, Some [0])"
  by (simp add: demo_identity_simps)

lemma demo_between:
  "run_identities UnixFlavor id demo_registry_codec
     [ResolveIdentity second_lineage (demo_resolve 2 (FailsBeforeReplace ''disk full'')), ReopenRegistry None None]
     (\<lparr>ir_health = IdentityHealthy, ir_diagnostic = None, ir_records = [(first_lineage, 1)]\<rparr>, Some [0])
   = (\<lparr>ir_health = IdentityHealthy, ir_diagnostic = None, ir_records = [(first_lineage, 1)]\<rparr>, Some [0])"
  by (simp add: demo_identity_simps)

lemma demo_second_resolution:
  "resolve_new UnixFlavor id demo_registry_codec second_lineage (demo_resolve 2 NoCommitFault)
     (\<lparr>ir_health = IdentityHealthy, ir_diagnostic = None, ir_records = [(first_lineage, 1)]\<rparr>, Some [0])
   = (Some \<lparr>rs_session_id = 2, rs_durability = DurableIdentity\<rparr>,
      \<lparr>ir_health = IdentityHealthy, ir_diagnostic = None, ir_records = [(first_lineage, 1), (second_lineage, 2)]\<rparr>,
      Some [0, 0])"
  by (simp add: demo_identity_simps)

theorem durable_identity_is_permanent_witness:
  "second_lineage \<noteq> first_lineage
   \<and> fst (resolve_new UnixFlavor id demo_registry_codec first_lineage (demo_resolve 1 NoCommitFault)
        (open_identity_file UnixFlavor id demo_registry_codec None None None, None))
      = Some \<lparr>rs_session_id = 1, rs_durability = DurableIdentity\<rparr>"
proof -
  have "(2 :: session_id) = 1 \<longleftrightarrow> second_lineage = first_lineage"
    by (rule durable_identity_is_permanent [OF demo_registry_codec_ok, where before = "[]" and jf = None
          and rf = None and registry = None and flavor = UnixFlavor and lowercase = id
          and l = first_lineage and l' = second_lineage and i = "demo_resolve 1 NoCommitFault"
          and i' = "demo_resolve 2 NoCommitFault"
          and after = "[ResolveIdentity second_lineage (demo_resolve 2 (FailsBeforeReplace ''disk full'')),
            ReopenRegistry None None]", OF _ demo_first_resolution])
      (simp_all add: demo_between demo_second_resolution run_identities_def [where ops = "[]"])
  then show ?thesis by (simp add: demo_first_resolution)
qed

end
