(* ===== verification/Session_Properties.thy ===== *)
theory Session_Properties
  imports Session_Manager Identity_Properties
begin

text \<open>
  What a reconciliation promises: every discovered server has a session of its own, sessions
  without a server are marked and expire after the grace period, and servers of known and
  unambiguous lineages keep their sessions whatever their endpoints have become.
\<close>

section \<open>Assignments are distinct\<close>

lemma find_session_unassigned: "find_session ord st P assigned = Some i \<Longrightarrow> i \<notin> assigned"
  by (auto simp: find_session_def find_Some_iff)

lemma current_match_unassigned: "current_match ord st assigned item ambiguous = Some i \<Longrightarrow> i \<notin> assigned"
  by (auto simp: current_match_def Let_def find_lineage_match_def find_legacy_project_match_def
      find_exact_endpoint_match_def find_Some_iff dest: find_session_unassigned
      split: if_splits option.splits bind_splits)

lemma assign_one_unassigned:
  assumes "assign_one env codec ord st assigned item i rs = (Some sid, rs')"
  shows "sid \<notin> assigned"
proof (cases "current_match ord st assigned item
    (pd_ambiguous item \<or> (case pd_lineage item of None \<Rightarrow> False
      | Some l \<Rightarrow> 1 < length (filter (\<lambda>j. ss_lineages st j = Some l) (io_lineages ord))))")
  case None
  then show ?thesis using assms
    by (cases rs) (auto simp: assign_one_def Let_def fresh_volatile_session_id_def find_Some_iff
        id_available_for_lineage_def split: option.splits if_splits prod.splits)
next
  case (Some j)
  then have "sid = j" using assms by (cases rs) (auto simp: assign_one_def Let_def)
  then show ?thesis using current_match_unassigned [OF Some] by simp
qed

lemma assign_all_distinct:
  "assign_all env codec ord st assigned items rs = (Some ids, rs')
    \<Longrightarrow> length ids = length items \<and> distinct ids \<and> set ids \<inter> assigned = {}"
proof (induction env codec ord st assigned items rs arbitrary: ids rs' rule: assign_all.induct)
  case (2 env codec ord st assigned item i items rs)
  obtain sid rs1 where one: "assign_one env codec ord st assigned item i rs = (Some sid, rs1)"
    using "2.prems" by (auto split: prod.splits option.splits)
  obtain sids where all: "assign_all env codec ord st (insert sid assigned) items rs1 = (Some sids, rs')"
    "ids = sid # sids" using "2.prems" one by (auto split: prod.splits)
  show ?case using "2.IH" [OF one [symmetric] refl all (1)] all (2) assign_one_unassigned [OF one] by auto
qed simp

section \<open>Applying the batch\<close>

text \<open>The session of a server after the batch, and a session without a server.\<close>

definition refreshed :: "timestamp \<Rightarrow> prepared_discovery \<Rightarrow> session_id \<Rightarrow> session option \<Rightarrow> session" where
  "refreshed now item i previous =
     (let server = pd_server item
      in case previous of
           Some s \<Rightarrow> s\<lparr>se_endpoint := lc_endpoint (ds_candidate server),
             se_classification := ds_classification server, se_project := pd_project item,
             se_status := (if se_preview_visible s then SessionActive else SessionHidden),
             se_last_seen := now, se_disconnected_at := None\<rparr>
         | None \<Rightarrow> \<lparr>se_id = i, se_endpoint = lc_endpoint (ds_candidate server),
             se_classification = ds_classification server, se_project = pd_project item,
             se_status = SessionActive, se_first_seen = now, se_last_seen = now,
             se_disconnected_at = None, se_preview_visible = False\<rparr>)"

definition expired :: "timestamp \<Rightarrow> int \<Rightarrow> session \<Rightarrow> session option" where
  "expired now grace s = (case se_disconnected_at s of
     None \<Rightarrow> Some (s\<lparr>se_disconnected_at := Some now, se_status := SessionDisconnected\<rparr>)
   | Some since \<Rightarrow> if grace \<le> now - since then None else Some s)"

lemma apply_item_state:
  "ss_sessions (fst (apply_item now (item, i) (st, res))) = (ss_sessions st)(i \<mapsto> refreshed now item i (ss_sessions st i))"
  "ss_lineages (fst (apply_item now (item, i) (st, res))) = (ss_lineages st)(i := pd_lineage item)"
  by (simp_all add: apply_item_def refreshed_def Let_def split: option.split)

lemma apply_items_state:
  "length items = length ids \<Longrightarrow> distinct ids \<Longrightarrow>
     ss_sessions (fst (fold (apply_item now) (zip items ids) sr)) j
       = (case map_of (zip ids items) j of None \<Rightarrow> ss_sessions (fst sr) j
          | Some item \<Rightarrow> Some (refreshed now item j (ss_sessions (fst sr) j)))
     \<and> ss_lineages (fst (fold (apply_item now) (zip items ids) sr)) j
       = (case map_of (zip ids items) j of None \<Rightarrow> ss_lineages (fst sr) j | Some item \<Rightarrow> pd_lineage item)"
proof (induction items ids arbitrary: sr rule: list_induct2)
  case (Cons item items i ids)
  have fresh: "map_of (zip ids items) i = None" using Cons.prems by (auto simp: map_of_eq_None_iff dest: set_zip_leftD)
  show ?case
    using Cons.IH [of "apply_item now (item, i) sr"] Cons.prems fresh
      apply_item_state [of now item i "fst sr" "snd sr"]
    by (auto split: option.split)
qed simp

lemma expire_fold:
  "distinct keys \<Longrightarrow>
     ss_sessions (fst (fold (expire_session now grace seen) keys sr)) j
       = (if j \<in> set keys - seen then Option.bind (ss_sessions (fst sr) j) (expired now grace)
          else ss_sessions (fst sr) j)
     \<and> (j \<in> seen \<longrightarrow> ss_lineages (fst (fold (expire_session now grace seen) keys sr)) j = ss_lineages (fst sr) j)"
proof (induction keys arbitrary: sr)
  case (Cons k keys)
  have one: "ss_sessions (fst (expire_session now grace seen k sr)) j
      = (if j = k \<and> k \<notin> seen then Option.bind (ss_sessions (fst sr) j) (expired now grace)
         else ss_sessions (fst sr) j)
    \<and> (j \<in> seen \<longrightarrow> ss_lineages (fst (expire_session now grace seen k sr)) j = ss_lineages (fst sr) j)"
    by (cases sr) (auto simp: expire_session_def expired_def split: option.split)
  show ?case using Cons.IH [of "expire_session now grace seen k sr"] Cons.prems one by auto
qed simp

lemma preview_keeps:
  "map_option se_disconnected_at (ss_sessions (snd (set_preview_visible i v st)) j)
     = map_option se_disconnected_at (ss_sessions st j)"
  "ss_lineages (snd (set_preview_visible i v st)) = ss_lineages st"
  by (auto simp: set_preview_visible_def split: option.split)

lemma previews_keep:
  "map_option se_disconnected_at (ss_sessions (fold (\<lambda>(sid, v) st. snd (set_preview_visible sid v st)) calls st) j)
     = map_option se_disconnected_at (ss_sessions st j)
   \<and> ss_lineages (fold (\<lambda>(sid, v) st. snd (set_preview_visible sid v st)) calls st) = ss_lineages st"
proof (induction calls arbitrary: st)
  case (Cons c calls)
  obtain sid v where c: "c = (sid, v)" by force
  show ?case
    using Cons.IH [of "snd (set_preview_visible sid v st)"] preview_keeps [where i = sid and v = v and st = st]
    by (simp add: c)
qed simp

section \<open>One session for every server\<close>

definition prepared_at :: "host_env \<Rightarrow> discovered_server list \<Rightarrow> nat \<Rightarrow> prepared_discovery" where
  "prepared_at env discovered k = prepare_discovery_batch env discovered ! k"

lemma prepared_at_simps:
  assumes "k < length discovered"
  shows "pd_server (prepared_at env discovered k) = discovered ! k"
    and "pd_project (prepared_at env discovered k) = project_identity_of env (ds_candidate (discovered ! k))"
    and "pd_lineage (prepared_at env discovered k) = pd_lineage (prepare_server env (discovered ! k))"
  using assms by (simp_all add: prepared_at_def prepare_discovery_batch_def prepare_server_def Let_def)

lemma length_prepared [simp]: "length (prepare_discovery_batch env discovered) = length discovered"
  by (simp add: prepare_discovery_batch_def Let_def)

lemma map_of_zip_at:
  "length items = length ids \<Longrightarrow> distinct ids \<Longrightarrow> k < length ids \<Longrightarrow> map_of (zip ids items) (ids ! k) = Some (items ! k)"
  by (simp add: map_of_zip_nth)

text \<open>The states of a reconciliation: the assignment, the batch applied, the rest expired.\<close>

definition meanwhile :: "reconcile_input \<Rightarrow> session_state \<Rightarrow> session_state" where
  "meanwhile i st = fold (\<lambda>(sid, v) st. snd (set_preview_visible sid v st)) (rc_meanwhile i) st"

lemma reconcile_states:
  assumes run: "reconcile env codec i discovered now (m, registry) = (Some res, m', registry')"
    and inputs: "length (rc_assign i) = length discovered" "distinct (rc_keys i)"
  obtains ids where "assign_all env codec (rc_order i) (sm_state m) {}
        (zip (prepare_discovery_batch env discovered) (rc_assign i)) (sm_identity_resolver m, registry)
      = (Some ids, sm_identity_resolver m', registry')"
    and "length ids = length discovered" "distinct ids"
    and "\<And>k. k < length discovered \<Longrightarrow> ss_sessions (sm_state m') (ids ! k)
        = Some (refreshed now (prepared_at env discovered k) (ids ! k)
            (ss_sessions (meanwhile i (sm_state m)) (ids ! k)))"
    and "\<And>k. k < length discovered \<Longrightarrow> ss_lineages (sm_state m') (ids ! k)
        = pd_lineage (prepare_server env (discovered ! k))"
    and "\<And>j. j \<notin> set ids \<Longrightarrow> ss_sessions (sm_state m') j
        = (if j \<in> set (rc_keys i) then Option.bind (ss_sessions (meanwhile i (sm_state m)) j)
             (expired now (chrono_grace (sm_grace m)))
           else ss_sessions (meanwhile i (sm_state m)) j)"
proof -
  let ?items = "prepare_discovery_batch env discovered"
  let ?st = "meanwhile i (sm_state m)"
  obtain ids where all: "assign_all env codec (rc_order i) (sm_state m) {} (zip ?items (rc_assign i))
      (sm_identity_resolver m, registry) = (Some ids, sm_identity_resolver m', registry')"
    and m': "sm_state m' = fst (apply_reconciliation (sm_grace m) (rc_keys i) ?items ids now ?st)"
    using run by (auto simp: reconcile_def Let_def meanwhile_def split: prod.splits option.splits)
  have ids: "length ids = length discovered" "distinct ids"
    using assign_all_distinct [OF all] inputs (1) by auto
  let ?applied = "fold (apply_item now) (zip ?items ids) (?st, empty_result)"
  have state: "sm_state m' = fst (fold (expire_session now (chrono_grace (sm_grace m)) (set ids)) (rc_keys i) ?applied)"
    using ids by (simp add: m' apply_reconciliation_def)
  have applied: "ss_sessions (fst (fold (apply_item now) (zip ?items ids) (?st, empty_result))) j
      = (case map_of (zip ids ?items) j of None \<Rightarrow> ss_sessions ?st j
         | Some item \<Rightarrow> Some (refreshed now item j (ss_sessions ?st j)))"
    "ss_lineages (fst (fold (apply_item now) (zip ?items ids) (?st, empty_result))) j
      = (case map_of (zip ids ?items) j of None \<Rightarrow> ss_lineages ?st j | Some item \<Rightarrow> pd_lineage item)" for j
    using apply_items_state [of ?items ids now "(?st, empty_result)" j, unfolded fst_conv] ids by auto
  note expire = expire_fold [OF inputs (2), of now "chrono_grace (sm_grace m)" "set ids" ?applied]
  have at: "map_of (zip ids ?items) (ids ! k) = Some (prepared_at env discovered k)" if "k < length discovered" for k
    using that ids by (simp add: map_of_zip_at prepared_at_def)
  have off: "map_of (zip ids ?items) j = None" if "j \<notin> set ids" for j
    using that by (auto simp: map_of_eq_None_iff dest: set_zip_leftD)
  show ?thesis
  proof (rule that [OF all ids])
    fix k assume k: "k < length discovered"
    have mem: "ids ! k \<in> set ids" using k ids by simp
    show "ss_sessions (sm_state m') (ids ! k)
        = Some (refreshed now (prepared_at env discovered k) (ids ! k) (ss_sessions ?st (ids ! k)))"
      using expire applied ids at [OF k] mem by (simp add: state)
    show "ss_lineages (sm_state m') (ids ! k) = pd_lineage (prepare_server env (discovered ! k))"
      using expire applied ids at [OF k] mem prepared_at_simps (3) [OF k] by (simp add: state)
  next
    fix j assume j: "j \<notin> set ids"
    show "ss_sessions (sm_state m') j
        = (if j \<in> set (rc_keys i) then Option.bind (ss_sessions ?st j) (expired now (chrono_grace (sm_grace m)))
           else ss_sessions ?st j)"
      using expire [of j] applied (1) [of j] off [OF j] j by (simp add: state)
  qed
qed

lemma expired_keeps_recent:
  assumes "map_option se_disconnected_at seen = map_option se_disconnected_at prev"
  shows "Option.bind seen (expired now grace) \<noteq> None \<longleftrightarrow> (\<exists>s. prev = Some s
    \<and> (case se_disconnected_at s of None \<Rightarrow> True | Some since \<Rightarrow> now - since < grace))"
  using assms
  by (cases prev; cases seen) (auto simp: expired_def split: option.splits if_splits)

lemma expired_is_marked:
  "Option.bind seen (expired now grace) = Some s \<Longrightarrow> se_disconnected_at s \<noteq> None"
  by (auto simp: expired_def split: option.splits if_splits bind_splits)

lemma refreshed_shows_server:
  assumes "k < length discovered" and "s = refreshed now (prepared_at env discovered k) sid before"
  shows "se_endpoint s = lc_endpoint (ds_candidate (discovered ! k))"
    and "se_classification s = ds_classification (discovered ! k)"
    and "se_project s = project_identity_of env (ds_candidate (discovered ! k))"
    and "se_last_seen s = now" and "se_disconnected_at s = None"
  using prepared_at_simps [OF assms (1)]
  by (simp_all add: assms (2) refreshed_def Let_def split: option.split)

lemma reconcile_unassigned:
  assumes "j \<in> set keys \<Longrightarrow> now_at = Option.bind seen kept" and "j \<notin> set keys \<Longrightarrow> now_at = seen"
    and "map_option d seen = map_option d (sessions j)" and "dom sessions \<subseteq> set keys"
  shows "now_at = Option.bind seen kept"
proof (cases "j \<in> set keys")
  case False
  then have "sessions j = None" using assms (4) by auto
  then show ?thesis using assms (2) [OF False] assms (3) by simp
qed (use assms (1) in simp)

text \<open>C33. Every discovered server has a session of its own. After a reconciliation there is one session
  for each server of the batch, no two servers share one, and it shows the endpoint, the
  classification, the project and the lineage of its server, seen now and connected; the other
  sessions are marked as disconnected, and exactly those are gone whose server had been missing
  for the grace period. This holds whatever the iteration orders, the random identifiers and the
  faults of the identity registry.
\<close>

theorem every_server_has_its_own_session:
  assumes "reconcile env codec i discovered now (m, registry) = (Some res, m', registry')"
    and "length (rc_assign i) = length discovered" "distinct (rc_keys i)"
    and "dom (ss_sessions (sm_state m)) \<subseteq> set (rc_keys i)"
  shows "\<exists>ids. length ids = length discovered \<and> distinct ids
    \<and> (\<forall>k < length discovered. \<exists>s. ss_sessions (sm_state m') (ids ! k) = Some s
        \<and> se_endpoint s = lc_endpoint (ds_candidate (discovered ! k))
        \<and> se_classification s = ds_classification (discovered ! k)
        \<and> se_project s = project_identity_of env (ds_candidate (discovered ! k))
        \<and> se_last_seen s = now \<and> se_disconnected_at s = None
        \<and> ss_lineages (sm_state m') (ids ! k) = pd_lineage (prepare_server env (discovered ! k)))
    \<and> dom (ss_sessions (sm_state m')) = set ids \<union> {j. \<exists>s. ss_sessions (sm_state m) j = Some s
        \<and> (case se_disconnected_at s of None \<Rightarrow> True | Some since \<Rightarrow> now - since < chrono_grace (sm_grace m))}
    \<and> (\<forall>j s. j \<notin> set ids \<longrightarrow> ss_sessions (sm_state m') j = Some s \<longrightarrow> se_disconnected_at s \<noteq> None)"
proof -
  obtain ids where ids: "length ids = length discovered" "distinct ids"
    and at: "\<And>k. k < length discovered \<Longrightarrow> ss_sessions (sm_state m') (ids ! k)
        = Some (refreshed now (prepared_at env discovered k) (ids ! k)
            (ss_sessions (meanwhile i (sm_state m)) (ids ! k)))"
    and lineage: "\<And>k. k < length discovered \<Longrightarrow> ss_lineages (sm_state m') (ids ! k)
        = pd_lineage (prepare_server env (discovered ! k))"
    and off: "\<And>j. j \<notin> set ids \<Longrightarrow> ss_sessions (sm_state m') j
        = (if j \<in> set (rc_keys i) then Option.bind (ss_sessions (meanwhile i (sm_state m)) j)
             (expired now (chrono_grace (sm_grace m)))
           else ss_sessions (meanwhile i (sm_state m)) j)"
    using reconcile_states [OF assms (1-3)] by metis
  have old: "map_option se_disconnected_at (ss_sessions (meanwhile i (sm_state m)) j)
      = map_option se_disconnected_at (ss_sessions (sm_state m) j)" for j
    by (simp add: meanwhile_def previews_keep)
  have rest: "ss_sessions (sm_state m') j = Option.bind (ss_sessions (meanwhile i (sm_state m)) j)
      (expired now (chrono_grace (sm_grace m)))" if "j \<notin> set ids" for j
    by (rule reconcile_unassigned [OF _ _ old [of j] assms (4)]) (simp_all add: off [OF that])
  have in_dom: "j \<in> dom (ss_sessions (sm_state m'))" if "j \<in> set ids" for j
    using that at ids by (auto simp: in_set_conv_nth)
  have "dom (ss_sessions (sm_state m')) = set ids \<union> {j. \<exists>s. ss_sessions (sm_state m) j = Some s
      \<and> (case se_disconnected_at s of None \<Rightarrow> True | Some since \<Rightarrow> now - since < chrono_grace (sm_grace m))}"
  proof (intro set_eqI)
    fix j
    show "j \<in> dom (ss_sessions (sm_state m')) \<longleftrightarrow> j \<in> set ids \<union> {j. \<exists>s. ss_sessions (sm_state m) j = Some s
      \<and> (case se_disconnected_at s of None \<Rightarrow> True | Some since \<Rightarrow> now - since < chrono_grace (sm_grace m))}"
      using in_dom [of j] rest [of j] expired_keeps_recent [OF old [of j], of now "chrono_grace (sm_grace m)"]
      by (cases "j \<in> set ids") (simp_all add: domIff)
  qed
  then show ?thesis
    using ids at lineage refreshed_shows_server [OF _ refl] rest expired_is_marked
    by (intro exI [of _ ids]) simp
qed

section \<open>Known lineages keep their sessions\<close>

lemma find_unique: "x \<in> set xs \<Longrightarrow> (\<And>y. P y \<longleftrightarrow> y = x) \<Longrightarrow> find P xs = Some x"
  by (induction xs) auto

lemma filter_unique: "distinct xs \<Longrightarrow> (\<And>y. P y \<longleftrightarrow> y = x) \<Longrightarrow> length (filter P xs) \<le> 1"
  by (induction xs) (auto simp: filter_empty_conv)

definition owns :: "session_state \<Rightarrow> session_lineage option \<Rightarrow> session_id \<Rightarrow> bool" where
  "owns st lineage i \<longleftrightarrow> lineage \<noteq> None \<and> (\<forall>j. ss_lineages st j = lineage \<longleftrightarrow> j = i)"

lemma assign_owner:
  assumes "\<not> pd_ambiguous item" "owns st (pd_lineage item) sid" "sid \<notin> assigned"
    and "set (io_lineages ord) = dom (ss_lineages st)" "distinct (io_lineages ord)"
  shows "assign_one env codec ord st assigned item i rs = (Some sid, rs)"
proof -
  obtain l where l: "pd_lineage item = Some l" "\<And>j. ss_lineages st j = Some l \<longleftrightarrow> j = sid"
    using assms (2) by (auto simp: owns_def)
  have "\<not> 1 < length (filter (\<lambda>j. ss_lineages st j = Some l) (io_lineages ord))"
    using filter_unique [OF assms (5) l (2)] by simp
  moreover have "find_lineage_match ord st l assigned = Some sid"
    unfolding find_lineage_match_def using l (2) assms (3,4) by (intro find_unique) auto
  ultimately show ?thesis
    using l assms (1) by (cases rs) (simp add: assign_one_def current_match_def Let_def)
qed

lemma assign_all_owners:
  "\<forall>(item, i) \<in> set items. \<not> pd_ambiguous item \<and> owns st (pd_lineage item) (owner item) \<Longrightarrow>
     distinct (map (pd_lineage \<circ> fst) items) \<Longrightarrow> owner ` fst ` set items \<inter> assigned = {} \<Longrightarrow>
     set (io_lineages ord) = dom (ss_lineages st) \<Longrightarrow> distinct (io_lineages ord) \<Longrightarrow>
     assign_all env codec ord st assigned items rs = (Some (map (owner \<circ> fst) items), rs)"
proof (induction items arbitrary: assigned)
  case (Cons x items)
  obtain item i where x: "x = (item, i)" by force
  have one: "assign_one env codec ord st assigned item i rs = (Some (owner item), rs)"
    using Cons.prems by (intro assign_owner) (auto simp: x)
  have "owner other \<noteq> owner item" if "(other, k) \<in> set items" for other k
  proof
    assume same: "owner other = owner item"
    have "owns st (pd_lineage other) (owner other)" "owns st (pd_lineage item) (owner item)"
      using Cons.prems (1) that by (auto simp: x)
    then have "pd_lineage other = pd_lineage item" using same unfolding owns_def by metis
    moreover have "pd_lineage other \<in> (pd_lineage \<circ> fst) ` set items" using that by force
    ultimately show False using Cons.prems (2) by (simp add: x)
  qed
  then have "owner ` fst ` set items \<inter> insert (owner item) assigned = {}"
    using Cons.prems (3) by (fastforce simp: x)
  then have "assign_all env codec ord st (insert (owner item) assigned) items rs
      = (Some (map (owner \<circ> fst) items), rs)"
    using Cons.prems by (intro Cons.IH) auto
  then show ?case by (simp add: x one)
qed simp

lemma prepared_unambiguous:
  assumes "distinct (map (\<lambda>d. pd_lineage (prepare_server env d)) discovered)" "k < length discovered"
  shows "\<not> pd_ambiguous (prepared_at env discovered k)"
proof -
  let ?prepared = "map (prepare_server env) discovered"
  have "length (filter (\<lambda>other. pd_lineage other = Some l) ?prepared) \<le> 1" for l
  proof -
    have "filter (\<lambda>other. pd_lineage other = Some l) ?prepared
        = map (prepare_server env) (filter (\<lambda>d. pd_lineage (prepare_server env d) = Some l) discovered)"
      by (simp add: filter_map comp_def)
    moreover have "length (filter (\<lambda>d. pd_lineage (prepare_server env d) = Some l) discovered)
        = length (filter (\<lambda>x. x = Some l) (map (\<lambda>d. pd_lineage (prepare_server env d)) discovered))"
      by (simp add: filter_map comp_def)
    ultimately show ?thesis using filter_unique [OF assms (1), of "\<lambda>x. x = Some l"] by simp
  qed
  then show ?thesis using assms (2)
    by (auto simp: prepared_at_def prepare_discovery_batch_def Let_def not_less split: option.split)
qed

text \<open>C34. Known projects keep their sessions. If the servers of a batch have distinct lineages and each
  lineage belongs to exactly one session, then every server is given that session, wherever it
  listens now and whatever other sessions match its endpoint or project: no session is created
  for it, the session keeps its creation time, and the identity registry is not touched.
\<close>

theorem known_lineages_keep_their_sessions:
  assumes "reconcile env codec i discovered now (m, registry) = (Some res, m', registry')"
    and "length (rc_assign i) = length discovered" "distinct (rc_keys i)"
    and "set (io_lineages (rc_order i)) = dom (ss_lineages (sm_state m))" "distinct (io_lineages (rc_order i))"
    and "distinct (map (\<lambda>d. pd_lineage (prepare_server env d)) discovered)"
    and "\<forall>d \<in> set discovered. owns (sm_state m) (pd_lineage (prepare_server env d)) (owner d)"
  shows "registry' = registry \<and> sm_identity_resolver m' = sm_identity_resolver m
    \<and> (\<forall>d \<in> set discovered. \<exists>s. ss_sessions (sm_state m') (owner d) = Some s
        \<and> se_endpoint s = lc_endpoint (ds_candidate d) \<and> se_disconnected_at s = None
        \<and> (\<forall>s0. ss_sessions (meanwhile i (sm_state m)) (owner d) = Some s0 \<longrightarrow>
             se_id s = se_id s0 \<and> se_first_seen s = se_first_seen s0
             \<and> se_preview_visible s = se_preview_visible s0))"
proof -
  let ?items = "zip (prepare_discovery_batch env discovered) (rc_assign i)"
  obtain ids where all: "assign_all env codec (rc_order i) (sm_state m) {} ?items
        (sm_identity_resolver m, registry) = (Some ids, sm_identity_resolver m', registry')"
    and at: "\<And>k. k < length discovered \<Longrightarrow> ss_sessions (sm_state m') (ids ! k)
        = Some (refreshed now (prepared_at env discovered k) (ids ! k)
            (ss_sessions (meanwhile i (sm_state m)) (ids ! k)))"
    using reconcile_states [OF assms (1-3)] by metis
  let ?owner = "\<lambda>item. owner (pd_server item)"
  have item: "\<not> pd_ambiguous item \<and> owns (sm_state m) (pd_lineage item) (?owner item)"
    if mem: "(item, x) \<in> set ?items" for item x
  proof -
    obtain k where k: "k < length discovered" "item = prepared_at env discovered k"
      using mem by (auto simp: set_zip prepared_at_def)
    then show ?thesis
      using prepared_unambiguous [OF assms (6) k (1)] prepared_at_simps [OF k (1)] assms (7) by simp
  qed
  have lineages: "map (pd_lineage \<circ> fst) ?items = map (\<lambda>d. pd_lineage (prepare_server env d)) discovered"
  proof -
    have "map (pd_lineage \<circ> fst) ?items = map pd_lineage (map fst ?items)" by simp
    also have "map fst ?items = prepare_discovery_batch env discovered" using assms (2) by simp
    finally show ?thesis by (simp add: prepare_discovery_batch_def Let_def comp_def)
  qed
  have "assign_all env codec (rc_order i) (sm_state m) {} ?items (sm_identity_resolver m, registry)
      = (Some (map (?owner \<circ> fst) ?items), sm_identity_resolver m, registry)"
    using item lineages assms (4-6) by (intro assign_all_owners) auto
  then have ids: "ids = map (?owner \<circ> fst) ?items"
    and same: "registry' = registry" "sm_identity_resolver m' = sm_identity_resolver m"
    using all by auto
  have "ids ! k = owner (discovered ! k)" if "k < length discovered" for k
    using that assms (2) prepared_at_simps (1) [OF that, of env] by (simp add: ids prepared_at_def)
  then have "\<exists>s. ss_sessions (sm_state m') (owner d) = Some s
        \<and> se_endpoint s = lc_endpoint (ds_candidate d) \<and> se_disconnected_at s = None
        \<and> (\<forall>s0. ss_sessions (meanwhile i (sm_state m)) (owner d) = Some s0 \<longrightarrow>
             se_id s = se_id s0 \<and> se_first_seen s = se_first_seen s0
             \<and> se_preview_visible s = se_preview_visible s0)" if "d \<in> set discovered" for d
    using that at prepared_at_simps (1) [of _ discovered env]
    by (auto simp: in_set_conv_nth refreshed_def Let_def split: option.split)
  then show ?thesis using same by blast
qed

text \<open>
  A session that was made visible while its server was gone is not reported when the server
  comes back, as its status no longer says that it was disconnected.
\<close>

lemma visible_session_reconnects_unreported:
  assumes "ss_sessions st i = Some s" "se_disconnected_at s = Some since"
  shows "rr_reconnected (snd (apply_item now (item, i) (snd (set_preview_visible i True st), res))) = rr_reconnected res"
    and "se_status s = SessionDisconnected \<Longrightarrow>
      rr_reconnected (snd (apply_item now (item, i) (st, res))) = rr_reconnected res @ [i]"
  using assms by (simp_all add: set_preview_visible_def apply_item_def Let_def)

section \<open>A project that moves\<close>

definition demo_env :: host_env where
  "demo_env = \<lparr>he_flavor = UnixFlavor, he_lowercase = id, he_ancestors = (\<lambda>p. [p]), he_has_git = (\<lambda>_. False),
     he_file_name = (\<lambda>_. None), he_hash = (\<lambda>p c. of_nat (length p))\<rparr>"

definition demo_server :: "string \<Rightarrow> 16 word \<Rightarrow> discovered_server" where
  "demo_server cwd port = \<lparr>
     ds_candidate = \<lparr>lc_endpoint = \<lparr>ep_host = ''localhost'', ep_port = port, ep_scheme = ''http''\<rparr>, lc_pid = None,
       lc_process_name = None, lc_command = None, lc_cwd = Some cwd\<rparr>,
     ds_classification = \<lparr>cl_kind = StaticSite, cl_confidence = 0, cl_framework = None, cl_title = None,
       cl_hmr_detected = False, cl_evidence = []\<rparr>\<rparr>"

definition demo_reconcile_input :: "session_id list \<Rightarrow> uuid list \<Rightarrow> reconcile_input" where
  "demo_reconcile_input keys draws = \<lparr>rc_order = \<lparr>io_sessions = keys, io_lineages = keys\<rparr>,
     rc_assign = map (\<lambda>d. \<lparr>ai_resolve = demo_resolve 9 NoCommitFault, ai_draws = [d]\<rparr>) draws,
     rc_meanwhile = [], rc_keys = remdups (keys @ draws)\<rparr>"

definition demo_session :: "string \<Rightarrow> 16 word \<Rightarrow> session_id \<Rightarrow> timestamp \<Rightarrow> session" where
  "demo_session cwd port i t = \<lparr>se_id = i, se_endpoint = lc_endpoint (ds_candidate (demo_server cwd port)),
     se_classification = ds_classification (demo_server cwd port),
     se_project = project_identity_of demo_env (ds_candidate (demo_server cwd port)),
     se_status = SessionActive, se_first_seen = t, se_last_seen = t, se_disconnected_at = None,
     se_preview_visible = False\<rparr>"

definition demo_manager :: "session_state \<Rightarrow> session_manager" where
  "demo_manager st = \<lparr>sm_state = st, sm_grace = 5, sm_identity_resolver = None\<rparr>"

definition demo_lineage :: "string \<Rightarrow> session_lineage" where
  "demo_lineage cwd = LineageV1 (ProjectAnchor cwd) SkStaticSite"

definition demo_sessions :: session_state where
  "demo_sessions = \<lparr>ss_sessions = [7 \<mapsto> demo_session ''/a'' 80 7 0], ss_lineages = [7 \<mapsto> demo_lineage ''/a'']\<rparr>"

lemma demo_lineages:
  "pd_lineage (prepare_server demo_env (demo_server ''/a'' port)) = Some (demo_lineage ''/a'')"
  "pd_lineage (prepare_server demo_env (demo_server ''/bb'' port)) = Some (demo_lineage ''/bb'')"
proof -
  have "session_lineage_of UnixFlavor id p e StaticSite = Inr (demo_lineage q)"
    if "pi_git_root p = Some q" "q = ''/a'' \<or> q = ''/bb''" for p e q
  proof -
    have "normalize_project_path UnixFlavor id ''/a'' = Inr ''/a''"
      "normalize_project_path UnixFlavor id ''/bb'' = Inr ''/bb''"
      by (simp_all add: normalize_project_path_def normalize_unix_path_def starts_with_def Let_def
          max_normalized_project_path_bytes_def)
    then show ?thesis using that by (auto simp: session_lineage_of_def demo_lineage_def)
  qed
  then show "pd_lineage (prepare_server demo_env (demo_server ''/a'' port)) = Some (demo_lineage ''/a'')"
    "pd_lineage (prepare_server demo_env (demo_server ''/bb'' port)) = Some (demo_lineage ''/bb'')"
    by (simp_all add: prepare_server_def Let_def demo_env_def demo_server_def project_identity_of_def
        git_root_or_cwd_def result_ok_def)
qed

lemma demo_prepared:
  "prepare_discovery_batch demo_env [demo_server ''/a'' port]
     = [\<lparr>pd_server = demo_server ''/a'' port,
         pd_project = project_identity_of demo_env (ds_candidate (demo_server ''/a'' port)),
         pd_lineage = Some (demo_lineage ''/a''), pd_ambiguous = False\<rparr>]"
  using demo_lineages (1) [of port] by (simp add: prepare_discovery_batch_def prepare_server_def Let_def)

lemma demo_first_reconcile:
  "reconcile demo_env demo_registry_codec (demo_reconcile_input [] [7]) [demo_server ''/a'' 80] 0
     (demo_manager empty_sessions, None)
   = (Some (empty_result\<lparr>rr_created := [7]\<rparr>), demo_manager demo_sessions, None)"
  by (simp add: reconcile_def demo_prepared demo_reconcile_input_def demo_manager_def empty_sessions_def
      assign_one_def current_match_def find_lineage_match_def find_legacy_project_match_def
      find_exact_endpoint_match_def find_session_def fresh_volatile_session_id_def apply_reconciliation_def
      apply_item_def expire_session_def demo_sessions_def demo_session_def List.map_filter_def Let_def
      empty_result_def)

theorem every_server_has_its_own_session_witness:
  "\<exists>i s. dom (ss_sessions demo_sessions) = {i} \<and> ss_sessions demo_sessions i = Some s
     \<and> se_endpoint s = lc_endpoint (ds_candidate (demo_server ''/a'' 80))"
proof -
  have "dom (ss_sessions (sm_state (demo_manager empty_sessions))) = {}"
    by (simp add: demo_manager_def empty_sessions_def)
  with every_server_has_its_own_session [OF demo_first_reconcile] obtain ids where ids: "length ids = 1"
    "\<exists>s. ss_sessions demo_sessions (ids ! 0) = Some s
        \<and> se_endpoint s = lc_endpoint (ds_candidate (demo_server ''/a'' 80))"
    "dom (ss_sessions demo_sessions) = set ids"
    by (auto simp: demo_reconcile_input_def demo_manager_def empty_sessions_def)
  then obtain i where "ids = [i]" by (cases ids) auto
  then show ?thesis using ids by auto
qed

text \<open>The project comes back on another port, beside a new project on its old one.\<close>

lemma demo_second_reconcile:
  "\<exists>res m'. reconcile demo_env demo_registry_codec (demo_reconcile_input [7] [8]) [demo_server ''/a'' 81] 1
     (demo_manager demo_sessions, None) = (Some res, m', None)"
  by (simp add: reconcile_def demo_prepared demo_reconcile_input_def demo_manager_def demo_sessions_def
      assign_one_def current_match_def find_lineage_match_def Let_def split: prod.split)

theorem known_lineages_keep_their_sessions_witness:
  "\<exists>res m' s. reconcile demo_env demo_registry_codec (demo_reconcile_input [7] [8]) [demo_server ''/a'' 81] 1
     (demo_manager demo_sessions, None) = (Some res, m', None)
   \<and> ss_sessions (sm_state m') 7 = Some s \<and> ep_port (se_endpoint s) = 81 \<and> se_first_seen s = 0"
proof -
  obtain res m' where run: "reconcile demo_env demo_registry_codec (demo_reconcile_input [7] [8])
      [demo_server ''/a'' 81] 1 (demo_manager demo_sessions, None) = (Some res, m', None)"
    using demo_second_reconcile by blast
  have m: "sm_state (demo_manager st) = st" for st by (simp add: demo_manager_def)
  have "owns demo_sessions (Some (demo_lineage ''/a'')) 7" by (simp add: owns_def demo_sessions_def)
  then have "\<exists>s. ss_sessions (sm_state m') 7 = Some s \<and> se_endpoint s = lc_endpoint (ds_candidate (demo_server ''/a'' 81))
      \<and> se_first_seen s = se_first_seen (demo_session ''/a'' 80 7 0)"
    using known_lineages_keep_their_sessions [OF run, of "\<lambda>_. 7"] demo_lineages (1)
    by (auto simp: m demo_reconcile_input_def demo_sessions_def meanwhile_def)
  then show ?thesis using run by (auto simp: demo_server_def demo_session_def)
qed

text \<open>
  The order of the batch matters: a new project that listens where a known one did takes its
  session when it comes first, and the known project, found elsewhere, gets a new one.
\<close>

lemma newcomer_takes_session:
  "map_option (\<lambda>r. (rr_created r, rr_reconnected r)) (fst (reconcile demo_env demo_registry_codec
     (demo_reconcile_input [7] [8, 9]) [demo_server ''/bb'' 80, demo_server ''/a'' 81] 1 (demo_manager demo_sessions, None)))
     = Some ([9], [])"
  "ss_lineages (sm_state (fst (snd (reconcile demo_env demo_registry_codec
     (demo_reconcile_input [7] [8, 9]) [demo_server ''/bb'' 80, demo_server ''/a'' 81] 1 (demo_manager demo_sessions, None))))) 7
     = Some (demo_lineage ''/bb'')"
  by code_simp+

end
