(* ===== verification/Surface_Owner.thy ===== *)
theory Surface_Owner
  imports Ordered_Map
begin

text \<open>
  The leases of surface owners (\<open>src/crates/control/src/surface_owner.rs\<close>). The registry is a
  process-wide table keyed by the address of a session manager, whose entry is dropped with its
  manager; every operation runs on behalf of a manager that is alive and reads and writes the
  entry of that manager alone. The state below is that entry: \<open>None\<close> before the first owner
  registers. An \<open>Instant\<close> counts nanoseconds and is read before the lock is taken, so the times
  of operations need not be ordered.
\<close>

definition surface_owner_ttl :: int where
  "surface_owner_ttl = 15000000000"

record surface_owner_proof =
  sp_owner_instance_id :: uuid
  sp_boot_epoch :: uuid
  sp_owner_lease_id :: uuid

record surface_owner_registration =
  sg_owner_instance_id :: uuid
  sg_boot_epoch :: uuid
  sg_owner_lease_id :: uuid
  sg_recovery_required :: bool

datatype surface_owner_error = OwnerNotRegistered | BootEpochMismatch | LeaseMismatch

record surface_owner_lease =
  so_owner_lease_id :: uuid
  so_last_seen :: timestamp
  so_in_flight :: u64

record surface_owner_entry =
  oe_boot_epoch :: uuid
  oe_leases :: "(uuid, surface_owner_lease) btree_map"

type_synonym surface_owners = "surface_owner_entry option"

definition owner_expired :: "timestamp \<Rightarrow> timestamp \<Rightarrow> bool" where
  "owner_expired last_seen now \<longleftrightarrow> last_seen \<le> now \<and> surface_owner_ttl \<le> now - last_seen"

definition saturating_sub :: "u64 \<Rightarrow> u64 \<Rightarrow> u64" where
  "saturating_sub a b = (if b \<le> a then a - b else 0)"

text \<open>The entry, made with the drawn \<open>epoch\<close> when there is none.\<close>

definition owners_or_new :: "uuid \<Rightarrow> surface_owners \<Rightarrow> surface_owner_entry" where
  "owners_or_new epoch os =
     (case os of Some e \<Rightarrow> e | None \<Rightarrow> \<lparr>oe_boot_epoch = epoch, oe_leases = []\<rparr>)"

definition register_surface_owner_at ::
  "bool \<Rightarrow> uuid \<Rightarrow> uuid \<Rightarrow> uuid \<Rightarrow> timestamp \<Rightarrow> surface_owners
    \<Rightarrow> surface_owner_registration \<times> surface_owners" where
  "register_surface_owner_at recovery_required epoch lease_id owner now os =
     (let e = owners_or_new epoch os;
          in_flight = (case map_of (oe_leases e) owner of None \<Rightarrow> 0 | Some l \<Rightarrow> so_in_flight l);
          lease = \<lparr>so_owner_lease_id = lease_id, so_last_seen = now, so_in_flight = in_flight\<rparr>
      in (\<lparr>sg_owner_instance_id = owner, sg_boot_epoch = oe_boot_epoch e, sg_owner_lease_id = lease_id,
           sg_recovery_required = recovery_required\<rparr>,
          Some (e\<lparr>oe_leases := bt_insert owner lease (oe_leases e)\<rparr>)))"

text \<open>The guards that pinning and the heartbeat share.\<close>

definition current_lease ::
  "surface_owner_proof \<Rightarrow> timestamp \<Rightarrow> surface_owners
    \<Rightarrow> surface_owner_error + surface_owner_entry \<times> surface_owner_lease" where
  "current_lease proof now os =
     (case os of
        None \<Rightarrow> Inl OwnerNotRegistered
      | Some e \<Rightarrow>
          if sp_boot_epoch proof \<noteq> oe_boot_epoch e then Inl BootEpochMismatch
          else case map_of (oe_leases e) (sp_owner_instance_id proof) of
            None \<Rightarrow> Inl OwnerNotRegistered
          | Some current \<Rightarrow>
              if sp_owner_lease_id proof \<noteq> so_owner_lease_id current then Inl LeaseMismatch
              else if owner_expired (so_last_seen current) now then Inl OwnerNotRegistered
              else Inr (e, current))"

definition with_lease ::
  "surface_owner_entry \<Rightarrow> uuid \<Rightarrow> surface_owner_lease \<Rightarrow> surface_owners" where
  "with_lease e owner lease = Some (e\<lparr>oe_leases := bt_insert owner lease (oe_leases e)\<rparr>)"

text \<open>A pinned operation is represented by the owner its guard names.\<close>

definition pin_surface_owner_at ::
  "surface_owner_proof \<Rightarrow> timestamp \<Rightarrow> surface_owners \<Rightarrow> (surface_owner_error + uuid) \<times> surface_owners" where
  "pin_surface_owner_at proof now os =
     (case current_lease proof now os of
        Inl err \<Rightarrow> (Inl err, os)
      | Inr (e, current) \<Rightarrow>
          (Inr (sp_owner_instance_id proof),
           with_lease e (sp_owner_instance_id proof)
             (current\<lparr>so_in_flight := saturating_add (so_in_flight current) 1\<rparr>)))"

definition drop_owner_guard :: "uuid \<Rightarrow> surface_owners \<Rightarrow> surface_owners" where
  "drop_owner_guard owner os =
     (case os of
        None \<Rightarrow> None
      | Some e \<Rightarrow>
          (case map_of (oe_leases e) owner of
             None \<Rightarrow> Some e
           | Some current \<Rightarrow>
               with_lease e owner (current\<lparr>so_in_flight := saturating_sub (so_in_flight current) 1\<rparr>)))"

definition heartbeat_surface_owner_at ::
  "surface_owner_proof \<Rightarrow> timestamp \<Rightarrow> surface_owners \<Rightarrow> (surface_owner_error + unit) \<times> surface_owners" where
  "heartbeat_surface_owner_at proof now os =
     (case current_lease proof now os of
        Inl err \<Rightarrow> (Inl err, os)
      | Inr (e, current) \<Rightarrow>
          (Inr (), with_lease e (sp_owner_instance_id proof) (current\<lparr>so_last_seen := now\<rparr>)))"

definition reapable :: "timestamp \<Rightarrow> surface_owner_lease \<Rightarrow> bool" where
  "reapable now l \<longleftrightarrow> owner_expired (so_last_seen l) now \<and> so_in_flight l = 0"

definition reap_expired_surface_owners_at :: "timestamp \<Rightarrow> surface_owners \<Rightarrow> uuid list \<times> surface_owners" where
  "reap_expired_surface_owners_at now os =
     (case os of
        None \<Rightarrow> ([], None)
      | Some e \<Rightarrow>
          (map fst (filter (\<lambda>(_, l). reapable now l) (oe_leases e)),
           Some (e\<lparr>oe_leases := filter (\<lambda>(_, l). \<not> reapable now l) (oe_leases e)\<rparr>)))"

section \<open>What an owner holds\<close>

definition owners_wf :: "surface_owners \<Rightarrow> bool" where
  "owners_wf os \<longleftrightarrow> (case os of None \<Rightarrow> True | Some e \<Rightarrow> bt_wf (oe_leases e))"

definition lease_of :: "surface_owners \<Rightarrow> uuid \<Rightarrow> surface_owner_lease option" where
  "lease_of os owner = (case os of None \<Rightarrow> None | Some e \<Rightarrow> map_of (oe_leases e) owner)"

definition in_flight_of :: "surface_owners \<Rightarrow> uuid \<Rightarrow> u64" where
  "in_flight_of os owner = (case lease_of os owner of None \<Rightarrow> 0 | Some l \<Rightarrow> so_in_flight l)"

lemma owners_wf_None [simp]: "owners_wf None"
  by (simp add: owners_wf_def)

lemma owners_wf_with_lease [simp]: "owners_wf (Some e) \<Longrightarrow> owners_wf (with_lease e owner l)"
  by (simp add: owners_wf_def with_lease_def)

lemma lease_of_with_lease [simp]:
  "owners_wf (Some e) \<Longrightarrow> lease_of (with_lease e owner l) o' = (if o' = owner then Some l else lease_of (Some e) o')"
  by (simp add: owners_wf_def with_lease_def lease_of_def)

lemma current_lease_Inr:
  "current_lease proof now os = Inr (e, l) \<longleftrightarrow>
     os = Some e \<and> sp_boot_epoch proof = oe_boot_epoch e
       \<and> lease_of os (sp_owner_instance_id proof) = Some l
       \<and> sp_owner_lease_id proof = so_owner_lease_id l \<and> \<not> owner_expired (so_last_seen l) now"
  by (auto simp: current_lease_def lease_of_def split: option.splits if_splits)

lemma register_wf [simp]: "owners_wf os \<Longrightarrow> owners_wf (snd (register_surface_owner_at r epoch lid owner now os))"
  by (auto simp: owners_wf_def register_surface_owner_at_def owners_or_new_def Let_def bt_wf_Cons
      split: option.splits)

lemma pin_wf [simp]: "owners_wf os \<Longrightarrow> owners_wf (snd (pin_surface_owner_at proof now os))"
  by (auto simp: pin_surface_owner_at_def current_lease_Inr split: sum.split)

lemma drop_guard_wf [simp]: "owners_wf os \<Longrightarrow> owners_wf (drop_owner_guard owner os)"
  by (auto simp: drop_owner_guard_def split: option.split)

lemma heartbeat_wf [simp]: "owners_wf os \<Longrightarrow> owners_wf (snd (heartbeat_surface_owner_at proof now os))"
  by (auto simp: heartbeat_surface_owner_at_def current_lease_Inr split: sum.split)

lemma reap_wf [simp]: "owners_wf os \<Longrightarrow> owners_wf (snd (reap_expired_surface_owners_at now os))"
  by (auto simp: owners_wf_def bt_wf_def reap_expired_surface_owners_at_def sorted_wrt_map sorted_wrt_filter
      split: option.split)

section \<open>The count of pinned operations\<close>

lemma register_in_flight [simp]:
  "owners_wf os \<Longrightarrow> in_flight_of (snd (register_surface_owner_at r epoch lid owner now os)) o' = in_flight_of os o'"
  by (auto simp: owners_wf_def register_surface_owner_at_def owners_or_new_def Let_def in_flight_of_def lease_of_def
      split: option.splits)

lemma pin_in_flight:
  assumes "owners_wf os" "pin_surface_owner_at proof now os = (Inr owner, os')"
  shows "in_flight_of os' o' = (if o' = owner then saturating_add (in_flight_of os owner) 1 else in_flight_of os o')"
    and "owner = sp_owner_instance_id proof"
  using assms by (auto simp: pin_surface_owner_at_def current_lease_Inr in_flight_of_def split: sum.splits)

lemma pin_refused: "pin_surface_owner_at proof now os = (Inl err, os') \<Longrightarrow> os' = os"
  by (auto simp: pin_surface_owner_at_def split: sum.splits prod.splits)

lemma drop_guard_in_flight:
  "owners_wf os \<Longrightarrow> in_flight_of (drop_owner_guard owner os) o'
     = (if o' = owner then saturating_sub (in_flight_of os owner) 1 else in_flight_of os o')"
  by (auto simp: drop_owner_guard_def in_flight_of_def lease_of_def [of "Some _"] saturating_sub_def
      split: option.split) (auto simp: lease_of_def)

lemma heartbeat_in_flight [simp]:
  "owners_wf os \<Longrightarrow> in_flight_of (snd (heartbeat_surface_owner_at proof now os)) o' = in_flight_of os o'"
  by (auto simp: heartbeat_surface_owner_at_def current_lease_Inr in_flight_of_def split: sum.split)

lemma map_of_filter_value:
  "distinct (map fst m) \<Longrightarrow> map_of (filter (\<lambda>(_, l). P l) m) k
     = (case map_of m k of None \<Rightarrow> None | Some l \<Rightarrow> if P l then Some l else None)"
proof (induction m)
  case (Cons a m)
  have "k \<notin> fst ` set m \<Longrightarrow> map_of (filter (\<lambda>(_, l). P l) m) k = None"
    by (auto simp: map_of_eq_None_iff)
  with Cons show ?case by (cases a) (auto simp: map_of_eq_None_iff)
qed simp

lemma reap_lease:
  assumes "owners_wf os"
  shows "lease_of (snd (reap_expired_surface_owners_at now os)) owner
      = (case lease_of os owner of None \<Rightarrow> None | Some l \<Rightarrow> if reapable now l then None else Some l)"
proof (cases os)
  case (Some e)
  with assms have "distinct (map fst (oe_leases e))" by (simp add: owners_wf_def bt_wf_distinct)
  with Some show ?thesis
    by (simp add: reap_expired_surface_owners_at_def lease_of_def map_of_filter_value [where P = "\<lambda>l. \<not> reapable now l"]
        split: option.split)
qed (simp add: reap_expired_surface_owners_at_def lease_of_def)

lemma reaped_iff:
  assumes "owners_wf os"
  shows "owner \<in> set (fst (reap_expired_surface_owners_at now os))
      \<longleftrightarrow> (\<exists>l. lease_of os owner = Some l \<and> reapable now l)"
proof (cases os)
  case (Some e)
  with assms have "bt_wf (oe_leases e)" by (simp add: owners_wf_def)
  from bt_mem_iff [OF this, symmetric] Some show ?thesis
    by (auto simp: reap_expired_surface_owners_at_def lease_of_def image_iff)
qed (simp add: reap_expired_surface_owners_at_def lease_of_def)

lemma reap_in_flight:
  "owners_wf os \<Longrightarrow> in_flight_of (snd (reap_expired_surface_owners_at now os)) owner = in_flight_of os owner"
  by (auto simp: in_flight_of_def reap_lease reapable_def split: option.split)

lemma pinned_is_not_reaped:
  "owners_wf os \<Longrightarrow> in_flight_of os owner \<noteq> 0 \<Longrightarrow> owner \<notin> set (fst (reap_expired_surface_owners_at now os))"
  by (auto simp: reaped_iff in_flight_of_def reapable_def)

end
