(* ===== verification/Surface_Recovery.thy ===== *)
theory Surface_Recovery
  imports Journal_Store Session_Identity
begin

text \<open>
  The recovery journal of surfaces (\<open>src/crates/control/src/surface_recovery.rs\<close>): one JSON
  line for each surface that was activated, released or attached again, and the set of surfaces
  that are still outstanding. A \<open>BTreeSet\<close> that is only searched is a set. The JSON codec is a
  parameter; the calls of the file system that fail are an argument of each operation. The
  counters stay below their bounds, so they are natural numbers.
\<close>

section \<open>Keys and events\<close>

record surface_recovery_key =
  sk_session_id :: session_id
  sk_surface_kind :: string
  sk_label :: string
  sk_incarnation :: u64
  sk_owner_instance_id :: uuid

datatype surface_recovery_event =
    SurfaceActivated surface_recovery_key
  | SurfaceReleased surface_recovery_key
  | SurfaceReattached surface_recovery_key

datatype surface_recovery_error =
    SurfaceIo string | SurfaceCorruptJournal | SurfaceInvalidKey | SurfaceEventTooLarge | SurfaceJournalFull

definition max_event_bytes :: nat where "max_event_bytes = 2048"
definition max_journal_bytes :: nat where "max_journal_bytes = 4194304"
definition max_journal_events :: nat where "max_journal_events = 8192"

definition surface_kind_known :: "string \<Rightarrow> bool" where
  "surface_kind_known kind \<longleftrightarrow> kind = ''preview_window'' \<or> kind = ''workspace_child''"

definition surface_label_ok :: "string \<Rightarrow> bool" where
  "surface_label_ok label \<longleftrightarrow> label \<noteq> [] \<and> length label \<le> 160 \<and> \<not> has_control label"

definition surface_key_valid :: "surface_recovery_key \<Rightarrow> bool" where
  "surface_key_valid k \<longleftrightarrow>
     sk_session_id k \<noteq> 0 \<and> sk_owner_instance_id k \<noteq> 0 \<and> sk_incarnation k \<noteq> 0
       \<and> surface_kind_known (sk_surface_kind k) \<and> surface_label_ok (sk_label k)"

definition surface_key_new ::
  "session_id \<Rightarrow> string \<Rightarrow> string \<Rightarrow> u64 \<Rightarrow> uuid \<Rightarrow> surface_recovery_error + surface_recovery_key" where
  "surface_key_new session kind label incarnation owner =
     (let k = \<lparr>sk_session_id = session, sk_surface_kind = kind, sk_label = label,
               sk_incarnation = incarnation, sk_owner_instance_id = owner\<rparr>
      in if surface_key_valid k then Inr k else Inl SurfaceInvalidKey)"

fun event_key :: "surface_recovery_event \<Rightarrow> surface_recovery_key" where
  "event_key (SurfaceActivated k) = k"
| "event_key (SurfaceReleased k) = k"
| "event_key (SurfaceReattached k) = k"

fun apply_event :: "surface_recovery_event \<Rightarrow> surface_recovery_key set \<Rightarrow> surface_recovery_key set" where
  "apply_event (SurfaceActivated k) outstanding = insert k outstanding"
| "apply_event (SurfaceReleased k) outstanding = outstanding - {k}"
| "apply_event (SurfaceReattached k) outstanding = outstanding - {k}"

section \<open>Text\<close>

text \<open>\<open>str::from_utf8\<close>: the well-formed byte sequences of the Unicode standard.\<close>

definition in_range :: "nat \<Rightarrow> nat \<Rightarrow> u8 \<Rightarrow> bool" where
  "in_range low high b \<longleftrightarrow> low \<le> unat b \<and> unat b \<le> high"

abbreviation continuation :: "u8 \<Rightarrow> bool" where
  "continuation \<equiv> in_range 128 191"

definition second_of_three :: "u8 \<Rightarrow> u8 \<Rightarrow> bool" where
  "second_of_three a b =
     (if unat a = 224 then in_range 160 191 b else if unat a = 237 then in_range 128 159 b else continuation b)"

definition second_of_four :: "u8 \<Rightarrow> u8 \<Rightarrow> bool" where
  "second_of_four a b =
     (if unat a = 240 then in_range 144 191 b else if unat a = 244 then in_range 128 143 b else continuation b)"

fun valid_utf8 :: "bytes \<Rightarrow> bool" where
  "valid_utf8 [] = True"
| "valid_utf8 (a # s) =
     (if in_range 0 127 a then valid_utf8 s
      else case s of [] \<Rightarrow> False
      | b # s2 \<Rightarrow>
          if in_range 194 223 a then continuation b \<and> valid_utf8 s2
          else case s2 of [] \<Rightarrow> False
          | c # s3 \<Rightarrow>
              if in_range 224 239 a then second_of_three a b \<and> continuation c \<and> valid_utf8 s3
              else case s3 of [] \<Rightarrow> False
              | d # s4 \<Rightarrow> in_range 240 244 a \<and> second_of_four a b \<and> continuation c \<and> continuation d
                  \<and> valid_utf8 s4)"

text \<open>\<open>str::lines\<close>: the pieces that end with a newline, without it and without a carriage
  return before it, and the rest of the text when there is one.\<close>

definition carriage_return :: u8 where
  "carriage_return = 0x0D"

definition strip_carriage_return :: "bytes \<Rightarrow> bytes" where
  "strip_carriage_return line =
     (if line \<noteq> [] \<and> last line = carriage_return then butlast line else line)"

fun text_lines :: "bytes \<Rightarrow> bytes \<Rightarrow> bytes list" where
  "text_lines line [] = (if line = [] then [] else [line])"
| "text_lines line (b # bs) =
     (if b = newline then strip_carriage_return line # text_lines [] bs else text_lines (line @ [b]) bs)"

section \<open>The journal\<close>

record surface_recovery_codec =
  sc_to_vec :: "surface_recovery_event \<Rightarrow> bytes option"
  sc_from_str :: "bytes \<Rightarrow> surface_recovery_event option"

record surface_recovery_state =
  sj_outstanding :: "surface_recovery_key set"
  sj_event_count :: nat
  sj_byte_count :: nat

fun replay_lines ::
  "surface_recovery_codec \<Rightarrow> surface_recovery_key set \<Rightarrow> nat \<Rightarrow> bytes list
    \<Rightarrow> surface_recovery_error + surface_recovery_key set \<times> nat" where
  "replay_lines codec outstanding count [] = Inr (outstanding, count)"
| "replay_lines codec outstanding count (line # lines) =
     (if line = [] \<or> max_event_bytes < length line then Inl SurfaceCorruptJournal
      else if max_journal_events < Suc count then Inl SurfaceJournalFull
      else case sc_from_str codec line of
        None \<Rightarrow> Inl SurfaceCorruptJournal
      | Some event \<Rightarrow>
          if \<not> surface_key_valid (event_key event) then Inl SurfaceInvalidKey
          else replay_lines codec (apply_event event outstanding) (Suc count) lines)"

text \<open>\<open>open\<close>: creating the directory may fail, and so may reading a file that is there.\<close>

definition open_recovery ::
  "surface_recovery_codec \<Rightarrow> path \<Rightarrow> string option \<Rightarrow> string option \<Rightarrow> file_system
    \<Rightarrow> surface_recovery_error + surface_recovery_state" where
  "open_recovery codec p create_dir_error read_error fs =
     (case create_dir_error of
        Some message \<Rightarrow> Inl (SurfaceIo message)
      | None \<Rightarrow>
          (case read_error of
             Some message \<Rightarrow> Inl (SurfaceIo message)
           | None \<Rightarrow>
               let bytes = file_contents fs p
               in if max_journal_bytes < length bytes then Inl SurfaceJournalFull
                  else if \<not> valid_utf8 bytes then Inl SurfaceCorruptJournal
                  else case replay_lines codec {} 0 (text_lines [] bytes) of
                    Inl err \<Rightarrow> Inl err
                  | Inr (outstanding, count) \<Rightarrow>
                      Inr \<lparr>sj_outstanding = outstanding, sj_event_count = count,
                           sj_byte_count = length bytes\<rparr>))"

text \<open>
  The calls of an append that fail. The asynchronous file writes in the background, so a failed
  write shows at \<open>write_all\<close> or at \<open>flush\<close>, after some bytes.
\<close>

record surface_append_faults =
  sf_open :: "string option"
  sf_write :: "(nat \<times> string) option"
  sf_sync :: "string option"

definition no_surface_faults :: surface_append_faults where
  "no_surface_faults = \<lparr>sf_open = None, sf_write = None, sf_sync = None\<rparr>"

definition append_surface_event ::
  "path \<Rightarrow> bytes \<Rightarrow> surface_append_faults \<Rightarrow> file_system \<Rightarrow> (surface_recovery_error + unit) \<times> file_system" where
  "append_surface_event p encoded faults fs =
     (case sf_open faults of
        Some message \<Rightarrow> (Inl (SurfaceIo message), fs)
      | None \<Rightarrow>
          (case sf_write faults of
             Some (n, message) \<Rightarrow>
               (Inl (SurfaceIo message), fs(p \<mapsto> file_contents fs p @ take n encoded))
           | None \<Rightarrow>
               (case sf_sync faults of
                  Some message \<Rightarrow> (Inl (SurfaceIo message), fs(p \<mapsto> file_contents fs p @ encoded))
                | None \<Rightarrow> (Inr (), fs(p \<mapsto> file_contents fs p @ encoded)))))"

definition record_event ::
  "surface_recovery_codec \<Rightarrow> path \<Rightarrow> surface_recovery_event \<Rightarrow> surface_append_faults
    \<Rightarrow> surface_recovery_state \<times> file_system
    \<Rightarrow> (surface_recovery_error + unit) \<times> surface_recovery_state \<times> file_system" where
  "record_event codec p event faults = (\<lambda>(st, fs).
     if \<not> surface_key_valid (event_key event) then (Inl SurfaceInvalidKey, st, fs)
     else case sc_to_vec codec event of
       None \<Rightarrow> (Inl SurfaceCorruptJournal, st, fs)
     | Some text \<Rightarrow>
         let encoded = text @ [newline]
         in if max_event_bytes < length encoded then (Inl SurfaceEventTooLarge, st, fs)
            else if max_journal_events \<le> sj_event_count st
                \<or> max_journal_bytes < sj_byte_count st + length encoded then (Inl SurfaceJournalFull, st, fs)
            else case append_surface_event p encoded faults fs of
              (Inl err, fs') \<Rightarrow> (Inl err, st, fs')
            | (Inr _, fs') \<Rightarrow>
                (Inr (), st\<lparr>sj_event_count := sj_event_count st + 1,
                    sj_byte_count := sj_byte_count st + length encoded,
                    sj_outstanding := apply_event event (sj_outstanding st)\<rparr>, fs'))"

definition outstanding_exact :: "surface_recovery_state \<Rightarrow> surface_recovery_key \<Rightarrow> bool" where
  "outstanding_exact st k \<longleftrightarrow> k \<in> sj_outstanding st"

definition has_outstanding_for_owner :: "surface_recovery_state \<Rightarrow> uuid \<Rightarrow> bool" where
  "has_outstanding_for_owner st owner \<longleftrightarrow> (\<exists>k \<in> sj_outstanding st. sk_owner_instance_id k = owner)"

definition outstanding_len :: "surface_recovery_state \<Rightarrow> nat" where
  "outstanding_len st = card (sj_outstanding st)"

end
