(* ===== verification/Surface_Runtime.thy ===== *)
theory Surface_Runtime
  imports Live_Bridge Resource_Governor Surface_Owner Surface_Recovery
begin

text \<open>
  The surface handlers of the control service (\<open>src/crates/control/src/resource_runtime.rs\<close>,
  \<open>surface_liveness.rs\<close>): they reserve a slot of the resource governor for a native surface, turn
  it into a live lease, record it in the recovery journal and give it back. A request is pinned to
  its owner for as long as it runs; between two locks it takes, and where it awaits, other requests
  run. So a request in progress is a task with a stage, and a stage is what one lock covers. A
  client that disconnects drops a task that awaits.

  The state belongs to one session manager: the process-wide tables are keyed by the address of the
  manager, and every operation here uses the entry of its own manager. Whether a session is known
  and which identifiers are drawn are inputs of the stage that asks.
\<close>

section \<open>State\<close>

text \<open>The key of a surface: owner, session, kind, label and incarnation, compared in this order.\<close>

type_synonym surface_claim = "uuid \<times> session_id \<times> string \<times> string \<times> u64"

text \<open>What makes two claims the same surface for a user.\<close>

fun claim_surface :: "surface_claim \<Rightarrow> session_id \<times> string \<times> string" where
  "claim_surface (owner, session, kind, label, incarnation) = (session, kind, label)"

fun claim_identity :: "surface_claim \<Rightarrow> live_surface_identity" where
  "claim_identity (owner, session, kind, label, incarnation) =
     \<lparr>ls_surface_kind = kind, ls_label = label, ls_incarnation = incarnation\<rparr>"

record surface_entry =
  sr_pending :: "(uuid \<times> session_id \<times> string, resource_reservation) btree_map"
  sr_activating :: "surface_claim set"
  sr_live :: "(surface_claim, live_resource_lease) btree_map"

definition empty_surface_entry :: surface_entry where
  "empty_surface_entry = \<lparr>sr_pending = [], sr_activating = {}, sr_live = []\<rparr>"

record surface_target =
  st_session_id :: session_id
  st_surface_kind :: string
  st_label :: string
  st_incarnation :: u64

datatype surface_request =
    ReserveSurface session_id string
  | CancelReservation session_id string
  | ActivateSurface surface_target string surface_visibility
  | ReattachSurface surface_target surface_visibility
  | UpdateVisibility surface_target surface_visibility
  | ReleaseSurface surface_target

datatype surface_response =
    NoContent
  | Unauthorized
  | SurfaceBadRequest string
  | SurfaceConflict string
  | SurfaceNotFound string
  | RecoveryUnavailable
  | GovernorDenied resource_admission_denial

datatype surface_stage =
    Admitted surface_request
  | Claimed surface_claim surface_visibility surface_recovery_event resource_reservation
  | Activated surface_claim surface_recovery_event live_resource_lease
  | Recorded surface_claim live_resource_lease
  | Withdrawing surface_claim "live_resource_lease option" surface_response
  | Dropping "live_resource_lease option" surface_response
  | Removed surface_claim bool live_resource_lease
  | Retiring surface_claim bool
  | Discharging surface_claim
  | Finished surface_response

record surface_task =
  tk_owner :: uuid
  tk_stage :: surface_stage

record surface_world =
  wd_token :: string
  wd_owners :: surface_owners
  wd_surfaces :: "surface_entry option"
  wd_governor :: runtime_governor_state
  wd_recovery :: "surface_recovery_state option"
  wd_files :: file_system
  wd_bridge :: live_bridge
  wd_reaped :: "uuid list"
  wd_tasks :: "surface_task list"

record surface_env =
  en_uuid_display :: "uuid \<Rightarrow> string"
  en_json_display :: "json \<Rightarrow> string"
  en_codec :: surface_recovery_codec
  en_path :: path

section \<open>Helpers\<close>

definition authorized :: "string option \<Rightarrow> string \<Rightarrow> bool" where
  "authorized header token \<longleftrightarrow> header = Some (''Bearer '' @ token)"

definition valid_request_id :: "string \<Rightarrow> bool" where
  "valid_request_id v \<longleftrightarrow> v \<noteq> [] \<and> length v \<le> 160 \<and> \<not> has_control v"

definition surface_identity :: "surface_target \<Rightarrow> live_surface_identity option" where
  "surface_identity t =
     (if \<not> surface_kind_known (st_surface_kind t) \<or> \<not> surface_label_ok (st_label t) then None
      else Some \<lparr>ls_surface_kind = st_surface_kind t, ls_label = st_label t, ls_incarnation = st_incarnation t\<rparr>)"

definition claim_of :: "uuid \<Rightarrow> surface_target \<Rightarrow> surface_claim" where
  "claim_of owner t = (owner, st_session_id t, st_surface_kind t, st_label t, st_incarnation t)"

definition recovery_key_of :: "surface_claim \<Rightarrow> surface_recovery_error + surface_recovery_key" where
  "recovery_key_of c =
     (case c of (owner, session, kind, label, incarnation) \<Rightarrow> surface_key_new session kind label incarnation owner)"

definition surface_entry_or_new :: "surface_world \<Rightarrow> surface_entry" where
  "surface_entry_or_new w = (case wd_surfaces w of Some e \<Rightarrow> e | None \<Rightarrow> empty_surface_entry)"

definition surface_logically_claimed :: "surface_entry \<Rightarrow> surface_claim \<Rightarrow> bool" where
  "surface_logically_claimed e c \<longleftrightarrow>
     (\<exists>c' \<in> fst ` set (sr_live e) \<union> sr_activating e. claim_surface c' = claim_surface c)"

definition surface_owned_by_other_owner :: "surface_entry \<Rightarrow> surface_claim \<Rightarrow> bool" where
  "surface_owned_by_other_owner e c \<longleftrightarrow>
     list_ex (\<lambda>(c', _). fst c' \<noteq> fst c \<and> claim_surface c' = claim_surface c) (sr_live e)"

definition no_live_surface_conflict :: "surface_entry \<Rightarrow> surface_claim \<Rightarrow> surface_response" where
  "no_live_surface_conflict e c =
     SurfaceConflict (if surface_owned_by_other_owner e c then ''surface_owner_fence_mismatch''
       else ''surface_owner_incarnation_mismatch'')"

definition with_entry :: "surface_world \<Rightarrow> surface_entry \<Rightarrow> surface_world" where
  "with_entry w e = w\<lparr>wd_surfaces := Some e\<rparr>"

fun owner_error_code :: "surface_owner_error \<Rightarrow> string" where
  "owner_error_code OwnerNotRegistered = ''surface_owner_not_registered''"
| "owner_error_code BootEpochMismatch = ''surface_owner_boot_epoch_mismatch''"
| "owner_error_code LeaseMismatch = ''surface_owner_lease_mismatch''"

section \<open>Reservations\<close>

record stage_input =
  in_session_known :: bool
  in_fresh :: uuid
  in_faults :: surface_append_faults

definition reserve_surface_resource ::
  "surface_env \<Rightarrow> stage_input \<Rightarrow> uuid \<Rightarrow> session_id \<Rightarrow> string \<Rightarrow> surface_world
    \<Rightarrow> surface_stage \<times> surface_world" where
  "reserve_surface_resource env i owner session request_id w =
     (if \<not> in_session_known i then (Finished (SurfaceNotFound ''surface_session_not_found''), w)
      else if \<not> valid_request_id request_id then (Finished (SurfaceBadRequest ''invalid_surface_request_id''), w)
      else
        let e = surface_entry_or_new w; key = (owner, session, request_id)
        in if map_of (sr_pending e) key \<noteq> None then
             (Finished (SurfaceConflict ''surface_reservation_already_exists''), with_entry w e)
           else case reserve (wd_governor w) (en_uuid_display env session) request_id NativeSurfaceWork of
             (Inl denial, g) \<Rightarrow> (Finished (GovernorDenied denial), (with_entry w e)\<lparr>wd_governor := g\<rparr>)
           | (Inr reservation, g) \<Rightarrow>
               (Finished NoContent,
                (with_entry w (e\<lparr>sr_pending := bt_insert key reservation (sr_pending e)\<rparr>))\<lparr>wd_governor := g\<rparr>))"

definition cancel_surface_reservation ::
  "stage_input \<Rightarrow> uuid \<Rightarrow> session_id \<Rightarrow> string \<Rightarrow> surface_world \<Rightarrow> surface_stage \<times> surface_world" where
  "cancel_surface_reservation i owner session request_id w =
     (if \<not> in_session_known i then (Finished (SurfaceNotFound ''surface_session_not_found''), w)
      else if \<not> valid_request_id request_id then (Finished (SurfaceBadRequest ''invalid_surface_request_id''), w)
      else case wd_surfaces w of
        None \<Rightarrow> (Finished (SurfaceConflict ''surface_reservation_missing''), w)
      | Some e \<Rightarrow>
          (case map_of (sr_pending e) (owner, session, request_id) of
             None \<Rightarrow> (Finished (SurfaceConflict ''surface_reservation_missing''), w)
           | Some reservation \<Rightarrow>
               (Finished NoContent,
                (with_entry w (e\<lparr>sr_pending := bt_remove (owner, session, request_id) (sr_pending e)\<rparr>))
                  \<lparr>wd_governor := reservation_drop (wd_governor w) reservation\<rparr>)))"

section \<open>Activation\<close>

text \<open>What activation and reattachment check before they take the lock of the surfaces.\<close>

definition checked_claim ::
  "uuid \<Rightarrow> surface_target \<Rightarrow> surface_world
    \<Rightarrow> surface_response + surface_claim \<times> surface_recovery_key \<times> surface_recovery_state" where
  "checked_claim owner t w =
     (if st_incarnation t = 0 then Inl (SurfaceBadRequest ''invalid_surface_identity'')
      else case surface_identity t of
        None \<Rightarrow> Inl (SurfaceBadRequest ''invalid_surface_identity'')
      | Some _ \<Rightarrow>
          (case wd_recovery w of
             None \<Rightarrow> Inl RecoveryUnavailable
           | Some recovery \<Rightarrow>
               (case recovery_key_of (claim_of owner t) of
                  Inl _ \<Rightarrow> Inl (SurfaceBadRequest ''invalid_surface_identity'')
                | Inr k \<Rightarrow> Inr (claim_of owner t, k, recovery))))"

definition claim_activating :: "surface_entry \<Rightarrow> surface_claim \<Rightarrow> surface_entry" where
  "claim_activating e c = e\<lparr>sr_activating := insert c (sr_activating e)\<rparr>"

definition begin_activation ::
  "uuid \<Rightarrow> surface_target \<Rightarrow> string \<Rightarrow> surface_visibility \<Rightarrow> surface_world
    \<Rightarrow> surface_stage \<times> surface_world" where
  "begin_activation owner t request_id visibility w =
     (case checked_claim owner t w of
        Inl r \<Rightarrow> (Finished r, w)
      | Inr (c, k, _) \<Rightarrow>
          let e = surface_entry_or_new w; key = (owner, st_session_id t, request_id)
          in if surface_logically_claimed e c then
               (Finished (SurfaceConflict ''surface_owner_already_live''), with_entry w e)
             else case map_of (sr_pending e) key of
               None \<Rightarrow> (Finished (SurfaceConflict ''surface_reservation_missing''), with_entry w e)
             | Some reservation \<Rightarrow>
                 (Claimed c visibility (SurfaceActivated k) reservation,
                  with_entry w ((claim_activating e c)\<lparr>sr_pending := bt_remove key (sr_pending e)\<rparr>)))"

definition begin_reattachment ::
  "surface_env \<Rightarrow> stage_input \<Rightarrow> uuid \<Rightarrow> surface_target \<Rightarrow> surface_visibility \<Rightarrow> surface_world
    \<Rightarrow> surface_stage \<times> surface_world" where
  "begin_reattachment env i owner t visibility w =
     (if \<not> in_session_known i then (Finished (SurfaceNotFound ''surface_session_not_found''), w)
      else case checked_claim owner t w of
        Inl r \<Rightarrow> (Finished r, w)
      | Inr (c, k, recovery) \<Rightarrow>
          if \<not> outstanding_exact recovery k then
            (Finished (SurfaceConflict ''surface_recovery_debt_missing''), w)
          else
            let e = surface_entry_or_new w
            in if surface_logically_claimed e c then
                 (Finished (SurfaceConflict ''surface_owner_already_live''), with_entry w e)
               else case reserve (wd_governor w) (en_uuid_display env (st_session_id t))
                   (''surface-reattach-'' @ en_uuid_display env (in_fresh i)) NativeSurfaceWork of
                 (Inl denial, g) \<Rightarrow> (Finished (GovernorDenied denial), (with_entry w e)\<lparr>wd_governor := g\<rparr>)
               | (Inr reservation, g) \<Rightarrow>
                   (Claimed c visibility (SurfaceReattached k) reservation,
                    (with_entry w (claim_activating e c))\<lparr>wd_governor := g\<rparr>))"

definition activate_claimed ::
  "surface_claim \<Rightarrow> surface_visibility \<Rightarrow> surface_recovery_event \<Rightarrow> resource_reservation \<Rightarrow> surface_world
    \<Rightarrow> surface_stage \<times> surface_world" where
  "activate_claimed c visibility event reservation w =
     (case activate_surface (wd_governor w) reservation (claim_identity c) visibility of
        (Inl _, g) \<Rightarrow> (Withdrawing c None (SurfaceConflict ''surface_activation_rejected''), w\<lparr>wd_governor := g\<rparr>)
      | (Inr lease, g) \<Rightarrow> (Activated c event lease, w\<lparr>wd_governor := g\<rparr>))"

definition record_in_world ::
  "surface_env \<Rightarrow> surface_append_faults \<Rightarrow> surface_recovery_event \<Rightarrow> surface_world
    \<Rightarrow> (surface_recovery_error + unit) option \<times> surface_world" where
  "record_in_world env faults event w =
     (case wd_recovery w of
        None \<Rightarrow> (None, w)
      | Some recovery \<Rightarrow>
          (case record_event (en_codec env) (en_path env) event faults (recovery, wd_files w) of
             (r, recovery', files) \<Rightarrow> (Some r, w\<lparr>wd_recovery := Some recovery', wd_files := files\<rparr>)))"

definition record_activation ::
  "surface_env \<Rightarrow> stage_input \<Rightarrow> surface_claim \<Rightarrow> surface_recovery_event \<Rightarrow> live_resource_lease
    \<Rightarrow> surface_world \<Rightarrow> surface_stage \<times> surface_world" where
  "record_activation env i c event lease w =
     (case record_in_world env (in_faults i) event w of
        (Some (Inr _), w') \<Rightarrow> (Recorded c lease, w')
      | (_, w') \<Rightarrow> (Withdrawing c (Some lease) RecoveryUnavailable, w'))"

text \<open>\<open>live.insert\<close> drops the lease that was there.\<close>

definition commit_surface ::
  "surface_claim \<Rightarrow> live_resource_lease \<Rightarrow> surface_world \<Rightarrow> surface_stage \<times> surface_world" where
  "commit_surface c lease w =
     (let e = surface_entry_or_new w;
          g = (case map_of (sr_live e) c of None \<Rightarrow> wd_governor w | Some old \<Rightarrow> lease_drop (wd_governor w) old)
      in (Finished NoContent,
          (with_entry w (e\<lparr>sr_activating := sr_activating e - {c},
             sr_live := bt_insert c lease (sr_live e)\<rparr>))\<lparr>wd_governor := g\<rparr>))"

definition clear_activating_claim :: "surface_claim \<Rightarrow> surface_world \<Rightarrow> surface_world" where
  "clear_activating_claim c w =
     (case wd_surfaces w of
        None \<Rightarrow> w
      | Some e \<Rightarrow> with_entry w (e\<lparr>sr_activating := sr_activating e - {c}\<rparr>))"

definition drop_lease_option :: "live_resource_lease option \<Rightarrow> surface_world \<Rightarrow> surface_world" where
  "drop_lease_option l w =
     (case l of None \<Rightarrow> w | Some lease \<Rightarrow> w\<lparr>wd_governor := lease_drop (wd_governor w) lease\<rparr>)"

section \<open>Visibility and release\<close>

definition update_surface_visibility ::
  "uuid \<Rightarrow> surface_target \<Rightarrow> surface_visibility \<Rightarrow> surface_world \<Rightarrow> surface_stage \<times> surface_world" where
  "update_surface_visibility owner t visibility w =
     (case surface_identity t of
        None \<Rightarrow> (Finished (SurfaceBadRequest ''invalid_surface_identity''), w)
      | Some identity \<Rightarrow>
          (case wd_surfaces w of
             None \<Rightarrow> (Finished (SurfaceConflict ''surface_owner_missing''), w)
           | Some e \<Rightarrow>
               (case map_of (sr_live e) (claim_of owner t) of
                  None \<Rightarrow> (Finished (no_live_surface_conflict e (claim_of owner t)), w)
                | Some lease \<Rightarrow>
                    (case set_surface_visibility (wd_governor w) lease identity visibility of
                       (Inl _, g) \<Rightarrow>
                         (Finished (SurfaceConflict ''surface_visibility_rejected''), w\<lparr>wd_governor := g\<rparr>)
                     | (Inr _, g) \<Rightarrow> (Finished NoContent, w\<lparr>wd_governor := g\<rparr>)))))"

text \<open>The first live surface of the session of the preferred kind, in the order of the keys.\<close>

definition live_surface_of_kind :: "surface_entry \<Rightarrow> session_id \<Rightarrow> string \<Rightarrow> surface_claim option" where
  "live_surface_of_kind e session kind =
     find (\<lambda>(owner, s, k, label, incarnation). s = session \<and> k = kind) (map fst (sr_live e))"

definition primary_live_surface :: "surface_entry \<Rightarrow> session_id \<Rightarrow> surface_claim option" where
  "primary_live_surface e session =
     (case live_surface_of_kind e session ''preview_window'' of
        Some c \<Rightarrow> Some c
      | None \<Rightarrow> live_surface_of_kind e session ''workspace_child'')"

definition begin_release :: "uuid \<Rightarrow> surface_target \<Rightarrow> surface_world \<Rightarrow> surface_stage \<times> surface_world" where
  "begin_release owner t w =
     (case surface_identity t of
        None \<Rightarrow> (Finished (SurfaceBadRequest ''invalid_surface_identity''), w)
      | Some _ \<Rightarrow>
          (case wd_surfaces w of
             None \<Rightarrow> (Finished (SurfaceConflict ''surface_owner_missing''), w)
           | Some e \<Rightarrow>
               let c = claim_of owner t
               in case map_of (sr_live e) c of
                    None \<Rightarrow> (Finished (no_live_surface_conflict e c), w)
                  | Some lease \<Rightarrow>
                      (Removed c (primary_live_surface e (st_session_id t) = Some c) lease,
                       with_entry w (e\<lparr>sr_live := bt_remove c (sr_live e)\<rparr>))))"

definition managed_provider_prefix :: string where
  "managed_provider_prefix = ''provider:managed-webview:''"

definition retire_managed_surface_execution_binding :: "session_id \<Rightarrow> live_bridge \<Rightarrow> live_bridge" where
  "retire_managed_surface_execution_binding session b =
     (let b1 = snd (clear_managed_surface_action_authority b session)
      in case observation_status_of b1 session of
           None \<Rightarrow> b1
         | Some status \<Rightarrow>
             if starts_with managed_provider_prefix (provider_as_str (os_provider_incarnation_ref status)) then
               snd (release_provider_observation b1 session)
             else b1)"

definition discharge_release ::
  "surface_env \<Rightarrow> stage_input \<Rightarrow> surface_claim \<Rightarrow> surface_world \<Rightarrow> surface_stage \<times> surface_world" where
  "discharge_release env i c w =
     (case recovery_key_of c of
        Inl _ \<Rightarrow> (Finished (SurfaceBadRequest ''invalid_surface_identity''), w)
      | Inr k \<Rightarrow>
          (case record_in_world env (in_faults i) (SurfaceReleased k) w of
             (Some (Inr _), w') \<Rightarrow> (Finished NoContent, w')
           | (_, w') \<Rightarrow> (Finished RecoveryUnavailable, w')))"

section \<open>Owners\<close>

definition release_surface_resource_session :: "session_id \<Rightarrow> surface_world \<Rightarrow> nat \<times> surface_world" where
  "release_surface_resource_session session w =
     (case wd_surfaces w of
        None \<Rightarrow> (0, w)
      | Some e \<Rightarrow>
          let gone = filter (\<lambda>((_, s, _), _). s = session) (sr_pending e)
          in (length gone,
              (with_entry w (e\<lparr>sr_pending := filter (\<lambda>((_, s, _), _). s \<noteq> session) (sr_pending e)\<rparr>))
                \<lparr>wd_governor := fold (\<lambda>(_, r) g. reservation_drop g r) gone (wd_governor w)\<rparr>))"

definition release_surface_resource_owner :: "uuid \<Rightarrow> surface_world \<Rightarrow> nat \<times> surface_world" where
  "release_surface_resource_owner owner w =
     (case wd_surfaces w of
        None \<Rightarrow> (0, w)
      | Some e \<Rightarrow>
          let pending = filter (\<lambda>((o', _), _). o' = owner) (sr_pending e);
              live = filter (\<lambda>((o', _), _). o' = owner) (sr_live e);
              g1 = fold (\<lambda>(_, r) g. reservation_drop g r) pending (wd_governor w)
          in (length pending + length live,
              (with_entry w \<lparr>sr_pending = filter (\<lambda>((o', _), _). o' \<noteq> owner) (sr_pending e),
                 sr_activating = {c \<in> sr_activating e. fst c \<noteq> owner},
                 sr_live = filter (\<lambda>((o', _), _). o' \<noteq> owner) (sr_live e)\<rparr>)
                \<lparr>wd_governor := fold (\<lambda>(_, l) g. lease_drop g l) live g1\<rparr>))"

text \<open>The reaper: the leases first, then the resources of the owners that lost theirs, each under
  its own lock.\<close>

definition reap_owners :: "timestamp \<Rightarrow> surface_world \<Rightarrow> surface_world" where
  "reap_owners now w =
     (case reap_expired_surface_owners_at now (wd_owners w) of
        (expired, owners) \<Rightarrow> w\<lparr>wd_owners := owners, wd_reaped := wd_reaped w @ expired\<rparr>)"

definition release_reaped :: "surface_world \<Rightarrow> surface_world" where
  "release_reaped w =
     (case wd_reaped w of
        [] \<Rightarrow> w
      | owner # rest \<Rightarrow> (snd (release_surface_resource_owner owner w))\<lparr>wd_reaped := rest\<rparr>)"

definition reap_expired_surface_owner_resources_at :: "timestamp \<Rightarrow> surface_world \<Rightarrow> nat \<times> surface_world" where
  "reap_expired_surface_owner_resources_at now w =
     (case reap_expired_surface_owners_at now (wd_owners w) of
        (expired, owners) \<Rightarrow>
          fold (\<lambda>owner (n, v). case release_surface_resource_owner owner v of (k, v') \<Rightarrow> (n + k, v'))
            expired (0, w\<lparr>wd_owners := owners\<rparr>))"

definition recovery_required :: "uuid \<Rightarrow> surface_world \<Rightarrow> bool" where
  "recovery_required owner w =
     (case wd_recovery w of None \<Rightarrow> False | Some recovery \<Rightarrow> has_outstanding_for_owner recovery owner)"

definition register_owner ::
  "uuid \<Rightarrow> uuid \<Rightarrow> uuid \<Rightarrow> timestamp \<Rightarrow> surface_world \<Rightarrow> surface_owner_registration \<times> surface_world" where
  "register_owner owner epoch lid now w =
     (case register_surface_owner_at (recovery_required owner w) epoch lid owner now (wd_owners w) of
        (registration, owners) \<Rightarrow> (registration, w\<lparr>wd_owners := owners\<rparr>))"

definition register_surface_owner ::
  "uuid \<Rightarrow> uuid \<Rightarrow> uuid \<Rightarrow> timestamp \<Rightarrow> timestamp \<Rightarrow> surface_world
    \<Rightarrow> (surface_response + surface_owner_registration) \<times> surface_world" where
  "register_surface_owner owner epoch lid reap_now now w =
     (if owner = 0 then (Inl (SurfaceBadRequest ''invalid_surface_owner_instance''), w)
      else case register_owner owner epoch lid now
          (snd (reap_expired_surface_owner_resources_at reap_now w)) of
        (registration, w') \<Rightarrow> (Inr registration, w'))"

definition heartbeat_surface_owner ::
  "surface_owner_proof \<Rightarrow> timestamp \<Rightarrow> surface_world \<Rightarrow> surface_response \<times> surface_world" where
  "heartbeat_surface_owner proof now w =
     (case heartbeat_surface_owner_at proof now (wd_owners w) of
        (Inl err, owners) \<Rightarrow> (SurfaceConflict (owner_error_code err), w\<lparr>wd_owners := owners\<rparr>)
      | (Inr _, owners) \<Rightarrow> (NoContent, w\<lparr>wd_owners := owners\<rparr>))"

section \<open>Steps\<close>

text \<open>A request arrives: it is pinned to its owner or answered at once.\<close>

definition arrive ::
  "string option \<Rightarrow> surface_owner_proof \<Rightarrow> timestamp \<Rightarrow> surface_request \<Rightarrow> surface_world
    \<Rightarrow> surface_response option \<times> surface_world" where
  "arrive header proof now request w =
     (if \<not> authorized header (wd_token w) then (Some Unauthorized, w)
      else case pin_surface_owner_at proof now (wd_owners w) of
        (Inl err, owners) \<Rightarrow> (Some (SurfaceConflict (owner_error_code err)), w\<lparr>wd_owners := owners\<rparr>)
      | (Inr owner, owners) \<Rightarrow>
          (None, w\<lparr>wd_owners := owners,
             wd_tasks := wd_tasks w @ [\<lparr>tk_owner = owner, tk_stage = Admitted request\<rparr>]\<rparr>))"

fun begin_request ::
  "surface_env \<Rightarrow> stage_input \<Rightarrow> uuid \<Rightarrow> surface_request \<Rightarrow> surface_world \<Rightarrow> surface_stage \<times> surface_world" where
  "begin_request env i owner (ReserveSurface session request_id) w =
     reserve_surface_resource env i owner session request_id w"
| "begin_request env i owner (CancelReservation session request_id) w =
     cancel_surface_reservation i owner session request_id w"
| "begin_request env i owner (ActivateSurface t request_id visibility) w =
     begin_activation owner t request_id visibility w"
| "begin_request env i owner (ReattachSurface t visibility) w =
     begin_reattachment env i owner t visibility w"
| "begin_request env i owner (UpdateVisibility t visibility) w =
     update_surface_visibility owner t visibility w"
| "begin_request env i owner (ReleaseSurface t) w = begin_release owner t w"

fun next_stage ::
  "surface_env \<Rightarrow> stage_input \<Rightarrow> uuid \<Rightarrow> surface_stage \<Rightarrow> surface_world \<Rightarrow> surface_stage \<times> surface_world" where
  "next_stage env i owner (Admitted request) w = begin_request env i owner request w"
| "next_stage env i owner (Claimed c visibility event reservation) w =
     activate_claimed c visibility event reservation w"
| "next_stage env i owner (Activated c event lease) w = record_activation env i c event lease w"
| "next_stage env i owner (Recorded c lease) w = commit_surface c lease w"
| "next_stage env i owner (Withdrawing c lease r) w = (Dropping lease r, clear_activating_claim c w)"
| "next_stage env i owner (Dropping lease r) w = (Finished r, drop_lease_option lease w)"
| "next_stage env i owner (Removed c primary lease) w = (Retiring c primary, drop_lease_option (Some lease) w)"
| "next_stage env i owner (Retiring c primary) w =
     (Discharging c, if primary then
        w\<lparr>wd_bridge := retire_managed_surface_execution_binding (fst (snd c)) (wd_bridge w)\<rparr> else w)"
| "next_stage env i owner (Discharging c) w = discharge_release env i c w"
| "next_stage env i owner (Finished r) w = (Finished r, w)"

definition remove_nth :: "nat \<Rightarrow> 'a list \<Rightarrow> 'a list" where
  "remove_nth n xs = take n xs @ drop (Suc n) xs"

text \<open>The end of a request, answered or cancelled: its guard is dropped.\<close>

definition end_task :: "nat \<Rightarrow> surface_world \<Rightarrow> surface_world" where
  "end_task n w = w\<lparr>wd_owners := drop_owner_guard (tk_owner (wd_tasks w ! n)) (wd_owners w),
     wd_tasks := remove_nth n (wd_tasks w)\<rparr>"

fun is_finished :: "surface_stage \<Rightarrow> bool" where
  "is_finished (Finished _) = True"
| "is_finished _ = False"

definition advance :: "surface_env \<Rightarrow> stage_input \<Rightarrow> nat \<Rightarrow> surface_world \<Rightarrow> surface_world" where
  "advance env i n w =
     (if length (wd_tasks w) \<le> n then w
      else
        let task = wd_tasks w ! n
        in if is_finished (tk_stage task) then end_task n w
           else case next_stage env i (tk_owner task) (tk_stage task) w of
             (stage, w') \<Rightarrow> w'\<lparr>wd_tasks := (wd_tasks w)[n := task\<lparr>tk_stage := stage\<rparr>]\<rparr>)"

text \<open>
  A dropped request. It awaits the session table, the bridge or the journal; in the last case some
  of the event, perhaps all of it, has reached the file and the state in memory is not updated.
  What the task held is dropped: a lease goes back to the governor. A claim among the activating
  ones has no owner that would clear it.
\<close>

definition abandoned_append ::
  "surface_env \<Rightarrow> surface_append_faults \<Rightarrow> surface_recovery_event \<Rightarrow> surface_world \<Rightarrow> surface_world" where
  "abandoned_append env faults event w = w\<lparr>wd_files := wd_files (snd (record_in_world env faults event w))\<rparr>"

fun awaits_session :: "surface_request \<Rightarrow> bool" where
  "awaits_session (ReserveSurface _ _) = True"
| "awaits_session (CancelReservation _ _) = True"
| "awaits_session (ReattachSurface _ _) = True"
| "awaits_session _ = False"

fun cancelled_stage ::
  "surface_env \<Rightarrow> surface_append_faults \<Rightarrow> surface_stage \<Rightarrow> surface_world \<Rightarrow> surface_world option" where
  "cancelled_stage env faults (Admitted request) w = (if awaits_session request then Some w else None)"
| "cancelled_stage env faults (Activated c event lease) w =
     Some (drop_lease_option (Some lease) (abandoned_append env faults event w))"
| "cancelled_stage env faults (Retiring c primary) w = (if primary then Some w else None)"
| "cancelled_stage env faults (Discharging c) w =
     (case recovery_key_of c of
        Inl _ \<Rightarrow> None | Inr k \<Rightarrow> Some (abandoned_append env faults (SurfaceReleased k) w))"
| "cancelled_stage env faults _ w = None"

definition cancel_task :: "surface_env \<Rightarrow> surface_append_faults \<Rightarrow> nat \<Rightarrow> surface_world \<Rightarrow> surface_world" where
  "cancel_task env faults n w =
     (if length (wd_tasks w) \<le> n then w
      else case cancelled_stage env faults (tk_stage (wd_tasks w ! n)) w of
        None \<Rightarrow> w
      | Some w' \<Rightarrow> end_task n w')"

text \<open>The other users of the governor (captures, browsers, observations) keep the slots of surfaces.\<close>

fun is_surface_slot :: "reservation_state \<Rightarrow> bool" where
  "is_surface_slot (Pending kind) = (kind = NativeSurfaceWork)"
| "is_surface_slot (Live ChromiumProcessLive) = False"
| "is_surface_slot (Live (NativeSurfaceLive _ _)) = True"

definition surface_slots :: "runtime_governor_state \<Rightarrow> (reservation_key, reservation_state) btree_map" where
  "surface_slots g = filter (\<lambda>(_, r). is_surface_slot r) (rg_reservations g)"

definition other_work :: "runtime_governor_state \<Rightarrow> runtime_governor_state \<Rightarrow> bool" where
  "other_work g g' \<longleftrightarrow> bt_wf (rg_reservations g') \<and> surface_slots g' = surface_slots g"

datatype surface_op =
    RegisterOwner uuid uuid uuid timestamp
  | HeartbeatOwner surface_owner_proof timestamp
  | ReapOwners timestamp
  | ReleaseReaped
  | ReapAndRelease timestamp
  | ReleaseSession session_id
  | UpdateSample runtime_resource_sample
  | OtherWork runtime_governor_state
  | Arrive "string option" surface_owner_proof timestamp surface_request
  | Advance nat stage_input
  | Cancel nat surface_append_faults

fun run_surface :: "surface_env \<Rightarrow> surface_op \<Rightarrow> surface_world \<Rightarrow> surface_world" where
  "run_surface env (RegisterOwner owner epoch lid now) w = snd (register_owner owner epoch lid now w)"
| "run_surface env (HeartbeatOwner proof now) w = snd (heartbeat_surface_owner proof now w)"
| "run_surface env (ReapOwners now) w = reap_owners now w"
| "run_surface env ReleaseReaped w = release_reaped w"
| "run_surface env (ReapAndRelease now) w = snd (reap_expired_surface_owner_resources_at now w)"
| "run_surface env (ReleaseSession session) w = snd (release_surface_resource_session session w)"
| "run_surface env (UpdateSample sample) w = w\<lparr>wd_governor := snd (update_sample (wd_governor w) sample)\<rparr>"
| "run_surface env (OtherWork g) w = (if other_work (wd_governor w) g then w\<lparr>wd_governor := g\<rparr> else w)"
| "run_surface env (Arrive header proof now request) w = snd (arrive header proof now request w)"
| "run_surface env (Advance n i) w = advance env i n w"
| "run_surface env (Cancel n faults) w = cancel_task env faults n w"

definition run_surfaces :: "surface_env \<Rightarrow> surface_op list \<Rightarrow> surface_world \<Rightarrow> surface_world" where
  "run_surfaces env ops w = fold (run_surface env) ops w"

end
