(* ===== verification/Surface_Safety.thy ===== *)
theory Surface_Safety
  imports Surface_Runtime
begin

text \<open>
  The invariants of the surface handlers under every interleaving of their stages: the pins of the
  owners, the claims of the tasks and of the live surfaces, and the slots of the governor that
  the handles of the world hold.
\<close>

section \<open>Lists of tasks\<close>

fun stage_claims :: "surface_stage \<Rightarrow> surface_claim list" where
  "stage_claims (Claimed c _ _ _) = [c]"
| "stage_claims (Activated c _ _) = [c]"
| "stage_claims (Recorded c _) = [c]"
| "stage_claims (Withdrawing c _ _) = [c]"
| "stage_claims _ = []"

definition task_claims :: "surface_task list \<Rightarrow> surface_claim list" where
  "task_claims ts = concat (map (\<lambda>t. stage_claims (tk_stage t)) ts)"

definition pins_of :: "surface_task list \<Rightarrow> uuid \<Rightarrow> nat" where
  "pins_of ts owner = length (filter (\<lambda>t. tk_owner t = owner) ts)"

lemma task_claims_simps [simp]:
  "task_claims [] = []"
  "task_claims (t # ts) = stage_claims (tk_stage t) @ task_claims ts"
  "task_claims (ts @ us) = task_claims ts @ task_claims us"
  by (simp_all add: task_claims_def)

lemma pins_of_simps [simp]:
  "pins_of [] owner = 0"
  "pins_of (t # ts) owner = (if tk_owner t = owner then Suc (pins_of ts owner) else pins_of ts owner)"
  "pins_of (ts @ us) owner = pins_of ts owner + pins_of us owner"
  by (simp_all add: pins_of_def)

lemma pins_of_le: "pins_of ts owner \<le> length ts"
  by (simp add: pins_of_def)

text \<open>The task at an index, between the tasks before and after it.\<close>

lemma split_tasks:
  assumes "n < length ts"
  obtains us vs where "ts = us @ ts ! n # vs" "remove_nth n ts = us @ vs" "\<And>t. ts[n := t] = us @ t # vs"
proof
  show "ts = take n ts @ ts ! n # drop (Suc n) ts" using assms by (rule id_take_nth_drop)
  show "remove_nth n ts = take n ts @ drop (Suc n) ts" by (simp add: remove_nth_def)
  show "ts[n := t] = take n ts @ t # drop (Suc n) ts" for t using assms by (rule upd_conv_take_nth_drop)
qed

section \<open>What the stages leave alone\<close>

lemma entry_or_new_with_entry [simp]:
  "surface_entry_or_new (with_entry w e) = e"
  "surface_entry_or_new (w\<lparr>wd_governor := g\<rparr>) = surface_entry_or_new w"
  "surface_entry_or_new (w\<lparr>wd_owners := os\<rparr>) = surface_entry_or_new w"
  "surface_entry_or_new (w\<lparr>wd_tasks := ts\<rparr>) = surface_entry_or_new w"
  "surface_entry_or_new (w\<lparr>wd_reaped := rs\<rparr>) = surface_entry_or_new w"
  "surface_entry_or_new (w\<lparr>wd_files := fs\<rparr>) = surface_entry_or_new w"
  "surface_entry_or_new (w\<lparr>wd_bridge := b\<rparr>) = surface_entry_or_new w"
  "surface_entry_or_new (w\<lparr>wd_recovery := r, wd_files := fs\<rparr>) = surface_entry_or_new w"
  by (simp_all add: surface_entry_or_new_def with_entry_def)

lemma with_entry_frame [simp]:
  "wd_owners (with_entry w e) = wd_owners w" "wd_tasks (with_entry w e) = wd_tasks w"
  "wd_governor (with_entry w e) = wd_governor w" "wd_recovery (with_entry w e) = wd_recovery w"
  "wd_files (with_entry w e) = wd_files w" "wd_surfaces (with_entry w e) = Some e"
  "wd_reaped (with_entry w e) = wd_reaped w"
  by (simp_all add: with_entry_def)

lemma record_in_world_frame [simp]:
  "wd_owners (snd (record_in_world env faults ev w)) = wd_owners w"
  "wd_tasks (snd (record_in_world env faults ev w)) = wd_tasks w"
  "wd_governor (snd (record_in_world env faults ev w)) = wd_governor w"
  "wd_surfaces (snd (record_in_world env faults ev w)) = wd_surfaces w"
  "surface_entry_or_new (snd (record_in_world env faults ev w)) = surface_entry_or_new w"
  by (simp_all add: record_in_world_def surface_entry_or_new_def split: option.split prod.split)

lemma record_in_world_eq:
  assumes "record_in_world env faults ev w = (r, w')"
  shows "wd_owners w' = wd_owners w" "wd_tasks w' = wd_tasks w" "wd_governor w' = wd_governor w"
    "wd_surfaces w' = wd_surfaces w" "surface_entry_or_new w' = surface_entry_or_new w"
  using record_in_world_frame [of env faults ev w] by (simp_all only: assms snd_conv)

lemma abandoned_append_frame [simp]:
  "wd_owners (abandoned_append env faults ev w) = wd_owners w"
  "wd_tasks (abandoned_append env faults ev w) = wd_tasks w"
  "wd_governor (abandoned_append env faults ev w) = wd_governor w"
  "surface_entry_or_new (abandoned_append env faults ev w) = surface_entry_or_new w"
  by (simp_all add: abandoned_append_def)

lemma drop_lease_option_frame [simp]:
  "wd_owners (drop_lease_option l w) = wd_owners w" "wd_tasks (drop_lease_option l w) = wd_tasks w"
  "wd_surfaces (drop_lease_option l w) = wd_surfaces w"
  "surface_entry_or_new (drop_lease_option l w) = surface_entry_or_new w"
  by (simp_all add: drop_lease_option_def split: option.split)

lemma clear_activating_frame [simp]:
  "wd_owners (clear_activating_claim c w) = wd_owners w" "wd_tasks (clear_activating_claim c w) = wd_tasks w"
  "wd_governor (clear_activating_claim c w) = wd_governor w"
  "surface_entry_or_new (clear_activating_claim c w)
     = (surface_entry_or_new w)\<lparr>sr_activating := sr_activating (surface_entry_or_new w) - {c}\<rparr>"
  by (simp_all add: clear_activating_claim_def surface_entry_or_new_def with_entry_def empty_surface_entry_def
      split: option.split)

lemmas stage_defs =
  reserve_surface_resource_def cancel_surface_reservation_def begin_activation_def begin_reattachment_def
  update_surface_visibility_def begin_release_def activate_claimed_def record_activation_def commit_surface_def
  discharge_release_def Let_def

lemma begin_request_frame:
  "begin_request env i owner request w = (stage, w') \<Longrightarrow> wd_owners w' = wd_owners w \<and> wd_tasks w' = wd_tasks w"
  by (cases request)
    (auto simp: stage_defs split: if_splits option.splits sum.splits prod.splits)

lemma next_stage_frame:
  assumes "next_stage env i owner stage w = (stage', w')"
  shows "wd_owners w' = wd_owners w" "wd_tasks w' = wd_tasks w"
proof -
  have "wd_owners w' = wd_owners w \<and> wd_tasks w' = wd_tasks w"
  proof (cases stage)
    case (Admitted request)
    with assms begin_request_frame show ?thesis by auto
  qed (use assms in \<open>auto simp: stage_defs dest: record_in_world_eq
      split: if_splits option.splits sum.splits prod.splits\<close>)
  then show "wd_owners w' = wd_owners w" "wd_tasks w' = wd_tasks w" by auto
qed

section \<open>Claims\<close>

text \<open>The claims of an entry, when the tasks hold the claims \<open>cs\<close>: two of them never concern the
  same surface, and a task finds the claim it holds among the activating ones.\<close>

definition claims_ok :: "surface_entry \<Rightarrow> surface_claim list \<Rightarrow> bool" where
  "claims_ok e cs \<longleftrightarrow>
     bt_wf (sr_live e) \<and> inj_on claim_surface (fst ` set (sr_live e) \<union> sr_activating e)
       \<and> fst ` set (sr_live e) \<inter> sr_activating e = {} \<and> set cs \<subseteq> sr_activating e \<and> distinct cs"

lemma bt_remove_keys [simp]: "fst ` set (bt_remove k m) = fst ` set m - {k}"
  by (auto simp: bt_remove_def)

lemma claims_ok_pending [simp]: "claims_ok (e\<lparr>sr_pending := p\<rparr>) cs = claims_ok e cs"
  by (simp add: claims_ok_def)

lemma claims_ok_claim:
  assumes "claims_ok e (us @ vs)" "\<not> surface_logically_claimed e c"
  shows "claims_ok (claim_activating e c) (us @ c # vs)"
proof -
  have fresh: "claim_surface c \<notin> claim_surface ` (fst ` set (sr_live e) \<union> sr_activating e)"
  proof
    assume "claim_surface c \<in> claim_surface ` (fst ` set (sr_live e) \<union> sr_activating e)"
    then obtain c' where "c' \<in> fst ` set (sr_live e) \<union> sr_activating e" "claim_surface c = claim_surface c'"
      by (rule imageE) blast
    with assms (2) show False unfolding surface_logically_claimed_def by metis
  qed
  then have "c \<notin> fst ` set (sr_live e) \<union> sr_activating e" by blast
  moreover have "fst ` set (sr_live e) \<union> insert c (sr_activating e)
      = insert c (fst ` set (sr_live e) \<union> sr_activating e)" by simp
  ultimately show ?thesis
    using assms (1) fresh unfolding claims_ok_def claim_activating_def by (auto simp: inj_on_insert)
qed

lemma claims_ok_commit:
  assumes "claims_ok e (us @ c # vs)"
  shows "claims_ok (e\<lparr>sr_activating := sr_activating e - {c}, sr_live := bt_insert c l (sr_live e)\<rparr>) (us @ vs)"
proof -
  have c: "c \<in> sr_activating e" using assms by (simp add: claims_ok_def)
  then have "insert c (fst ` set (sr_live e)) \<union> (sr_activating e - {c})
      = fst ` set (sr_live e) \<union> sr_activating e" by auto
  with assms c show ?thesis by (auto simp: claims_ok_def)
qed

lemma claims_ok_withdraw:
  "claims_ok e (us @ c # vs) \<Longrightarrow> claims_ok (e\<lparr>sr_activating := sr_activating e - {c}\<rparr>) (us @ vs)"
  by (auto simp: claims_ok_def intro: inj_on_subset)

lemma claims_ok_remove_live:
  "claims_ok e cs \<Longrightarrow> claims_ok (e\<lparr>sr_live := bt_remove c (sr_live e)\<rparr>) cs"
  by (auto simp: claims_ok_def intro: inj_on_subset)

lemma claims_ok_fewer: "claims_ok e (us @ cs @ vs) \<Longrightarrow> claims_ok e (us @ vs)"
  by (auto simp: claims_ok_def)

lemma begin_request_claims:
  assumes "begin_request env i owner request w = (stage, w')" "claims_ok (surface_entry_or_new w) (us @ vs)"
  shows "claims_ok (surface_entry_or_new w') (us @ stage_claims stage @ vs)
      \<and> (\<forall>c \<in> set (stage_claims stage). fst c = owner)"
proof (cases request)
  case (ActivateSurface t request_id visibility)
  with assms show ?thesis
    by (auto simp: stage_defs checked_claim_def claim_of_def claims_ok_claim
        split: if_splits option.splits sum.splits prod.splits)
next
  case (ReattachSurface t visibility)
  with assms show ?thesis
    by (auto simp: stage_defs checked_claim_def claim_of_def claims_ok_claim
        split: if_splits option.splits sum.splits prod.splits)
next
  case (ReleaseSurface t)
  with assms show ?thesis
    by (auto simp: stage_defs claims_ok_remove_live surface_entry_or_new_def split: if_splits option.splits)
next
  case (ReserveSurface s r)
  with assms show ?thesis by (auto simp: stage_defs split: if_splits sum.splits prod.splits)
next
  case (CancelReservation s r)
  with assms show ?thesis
    by (auto simp: stage_defs surface_entry_or_new_def split: if_splits option.splits)
next
  case (UpdateVisibility t v)
  with assms show ?thesis
    by (auto simp: stage_defs split: option.splits sum.splits prod.splits)
qed

lemma next_stage_claims:
  assumes "next_stage env i owner stage w = (stage', w')"
    and "claims_ok (surface_entry_or_new w) (us @ stage_claims stage @ vs)"
    and "\<forall>c \<in> set (stage_claims stage). fst c = owner"
  shows "claims_ok (surface_entry_or_new w') (us @ stage_claims stage' @ vs)
      \<and> (\<forall>c \<in> set (stage_claims stage'). fst c = owner)"
proof (cases stage)
  case (Admitted request)
  with assms begin_request_claims show ?thesis by auto
next
  case (Recorded c lease)
  with assms show ?thesis by (auto simp: commit_surface_def Let_def intro!: claims_ok_commit [simplified])
next
  case (Withdrawing c lease r)
  with assms show ?thesis by (auto intro!: claims_ok_withdraw [simplified])
qed (use assms in \<open>auto simp: activate_claimed_def record_activation_def discharge_release_def
    dest: record_in_world_eq split: sum.splits option.splits prod.splits if_splits\<close>)

section \<open>Pins and claims of a world\<close>

definition pins_ok :: "surface_owners \<Rightarrow> surface_task list \<Rightarrow> bool" where
  "pins_ok os ts \<longleftrightarrow> owners_wf os \<and> (\<forall>owner. unat (in_flight_of os owner) = pins_of ts owner)"

definition own_claims :: "surface_task list \<Rightarrow> bool" where
  "own_claims ts \<longleftrightarrow> (\<forall>t \<in> set ts. \<forall>c \<in> set (stage_claims (tk_stage t)). fst c = tk_owner t)"

definition surface_inv :: "surface_world \<Rightarrow> bool" where
  "surface_inv w \<longleftrightarrow> pins_ok (wd_owners w) (wd_tasks w) \<and> own_claims (wd_tasks w)
     \<and> claims_ok (surface_entry_or_new w) (task_claims (wd_tasks w))"

definition more_tasks :: "surface_task list \<Rightarrow> bool" where
  "more_tasks ts \<longleftrightarrow> length ts + 1 < 2 ^ 64"

lemma own_claims_simps [simp]:
  "own_claims []"
  "own_claims (t # ts) \<longleftrightarrow> (\<forall>c \<in> set (stage_claims (tk_stage t)). fst c = tk_owner t) \<and> own_claims ts"
  "own_claims (ts @ us) \<longleftrightarrow> own_claims ts \<and> own_claims us"
  by (auto simp: own_claims_def)

lemma own_claims_owner: "own_claims ts \<Longrightarrow> c \<in> set (task_claims ts) \<Longrightarrow> pins_of ts (fst c) \<noteq> 0"
  by (induction ts) auto

lemma pins_ok_arrive:
  assumes "pins_ok os ts" "more_tasks ts" "pin_surface_owner_at proof now os = (Inr owner, os')"
  shows "pins_ok os' (ts @ [\<lparr>tk_owner = owner, tk_stage = stage\<rparr>])"
proof -
  have wf: "owners_wf os" and count: "\<And>o'. unat (in_flight_of os o') = pins_of ts o'"
    using assms (1) by (simp_all add: pins_ok_def)
  have "unat (in_flight_of os owner) + unat (1 :: u64) < 2 ^ 64"
    using count [of owner] pins_of_le [of ts owner] assms (2) by (simp add: more_tasks_def)
  then have "unat (saturating_add (in_flight_of os owner) 1) = pins_of ts owner + 1"
    using count [of owner] by (simp add: unat_saturating_add)
  moreover have "owners_wf os'" using pin_wf [OF wf, of "proof" now] assms (3) by simp
  ultimately show ?thesis using pin_in_flight(1) [OF wf assms(3)] count by (auto simp: pins_ok_def)
qed

lemma pins_ok_drop:
  assumes "pins_ok os (us @ t # vs)"
  shows "pins_ok (drop_owner_guard (tk_owner t) os) (us @ vs)"
proof -
  have wf: "owners_wf os" and count: "\<And>o'. unat (in_flight_of os o') = pins_of (us @ t # vs) o'"
    using assms by (simp_all add: pins_ok_def)
  have "unat (in_flight_of os (tk_owner t)) = Suc (pins_of (us @ vs) (tk_owner t))" using count by simp
  moreover from this have "(1 :: u64) \<le> in_flight_of os (tk_owner t)" by (simp add: word_le_nat_alt)
  ultimately have "unat (saturating_sub (in_flight_of os (tk_owner t)) 1) = pins_of (us @ vs) (tk_owner t)"
    by (simp add: saturating_sub_def unat_sub)
  then show ?thesis using wf count by (auto simp: pins_ok_def drop_guard_in_flight)
qed

lemma claims_ok_sub:
  assumes "claims_ok e cs" "bt_wf (sr_live e')" "fst ` set (sr_live e') \<subseteq> fst ` set (sr_live e)"
    and "sr_activating e' \<subseteq> sr_activating e" "set cs \<subseteq> sr_activating e'"
  shows "claims_ok e' cs"
proof -
  have sub: "fst ` set (sr_live e') \<union> sr_activating e' \<subseteq> fst ` set (sr_live e) \<union> sr_activating e"
    using assms (3,4) by (rule Un_mono)
  have old: "inj_on claim_surface (fst ` set (sr_live e) \<union> sr_activating e)"
    "fst ` set (sr_live e) \<inter> sr_activating e = {}" "distinct cs"
    using assms (1) by (simp_all add: claims_ok_def)
  have "inj_on claim_surface (fst ` set (sr_live e') \<union> sr_activating e')"
    by (rule inj_on_subset [OF old (1) sub])
  moreover have "fst ` set (sr_live e') \<inter> sr_activating e' = {}"
    using Int_mono [OF assms (3,4)] unfolding old (2) by (rule subset_empty [THEN iffD1])
  ultimately show ?thesis unfolding claims_ok_def using assms (2,5) old (3) by (intro conjI)
qed

lemma claims_of_others:
  assumes "claims_ok (surface_entry_or_new w) cs" "\<forall>c \<in> set cs. fst c \<noteq> owner"
  shows "claims_ok (surface_entry_or_new (snd (release_surface_resource_owner owner w))) cs"
proof (cases "wd_surfaces w")
  case None
  with assms show ?thesis by (simp add: release_surface_resource_owner_def)
next
  case (Some e)
  let ?e = "surface_entry_or_new (snd (release_surface_resource_owner owner w))"
  have e: "surface_entry_or_new w = e" using Some by (simp add: surface_entry_or_new_def)
  have live: "sr_live ?e = filter (\<lambda>((o', _), _). o' \<noteq> owner) (sr_live e)"
    and activating: "sr_activating ?e = {c \<in> sr_activating e. fst c \<noteq> owner}"
    using Some by (simp_all add: release_surface_resource_owner_def Let_def)
  have ok: "claims_ok e cs" using assms (1) by (simp only: e)
  then have "bt_wf (sr_live ?e)"
    by (simp add: live claims_ok_def bt_wf_def sorted_wrt_map sorted_wrt_filter)
  moreover have "fst ` set (sr_live ?e) \<subseteq> fst ` set (sr_live e)" unfolding live by (intro image_mono) simp
  moreover have "sr_activating ?e \<subseteq> sr_activating e" unfolding activating by blast
  moreover have "set cs \<subseteq> sr_activating ?e"
    using ok assms (2) unfolding activating claims_ok_def by blast
  ultimately show ?thesis by (rule claims_ok_sub [OF ok])
qed

lemma release_owner_frame [simp]:
  "wd_owners (snd (release_surface_resource_owner owner w)) = wd_owners w"
  "wd_tasks (snd (release_surface_resource_owner owner w)) = wd_tasks w"
  by (simp_all add: release_surface_resource_owner_def Let_def split: option.split)

lemma release_owner_inv:
  assumes "surface_inv w" "pins_of (wd_tasks w) owner = 0"
  shows "surface_inv (snd (release_surface_resource_owner owner w))"
proof -
  have "\<forall>c \<in> set (task_claims (wd_tasks w)). fst c \<noteq> owner"
    using assms own_claims_owner [of "wd_tasks w"] unfolding surface_inv_def by metis
  with assms (1) claims_of_others show ?thesis by (simp add: surface_inv_def)
qed

lemma release_owners_inv:
  assumes "surface_inv w" "\<forall>owner \<in> set owners. pins_of (wd_tasks w) owner = 0"
  shows "surface_inv (snd (fold (\<lambda>owner (n, v). case release_surface_resource_owner owner v of
      (k, v') \<Rightarrow> (n + k, v')) owners (n, w)))"
  using assms
proof (induction owners arbitrary: n w)
  case (Cons owner owners)
  have "surface_inv (snd (release_surface_resource_owner owner w))"
    using Cons.prems by (intro release_owner_inv) auto
  with Cons show ?case by (auto split: prod.split)
    (metis (no_types, lifting) release_owner_frame (2) snd_conv)
qed simp

lemma reap_and_release_inv:
  assumes "surface_inv w"
  shows "surface_inv (snd (reap_expired_surface_owner_resources_at now w))"
proof -
  obtain expired os where reap: "reap_expired_surface_owners_at now (wd_owners w) = (expired, os)" by force
  have pins: "pins_ok (wd_owners w) (wd_tasks w)" using assms by (simp add: surface_inv_def)
  then have wf: "owners_wf (wd_owners w)" by (simp add: pins_ok_def)
  have "owners_wf os" using reap_wf [OF wf, of now] reap by simp
  with pins reap_in_flight [OF wf, of now] reap have "surface_inv (w\<lparr>wd_owners := os\<rparr>)"
    using assms by (simp add: surface_inv_def pins_ok_def)
  moreover have "\<forall>owner \<in> set expired. pins_of (wd_tasks w) owner = 0"
    using pinned_is_not_reaped [OF wf, of _ now] pins reap unfolding pins_ok_def
    by (metis fst_conv unat_eq_zero)
  ultimately show ?thesis
    using release_owners_inv by (simp add: reap_expired_surface_owner_resources_at_def reap)
qed

section \<open>Every step keeps the claims\<close>

text \<open>The steps of a reaper that releases what it reaped before another thread runs.\<close>

fun atomic_reaping :: "surface_op \<Rightarrow> bool" where
  "atomic_reaping (ReapOwners now) = False"
| "atomic_reaping ReleaseReaped = False"
| "atomic_reaping _ = True"

lemma advance_inv:
  assumes "surface_inv w"
  shows "surface_inv (advance env i n w)"
proof (cases "n < length (wd_tasks w)")
  case True
  let ?t = "wd_tasks w ! n"
  obtain us vs where ts: "wd_tasks w = us @ ?t # vs" "remove_nth n (wd_tasks w) = us @ vs"
    "\<And>t. (wd_tasks w)[n := t] = us @ t # vs" using split_tasks [OF True] by blast
  have pins: "pins_ok (wd_owners w) (us @ ?t # vs)" and own: "own_claims (us @ ?t # vs)"
    and claims: "claims_ok (surface_entry_or_new w) (task_claims us @ stage_claims (tk_stage ?t) @ task_claims vs)"
    using assms ts (1) unfolding surface_inv_def by (metis, metis, metis task_claims_simps (2,3))
  show ?thesis
  proof (cases "is_finished (tk_stage ?t)")
    case fin: True
    then have "stage_claims (tk_stage ?t) = []" by (cases "tk_stage ?t") simp_all
    with True fin pins_ok_drop [OF pins] own claims show ?thesis
      by (simp add: advance_def end_task_def surface_inv_def ts (2) Let_def)
  next
    case False
    obtain stage w' where next_s: "next_stage env i (tk_owner ?t) (tk_stage ?t) w = (stage, w')" by force
    have pins': "pins_ok (wd_owners w') (us @ ?t\<lparr>tk_stage := stage\<rparr> # vs)"
      using pins by (simp add: pins_ok_def next_stage_frame [OF next_s])
    from next_stage_claims [OF next_s claims] own pins' True False show ?thesis
      by (simp add: advance_def surface_inv_def next_s ts (3) Let_def)
  qed
qed (use assms in \<open>simp add: advance_def\<close>)

lemma cancelled_stage_frame:
  assumes "cancelled_stage env faults stage w = Some w'"
  shows "wd_owners w' = wd_owners w" "wd_tasks w' = wd_tasks w"
    "surface_entry_or_new w' = surface_entry_or_new w"
  using assms by (cases stage; auto split: if_splits sum.splits)+

lemma cancel_inv:
  assumes "surface_inv w"
  shows "surface_inv (cancel_task env faults n w)"
proof (cases "n < length (wd_tasks w)")
  case True
  let ?t = "wd_tasks w ! n"
  obtain us vs where ts: "wd_tasks w = us @ ?t # vs" "remove_nth n (wd_tasks w) = us @ vs"
    using split_tasks [OF True] by blast
  have pins: "pins_ok (wd_owners w) (us @ ?t # vs)" and own: "own_claims (us @ ?t # vs)"
    and claims: "claims_ok (surface_entry_or_new w) (task_claims us @ stage_claims (tk_stage ?t) @ task_claims vs)"
    using assms ts (1) unfolding surface_inv_def by (metis, metis, metis task_claims_simps (2,3))
  show ?thesis
  proof (cases "cancelled_stage env faults (tk_stage ?t) w")
    case None
    with assms show ?thesis by (simp add: cancel_task_def)
  next
    case (Some w')
    note frame = cancelled_stage_frame [OF Some]
    have "remove_nth n (wd_tasks w') = us @ vs" "wd_tasks w' ! n = ?t" by (simp_all add: frame ts (2))
    with Some True pins_ok_drop [OF pins] own claims_ok_fewer [OF claims] show ?thesis
      by (simp add: cancel_task_def end_task_def surface_inv_def frame)
  qed
qed (use assms in \<open>simp add: cancel_task_def\<close>)

lemma arrive_inv:
  assumes "surface_inv w" "more_tasks (wd_tasks w)"
  shows "surface_inv (snd (arrive header proof now request w))"
proof (cases "pin_surface_owner_at proof now (wd_owners w)")
  case (Pair r os)
  show ?thesis
  proof (cases r)
    case (Inl err)
    with assms Pair pin_refused [of "proof" now "wd_owners w" err os] show ?thesis
      by (auto simp: arrive_def surface_inv_def)
  next
    case (Inr owner)
    with assms Pair pins_ok_arrive [OF _ assms (2)] show ?thesis
      by (auto simp: arrive_def surface_inv_def)
  qed
qed

lemma run_surface_inv:
  assumes "surface_inv w" "more_tasks (wd_tasks w)" "atomic_reaping op"
  shows "surface_inv (run_surface env op w)"
proof (cases op)
  case (RegisterOwner owner epoch lid now)
  obtain r os where reg: "register_surface_owner_at (recovery_required owner w) epoch lid owner now (wd_owners w)
      = (r, os)" by force
  have wf: "owners_wf (wd_owners w)" using assms (1) by (simp add: surface_inv_def pins_ok_def)
  have "owners_wf os" "\<And>o'. in_flight_of os o' = in_flight_of (wd_owners w) o'"
    using register_wf [OF wf, of "recovery_required owner w" epoch lid owner now]
      register_in_flight [OF wf, of "recovery_required owner w" epoch lid owner now] by (simp_all add: reg)
  with assms RegisterOwner show ?thesis by (simp add: register_owner_def surface_inv_def pins_ok_def reg)
next
  case (HeartbeatOwner pf now)
  obtain r os where beat: "heartbeat_surface_owner_at pf now (wd_owners w) = (r, os)" by force
  have wf: "owners_wf (wd_owners w)" using assms (1) by (simp add: surface_inv_def pins_ok_def)
  have "owners_wf os" "\<And>o'. in_flight_of os o' = in_flight_of (wd_owners w) o'"
    using heartbeat_wf [OF wf, of pf now] heartbeat_in_flight [OF wf, of pf now] by (simp_all add: beat)
  with assms HeartbeatOwner show ?thesis
    by (simp add: heartbeat_surface_owner_def surface_inv_def pins_ok_def beat split: sum.split)
next
  case (ReleaseSession session)
  have "claims_ok (surface_entry_or_new (snd (release_surface_resource_session session w))) cs
      = claims_ok (surface_entry_or_new w) cs" for cs
    by (simp add: release_surface_resource_session_def Let_def surface_entry_or_new_def split: option.split)
  with assms ReleaseSession show ?thesis
    by (simp add: surface_inv_def release_surface_resource_session_def Let_def split: option.split)
next
  case (UpdateSample sample)
  with assms show ?thesis by (simp add: surface_inv_def)
next
  case (OtherWork g)
  with assms show ?thesis by (simp add: surface_inv_def)
qed (use assms advance_inv cancel_inv arrive_inv reap_and_release_inv in simp_all)

lemma run_surface_tasks: "length (wd_tasks (run_surface env op w)) \<le> Suc (length (wd_tasks w))"
proof (cases op)
  case (Advance n i)
  show ?thesis
  proof (cases "n < length (wd_tasks w)")
    case True
    then show ?thesis
      using Advance by (auto simp: advance_def end_task_def remove_nth_def Let_def split: prod.split)
  qed (simp add: Advance advance_def)
next
  case (Cancel n faults)
  then show ?thesis
    by (auto simp: cancel_task_def end_task_def remove_nth_def cancelled_stage_frame split: option.split)
next
  case (ReapAndRelease now)
  have "wd_tasks (snd (fold (\<lambda>owner (n, v). case release_surface_resource_owner owner v of
      (k, v') \<Rightarrow> (n + k, v')) owners (n, v))) = wd_tasks v" for owners n v
    by (induction owners arbitrary: n v) (auto split: prod.split, metis release_owner_frame (2) snd_conv)
  with ReapAndRelease show ?thesis
    by (simp add: reap_expired_surface_owner_resources_at_def split: prod.split)
qed (auto simp: register_owner_def heartbeat_surface_owner_def reap_owners_def release_reaped_def
    release_surface_resource_session_def arrive_def Let_def split: prod.split sum.split option.split list.split)

end
