(* ===== verification/Surface_Slots.thy ===== *)
theory Surface_Slots
  imports Surface_Safety "HOL-Library.Multiset"
begin

text \<open>
  The slots of the governor that surfaces occupy are exactly those whose handles the world holds:
  the reservations that wait for an activation, the leases of the live surfaces, and what the tasks
  in progress carry. A handle is compared with its slot by its key and the surface it names.
\<close>

section \<open>Handles and slots\<close>

datatype hold = HoldReservation reservation_key | HoldLease reservation_key live_surface_identity

fun slot_hold :: "reservation_key \<times> reservation_state \<Rightarrow> hold list" where
  "slot_hold (k, Pending kind) = (if kind = NativeSurfaceWork then [HoldReservation k] else [])"
| "slot_hold (k, Live ChromiumProcessLive) = []"
| "slot_hold (k, Live (NativeSurfaceLive identity v)) = [HoldLease k identity]"

definition slots :: "runtime_governor_state \<Rightarrow> hold multiset" where
  "slots g = mset (concat (map slot_hold (rg_reservations g)))"

definition reservation_hold :: "resource_reservation \<Rightarrow> hold option" where
  "reservation_hold r = map_option HoldReservation (rr_key r)"

definition lease_hold :: "live_resource_lease \<Rightarrow> hold option" where
  "lease_hold l = (case (ll_key l, ll_kind l, ll_surface_identity l) of
     (Some k, LiveNativeSurface, Some identity) \<Rightarrow> Some (HoldLease k identity) | _ \<Rightarrow> None)"

fun stage_holds :: "surface_stage \<Rightarrow> hold option list" where
  "stage_holds (Claimed _ _ _ r) = [reservation_hold r]"
| "stage_holds (Activated _ _ l) = [lease_hold l]"
| "stage_holds (Recorded _ l) = [lease_hold l]"
| "stage_holds (Withdrawing _ (Some l) _) = [lease_hold l]"
| "stage_holds (Dropping (Some l) _) = [lease_hold l]"
| "stage_holds (Removed _ _ l) = [lease_hold l]"
| "stage_holds _ = []"

definition entry_holds :: "surface_entry \<Rightarrow> hold option multiset" where
  "entry_holds e = image_mset (\<lambda>(_, r). reservation_hold r) (mset (sr_pending e))
     + image_mset (\<lambda>(_, l). lease_hold l) (mset (sr_live e))"

definition task_holds :: "surface_task list \<Rightarrow> hold option list" where
  "task_holds ts = concat (map (\<lambda>t. stage_holds (tk_stage t)) ts)"

lemma task_holds_simps [simp]:
  "task_holds [] = []"
  "task_holds (t # ts) = stage_holds (tk_stage t) @ task_holds ts"
  "task_holds (ts @ us) = task_holds ts @ task_holds us"
  by (simp_all add: task_holds_def)

section \<open>Ordered maps as multisets\<close>

lemma bt_remove_absent: "map_of m k = None \<Longrightarrow> bt_remove k m = m"
  by (auto simp: bt_remove_def map_of_eq_None_iff filter_id_conv)

lemma mset_bt_insert:
  assumes "bt_wf m"
  shows "mset (bt_insert k v m) = add_mset (k, v) (mset (bt_remove k m))"
proof -
  have d: "distinct (bt_insert k v m)" "distinct ((k, v) # bt_remove k m)"
    using bt_wf_distinct [OF bt_wf_insert [OF assms, of k v]] bt_wf_distinct [OF bt_wf_remove [OF assms, of k]]
    by (auto simp: distinct_map bt_remove_def)
  have "set (bt_insert k v m) = set ((k, v) # bt_remove k m)"
    using bt_mem_iff [OF bt_wf_insert [OF assms, of k v]] bt_mem_iff [OF bt_wf_remove [OF assms, of k]] assms
    by (auto split: if_splits)
  with d have "mset (bt_insert k v m) = mset ((k, v) # bt_remove k m)"
    by (simp only: set_eq_iff_mset_eq_distinct)
  then show ?thesis by simp
qed

lemma set_bt_insert: "bt_wf m \<Longrightarrow> set (bt_insert k v m) = insert (k, v) (set (bt_remove k m))"
  using mset_bt_insert [of m k v] by (metis set_mset_add_mset_insert set_mset_mset)

lemma bt_remove_sub: "e \<in> set (bt_remove k m) \<Longrightarrow> e \<in> set m"
  by (simp add: bt_remove_def)

lemma mset_bt_remove:
  assumes "bt_wf m" "map_of m k = Some v"
  shows "mset m = add_mset (k, v) (mset (bt_remove k m))"
proof -
  have d: "distinct m" "distinct ((k, v) # bt_remove k m)"
    using bt_wf_distinct [OF assms (1)] bt_wf_distinct [OF bt_wf_remove [OF assms (1), of k]]
    by (auto simp: distinct_map bt_remove_def)
  have "set m = set ((k, v) # bt_remove k m)"
    using bt_mem_iff [OF assms (1)] bt_mem_iff [OF bt_wf_remove [OF assms (1), of k]] assms (2)
    by (auto split: if_splits)
  with d have "mset m = mset ((k, v) # bt_remove k m)" by (simp only: set_eq_iff_mset_eq_distinct)
  then show ?thesis by simp
qed

section \<open>The governor\<close>

lemma slots_alt: "slots g = \<Sum>\<^sub># (image_mset (mset \<circ> slot_hold) (mset (rg_reservations g)))"
proof -
  have "mset (concat (map slot_hold rs)) = \<Sum>\<^sub># (image_mset (mset \<circ> slot_hold) (mset rs))" for rs
    by (induction rs) simp_all
  then show ?thesis by (simp add: slots_def)
qed

lemma slots_insert:
  "bt_wf (rg_reservations g) \<Longrightarrow> slots (with_reservations g (bt_insert k r (rg_reservations g)))
     = mset (slot_hold (k, r)) + slots (release_key g k)"
  by (simp add: slots_alt with_reservations_def release_key_def mset_bt_insert)

lemma slots_release:
  "bt_wf (rg_reservations g) \<Longrightarrow> map_of (rg_reservations g) k = Some r
     \<Longrightarrow> slots g = mset (slot_hold (k, r)) + slots (release_key g k)"
  by (simp add: slots_alt with_reservations_def release_key_def mset_bt_remove)

lemma release_key_absent: "map_of (rg_reservations g) k = None \<Longrightarrow> release_key g k = g"
  by (simp add: release_key_def with_reservations_def bt_remove_absent)

lemma slots_elem:
  assumes "bt_wf (rg_reservations g)"
  shows "HoldReservation k \<in># slots g \<longleftrightarrow> map_of (rg_reservations g) k = Some (Pending NativeSurfaceWork)"
    and "HoldLease k identity \<in># slots g
      \<longleftrightarrow> (\<exists>v. map_of (rg_reservations g) k = Some (Live (NativeSurfaceLive identity v)))"
proof -
  have "HoldReservation k \<in> set (slot_hold e) \<longleftrightarrow> e = (k, Pending NativeSurfaceWork)"
    "HoldLease k identity \<in> set (slot_hold e) \<longleftrightarrow> (\<exists>v. e = (k, Live (NativeSurfaceLive identity v)))" for e
    by (cases e rule: slot_hold.cases; auto)+
  then show "HoldReservation k \<in># slots g \<longleftrightarrow> map_of (rg_reservations g) k = Some (Pending NativeSurfaceWork)"
    "HoldLease k identity \<in># slots g
      \<longleftrightarrow> (\<exists>v. map_of (rg_reservations g) k = Some (Live (NativeSurfaceLive identity v)))"
    using bt_mem_iff [OF assms] by (simp_all add: slots_def) (metis surj_pair)
qed

lemma governor_wf_simps [simp]:
  "bt_wf (rg_reservations g) \<Longrightarrow> bt_wf (rg_reservations (release_key g k))"
  "bt_wf (rg_reservations (with_reservations g rs)) = bt_wf rs"
  by (simp_all add: release_key_def with_reservations_def)

definition governor_wf :: "runtime_governor_state \<Rightarrow> bool" where
  "governor_wf g \<longleftrightarrow> bt_wf (rg_reservations g)"

lemma reserve_slots:
  assumes "governor_wf g" "reserve g s rid NativeSurfaceWork = (r, g')"
  shows "governor_wf g' \<and> (case r of
      Inl _ \<Rightarrow> g' = g
    | Inr h \<Rightarrow> image_mset Some (slots g') = add_mset (reservation_hold h) (image_mset Some (slots g)))"
  using assms
  by (auto simp: reserve_def Let_def governor_wf_def slots_insert release_key_absent reservation_hold_def
      split: if_splits)

lemma reservation_drop_slots:
  assumes "governor_wf g" "image_mset Some (slots g) = add_mset (reservation_hold h) R"
  shows "governor_wf (reservation_drop g h) \<and> image_mset Some (slots (reservation_drop g h)) = R"
proof -
  obtain k where k: "rr_key h = Some k" "HoldReservation k \<in># slots g"
    using assms (2) unfolding reservation_hold_def
    by (cases "rr_key h") (force dest: msed_map_invR)+
  from k (2) assms (1) have "map_of (rg_reservations g) k = Some (Pending NativeSurfaceWork)"
    by (simp add: governor_wf_def slots_elem)
  with assms (1) have "slots g = add_mset (HoldReservation k) (slots (release_key g k))"
    by (simp add: governor_wf_def slots_release)
  with assms k (1) show ?thesis by (simp add: reservation_drop_def governor_wf_def reservation_hold_def)
qed

lemma lease_hold_cases:
  assumes "lease_hold l = Some h"
  obtains k identity where "h = HoldLease k identity" "ll_key l = Some k" "ll_kind l = LiveNativeSurface"
    "ll_surface_identity l = Some identity"
  using assms by (auto simp: lease_hold_def split: option.splits live_resource_kind.splits)

lemma held_lease:
  assumes "governor_wf g" "lease_hold l \<in># image_mset Some (slots g)"
  obtains k identity v where "ll_key l = Some k" "ll_kind l = LiveNativeSurface"
    "ll_surface_identity l = Some identity"
    "map_of (rg_reservations g) k = Some (Live (NativeSurfaceLive identity v))"
proof -
  obtain h where "lease_hold l = Some h" "h \<in># slots g" using assms (2) by auto
  with assms (1) that show thesis
    by (elim lease_hold_cases) (auto simp: slots_elem governor_wf_def)
qed

lemma lease_drop_slots:
  assumes "governor_wf g" "image_mset Some (slots g) = add_mset (lease_hold l) R"
  shows "governor_wf (lease_drop g l) \<and> image_mset Some (slots (lease_drop g l)) = R"
proof -
  have "lease_hold l \<in># image_mset Some (slots g)" using assms (2) by simp
  from held_lease [OF assms (1) this] obtain k identity v where l: "ll_key l = Some k"
    "ll_kind l = LiveNativeSurface" "ll_surface_identity l = Some identity"
    and k: "map_of (rg_reservations g) k = Some (Live (NativeSurfaceLive identity v))" .
  from k assms (1) have "slots g = add_mset (HoldLease k identity) (slots (release_key g k))"
    by (simp add: governor_wf_def slots_release)
  with assms l k show ?thesis
    by (simp add: lease_drop_def release_live_key_def governor_wf_def lease_hold_def)
qed

lemma activate_surface_slots:
  assumes "governor_wf g" "image_mset Some (slots g) = add_mset (reservation_hold h) R"
    and "activate_surface g h identity v = (r, g')"
  shows "governor_wf g' \<and> (case r of Inl _ \<Rightarrow> False
    | Inr l \<Rightarrow> image_mset Some (slots g') = add_mset (lease_hold l) R \<and> ll_surface_identity l = Some identity)"
proof -
  obtain k where k: "rr_key h = Some k" "HoldReservation k \<in># slots g"
    using assms (2) unfolding reservation_hold_def
    by (cases "rr_key h") (force dest: msed_map_invR)+
  from k (2) assms (1) have m: "map_of (rg_reservations g) k = Some (Pending NativeSurfaceWork)"
    by (simp add: governor_wf_def slots_elem)
  with assms (1) have "slots g = add_mset (HoldReservation k) (slots (release_key g k))"
    by (simp add: governor_wf_def slots_release)
  with assms k (1) m show ?thesis
    by (auto simp: activate_surface_def activate_surface_key_def governor_wf_def reservation_hold_def
        slots_insert lease_hold_def)
qed

lemma set_visibility_slots:
  assumes "governor_wf g" "set_surface_visibility g l identity v = (r, g')"
  shows "governor_wf g' \<and> slots g' = slots g"
  using assms
  by (auto simp: set_surface_visibility_def set_surface_visibility_key_def governor_wf_def slots_insert slots_release
      split: if_splits option.splits reservation_state.splits live_resource_state.splits)

lemma other_work_slots:
  assumes "other_work g g'"
  shows "governor_wf g' \<and> slots g' = slots g"
proof -
  have "slot_hold e = []" if "\<not> is_surface_slot (snd e)" for e
    using that by (cases e rule: slot_hold.cases) auto
  then have "concat (map slot_hold rs) = concat (map slot_hold (filter (\<lambda>(_, r). is_surface_slot r) rs))" for rs
    by (induction rs) auto
  then have "slots h = mset (concat (map slot_hold (surface_slots h)))" for h
    by (simp add: slots_def surface_slots_def)
  with assms show ?thesis by (simp add: other_work_def governor_wf_def)
qed

section \<open>The world\<close>

definition names_claim :: "surface_claim \<Rightarrow> live_resource_lease \<Rightarrow> bool" where
  "names_claim c l \<longleftrightarrow> ll_surface_identity l = Some (claim_identity c)"

fun stage_names :: "surface_stage \<Rightarrow> bool" where
  "stage_names (Activated c _ l) = names_claim c l"
| "stage_names (Recorded c l) = names_claim c l"
| "stage_names _ = True"

definition entry_ok :: "surface_entry \<Rightarrow> bool" where
  "entry_ok e \<longleftrightarrow> bt_wf (sr_pending e) \<and> bt_wf (sr_live e) \<and> (\<forall>(c, l) \<in> set (sr_live e). names_claim c l)"

text \<open>The entry and handles \<open>H\<close> outside of it hold the slots of the governor.\<close>

definition slots_held :: "runtime_governor_state \<Rightarrow> surface_entry \<Rightarrow> hold option multiset \<Rightarrow> bool" where
  "slots_held g e H \<longleftrightarrow>
     governor_wf g \<and> entry_ok e \<and> image_mset Some (slots g) = entry_holds e + H"

lemma entry_holds_pending:
  assumes "bt_wf (sr_pending e)"
  shows "map_of (sr_pending e) k = None \<Longrightarrow>
      entry_holds (e\<lparr>sr_pending := bt_insert k r (sr_pending e)\<rparr>) = add_mset (reservation_hold r) (entry_holds e)"
    and "map_of (sr_pending e) k = Some r \<Longrightarrow>
      entry_holds e = add_mset (reservation_hold r) (entry_holds (e\<lparr>sr_pending := bt_remove k (sr_pending e)\<rparr>))"
  using assms by (simp_all add: entry_holds_def mset_bt_insert bt_remove_absent mset_bt_remove)

lemma entry_holds_live:
  assumes "bt_wf (sr_live e)"
  shows "map_of (sr_live e) k = None \<Longrightarrow>
      entry_holds (e\<lparr>sr_live := bt_insert k l (sr_live e)\<rparr>) = add_mset (lease_hold l) (entry_holds e)"
    and "map_of (sr_live e) k = Some l \<Longrightarrow>
      entry_holds e = add_mset (lease_hold l) (entry_holds (e\<lparr>sr_live := bt_remove k (sr_live e)\<rparr>))"
    and "map_of (sr_live e) k = Some old \<Longrightarrow> add_mset (lease_hold old)
      (entry_holds (e\<lparr>sr_live := bt_insert k l (sr_live e)\<rparr>)) = add_mset (lease_hold l) (entry_holds e)"
  using assms by (simp_all add: entry_holds_def mset_bt_insert bt_remove_absent mset_bt_remove)

lemma entry_holds_activating [simp]: "entry_holds (e\<lparr>sr_activating := a\<rparr>) = entry_holds e"
  "entry_ok (e\<lparr>sr_activating := a\<rparr>) = entry_ok e"
  "entry_holds (claim_activating e c) = entry_holds e" "entry_ok (claim_activating e c) = entry_ok e"
  by (simp_all add: entry_holds_def entry_ok_def claim_activating_def)

lemma entry_ok_updates:
  assumes "entry_ok e"
  shows "entry_ok (e\<lparr>sr_pending := bt_insert k r (sr_pending e)\<rparr>)"
    "entry_ok (e\<lparr>sr_pending := bt_remove k (sr_pending e)\<rparr>)"
    "entry_ok (e\<lparr>sr_live := bt_remove c (sr_live e)\<rparr>)"
    "names_claim c l \<Longrightarrow> entry_ok (e\<lparr>sr_live := bt_insert c l (sr_live e)\<rparr>)"
  using assms by (auto simp: entry_ok_def set_bt_insert dest: bt_remove_sub)

lemma slots_held_drop_reservation:
  "slots_held g e (add_mset (reservation_hold r) H) \<Longrightarrow> slots_held (reservation_drop g r) e H"
  using reservation_drop_slots [of g r "entry_holds e + H"] by (simp add: slots_held_def)

lemma slots_held_drop_lease:
  "slots_held g e (add_mset (lease_hold l) H) \<Longrightarrow> slots_held (lease_drop g l) e H"
  using lease_drop_slots [of g l "entry_holds e + H"] by (simp add: slots_held_def)

lemma slots_held_same:
  "slots_held g e H \<Longrightarrow> entry_ok e' \<Longrightarrow> entry_holds e' + H' = entry_holds e + H \<Longrightarrow> slots_held g e' H'"
  by (simp add: slots_held_def)

lemma slots_held_reserve:
  assumes "slots_held g e H" "reserve g s rid NativeSurfaceWork = (r, g')"
  shows "case r of Inl _ \<Rightarrow> g' = g | Inr h \<Rightarrow> slots_held g' e (add_mset (reservation_hold h) H)"
  using assms reserve_slots [of g s rid r g'] by (auto simp: slots_held_def split: sum.split)

lemma empty_entry_ok [simp]: "entry_ok empty_surface_entry" "entry_holds empty_surface_entry = {#}"
  by (simp_all add: entry_ok_def entry_holds_def empty_surface_entry_def)

abbreviation world_slots_held :: "surface_world \<Rightarrow> hold option multiset \<Rightarrow> bool" where
  "world_slots_held w H \<equiv> slots_held (wd_governor w) (surface_entry_or_new w) H"

lemma reserve_request_slots:
  assumes "world_slots_held w H" "reserve_surface_resource env i owner session rid w = (stage, w')"
  shows "world_slots_held w' (mset (stage_holds stage) + H) \<and> stage_names stage"
proof (cases "\<not> in_session_known i \<or> \<not> valid_request_id rid
    \<or> map_of (sr_pending (surface_entry_or_new w)) (owner, session, rid) \<noteq> None")
  case True
  with assms show ?thesis by (auto simp: reserve_surface_resource_def Let_def split: if_splits)
next
  case False
  let ?e = "surface_entry_or_new w"
  obtain r g where r: "reserve (wd_governor w) (en_uuid_display env session) rid NativeSurfaceWork = (r, g)" by force
  have e: "entry_ok ?e" using assms (1) by (simp add: slots_held_def)
  show ?thesis
  proof (cases r)
    case (Inl denial)
    with False assms r slots_held_reserve [OF assms (1) r] show ?thesis
      by (auto simp: reserve_surface_resource_def Let_def)
  next
    case (Inr h)
    with slots_held_reserve [OF assms (1) r] have held: "slots_held g ?e (add_mset (reservation_hold h) H)" by simp
    have "entry_holds (?e\<lparr>sr_pending := bt_insert (owner, session, rid) h (sr_pending ?e)\<rparr>)
        = add_mset (reservation_hold h) (entry_holds ?e)"
      using e False by (intro entry_holds_pending (1)) (auto simp: entry_ok_def)
    then have "slots_held g (?e\<lparr>sr_pending := bt_insert (owner, session, rid) h (sr_pending ?e)\<rparr>) H"
      using entry_ok_updates (1) [OF e] by (intro slots_held_same [OF held]) simp_all
    with False assms (2) r Inr show ?thesis by (auto simp: reserve_surface_resource_def Let_def)
  qed
qed

lemma cancel_request_slots:
  assumes "world_slots_held w H" "cancel_surface_reservation i owner session rid w = (stage, w')"
  shows "world_slots_held w' (mset (stage_holds stage) + H) \<and> stage_names stage"
proof (cases "\<exists>e r. in_session_known i \<and> valid_request_id rid \<and> wd_surfaces w = Some e
    \<and> map_of (sr_pending e) (owner, session, rid) = Some r")
  case True
  then obtain e r where e: "wd_surfaces w = Some e" "map_of (sr_pending e) (owner, session, rid) = Some r"
    and ok: "in_session_known i" "valid_request_id rid" by blast
  have eq: "surface_entry_or_new w = e" using e by (simp add: surface_entry_or_new_def)
  have wf: "entry_ok e" using assms (1) by (simp add: slots_held_def eq)
  let ?e' = "e\<lparr>sr_pending := bt_remove (owner, session, rid) (sr_pending e)\<rparr>"
  have "entry_holds e = add_mset (reservation_hold r) (entry_holds ?e')"
    using wf e (2) by (intro entry_holds_pending (2)) (simp_all add: entry_ok_def)
  then have "slots_held (wd_governor w) ?e' (add_mset (reservation_hold r) H)"
    using entry_ok_updates (2) [OF wf] by (intro slots_held_same [OF assms (1)]) (simp_all add: eq)
  from slots_held_drop_reservation [OF this] assms (2) e ok show ?thesis
    by (auto simp: cancel_surface_reservation_def)
next
  case False
  with assms show ?thesis
    by (auto simp: cancel_surface_reservation_def split: if_splits option.splits)
qed

lemma begin_activation_slots:
  assumes "world_slots_held w H" "begin_activation owner t rid v w = (stage, w')"
  shows "world_slots_held w' (mset (stage_holds stage) + H) \<and> stage_names stage"
proof (cases "\<exists>c k rec r. checked_claim owner t w = Inr (c, k, rec)
    \<and> \<not> surface_logically_claimed (surface_entry_or_new w) c
    \<and> map_of (sr_pending (surface_entry_or_new w)) (owner, st_session_id t, rid) = Some r")
  case True
  then obtain c k rec r where c: "checked_claim owner t w = Inr (c, k, rec)"
    "\<not> surface_logically_claimed (surface_entry_or_new w) c"
    "map_of (sr_pending (surface_entry_or_new w)) (owner, st_session_id t, rid) = Some r" by blast
  let ?e = "surface_entry_or_new w" and ?k = "(owner, st_session_id t, rid)"
  have wf: "entry_ok ?e" using assms (1) by (simp add: slots_held_def)
  have "entry_holds ?e = add_mset (reservation_hold r) (entry_holds (?e\<lparr>sr_pending := bt_remove ?k (sr_pending ?e)\<rparr>))"
    using wf c (3) by (intro entry_holds_pending (2)) (simp_all add: entry_ok_def)
  moreover have "(claim_activating ?e c)\<lparr>sr_pending := bt_remove ?k (sr_pending ?e)\<rparr>
      = claim_activating (?e\<lparr>sr_pending := bt_remove ?k (sr_pending ?e)\<rparr>) c" by (simp add: claim_activating_def)
  ultimately have "slots_held (wd_governor w) ((claim_activating ?e c)\<lparr>sr_pending := bt_remove ?k (sr_pending ?e)\<rparr>)
      (add_mset (reservation_hold r) H)"
    using entry_ok_updates (2) [OF wf] by (intro slots_held_same [OF assms (1)]) simp_all
  with assms (2) c show ?thesis by (auto simp: begin_activation_def Let_def)
next
  case False
  with assms show ?thesis
    by (auto simp: begin_activation_def Let_def split: if_splits option.splits sum.splits)
qed

lemma begin_reattachment_slots:
  assumes "world_slots_held w H" "begin_reattachment env i owner t v w = (stage, w')"
  shows "world_slots_held w' (mset (stage_holds stage) + H) \<and> stage_names stage"
proof (cases "\<exists>c k rec. in_session_known i \<and> checked_claim owner t w = Inr (c, k, rec) \<and> outstanding_exact rec k
    \<and> \<not> surface_logically_claimed (surface_entry_or_new w) c")
  case True
  then obtain c k rec where c: "checked_claim owner t w = Inr (c, k, rec)" "outstanding_exact rec k"
    "\<not> surface_logically_claimed (surface_entry_or_new w) c" "in_session_known i" by blast
  let ?e = "surface_entry_or_new w"
  obtain r g where r: "reserve (wd_governor w) (en_uuid_display env (st_session_id t))
      (''surface-reattach-'' @ en_uuid_display env (in_fresh i)) NativeSurfaceWork = (r, g)" by force
  show ?thesis
  proof (cases r)
    case (Inl denial)
    with assms c r slots_held_reserve [OF assms (1) r] show ?thesis
      by (auto simp: begin_reattachment_def Let_def)
  next
    case (Inr h)
    with slots_held_reserve [OF assms (1) r] have "slots_held g ?e (add_mset (reservation_hold h) H)" by simp
    then have "slots_held g (claim_activating ?e c) (add_mset (reservation_hold h) H)"
      by (simp add: slots_held_def)
    with assms (2) c r Inr show ?thesis by (auto simp: begin_reattachment_def Let_def)
  qed
next
  case False
  with assms show ?thesis
    by (auto simp: begin_reattachment_def Let_def split: if_splits option.splits sum.splits)
qed

lemma begin_release_slots:
  assumes "world_slots_held w H" "begin_release owner t w = (stage, w')"
  shows "world_slots_held w' (mset (stage_holds stage) + H) \<and> stage_names stage"
proof (cases "\<exists>e l. surface_identity t \<noteq> None \<and> wd_surfaces w = Some e \<and> map_of (sr_live e) (claim_of owner t) = Some l")
  case True
  then obtain e l where e: "surface_identity t \<noteq> None" "wd_surfaces w = Some e"
    "map_of (sr_live e) (claim_of owner t) = Some l" by blast
  have eq: "surface_entry_or_new w = e" using e by (simp add: surface_entry_or_new_def)
  have wf: "entry_ok e" using assms (1) by (simp add: slots_held_def eq)
  let ?e' = "e\<lparr>sr_live := bt_remove (claim_of owner t) (sr_live e)\<rparr>"
  have "entry_holds e = add_mset (lease_hold l) (entry_holds ?e')"
    using wf e (3) by (intro entry_holds_live (2)) (simp_all add: entry_ok_def)
  then have "slots_held (wd_governor w) ?e' (add_mset (lease_hold l) H)"
    using entry_ok_updates (3) [OF wf] by (intro slots_held_same [OF assms (1)]) (simp_all add: eq)
  with assms (2) e show ?thesis by (auto simp: begin_release_def Let_def)
next
  case False
  with assms show ?thesis by (auto simp: begin_release_def Let_def split: option.splits)
qed

lemma update_visibility_slots:
  assumes "world_slots_held w H" "update_surface_visibility owner t v w = (stage, w')"
  shows "world_slots_held w' (mset (stage_holds stage) + H) \<and> stage_names stage"
proof -
  have "slots_held g (surface_entry_or_new w) H" if "set_surface_visibility (wd_governor w) l d v = (r, g)" for l d r g
    using set_visibility_slots [OF _ that] assms (1) by (simp add: slots_held_def)
  with assms show ?thesis
    by (auto simp: update_surface_visibility_def split: option.splits prod.splits sum.splits)
qed

lemma commit_surface_slots:
  assumes "world_slots_held w (add_mset (lease_hold l) H)" "names_claim c l" "commit_surface c l w = (stage, w')"
  shows "world_slots_held w' (mset (stage_holds stage) + H)"
proof -
  let ?e = "surface_entry_or_new w"
  let ?e' = "?e\<lparr>sr_live := bt_insert c l (sr_live ?e)\<rparr>"
  have ok: "entry_ok ?e" using assms (1) by (simp add: slots_held_def)
  then have wf: "bt_wf (sr_live ?e)" by (simp add: entry_ok_def)
  have e': "?e\<lparr>sr_activating := sr_activating ?e - {c}, sr_live := bt_insert c l (sr_live ?e)\<rparr>
      = ?e'\<lparr>sr_activating := sr_activating ?e - {c}\<rparr>" by simp
  have "slots_held (case map_of (sr_live ?e) c of None \<Rightarrow> wd_governor w | Some old \<Rightarrow> lease_drop (wd_governor w) old) ?e' H"
  proof (cases "map_of (sr_live ?e) c")
    case None
    then show ?thesis
      using entry_ok_updates (4) [OF ok assms (2)] entry_holds_live (1) [OF wf None, of l]
      by (simp, intro slots_held_same [OF assms (1)]) simp_all
  next
    case (Some old)
    have "slots_held (wd_governor w) ?e' (add_mset (lease_hold old) H)"
      using entry_ok_updates (4) [OF ok assms (2)] entry_holds_live (3) [OF wf Some, of l]
      by (intro slots_held_same [OF assms (1)]) (simp_all flip: union_mset_add_mset_left)
    with Some slots_held_drop_lease show ?thesis by simp
  qed
  then have "slots_held (case map_of (sr_live ?e) c of None \<Rightarrow> wd_governor w | Some old \<Rightarrow> lease_drop (wd_governor w) old)
      (?e'\<lparr>sr_activating := sr_activating ?e - {c}\<rparr>) H" unfolding slots_held_def entry_holds_activating .
  with assms (3) show ?thesis by (auto simp: commit_surface_def Let_def e')
qed

lemma next_stage_slots:
  assumes "world_slots_held w (mset (stage_holds stage) + H)" "stage_names stage"
    and "next_stage env i owner stage w = (stage', w')"
  shows "world_slots_held w' (mset (stage_holds stage') + H) \<and> stage_names stage'"
proof (cases stage)
  case (Admitted request)
  with assms have held: "world_slots_held w H" and "begin_request env i owner request w = (stage', w')" by simp_all
  then show ?thesis
    by (cases request)
      (auto dest: reserve_request_slots [OF held] cancel_request_slots [OF held] begin_activation_slots [OF held]
        begin_reattachment_slots [OF held] update_visibility_slots [OF held] begin_release_slots [OF held])
next
  case (Claimed c v event h)
  obtain r g where act: "activate_surface (wd_governor w) h (claim_identity c) v = (r, g)" by force
  have "slots_held (wd_governor w) (surface_entry_or_new w) (add_mset (reservation_hold h) H)"
    using assms (1) Claimed by simp
  then have "governor_wf (wd_governor w)" "image_mset Some (slots (wd_governor w))
      = add_mset (reservation_hold h) (entry_holds (surface_entry_or_new w) + H)" and ok: "entry_ok (surface_entry_or_new w)"
    by (simp_all add: slots_held_def)
  from activate_surface_slots [OF this (1,2) act] act ok assms (3) Claimed show ?thesis
    by (cases r) (auto simp: activate_claimed_def slots_held_def names_claim_def)
next
  case (Recorded c l)
  with assms have "world_slots_held w (add_mset (lease_hold l) H)" "names_claim c l" "commit_surface c l w = (stage', w')"
    by simp_all
  from commit_surface_slots [OF this] this (3) show ?thesis by (auto simp: commit_surface_def Let_def)
next
  case (Activated c event l)
  obtain r v where rec: "record_in_world env (in_faults i) event w = (r, v)" by force
  from assms Activated record_in_world_eq (3,5) [OF rec] show ?thesis
    by (auto simp: record_activation_def rec split: option.splits sum.splits)
next
  case (Withdrawing c l r)
  with assms show ?thesis by (cases l) (auto simp: slots_held_def)
next
  case (Dropping l r)
  with assms show ?thesis
    by (cases l) (auto simp: drop_lease_option_def intro: slots_held_drop_lease)
next
  case (Removed c primary l)
  with assms show ?thesis by (auto simp: drop_lease_option_def intro: slots_held_drop_lease)
next
  case (Discharging c)
  have frame: "world_slots_held v H" if "record_in_world env (in_faults i) event w = (r, v)" for event r v
    using assms (1) Discharging record_in_world_eq (3,5) [OF that] by simp
  from assms Discharging show ?thesis
    by (auto simp: discharge_release_def frame split: prod.splits option.splits sum.splits)
qed (use assms in auto)

section \<open>Sessions and owners that are released\<close>

lemma mset_split: "(\<And>x. Q x \<longleftrightarrow> \<not> P x) \<Longrightarrow> mset xs = mset (filter P xs) + mset (filter Q xs)"
  by (induction xs) auto

lemma drop_reservations:
  "slots_held g e (image_mset (\<lambda>(_, r). reservation_hold r) (mset rs) + H)
    \<Longrightarrow> slots_held (fold (\<lambda>(_, r) g. reservation_drop g r) rs g) e H"
  by (induction rs arbitrary: g) (auto intro: slots_held_drop_reservation)

lemma drop_leases:
  "slots_held g e (image_mset (\<lambda>(_, l). lease_hold l) (mset ls) + H)
    \<Longrightarrow> slots_held (fold (\<lambda>(_, l) g. lease_drop g l) ls g) e H"
  by (induction ls arbitrary: g) (auto intro: slots_held_drop_lease)

lemma bt_wf_filter: "bt_wf m \<Longrightarrow> bt_wf (filter P m)"
  by (simp add: bt_wf_def sorted_wrt_map sorted_wrt_filter)

lemma release_session_slots:
  assumes "world_slots_held w H"
  shows "world_slots_held (snd (release_surface_resource_session session w)) H"
proof (cases "wd_surfaces w")
  case (Some e)
  then have e: "surface_entry_or_new w = e" by (simp add: surface_entry_or_new_def)
  let ?gone = "filter (\<lambda>((_, s, _), _). s = session) (sr_pending e)"
  let ?e' = "e\<lparr>sr_pending := filter (\<lambda>((_, s, _), _). s \<noteq> session) (sr_pending e)\<rparr>"
  have "mset (sr_pending e) = mset ?gone + mset (filter (\<lambda>((_, s, _), _). s \<noteq> session) (sr_pending e))"
    by (rule mset_split) auto
  then have "entry_holds e = entry_holds ?e' + image_mset (\<lambda>(_, r). reservation_hold r) (mset ?gone)"
    unfolding entry_holds_def by (simp del: mset_filter)
  moreover have "entry_ok ?e'" using assms by (simp add: slots_held_def e entry_ok_def bt_wf_filter)
  ultimately have "slots_held (wd_governor w) ?e' (image_mset (\<lambda>(_, r). reservation_hold r) (mset ?gone) + H)"
    by (intro slots_held_same [OF assms]) (simp_all add: e del: mset_filter)
  from drop_reservations [OF this] Some show ?thesis by (simp add: release_surface_resource_session_def Let_def)
qed (use assms in \<open>simp add: release_surface_resource_session_def\<close>)

lemma release_owner_slots:
  assumes "world_slots_held w H"
  shows "world_slots_held (snd (release_surface_resource_owner owner w)) H"
proof (cases "wd_surfaces w")
  case (Some e)
  then have e: "surface_entry_or_new w = e" by (simp add: surface_entry_or_new_def)
  let ?pending = "filter (\<lambda>((o', _), _). o' = owner) (sr_pending e)"
  let ?live = "filter (\<lambda>((o', _), _). o' = owner) (sr_live e)"
  let ?e' = "\<lparr>sr_pending = filter (\<lambda>((o', _), _). o' \<noteq> owner) (sr_pending e),
      sr_activating = {c \<in> sr_activating e. fst c \<noteq> owner},
      sr_live = filter (\<lambda>((o', _), _). o' \<noteq> owner) (sr_live e)\<rparr>"
  have "mset (sr_pending e) = mset ?pending + mset (sr_pending ?e')"
    "mset (sr_live e) = mset ?live + mset (sr_live ?e')"
    unfolding surface_entry.simps by (rule mset_split; auto)+
  then have "entry_holds e = entry_holds ?e' + (image_mset (\<lambda>(_, r). reservation_hold r) (mset ?pending)
      + image_mset (\<lambda>(_, l). lease_hold l) (mset ?live))"
    unfolding entry_holds_def by (simp del: mset_filter)
  moreover have "entry_ok ?e'" using assms by (auto simp: slots_held_def e entry_ok_def bt_wf_filter)
  ultimately have "slots_held (wd_governor w) ?e' (image_mset (\<lambda>(_, r). reservation_hold r) (mset ?pending)
      + (image_mset (\<lambda>(_, l). lease_hold l) (mset ?live) + H))"
    by (intro slots_held_same [OF assms]) (simp_all add: e del: mset_filter)
  from drop_leases [OF drop_reservations [OF this]] Some show ?thesis
    by (simp add: release_surface_resource_owner_def Let_def)
qed (use assms in \<open>simp add: release_surface_resource_owner_def\<close>)

section \<open>Every step keeps the slots\<close>

definition slots_inv :: "surface_world \<Rightarrow> bool" where
  "slots_inv w \<longleftrightarrow> world_slots_held w (mset (task_holds (wd_tasks w))) \<and> (\<forall>t \<in> set (wd_tasks w). stage_names (tk_stage t))"

lemma release_owners_slots:
  "slots_inv w \<Longrightarrow> slots_inv (snd (fold (\<lambda>owner (n, v). case release_surface_resource_owner owner v of
      (k, v') \<Rightarrow> (n + k, v')) owners (n, w)))"
proof (induction owners arbitrary: n w)
  case (Cons owner owners)
  have "slots_inv (snd (release_surface_resource_owner owner w))"
    using Cons.prems release_owner_slots by (simp add: slots_inv_def)
  with Cons.IH show ?case by (simp split: prod.split) (metis snd_conv)
qed simp

lemma advance_slots:
  assumes "slots_inv w"
  shows "slots_inv (advance env i n w)"
proof (cases "n < length (wd_tasks w)")
  case True
  let ?t = "wd_tasks w ! n"
  obtain us vs where ts: "wd_tasks w = us @ ?t # vs" "remove_nth n (wd_tasks w) = us @ vs"
    "\<And>t. (wd_tasks w)[n := t] = us @ t # vs" using split_tasks [OF True] by blast
  let ?H = "mset (task_holds us) + mset (task_holds vs)"
  have held: "world_slots_held w (mset (task_holds (us @ ?t # vs)))"
    and names: "\<forall>t \<in> set (us @ ?t # vs). stage_names (tk_stage t)"
    using assms unfolding slots_inv_def by (metis ts (1))+
  have held': "world_slots_held w (mset (stage_holds (tk_stage ?t)) + ?H)" using held by (simp add: ac_simps)
  show ?thesis
  proof (cases "is_finished (tk_stage ?t)")
    case fin: True
    then have "stage_holds (tk_stage ?t) = []" by (cases "tk_stage ?t") simp_all
    with True fin held' names show ?thesis by (simp add: advance_def end_task_def slots_inv_def ts (2) Let_def)
  next
    case False
    obtain stage w' where next_s: "next_stage env i (tk_owner ?t) (tk_stage ?t) w = (stage, w')" by force
    from next_stage_slots [OF held' _ next_s] names
    have "world_slots_held w' (mset (stage_holds stage) + ?H)" "stage_names stage" by simp_all
    with True False names show ?thesis
      by (simp add: advance_def slots_inv_def next_s ts (3) Let_def ac_simps)
  qed
qed (use assms in \<open>simp add: advance_def\<close>)

lemma cancelled_stage_slots:
  assumes "world_slots_held w (mset (stage_holds stage) + H)" "cancelled_stage env faults stage w = Some w'"
  shows "world_slots_held w' H"
  using assms
  by (cases stage) (auto simp: drop_lease_option_def intro: slots_held_drop_lease split: if_splits sum.splits)

lemma cancel_slots:
  assumes "slots_inv w"
  shows "slots_inv (cancel_task env faults n w)"
proof (cases "n < length (wd_tasks w)")
  case True
  let ?t = "wd_tasks w ! n"
  obtain us vs where ts: "wd_tasks w = us @ ?t # vs" "remove_nth n (wd_tasks w) = us @ vs"
    using split_tasks [OF True] by blast
  let ?H = "mset (task_holds us) + mset (task_holds vs)"
  have "world_slots_held w (mset (task_holds (us @ ?t # vs)))"
    and names: "\<forall>t \<in> set (us @ ?t # vs). stage_names (tk_stage t)"
    using assms unfolding slots_inv_def by (metis ts (1))+
  then have held: "world_slots_held w (mset (stage_holds (tk_stage ?t)) + ?H)" by (simp add: ac_simps)
  show ?thesis
  proof (cases "cancelled_stage env faults (tk_stage ?t) w")
    case None
    with assms show ?thesis by (simp add: cancel_task_def)
  next
    case (Some w')
    have "remove_nth n (wd_tasks w') = us @ vs" by (simp add: cancelled_stage_frame [OF Some] ts (2))
    with Some True cancelled_stage_slots [OF held Some] names show ?thesis
      by (simp add: cancel_task_def end_task_def slots_inv_def)
  qed
qed (use assms in \<open>simp add: cancel_task_def\<close>)

lemma run_surface_slots:
  assumes "slots_inv w"
  shows "slots_inv (run_surface env op w)"
proof (cases op)
  case (RegisterOwner owner epoch lid now)
  with assms show ?thesis by (simp add: register_owner_def slots_inv_def split: prod.split)
next
  case (HeartbeatOwner pf now)
  with assms show ?thesis by (simp add: heartbeat_surface_owner_def slots_inv_def split: prod.split sum.split)
next
  case (ReapOwners now)
  with assms show ?thesis by (simp add: reap_owners_def slots_inv_def surface_entry_or_new_def split: prod.split)
next
  case ReleaseReaped
  with assms release_owner_slots show ?thesis by (simp add: release_reaped_def slots_inv_def split: list.split)
next
  case (ReapAndRelease now)
  obtain expired os where reap: "reap_expired_surface_owners_at now (wd_owners w) = (expired, os)" by force
  have "slots_inv (w\<lparr>wd_owners := os\<rparr>)" using assms by (simp add: slots_inv_def)
  from release_owners_slots [OF this] show ?thesis
    by (simp add: ReapAndRelease reap_expired_surface_owner_resources_at_def reap)
next
  case (ReleaseSession session)
  have "wd_tasks (snd (release_surface_resource_session session w)) = wd_tasks w"
    by (simp add: release_surface_resource_session_def Let_def split: option.split)
  with assms ReleaseSession release_session_slots show ?thesis by (simp add: slots_inv_def)
next
  case (UpdateSample sample)
  have "rg_reservations (snd (update_sample g sample)) = rg_reservations g" for g by (simp add: update_sample_def)
  with assms UpdateSample show ?thesis by (simp add: slots_inv_def slots_held_def governor_wf_def slots_def)
next
  case (OtherWork g)
  with assms other_work_slots [of "wd_governor w" g] show ?thesis
    by (simp add: slots_inv_def slots_held_def)
next
  case (Arrive header pf now request)
  with assms show ?thesis by (simp add: arrive_def slots_inv_def split: prod.split sum.split)
qed (use assms advance_slots cancel_slots in simp_all)

end
