(* ===== verification/Recovery_Properties.thy ===== *)
theory Recovery_Properties
  imports Surface_Runtime
begin

text \<open>
  What the recovery journal of surfaces remembers: reopening it after any sequence of recordings
  that tore no line gives the state in memory; a torn line makes it unopenable; a surface that was
  attached again is no longer outstanding.
\<close>

section \<open>Lines of a journal\<close>

lemma valid_utf8_append: "valid_utf8 s \<Longrightarrow> valid_utf8 (s @ t) = valid_utf8 t"
proof (induction s rule: valid_utf8.induct)
  case (2 a s)
  show ?case
  proof (cases "in_range 0 127 a")
    case True
    with 2 show ?thesis by simp
  next
    case ascii: False
    with 2 obtain b s2 where s: "s = b # s2" by (cases s) simp_all
    show ?thesis
    proof (cases "in_range 194 223 a")
      case True
      with 2 ascii s show ?thesis by simp
    next
      case two: False
      with 2 ascii s obtain c s3 where s2: "s2 = c # s3" by (cases s2) simp_all
      show ?thesis
      proof (cases "in_range 224 239 a")
        case True
        with 2 ascii two s s2 show ?thesis by simp
      next
        case three: False
        with 2 ascii two s s2 obtain d s4 where "s3 = d # s4" by (cases s3) simp_all
        with 2 ascii two three s s2 show ?thesis by simp
      qed
    qed
  qed
qed simp

lemma newline_ascii [simp]: "in_range 0 127 newline"
  by (simp add: newline_def in_range_def)

lemma text_lines_line:
  "newline \<notin> set l \<Longrightarrow> text_lines pre (l @ newline # rest) = strip_carriage_return (pre @ l) # text_lines [] rest"
  by (induction l arbitrary: pre) auto

lemma text_lines_tail: "newline \<notin> set l \<Longrightarrow> text_lines pre l = (if pre @ l = [] then [] else [pre @ l])"
  by (induction l arbitrary: pre) auto

text \<open>What is relied on of the JSON library for an event: it is one line of text that ends with a
  brace and is decoded to the same event.\<close>

definition encodes_event :: "surface_recovery_codec \<Rightarrow> surface_recovery_event \<Rightarrow> bool" where
  "encodes_event codec e \<longleftrightarrow> (case sc_to_vec codec e of
     None \<Rightarrow> False
   | Some v \<Rightarrow> v \<noteq> [] \<and> newline \<notin> set v \<and> last v = 0x7D \<and> valid_utf8 v \<and> sc_from_str codec v = Some e)"

definition event_text :: "surface_recovery_codec \<Rightarrow> surface_recovery_event \<Rightarrow> bytes" where
  "event_text codec e = (case sc_to_vec codec e of None \<Rightarrow> [] | Some v \<Rightarrow> v)"

definition journal_text :: "surface_recovery_codec \<Rightarrow> surface_recovery_event list \<Rightarrow> bytes" where
  "journal_text codec es = concat (map (\<lambda>e. event_text codec e @ [newline]) es)"

definition event_fits :: "surface_recovery_codec \<Rightarrow> surface_recovery_event \<Rightarrow> bool" where
  "event_fits codec e \<longleftrightarrow> encodes_event codec e \<and> surface_key_valid (event_key e)
     \<and> length (event_text codec e) < max_event_bytes"

lemma event_fits_text:
  assumes "event_fits codec e"
  shows "event_text codec e \<noteq> []" "newline \<notin> set (event_text codec e)"
    "strip_carriage_return (event_text codec e) = event_text codec e" "valid_utf8 (event_text codec e)"
    "sc_from_str codec (event_text codec e) = Some e" "sc_to_vec codec e = Some (event_text codec e)"
  using assms
  by (auto simp: event_fits_def encodes_event_def event_text_def strip_carriage_return_def carriage_return_def
      split: option.splits)

lemma journal_text_utf8:
  "\<forall>e \<in> set es. event_fits codec e \<Longrightarrow> valid_utf8 (journal_text codec es @ t) = valid_utf8 t"
  by (induction es) (simp_all add: journal_text_def valid_utf8_append event_fits_text)

lemma journal_text_lines:
  "\<forall>e \<in> set es. event_fits codec e
    \<Longrightarrow> text_lines [] (journal_text codec es @ t) = map (event_text codec) es @ text_lines [] t"
  by (induction es) (simp_all add: journal_text_def text_lines_line event_fits_text)

lemma replay_journal_lines:
  "\<forall>e \<in> set es. event_fits codec e \<Longrightarrow> n + length es \<le> max_journal_events
    \<Longrightarrow> replay_lines codec out n (map (event_text codec) es @ lines)
      = replay_lines codec (fold apply_event es out) (n + length es) lines"
proof (induction es arbitrary: out n)
  case (Cons e es)
  then have "event_text codec e \<noteq> []" "\<not> max_event_bytes < length (event_text codec e)"
    "sc_from_str codec (event_text codec e) = Some e" "surface_key_valid (event_key e)"
    by (auto simp: event_fits_text) (auto simp: event_fits_def)
  with Cons show ?case by simp
qed simp

section \<open>A journal that mirrors its file\<close>

definition recovery_mirrors ::
  "surface_recovery_codec \<Rightarrow> path \<Rightarrow> surface_recovery_event list \<Rightarrow> surface_recovery_state \<times> file_system \<Rightarrow> bool" where
  "recovery_mirrors codec p es = (\<lambda>(st, fs).
     (\<forall>e \<in> set es. event_fits codec e) \<and> file_contents fs p = journal_text codec es
       \<and> length es \<le> max_journal_events \<and> length (journal_text codec es) \<le> max_journal_bytes
       \<and> st = \<lparr>sj_outstanding = fold apply_event es {}, sj_event_count = length es,
              sj_byte_count = length (journal_text codec es)\<rparr>)"

lemma open_mirrored: "recovery_mirrors codec p es (st, fs) \<Longrightarrow> open_recovery codec p None None fs = Inr st"
  using journal_text_utf8 [of es codec "[]"] journal_text_lines [of es codec "[]"]
    replay_journal_lines [of es codec 0 "{}" "[]"]
  by (auto simp: recovery_mirrors_def open_recovery_def Let_def)

text \<open>An append that fails before the file is touched, or does not fail.\<close>

definition nothing_torn :: "surface_append_faults \<Rightarrow> bool" where
  "nothing_torn faults \<longleftrightarrow> sf_open faults \<noteq> None \<or> sf_write faults = None \<and> sf_sync faults = None"

lemma record_mirrors:
  assumes "recovery_mirrors codec p es (st, fs)" "encodes_event codec e" "nothing_torn faults"
    and "record_event codec p e faults (st, fs) = (r, st', fs')"
  shows "recovery_mirrors codec p (if r = Inr () then es @ [e] else es) (st', fs')"
proof -
  obtain v where v: "sc_to_vec codec e = Some v" using assms (2) by (auto simp: encodes_event_def split: option.splits)
  then have etext: "event_text codec e = v" by (simp add: event_text_def)
  show ?thesis
  proof (cases "r = Inr ()")
    case True
    from assms (3,4) v True have new: "surface_key_valid (event_key e)" "length v < max_event_bytes"
      "sj_event_count st < max_journal_events" "sj_byte_count st + length v < max_journal_bytes"
      "fs' = fs(p \<mapsto> file_contents fs p @ v @ [newline])"
      "st' = st\<lparr>sj_event_count := sj_event_count st + 1, sj_byte_count := sj_byte_count st + length (v @ [newline]),
         sj_outstanding := apply_event e (sj_outstanding st)\<rparr>"
      by (auto simp: record_event_def append_surface_event_def Let_def split: if_splits option.splits prod.splits sum.splits)
    with assms (1,2) etext True show ?thesis
      by (simp add: recovery_mirrors_def event_fits_def journal_text_def file_contents_def)
  next
    case False
    with assms (3,4) v have "st' = st" "fs' = fs"
      by (auto simp: record_event_def append_surface_event_def nothing_torn_def Let_def
          split: if_splits option.splits prod.splits sum.splits)
    with assms (1) False show ?thesis by simp
  qed
qed

fun record_events ::
  "surface_recovery_codec \<Rightarrow> path \<Rightarrow> (surface_recovery_event \<times> surface_append_faults) list
    \<Rightarrow> surface_recovery_state \<times> file_system \<Rightarrow> surface_recovery_state \<times> file_system" where
  "record_events codec p [] s = s"
| "record_events codec p ((e, faults) # es) s = record_events codec p es (snd (record_event codec p e faults s))"

lemma record_events_mirrors:
  assumes "recovery_mirrors codec p es s" "\<forall>(e, faults) \<in> set ops. encodes_event codec e \<and> nothing_torn faults"
  shows "\<exists>es'. recovery_mirrors codec p es' (record_events codec p ops s)"
  using assms
proof (induction ops arbitrary: es s)
  case (Cons op ops)
  obtain e faults where op: "op = (e, faults)" by force
  obtain st fs where s: "s = (st, fs)" by force
  obtain r st' fs' where r: "record_event codec p e faults (st, fs) = (r, st', fs')" by (metis prod_cases3)
  from record_mirrors [OF _ _ _ r] Cons.prems have
    "recovery_mirrors codec p (if r = Inr () then es @ [e] else es) (st', fs')" by (simp add: op s)
  from Cons.IH [OF this] Cons.prems show ?case by (simp add: op s r)
qed auto

definition empty_recovery :: surface_recovery_state where
  "empty_recovery = \<lparr>sj_outstanding = {}, sj_event_count = 0, sj_byte_count = 0\<rparr>"

lemma empty_mirrors: "file_contents fs p = [] \<Longrightarrow> recovery_mirrors codec p [] (empty_recovery, fs)"
  by (simp add: recovery_mirrors_def empty_recovery_def journal_text_def)

section \<open>A concrete journal\<close>

definition demo_target :: surface_target where
  "demo_target = \<lparr>st_session_id = 5, st_surface_kind = ''preview_window'', st_label = ''p'', st_incarnation = 1\<rparr>"

definition demo_key :: "uuid \<Rightarrow> surface_recovery_key" where
  "demo_key owner = \<lparr>sk_session_id = 5, sk_surface_kind = ''preview_window'', sk_label = ''p'', sk_incarnation = 1,
     sk_owner_instance_id = owner\<rparr>"

fun demo_event_text :: "surface_recovery_event \<Rightarrow> bytes" where
  "demo_event_text (SurfaceActivated k) = [0x41, 0x7D]"
| "demo_event_text (SurfaceReleased k) = [0x42, 0x7D]"
| "demo_event_text (SurfaceReattached k) = [0x43, 0x7D]"

definition demo_surface_codec :: "surface_recovery_key \<Rightarrow> surface_recovery_codec" where
  "demo_surface_codec k = \<lparr>sc_to_vec = (\<lambda>e. Some (demo_event_text e)),
     sc_from_str = (\<lambda>t. find (\<lambda>e. demo_event_text e = t) [SurfaceActivated k, SurfaceReleased k, SurfaceReattached k])\<rparr>"

definition demo_file :: file_system where
  "demo_file = (\<lambda>_. None)"

lemma demo_encodes_event:
  "encodes_event (demo_surface_codec (demo_key 1)) (SurfaceActivated (demo_key 1))"
  "encodes_event (demo_surface_codec (demo_key 1)) (SurfaceReleased (demo_key 1))"
  "encodes_event (demo_surface_codec (demo_key 1)) (SurfaceReattached (demo_key 1))"
  by (simp_all add: encodes_event_def demo_surface_codec_def newline_def in_range_def)

lemma demo_key_valid: "surface_key_valid (demo_key 1)"
  by (simp add: demo_key_def surface_key_valid_def surface_kind_known_def surface_label_ok_def)

lemma demo_file_empty: "file_contents demo_file p = []"
  by (simp add: demo_file_def file_contents_def)

section \<open>Properties\<close>

text \<open>
  Round trip: a recovery journal that is opened again after any sequence of recordings, where
  each was rejected, failed to open the file or was written completely, has the outstanding
  surfaces, the event count and the size that the process had in memory.
\<close>

theorem reopened_recovery_is_the_same:
  assumes "file_contents fs p = []"
    and "\<forall>(e, faults) \<in> set ops. encodes_event codec e \<and> nothing_torn faults"
    and "record_events codec p ops (empty_recovery, fs) = (st', fs')"
  shows "open_recovery codec p None None fs' = Inr st'"
proof -
  from record_events_mirrors [OF empty_mirrors [OF assms (1)] assms (2)] assms (3)
  obtain es where "recovery_mirrors codec p es (st', fs')" by auto
  then show ?thesis by (rule open_mirrored)
qed

theorem reopened_recovery_is_the_same_witness:
  "open_recovery (demo_surface_codec (demo_key 1)) ''j'' None None
      (snd (record_events (demo_surface_codec (demo_key 1)) ''j''
        [(SurfaceActivated (demo_key 1), no_surface_faults), (SurfaceReattached (demo_key 1), no_surface_faults)]
        (empty_recovery, demo_file)))
    = Inr (fst (record_events (demo_surface_codec (demo_key 1)) ''j''
        [(SurfaceActivated (demo_key 1), no_surface_faults), (SurfaceReattached (demo_key 1), no_surface_faults)]
        (empty_recovery, demo_file)))"
  by (rule reopened_recovery_is_the_same [OF demo_file_empty _ surjective_pairing])
    (auto simp: demo_encodes_event nothing_torn_def no_surface_faults_def)

text \<open>C39. A write that fails inside a line stops the journal: the caller gets an error, and from then on
  the file cannot be opened, because the rest of the line is no event and nothing truncates it.
\<close>

theorem torn_line_stops_the_journal:
  assumes mirrors: "recovery_mirrors codec p es (st, fs)"
    and line: "sc_to_vec codec e = Some v" "newline \<notin> set v"
    and fits: "surface_key_valid (event_key e)" "length v < max_event_bytes"
      "sj_event_count st < max_journal_events" "sj_byte_count st + length v < max_journal_bytes"
    and torn: "sf_open faults = None" "sf_write faults = Some (n, message)" "0 < n" "n < length v"
      "sc_from_str codec (take n v) = None"
  shows "\<exists>fs'. record_event codec p e faults (st, fs) = (Inl (SurfaceIo message), st, fs')
    \<and> open_recovery codec p None None fs' = Inl SurfaceCorruptJournal"
proof (intro exI conjI)
  let ?t = "journal_text codec es @ take n v"
  let ?fs = "fs(p \<mapsto> ?t)"
  have es: "\<forall>e \<in> set es. event_fits codec e" "file_contents fs p = journal_text codec es"
    "sj_event_count st = length es" "sj_byte_count st = length (journal_text codec es)"
    using mirrors by (auto simp: recovery_mirrors_def)
  show "record_event codec p e faults (st, fs) = (Inl (SurfaceIo message), st, ?fs)"
    using line fits torn es by (auto simp: record_event_def append_surface_event_def Let_def)
  have "newline \<notin> set (take n v)" "take n v \<noteq> []" "\<not> max_event_bytes < length (take n v)"
    using line (2) torn (3,4) fits (2) by (auto dest: in_set_takeD)
  then have "replay_lines codec {} 0 (text_lines [] ?t) = Inl SurfaceCorruptJournal"
    using journal_text_lines [OF es (1)] replay_journal_lines [OF es (1), of 0] fits (3) torn (5)
    by (simp add: es text_lines_tail)
  moreover have "\<not> max_journal_bytes < length ?t" using fits (4) torn (4) by (simp add: es)
  ultimately show "open_recovery codec p None None ?fs = Inl SurfaceCorruptJournal"
    by (simp add: open_recovery_def file_contents_def Let_def)
qed

theorem torn_line_stops_the_journal_witness:
  "\<exists>fs'. record_event (demo_surface_codec (demo_key 1)) ''j'' (SurfaceActivated (demo_key 1))
      \<lparr>sf_open = None, sf_write = Some (1, ''disk full''), sf_sync = None\<rparr> (empty_recovery, demo_file)
        = (Inl (SurfaceIo ''disk full''), empty_recovery, fs')
    \<and> open_recovery (demo_surface_codec (demo_key 1)) ''j'' None None fs' = Inl SurfaceCorruptJournal"
  by (rule torn_line_stops_the_journal [OF empty_mirrors [OF demo_file_empty], where v = "[0x41, 0x7D]" and n = 1 and message = "''disk full''"])
    (simp_all add: demo_surface_codec_def newline_def demo_key_valid max_event_bytes_def
      max_journal_bytes_def max_journal_events_def empty_recovery_def)

text \<open>C40. A surface that was attached again after a restart is forgotten: the journal takes it out of the
  outstanding ones though it is live, so after the next restart its owner is refused to attach it.
\<close>

theorem reattached_surface_is_forgotten:
  assumes "recovery_mirrors codec p es (st, fs)" "encodes_event codec (SurfaceReattached k)"
    and "record_event codec p (SurfaceReattached k) no_surface_faults (st, fs) = (Inr (), st', fs')"
    and "open_recovery codec p None None fs' = Inr reopened" "wd_recovery w = Some reopened"
    and "in_session_known i" "recovery_key_of (claim_of owner t) = Inr k"
  shows "begin_reattachment env i owner t visibility w
    = (Finished (SurfaceConflict ''surface_recovery_debt_missing''), w)"
proof -
  have "nothing_torn no_surface_faults" by (simp add: nothing_torn_def no_surface_faults_def)
  from record_mirrors [OF assms (1,2) this assms (3)]
  have m: "recovery_mirrors codec p (es @ [SurfaceReattached k]) (st', fs')" by simp
  then have "reopened = st'" using open_mirrored assms (4) by fastforce
  moreover have "\<not> outstanding_exact st' k" using m by (auto simp: recovery_mirrors_def outstanding_exact_def)
  moreover have "checked_claim owner t w = Inr (claim_of owner t, k, reopened)"
  proof -
    have "surface_key_valid k \<and> k = \<lparr>sk_session_id = st_session_id t, sk_surface_kind = st_surface_kind t,
        sk_label = st_label t, sk_incarnation = st_incarnation t, sk_owner_instance_id = owner\<rparr>"
      using assms (7) by (auto simp: recovery_key_of_def claim_of_def surface_key_new_def Let_def split: if_splits)
    then show ?thesis
      using assms (5,7) by (auto simp: checked_claim_def surface_key_valid_def surface_identity_def)
  qed
  ultimately show ?thesis using assms (6) by (simp add: begin_reattachment_def)
qed

theorem reattached_surface_is_forgotten_witness:
  "\<exists>w visibility. begin_reattachment
      \<lparr>en_uuid_display = (\<lambda>_. []), en_json_display = (\<lambda>_. []), en_codec = demo_surface_codec (demo_key 1),
       en_path = ''j''\<rparr>
      \<lparr>in_session_known = True, in_fresh = 9, in_faults = no_surface_faults\<rparr> 1 demo_target visibility w
    = (Finished (SurfaceConflict ''surface_recovery_debt_missing''), w)"
proof -
  let ?codec = "demo_surface_codec (demo_key 1)"
  obtain st1 fs1 where first: "record_event ?codec ''j'' (SurfaceActivated (demo_key 1)) no_surface_faults
      (empty_recovery, demo_file) = (Inr (), st1, fs1)"
    by (simp add: record_event_def demo_key_valid demo_surface_codec_def max_event_bytes_def max_journal_bytes_def
        max_journal_events_def empty_recovery_def append_surface_event_def no_surface_faults_def)
  have torn: "nothing_torn no_surface_faults" by (simp add: nothing_torn_def no_surface_faults_def)
  from record_mirrors [OF empty_mirrors [OF demo_file_empty] demo_encodes_event (1) torn first]
  have m1: "recovery_mirrors ?codec ''j'' [SurfaceActivated (demo_key 1)] (st1, fs1)" by simp
  then have st1: "sj_event_count st1 = 1" "sj_byte_count st1 = 3"
    by (simp_all add: recovery_mirrors_def journal_text_def event_text_def demo_surface_codec_def)
  obtain st2 fs2 where second: "record_event ?codec ''j'' (SurfaceReattached (demo_key 1)) no_surface_faults (st1, fs1)
      = (Inr (), st2, fs2)"
    by (simp add: record_event_def demo_key_valid demo_surface_codec_def max_event_bytes_def max_journal_bytes_def
        max_journal_events_def st1 append_surface_event_def no_surface_faults_def)
  from record_mirrors [OF m1 demo_encodes_event (3) torn second]
  have reopened: "open_recovery ?codec ''j'' None None fs2 = Inr st2" using open_mirrored by simp
  have key: "recovery_key_of (claim_of 1 demo_target) = Inr (demo_key 1)"
    using demo_key_valid
    by (simp add: recovery_key_of_def claim_of_def demo_target_def surface_key_new_def demo_key_def)
  let ?w = "\<lparr>wd_token = ''t'', wd_owners = None, wd_surfaces = None, wd_governor = governor_new default_budget,
    wd_recovery = Some st2, wd_files = fs2, wd_bridge = live_bridge_new 1 1, wd_reaped = [], wd_tasks = []\<rparr>"
  show ?thesis
    by (intro exI, rule reattached_surface_is_forgotten [OF m1 demo_encodes_event (3) second reopened _ _ key,
          where w = ?w]) simp_all
qed

end
