(* ===== verification/Surface_Properties.thy ===== *)
theory Surface_Properties
  imports Surface_Slots Recovery_Properties "HOL-Library.Code_Target_Nat"
begin

text \<open>
  The properties of the surface handlers over every run of them: one claimant for a surface, no
  slot of the governor without a holder, no authority for a superseded lease, and what a dropped
  request and an interrupted reaper leave behind.
\<close>

section \<open>Runs\<close>

definition fresh_world :: "surface_world \<Rightarrow> bool" where
  "fresh_world w \<longleftrightarrow> wd_tasks w = [] \<and> wd_owners w = None \<and> wd_surfaces w = None"

lemma run_surfaces_simps [simp]:
  "run_surfaces env [] w = w"
  "run_surfaces env (op # ops) w = run_surfaces env ops (run_surface env op w)"
  by (simp_all add: run_surfaces_def)


lemma run_surfaces_slots: "slots_inv w \<Longrightarrow> slots_inv (run_surfaces env ops w)"
  by (induction ops arbitrary: w) (simp_all add: run_surface_slots)


lemma fresh_world_slots:
  assumes "fresh_world w" "bt_wf (rg_reservations (wd_governor w))" "surface_slots (wd_governor w) = []"
  shows "slots_inv w"
proof -
  have "slots (wd_governor w) = {#}"
    using other_work_slots [of "(wd_governor w)\<lparr>rg_reservations := []\<rparr>" "wd_governor w"] assms (2,3)
    by (simp add: other_work_def surface_slots_def slots_def)
  with assms show ?thesis
    by (simp add: slots_inv_def fresh_world_def slots_held_def governor_wf_def surface_entry_or_new_def)
qed

section \<open>A dropped request\<close>











section \<open>A superseded lease\<close>

definition lease_unknown :: "uuid \<Rightarrow> surface_owners \<Rightarrow> bool" where
  "lease_unknown lid os \<longleftrightarrow> owners_wf os \<and> (\<forall>owner l. lease_of os owner = Some l \<longrightarrow> so_owner_lease_id l \<noteq> lid)"

fun draws_lease :: "uuid \<Rightarrow> surface_op \<Rightarrow> bool" where
  "draws_lease lid (RegisterOwner owner epoch lid' now) = (lid' = lid)"
| "draws_lease lid _ = False"

lemma lease_unknown_with_lease:
  "lease_unknown lid (Some e) \<Longrightarrow> so_owner_lease_id l \<noteq> lid \<Longrightarrow> lease_unknown lid (with_lease e owner l)"
  by (auto simp: lease_unknown_def split: if_splits)

lemma lease_unknown_lookup: "lease_unknown lid os \<Longrightarrow> lease_of os owner = Some l \<Longrightarrow> so_owner_lease_id l \<noteq> lid"
  by (auto simp: lease_unknown_def)

lemma lease_unknown_current:
  assumes "lease_unknown lid os" "current_lease pf now os = Inr (e, l)"
  shows "lease_unknown lid (Some e)" "so_owner_lease_id l \<noteq> lid"
  using assms lease_unknown_lookup by (auto simp: current_lease_Inr)

lemma lease_unknown_pin:
  assumes "lease_unknown lid os"
  shows "lease_unknown lid (snd (pin_surface_owner_at pf now os))"
    and "lease_unknown lid (snd (heartbeat_surface_owner_at pf now os))"
    and "lease_unknown lid (drop_owner_guard owner os)"
    and "lease_unknown lid (snd (reap_expired_surface_owners_at now os))"
    and "lid' \<noteq> lid \<Longrightarrow> lease_unknown lid (snd (register_surface_owner_at r epoch lid' owner now os))"
proof -
  have wf: "owners_wf os" using assms by (simp add: lease_unknown_def)
  have "lease_unknown lid (snd (pin_surface_owner_at pf now os))
      \<and> lease_unknown lid (snd (heartbeat_surface_owner_at pf now os))"
  proof (cases "current_lease pf now os")
    case (Inr x)
    obtain e l where "x = (e, l)" by force
    with Inr lease_unknown_current [OF assms, of pf now e l] show ?thesis
      by (simp add: pin_surface_owner_at_def heartbeat_surface_owner_at_def lease_unknown_with_lease)
  qed (simp add: pin_surface_owner_at_def heartbeat_surface_owner_at_def assms)
  then show "lease_unknown lid (snd (pin_surface_owner_at pf now os))"
    "lease_unknown lid (snd (heartbeat_surface_owner_at pf now os))" by simp_all
  show "lease_unknown lid (drop_owner_guard owner os)"
    using assms lease_unknown_lookup [OF assms, of owner]
    by (auto simp: drop_owner_guard_def lease_of_def intro!: lease_unknown_with_lease split: option.split)
  show "lease_unknown lid (snd (reap_expired_surface_owners_at now os))"
    using reap_wf [OF wf] lease_unknown_lookup [OF assms]
    by (auto simp: lease_unknown_def reap_lease [OF wf] split: option.splits if_splits)
  show "lease_unknown lid (snd (register_surface_owner_at r epoch lid' owner now os))" if "lid' \<noteq> lid"
  proof -
    have "lease_unknown lid (Some (owners_or_new epoch os))"
      using assms by (cases os) (simp_all add: owners_or_new_def lease_unknown_def lease_of_def owners_wf_def)
    from lease_unknown_with_lease [OF this, of _ owner] that show ?thesis
      by (auto simp: register_surface_owner_at_def with_lease_def Let_def)
  qed
qed

lemma run_lease_unknown:
  assumes "lease_unknown lid (wd_owners w)" "\<not> draws_lease lid op"
  shows "lease_unknown lid (wd_owners (run_surface env op w))"
proof (cases op)
  case (RegisterOwner owner epoch lid' now)
  with assms lease_unknown_pin (5) [OF assms (1)] show ?thesis
    by (auto simp: register_owner_def split: prod.split) (metis snd_conv)
next
  case (HeartbeatOwner pf now)
  with assms show ?thesis
    by (auto simp: heartbeat_surface_owner_def split: prod.split sum.split) (metis lease_unknown_pin (2) snd_conv)+
next
  case (ReapOwners now)
  with assms show ?thesis
    by (auto simp: reap_owners_def split: prod.split) (metis lease_unknown_pin (4) snd_conv)
next
  case (ReapAndRelease now)
  have "wd_owners (snd (fold (\<lambda>owner (n, v). case release_surface_resource_owner owner v of
      (k, v') \<Rightarrow> (n + k, v')) owners (n, v))) = wd_owners v" for owners n v
    by (induction owners arbitrary: n v) (auto split: prod.split, metis release_owner_frame (1) snd_conv)
  with ReapAndRelease assms show ?thesis
    by (auto simp: reap_expired_surface_owner_resources_at_def split: prod.split)
      (metis lease_unknown_pin (4) snd_conv)
next
  case (Arrive header pf now request)
  with assms show ?thesis
    by (auto simp: arrive_def split: prod.split sum.split) (metis lease_unknown_pin (1) snd_conv)+
next
  case (Advance n i)
  with assms lease_unknown_pin (3) show ?thesis
    by (auto simp: advance_def end_task_def Let_def next_stage_frame split: prod.split)
next
  case (Cancel n faults)
  with assms lease_unknown_pin (3) show ?thesis
    by (auto simp: cancel_task_def end_task_def cancelled_stage_frame split: option.split)
qed (use assms in \<open>auto simp: release_reaped_def release_surface_resource_session_def Let_def
    split: list.split option.split\<close>)

section \<open>A concrete run\<close>

definition demo_claim :: "uuid \<Rightarrow> surface_claim" where
  "demo_claim owner = (owner, 5, ''preview_window'', ''p'', 1)"

definition demo_surface_env :: surface_env where
  "demo_surface_env = \<lparr>en_uuid_display = (\<lambda>u. if u = 5 then ''5'' else ''r''), en_json_display = (\<lambda>_. []),
     en_codec = demo_surface_codec (demo_key 1), en_path = ''j''\<rparr>"

definition demo_surface_budget :: resource_budget where
  "demo_surface_budget = \<lparr>bu_memory_mb = 0, bu_cpu_percent = Finite 0, bu_capture_storage_mb = 0,
     bu_network_kb_per_minute = 0, bu_chromium_instances = 1, bu_concurrent_captures = 1, bu_hidden_surfaces = 1\<rparr>"

definition demo_surface_world :: surface_world where
  "demo_surface_world = \<lparr>wd_token = ''t'', wd_owners = None, wd_surfaces = None,
     wd_governor = governor_new demo_surface_budget, wd_recovery = Some empty_recovery, wd_files = (\<lambda>_. None),
     wd_bridge = live_bridge_new 1 1, wd_reaped = [], wd_tasks = []\<rparr>"

definition demo_input :: stage_input where
  "demo_input = \<lparr>in_session_known = True, in_fresh = 9, in_faults = no_surface_faults\<rparr>"

text \<open>An owner registers, reserves a slot and activates a surface, up to the recording.\<close>

definition demo_request :: "uuid \<Rightarrow> uuid \<Rightarrow> timestamp \<Rightarrow> surface_request \<Rightarrow> surface_op" where
  "demo_request owner lid now request =
     Arrive (Some ''Bearer t'') \<lparr>sp_owner_instance_id = owner, sp_boot_epoch = 10, sp_owner_lease_id = lid\<rparr> now request"

definition demo_activation :: "uuid \<Rightarrow> uuid \<Rightarrow> timestamp \<Rightarrow> string \<Rightarrow> nat \<Rightarrow> surface_op list" where
  "demo_activation owner lid now rid n =
     [RegisterOwner owner 10 lid now,
      demo_request owner lid now (ReserveSurface 5 rid), Advance n demo_input, Advance n demo_input,
      demo_request owner lid now (ActivateSurface demo_target rid SurfaceVisible),
      Advance n demo_input, Advance n demo_input]"


text \<open>What the run leaves, evaluated once.\<close>

definition observed :: "surface_world \<Rightarrow> surface_stage list \<times> (((uuid \<times> session_id \<times> string) list
    \<times> surface_claim list \<times> surface_claim set) option)" where
  "observed w = (map tk_stage (wd_tasks w),
     map_option (\<lambda>e. (map fst (sr_pending e), map fst (sr_live e), sr_activating e)) (wd_surfaces w))"

lemma demo_observed:
  "observed (run_surfaces demo_surface_env (demo_activation 1 11 0 ''r'' 0) demo_surface_world)
    = ([Activated (demo_claim 1) (SurfaceActivated (demo_key 1))
        \<lparr>ll_key = Some (''5'', ''r''), ll_kind = LiveNativeSurface, ll_surface_identity = Some (claim_identity (demo_claim 1))\<rparr>],
       Some ([], [], {demo_claim 1}))"
  by code_simp

lemma demo_before_recording:
  "map tk_stage (wd_tasks (run_surfaces demo_surface_env (demo_activation 1 11 0 ''r'' 0) demo_surface_world))
    = [Activated (demo_claim 1) (SurfaceActivated (demo_key 1))
        \<lparr>ll_key = Some (''5'', ''r''), ll_kind = LiveNativeSurface, ll_surface_identity = Some (claim_identity (demo_claim 1))\<rparr>]"
  and demo_entry: "\<exists>e. wd_surfaces (run_surfaces demo_surface_env (demo_activation 1 11 0 ''r'' 0) demo_surface_world) = Some e
    \<and> sr_pending e = [] \<and> sr_live e = [] \<and> sr_activating e = {demo_claim 1}"
  using demo_observed by (simp_all add: observed_def)

text \<open>
  The reaper takes the lease of an owner and is interrupted; the owner registers again and starts
  to activate the surface; the reaper goes on and drops the new claim; a second owner activates the
  same surface; both requests finish.
\<close>

definition race_ops :: "surface_op list" where
  "race_ops = [RegisterOwner 1 10 11 0, ReapOwners 15000000000] @ demo_activation 1 12 15000000000 ''r'' 0
     @ [ReleaseReaped] @ demo_activation 2 13 15000000000 ''s'' 1
     @ [Advance 0 demo_input, Advance 0 demo_input, Advance 1 demo_input, Advance 1 demo_input]"

lemma interrupted_reaper_splits_a_surface:
  "map_option (\<lambda>e. map fst (sr_live e)) (wd_surfaces (run_surfaces demo_surface_env race_ops demo_surface_world))
    = Some [demo_claim 1, demo_claim 2]"
  by code_simp

section \<open>Properties\<close>



text \<open>C36. Whatever interleaves, the slots of the governor that surfaces occupy are exactly the ones whose
  handles are held by a pending reservation, a live surface or a request in progress: nothing
  leaks, not even when a request is dropped, and nothing is released twice. And every live surface
  holds a slot that carries its own identity.
\<close>

theorem every_surface_slot_is_held:
  assumes "fresh_world w" "bt_wf (rg_reservations (wd_governor w))" "surface_slots (wd_governor w) = []"
    and "w' = run_surfaces env ops w"
  shows "image_mset Some (slots (wd_governor w')) = entry_holds (surface_entry_or_new w') + mset (task_holds (wd_tasks w'))
    \<and> (\<forall>(c, l) \<in> set (sr_live (surface_entry_or_new w')). \<exists>k v. ll_key l = Some k
        \<and> map_of (rg_reservations (wd_governor w')) k = Some (Live (NativeSurfaceLive (claim_identity c) v)))"
proof -
  have held: "world_slots_held w' (mset (task_holds (wd_tasks w')))"
    using run_surfaces_slots [OF fresh_world_slots [OF assms (1-3)], of env ops] assms (4)
    by (simp add: slots_inv_def)
  then have eq: "image_mset Some (slots (wd_governor w'))
      = entry_holds (surface_entry_or_new w') + mset (task_holds (wd_tasks w'))" by (simp add: slots_held_def)
  have "\<exists>k v. ll_key l = Some k
      \<and> map_of (rg_reservations (wd_governor w')) k = Some (Live (NativeSurfaceLive (claim_identity c) v))"
    if live: "(c, l) \<in> set (sr_live (surface_entry_or_new w'))" for c l
  proof -
    have "lease_hold l \<in># entry_holds (surface_entry_or_new w')" using live by (force simp: entry_holds_def)
    then have "lease_hold l \<in># image_mset Some (slots (wd_governor w'))" unfolding eq union_iff by (rule disjI1)
    moreover have "governor_wf (wd_governor w')" "ll_surface_identity l = Some (claim_identity c)"
      using held live by (auto simp: slots_held_def entry_ok_def names_claim_def)
    ultimately show ?thesis by (elim held_lease) auto
  qed
  with eq show ?thesis by blast
qed

theorem every_surface_slot_is_held_witness:
  "image_mset Some (slots (wd_governor (run_surfaces demo_surface_env (demo_activation 1 11 0 ''r'' 0) demo_surface_world)))
    = {#Some (HoldLease (''5'', ''r'') (claim_identity (demo_claim 1)))#}"
proof -
  let ?w = "run_surfaces demo_surface_env (demo_activation 1 11 0 ''r'' 0) demo_surface_world"
  have "fresh_world demo_surface_world" "bt_wf (rg_reservations (wd_governor demo_surface_world))"
    "surface_slots (wd_governor demo_surface_world) = []"
    by (simp_all add: fresh_world_def demo_surface_world_def governor_new_def surface_slots_def)
  from every_surface_slot_is_held [OF this refl, of demo_surface_env "demo_activation 1 11 0 ''r'' 0", THEN conjunct1]
  have "image_mset Some (slots (wd_governor ?w))
      = entry_holds (surface_entry_or_new ?w) + mset (task_holds (wd_tasks ?w))" .
  moreover have "entry_holds (surface_entry_or_new ?w) = {#}"
    using demo_entry by (auto simp: surface_entry_or_new_def entry_holds_def)
  moreover have "task_holds (wd_tasks ?w) = concat (map stage_holds (map tk_stage (wd_tasks ?w)))"
    by (simp add: task_holds_def comp_def)
  ultimately show ?thesis by (simp add: demo_before_recording lease_hold_def)
qed



text \<open>
  A lease that was superseded, or that was never drawn, authorizes nothing: whatever happens, a
  request with a proof that names it is answered at once and changes nothing.
\<close>

theorem superseded_lease_never_pins:
  assumes "\<forall>owner l. lease_of (wd_owners w) owner = Some l \<longrightarrow> so_owner_lease_id l \<noteq> sp_owner_lease_id pf"
    and "owners_wf (wd_owners w)" "\<forall>op \<in> set ops. \<not> draws_lease (sp_owner_lease_id pf) op"
    and "w' = run_surfaces env ops w"
  shows "\<exists>r. arrive header pf now request w' = (Some r, w') \<and> r \<noteq> NoContent"
proof -
  have "lease_unknown (sp_owner_lease_id pf) (wd_owners w)" using assms (1,2) by (simp add: lease_unknown_def)
  then have "lease_unknown (sp_owner_lease_id pf) (wd_owners (run_surfaces env ops w))"
    using assms (3) by (induction ops arbitrary: w) (simp_all add: run_lease_unknown)
  then have u: "lease_unknown (sp_owner_lease_id pf) (wd_owners w')" by (simp add: assms (4))
  have "\<exists>err. current_lease pf now (wd_owners w') = Inl err"
  proof (cases "current_lease pf now (wd_owners w')")
    case (Inr x)
    obtain e l where "x = (e, l)" by force
    with Inr have cur: "current_lease pf now (wd_owners w') = Inr (e, l)" by simp
    then have "sp_owner_lease_id pf = so_owner_lease_id l" unfolding current_lease_Inr by (elim conjE)
    with lease_unknown_current (2) [OF u cur] show ?thesis by simp
  qed simp
  then show ?thesis by (auto simp: arrive_def pin_surface_owner_at_def)
qed

theorem superseded_lease_never_pins_witness:
  "\<exists>r. arrive (Some ''Bearer t'') \<lparr>sp_owner_instance_id = 1, sp_boot_epoch = 10, sp_owner_lease_id = 11\<rparr> 5
      (CancelReservation 5 ''r'')
      (run_surfaces demo_surface_env [ReapAndRelease 4] (run_surfaces demo_surface_env
        [RegisterOwner 1 10 11 0, RegisterOwner 1 20 12 1] demo_surface_world))
    = (Some r, run_surfaces demo_surface_env [ReapAndRelease 4] (run_surfaces demo_surface_env
        [RegisterOwner 1 10 11 0, RegisterOwner 1 20 12 1] demo_surface_world)) \<and> r \<noteq> NoContent"
proof -
  let ?w = "run_surfaces demo_surface_env [RegisterOwner 1 10 11 0, RegisterOwner 1 20 12 1] demo_surface_world"
  have w: "wd_owners ?w = Some \<lparr>oe_boot_epoch = 10,
      oe_leases = [(1, \<lparr>so_owner_lease_id = 12, so_last_seen = 1, so_in_flight = 0\<rparr>)]\<rparr>"
    by (simp add: register_owner_def demo_surface_world_def register_surface_owner_at_def owners_or_new_def Let_def)
  show ?thesis
    by (rule superseded_lease_never_pins [OF _ _ _ refl, of ?w])
      (simp_all add: w lease_of_def owners_wf_def bt_wf_Cons del: run_surfaces_simps run_surface.simps)
qed

end
