(* ===== verification/Surface_Actions.thy ===== *)
theory Surface_Actions
  imports Surface_Runtime
begin

text \<open>
  The executor side of managed surfaces (\<open>src/crates/control/src/resource_runtime.rs\<close>): the
  references that name an exact surface, the primary surface of a session, and the handlers that
  hand its executor the queued actions and take their results. A handler is modelled from its pin
  to its answer, its calls of the bridge in their order. What the consequential coordinator adds
  (arming the actions that are handed out, the durable record of a completion) is not modelled, so
  taking gives the actions before they are armed.
\<close>

record managed_surface_action_authority =
  ma_authority_ref :: string
  ma_provider_incarnation_ref :: provider_incarnation_ref
  ma_target_incarnation_ref :: target_incarnation_ref
  ma_generation :: u64

definition surface_members :: "surface_env \<Rightarrow> surface_claim \<Rightarrow> (string \<times> json) list" where
  "surface_members env c = (case c of (owner, session, kind, label, incarnation) \<Rightarrow>
     [(''owner_instance_id'', JString (en_uuid_display env owner)),
      (''session_id'', JString (en_uuid_display env session)),
      (''surface_kind'', JString kind), (''label'', JString label),
      (''incarnation'', JNumber (PosInt incarnation))])"

definition managed_surface_refs ::
  "surface_env \<Rightarrow> surface_claim \<Rightarrow> provider_incarnation_ref \<times> target_incarnation_ref" where
  "managed_surface_refs env c =
     (let exact_surface = en_json_display env (json_object (surface_members env c))
      in (ProviderIncarnationRef (''provider:managed-webview:'' @ exact_surface),
          TargetIncarnationRef (''target:managed-webview:'' @ exact_surface)))"

definition managed_surface_action_authority_ref :: "surface_env \<Rightarrow> surface_claim \<Rightarrow> string" where
  "managed_surface_action_authority_ref env c =
     en_json_display env (json_object ((''kind'', JString ''managed_webview'') # surface_members env c))"

definition surface_authority :: "surface_env \<Rightarrow> surface_claim \<Rightarrow> managed_surface_action_authority" where
  "surface_authority env c =
     (let refs = managed_surface_refs env c
      in \<lparr>ma_authority_ref = managed_surface_action_authority_ref env c,
          ma_provider_incarnation_ref = fst refs, ma_target_incarnation_ref = snd refs,
          ma_generation = max (ls_incarnation (claim_identity c)) 1\<rparr>)"

definition current_primary_managed_surface_action_authority ::
  "surface_env \<Rightarrow> session_id \<Rightarrow> surface_world \<Rightarrow> string + managed_surface_action_authority" where
  "current_primary_managed_surface_action_authority env session w =
     (case Option.bind (wd_surfaces w) (\<lambda>e. primary_live_surface e session) of
        None \<Rightarrow> Inl ''surface_owner_missing''
      | Some c \<Rightarrow> Inr (surface_authority env c))"

definition validate_primary_surface_action_request ::
  "surface_env \<Rightarrow> uuid \<Rightarrow> surface_target \<Rightarrow> surface_world \<Rightarrow> string + managed_surface_action_authority" where
  "validate_primary_surface_action_request env owner t w =
     (if st_incarnation t = 0 then Inl ''invalid_surface_identity''
      else case surface_identity t of
        None \<Rightarrow> Inl ''invalid_surface_identity''
      | Some _ \<Rightarrow>
          (case wd_surfaces w of
             None \<Rightarrow> Inl ''surface_owner_missing''
           | Some e \<Rightarrow>
               (if map_of (sr_live e) (claim_of owner t) = None then Inl ''surface_owner_incarnation_mismatch''
                else case primary_live_surface e (st_session_id t) of
                  None \<Rightarrow> Inl ''surface_owner_missing''
                | Some c \<Rightarrow>
                    if c \<noteq> claim_of owner t then Inl ''surface_not_primary_action_authority''
                    else Inr (surface_authority env c))))"

definition managed_binding :: "session_id \<Rightarrow> managed_surface_action_authority \<Rightarrow> provider_observation_binding" where
  "managed_binding session a = \<lparr>bind_session_id = session, bind_generation = ma_generation a,
     bind_provider_incarnation_ref = ma_provider_incarnation_ref a,
     bind_target_incarnation_ref = ma_target_incarnation_ref a,
     bind_initial_continuity = CReconciliationRequired, bind_sequence_baseline = None\<rparr>"

definition bind_managed_surface ::
  "live_bridge \<Rightarrow> session_id \<Rightarrow> managed_surface_action_authority \<Rightarrow> (string + unit) \<times> live_bridge" where
  "bind_managed_surface b session a =
     (case bind_provider_observation b (managed_binding session a) of
        (Inl _, b') \<Rightarrow> (Inl ''managed_surface_observation_binding_stale'', b')
      | (Inr _, b') \<Rightarrow> (Inr (), b'))"

definition ensure_managed_surface_observation_binding ::
  "live_bridge \<Rightarrow> session_id \<Rightarrow> managed_surface_action_authority \<Rightarrow> (string + unit) \<times> live_bridge" where
  "ensure_managed_surface_observation_binding b session a =
     (let b1 = snd (ensure_managed_surface_action_authority b session (ma_authority_ref a))
      in case observation_status_of b1 session of
           None \<Rightarrow> bind_managed_surface b1 session a
         | Some status \<Rightarrow>
             if os_provider_incarnation_ref status = ma_provider_incarnation_ref a
                 \<and> os_target_incarnation_ref status = ma_target_incarnation_ref a then (Inr (), b1)
             else if \<not> starts_with managed_provider_prefix (provider_as_str (os_provider_incarnation_ref status))
               then (Inr (), b1)
             else bind_managed_surface (snd (release_provider_observation b1 session)) session a)"

definition take_surface_actions ::
  "surface_env \<Rightarrow> bool \<Rightarrow> uuid \<Rightarrow> surface_target \<Rightarrow> timestamp \<Rightarrow> surface_world
    \<Rightarrow> (surface_response + bridge_action list) \<times> surface_world" where
  "take_surface_actions env known owner t now w =
     (if \<not> known then (Inl (SurfaceNotFound ''surface_session_not_found''), w)
      else case validate_primary_surface_action_request env owner t w of
        Inl err \<Rightarrow> (Inl (SurfaceConflict err), w)
      | Inr a \<Rightarrow>
          (case ensure_managed_surface_observation_binding (wd_bridge w) (st_session_id t) a of
             (Inl err, b) \<Rightarrow> (Inl (SurfaceConflict err), w\<lparr>wd_bridge := b\<rparr>)
           | (Inr _, b) \<Rightarrow>
               (case take_managed_surface_actions b (st_session_id t) (ma_authority_ref a) 16 now of
                  (actions, b') \<Rightarrow> (Inr actions, w\<lparr>wd_bridge := b'\<rparr>))))"

definition complete_surface_action ::
  "(string \<Rightarrow> parsed_url option) \<Rightarrow> surface_env \<Rightarrow> bool \<Rightarrow> uuid \<Rightarrow> surface_target \<Rightarrow> bridge_action_result
    \<Rightarrow> timestamp \<Rightarrow> surface_world \<Rightarrow> surface_response \<times> surface_world" where
  "complete_surface_action url_parse env known owner t result now w =
     (if \<not> known then (SurfaceNotFound ''surface_session_not_found'', w)
      else case validate_primary_surface_action_request env owner t w of
        Inl err \<Rightarrow> (SurfaceConflict err, w)
      | Inr a \<Rightarrow>
          (case ensure_managed_surface_observation_binding (wd_bridge w) (st_session_id t) a of
             (Inl _, b) \<Rightarrow> (SurfaceConflict ''managed_surface_observation_binding_stale'', w\<lparr>wd_bridge := b\<rparr>)
           | (Inr _, b) \<Rightarrow>
               (case complete_managed_surface_action url_parse b (st_session_id t) (ma_authority_ref a) result now of
                  (SurfaceActionCompleted, b') \<Rightarrow> (NoContent, w\<lparr>wd_bridge := b'\<rparr>)
                | (AuthorityStale, b') \<Rightarrow>
                    (SurfaceConflict ''managed_surface_action_authority_stale'', w\<lparr>wd_bridge := b'\<rparr>)
                | (ActionNotInflight, b') \<Rightarrow>
                    (SurfaceConflict ''surface_action_not_inflight'', w\<lparr>wd_bridge := b'\<rparr>))))"

section \<open>Names of surfaces\<close>

text \<open>The members of an object literal, found again in the object.\<close>

lemma object_insert_get:
  "map_of (object_insert k v m) j = (if j = k then Some v else map_of m j)"
  by (induction m) auto

lemma json_object_get:
  "json_object ms = JObject (fold (\<lambda>(k, v) m. object_insert k v m) ms [])
    \<and> map_of (fold (\<lambda>(k, v) m. object_insert k v m) ms []) j = map_of (rev ms) j"
proof -
  have "map_of (fold (\<lambda>(k, v) m. object_insert k v m) ms m0) j = map_of (rev ms @ m0) j" for m0
    by (induction ms arbitrary: m0) (auto simp: object_insert_get map_add_def split: option.split)
  then show ?thesis by (simp add: json_object_def)
qed

lemma json_object_eq: "json_object ms = json_object ms' \<Longrightarrow> map_of (rev ms) j = map_of (rev ms') j"
  by (metis json.inject(5) json_object_get)

lemma surface_members_inj:
  assumes "inj (en_uuid_display env)"
    and "\<And>j. map_of (rev (pre @ surface_members env c)) j = map_of (rev (pre @ surface_members env c')) j"
  shows "c = c'"
proof -
  obtain o1 s1 k1 l1 i1 where c: "c = (o1, s1, k1, l1, i1)" by (metis prod.exhaust)
  obtain o2 s2 k2 l2 i2 where c': "c' = (o2, s2, k2, l2, i2)" by (metis prod.exhaust)
  have "en_uuid_display env o1 = en_uuid_display env o2"
    using assms (2) [of "''owner_instance_id''"] by (simp add: c c' surface_members_def)
  moreover have "en_uuid_display env s1 = en_uuid_display env s2"
    using assms (2) [of "''session_id''"] by (simp add: c c' surface_members_def)
  moreover have "k1 = k2" using assms (2) [of "''surface_kind''"] by (simp add: c c' surface_members_def)
  moreover have "l1 = l2" using assms (2) [of "''label''"] by (simp add: c c' surface_members_def)
  moreover have "i1 = i2" using assms (2) [of "''incarnation''"] by (simp add: c c' surface_members_def)
  ultimately show ?thesis using assms (1) by (simp add: c c' inj_eq)
qed

lemma authority_ref_inj:
  assumes "inj (en_uuid_display env)" "inj (en_json_display env)"
    and "managed_surface_action_authority_ref env c = managed_surface_action_authority_ref env c'"
  shows "c = c'"
proof -
  have "json_object ([(''kind'', JString ''managed_webview'')] @ surface_members env c)
      = json_object ([(''kind'', JString ''managed_webview'')] @ surface_members env c')"
    using assms (2,3) by (simp add: managed_surface_action_authority_ref_def inj_eq)
  from surface_members_inj [OF assms (1) json_object_eq [OF this]] show ?thesis .
qed

section \<open>What the handlers leave\<close>

lemma rotate_authority: "lb_managed_surface_action_authority (snd (rotate_managed_authority b sid a)) sid = Some a"
  by (simp add: rotate_managed_authority_def)

lemma rotate_continuity: "lb_continuity (snd (rotate_managed_authority b sid a)) = lb_continuity b"
  by (simp add: rotate_managed_authority_def)

lemma take_authority:
  "lb_managed_surface_action_authority (snd (take_managed_surface_actions b sid a limit now)) sid = Some a"
  by (simp add: take_managed_surface_actions_def live_take_public_actions_def rotate_authority split: prod.split)

lemma bind_managed_authority [simp]:
  "lb_managed_surface_action_authority (snd (bind_managed_surface b sid a)) = lb_managed_surface_action_authority b"
  "lb_legacy (snd (bind_managed_surface b sid a)) = lb_legacy b"
  by (auto simp: bind_managed_surface_def bind_provider_observation_def Let_def split: sum.split)

lemma ensure_authority:
  "lb_managed_surface_action_authority (snd (ensure_managed_surface_observation_binding b sid a)) sid
    = Some (ma_authority_ref a)"
  by (simp add: ensure_managed_surface_observation_binding_def ensure_managed_surface_action_authority_def Let_def
      rotate_authority release_provider_observation_def split: option.split)

lemma ensure_legacy:
  "lb_legacy (snd (ensure_managed_surface_observation_binding b sid a))
    = lb_legacy (snd (rotate_managed_authority b sid (ma_authority_ref a)))"
  by (simp add: ensure_managed_surface_observation_binding_def ensure_managed_surface_action_authority_def Let_def
      release_provider_observation_def split: option.split)

lemma validated:
  assumes "validate_primary_surface_action_request env owner t w = Inr a"
  obtains e where "wd_surfaces w = Some e" "primary_live_surface e (st_session_id t) = Some (claim_of owner t)"
    "claim_of owner t \<in> fst ` set (sr_live e)" "a = surface_authority env (claim_of owner t)"
  using assms
  by (auto simp: validate_primary_surface_action_request_def map_of_eq_None_iff split: if_splits option.splits)

end
