(* ===== verification/Executor_Properties.thy ===== *)
theory Executor_Properties
  imports Surface_Actions Continuity_Properties
begin

text \<open>
  Which executor is handed the actions of a session: the one of the primary live surface, whose
  exact name is the authority the bridge keeps; when the surface changes, nothing that was queued
  or taken for the previous one crosses over.
\<close>

lemma taken_after_rotation:
  assumes "lb_managed_surface_action_authority b sid \<noteq> Some a"
    and "b1 = snd (rotate_managed_authority b sid a)"
  shows "fst (take_managed_surface_actions b1 sid a limit now) = []"
proof -
  obtain n c1 where d: "discard_public_actions_for_session (lb_legacy b) sid = (n, c1)" by force
  then have b1: "lb_legacy b1 = c1" "lb_managed_surface_action_authority b1 sid = Some a"
    using assms by (simp_all add: rotate_managed_authority_def)
  obtain out c2 where taken: "take_public_actions c1 sid limit now = (out, c2)" by force
  from discard_then_take [OF d this] b1 taken show ?thesis
    by (simp add: take_managed_surface_actions_def rotate_managed_authority_def live_take_public_actions_def)
qed

lemma take_only_legacy:
  assumes "lb_legacy b = lb_legacy b'" "lb_managed_surface_action_authority b sid = Some a"
    "lb_managed_surface_action_authority b' sid = Some a"
  shows "fst (take_managed_surface_actions b sid a limit now) = fst (take_managed_surface_actions b' sid a limit now)"
  using assms
  by (simp add: take_managed_surface_actions_def rotate_managed_authority_def live_take_public_actions_def
      split: prod.split)

lemma ensure_native_observation:
  assumes "observation_status_of b sid = Some status"
    and "\<not> starts_with managed_provider_prefix (provider_as_str (os_provider_incarnation_ref status))"
  shows "lb_continuity (snd (ensure_managed_surface_observation_binding b sid a)) = lb_continuity b"
proof -
  have "observation_status_of (snd (rotate_managed_authority b sid (ma_authority_ref a))) sid = Some status"
    using assms (1) by (simp add: observation_status_of_def rotate_continuity)
  with assms (2) show ?thesis
    by (simp add: ensure_managed_surface_observation_binding_def ensure_managed_surface_action_authority_def
        rotate_continuity Let_def)
qed

lemma take_continuity: "lb_continuity (snd (take_managed_surface_actions b sid a limit now)) = lb_continuity b"
  by (simp add: take_managed_surface_actions_def live_take_public_actions_def rotate_continuity split: prod.split)

lemma take_surface_actions_Inr:
  assumes "take_surface_actions env known owner t now w = (Inr actions, w')"
  obtains e a where "wd_surfaces w = Some e" "primary_live_surface e (st_session_id t) = Some (claim_of owner t)"
    "claim_of owner t \<in> fst ` set (sr_live e)" "a = surface_authority env (claim_of owner t)"
    "(actions, wd_bridge w') = take_managed_surface_actions
       (snd (ensure_managed_surface_observation_binding (wd_bridge w) (st_session_id t) a))
       (st_session_id t) (ma_authority_ref a) 16 now"
proof -
  obtain a where a: "validate_primary_surface_action_request env owner t w = Inr a"
    using assms by (auto simp: take_surface_actions_def split: if_splits sum.splits)
  obtain r b where b: "ensure_managed_surface_observation_binding (wd_bridge w) (st_session_id t) a = (r, b)" by force
  obtain out b' where t: "take_managed_surface_actions b (st_session_id t) (ma_authority_ref a) 16 now = (out, b')" by force
  have "actions = out" "wd_bridge w' = b'"
    using assms a b t by (auto simp: take_surface_actions_def split: if_splits sum.splits)
  with b t have "(actions, wd_bridge w') = take_managed_surface_actions
       (snd (ensure_managed_surface_observation_binding (wd_bridge w) (st_session_id t) a))
       (st_session_id t) (ma_authority_ref a) 16 now" by simp
  with validated [OF a] that show thesis by metis
qed

text \<open>C38. An executor is given actions only when its surface is live and is the primary one of the session,
  and from then on the bridge names exactly that surface. If the bridge named another surface
  before (names of different surfaces differ, \<open>authority_ref_inj\<close>), the executor is given none of
  the actions queued for it; and a native observation of the session is not replaced.
\<close>

theorem actions_go_to_the_primary_surface:
  assumes "take_surface_actions env known owner t now w = (Inr actions, w')"
    and "session = st_session_id t" "ref = managed_surface_action_authority_ref env (claim_of owner t)"
  shows "(\<exists>e. wd_surfaces w = Some e \<and> claim_of owner t \<in> fst ` set (sr_live e)
        \<and> primary_live_surface e session = Some (claim_of owner t))
    \<and> lb_managed_surface_action_authority (wd_bridge w') session = Some ref
    \<and> (lb_managed_surface_action_authority (wd_bridge w) session \<noteq> Some ref \<longrightarrow> actions = [])
    \<and> (\<forall>status. observation_status_of (wd_bridge w) session = Some status
        \<longrightarrow> \<not> starts_with managed_provider_prefix (provider_as_str (os_provider_incarnation_ref status))
        \<longrightarrow> observation_status_of (wd_bridge w') session = Some status)"
proof -
  from take_surface_actions_Inr [OF assms (1)] obtain e a where e: "wd_surfaces w = Some e"
    "primary_live_surface e session = Some (claim_of owner t)" "claim_of owner t \<in> fst ` set (sr_live e)"
    and a: "a = surface_authority env (claim_of owner t)"
    and taken': "(actions, wd_bridge w') = take_managed_surface_actions
      (snd (ensure_managed_surface_observation_binding (wd_bridge w) session a)) session (ma_authority_ref a) 16 now"
    unfolding assms (2) .
  have ref: "ma_authority_ref a = ref" by (simp add: a surface_authority_def Let_def assms (3))
  let ?b1 = "snd (rotate_managed_authority (wd_bridge w) session ref)"
  let ?b = "snd (ensure_managed_surface_observation_binding (wd_bridge w) session a)"
  have taken: "actions = fst (take_managed_surface_actions ?b session ref 16 now)"
    "wd_bridge w' = snd (take_managed_surface_actions ?b session ref 16 now)"
    by (simp_all only: taken' [unfolded ref, symmetric] fst_conv snd_conv)
  have "actions = []" if "lb_managed_surface_action_authority (wd_bridge w) session \<noteq> Some ref"
    using taken_after_rotation [OF that refl] ensure_legacy [of "wd_bridge w" session a]
      ensure_authority [of "wd_bridge w" session a] rotate_authority
      take_only_legacy [of ?b ?b1 session ref 16 now] taken (1) by (simp add: ref)
  moreover have "observation_status_of (wd_bridge w') session = Some status"
    if "observation_status_of (wd_bridge w) session = Some status"
      "\<not> starts_with managed_provider_prefix (provider_as_str (os_provider_incarnation_ref status))" for status
    using ensure_native_observation [OF that, of a] that (1)
    by (simp add: observation_status_of_def taken (2) take_continuity)
  moreover have "lb_managed_surface_action_authority (wd_bridge w') session = Some ref"
    by (simp add: taken (2) take_authority)
  ultimately show ?thesis using e by blast
qed

section \<open>A concrete executor\<close>

definition executor_target :: surface_target where
  "executor_target = \<lparr>st_session_id = 7, st_surface_kind = ''preview_window'', st_label = ''p'', st_incarnation = 1\<rparr>"

definition executor_env :: surface_env where
  "executor_env = \<lparr>en_uuid_display = (\<lambda>_. []), en_json_display = (\<lambda>_. ''new''),
     en_codec = \<lparr>sc_to_vec = (\<lambda>_. None), sc_from_str = (\<lambda>_. None)\<rparr>, en_path = ''j''\<rparr>"

text \<open>The surface of an owner is live, and the bridge still names the surface of before.\<close>

definition executor_world :: surface_world where
  "executor_world = \<lparr>wd_token = ''t'', wd_owners = None,
     wd_surfaces = Some \<lparr>sr_pending = [], sr_activating = {}, sr_live = [(claim_of 1 executor_target,
       \<lparr>ll_key = Some (''7'', ''r''), ll_kind = LiveNativeSurface,
        ll_surface_identity = Some (claim_identity (claim_of 1 executor_target))\<rparr>)]\<rparr>,
     wd_governor = governor_new default_budget, wd_recovery = None, wd_files = (\<lambda>_. None),
     wd_bridge = handover, wd_reaped = [], wd_tasks = []\<rparr>"

theorem actions_go_to_the_primary_surface_witness:
  "queued (cb_base (lb_legacy (wd_bridge executor_world))) 7 \<noteq> []
   \<and> fst (take_surface_actions executor_env True 1 executor_target 3 executor_world) = Inr []"
proof -
  have first: "lb_managed_surface_action_authority handover 7 = Some ''first''"
    and q: "length (queued (cb_base (lb_legacy handover)) 7) = 1" by code_simp+
  have "\<not> isl (fst (take_surface_actions executor_env True 1 executor_target 3 executor_world))" by code_simp
  then obtain actions where "fst (take_surface_actions executor_env True 1 executor_target 3 executor_world) = Inr actions"
    by (auto simp: isl_def) (metis sum.exhaust)
  then have taken:
    "take_surface_actions executor_env True 1 executor_target 3 executor_world
      = (Inr actions, snd (take_surface_actions executor_env True 1 executor_target 3 executor_world))"
    by (metis prod.collapse)
  have "managed_surface_action_authority_ref executor_env (claim_of 1 executor_target) = ''new''"
    by (simp add: managed_surface_action_authority_ref_def executor_env_def)
  with actions_go_to_the_primary_surface [OF taken refl refl] first have "actions = []"
    by (simp add: executor_world_def executor_target_def)
  with taken q show ?thesis by (auto simp: executor_world_def) (metis fst_conv)
qed

end
