(* ===== verification/Spec2Isabelle.thy ===== *)
theory Spec2Isabelle
  imports Journal_Properties Authority_Properties History_Properties Live_Bridge Observer_Stream
    Delivery_Properties Continuity_Properties Contract_Registry Content_Store
    Governor_Properties Companion_Properties Result_Privacy Flow_Properties Session_Properties
    Surface_Properties Executor_Properties
begin

text \<open>
  A verification development for the authority core of LocalView: the crates that decide which
  action may run, who may run it, what is durably known about it, and what is stored of it.

  The program. A page or a native application is observed by providers; agents enqueue actions for
  it; executors (managed web views or native runtimes) take them and report results. Consequential
  actions (those with side effects) pass a durable journal: they are admitted, authorized,
  prepared, dispatched, linearized, observed and reconciled with the postconditions that were
  declared for them, and after a crash the journal decides what may still be done. The live bridge
  holds the queues, the results, the continuity of every observation and the authority of managed
  surfaces. The surface handlers of the control service give native surfaces their slot of the
  resource governor and their owner, and decide which of them executes actions. Sessions get
  identities that survive restarts.

  How the parts call each other. The reconciliation of postconditions reads the journal and the
  contract registry and appends a receipt. The live bridge wraps the cancellable bridge, which wraps
  the base queues; the recovery inventory and the companions read the journal. The surface handlers
  call the governor, the owner leases, the recovery journal and the live bridge. The session
  manager calls the identity registry.

  Theories and sources (under \<open>src/crates\<close>).

  \<^item> \<open>Prelude\<close>, \<open>Ordered_Map\<close>, \<open>One_Shot\<close>, \<open>Rust_Float\<close>, \<open>Rust_Net\<close>, \<open>Json_Access\<close>: what the components
    share of the Rust standard library: machine integers and saturation, strings as UTF-8 bytes,
    \<open>BTreeMap\<close> as a sorted association list, IEEE rounding, JSON values; the locale of authorities
    that are used once (\<open>One_Shot\<close>, interpreted on dispatch capabilities, permits and bound
    envelopes).
  \<^item> \<open>Protocol\<close>, \<open>Envelope\<close>: the vocabulary (\<open>protocol/src\<close>) and the action envelopes
    (\<open>live-bridge/src/action_envelope.rs\<close>).
  \<^item> \<open>Journal_Types\<close>, \<open>Journal_Log\<close>, \<open>Journal_History\<close>, \<open>Journal_Store\<close>, \<open>Journal_Ops\<close>,
    \<open>Journal_Authority\<close>: the consequential journal
    (\<open>live-bridge/src/consequential_journal/base.rs\<close>): records, projections and validation of a
    history, the file under injected faults, every operation, its one-shot authorities.
    \<open>Journal_Safety\<close>, \<open>Journal_Invariant\<close>, \<open>Journal_Run\<close>, \<open>Journal_Crash\<close> hold the lemmas,
    \<open>Lifecycle_Log\<close> the lifecycle automaton the journal refines, \<open>Scenario\<close> a concrete run;
    \<open>Journal_Properties\<close>, \<open>Authority_Properties\<close>, \<open>History_Properties\<close> state the properties.
  \<^item> \<open>Reconciliation\<close> (\<open>live-bridge/src/postcondition_reconciliation.rs\<close>), \<open>Recovery_Inventory\<close>,
    \<open>Action_Companions\<close>, \<open>Companion_Properties\<close> (the other files of \<open>consequential_journal\<close>).
  \<^item> \<open>Bridge_Types\<close>, \<open>Bridge_Queue\<close>, \<open>Observer_Stream\<close>, \<open>Action_Results\<close>, \<open>Result_Privacy\<close>
    (\<open>live-bridge/src/lib.rs\<close>), \<open>Cancellation_Authority\<close>, \<open>Cancellable_Bridge\<close>,
    \<open>Cancellation_Laws\<close>, \<open>Public_Delivery\<close>, \<open>Native_Delivery\<close>, \<open>Bridge_Run\<close>,
    \<open>Delivery_Properties\<close> (\<open>cancellable_lib.rs\<close>), \<open>Live_Bridge\<close>, \<open>Provider_Continuity\<close>,
    \<open>Continuity_Properties\<close> (\<open>v43_lib.rs\<close>, \<open>wave6.rs\<close>).
  \<^item> \<open>Flow_Graph\<close>, \<open>Flow_Properties\<close> (\<open>flow/src/lib.rs\<close>): interaction graphs, bounded discovery, the
    search for a shortest path, keyboard journeys, replays.
  \<^item> \<open>Native_Snapshot\<close> (\<open>native-provider/src/lib.rs\<close>), \<open>Contract_Codec\<close>, \<open>Contract_Registry\<close>
    (\<open>postcondition-contracts/src/lib.rs\<close>), \<open>Content_Store\<close> (\<open>content-addressed/src/lib.rs\<close>).
  \<^item> \<open>Resource_Governor\<close>, \<open>Governor_Properties\<close> (\<open>resource-governor/src\<close>).
  \<^item> \<open>Session_Identity\<close>, \<open>Identity_Properties\<close>, \<open>Session_Manager\<close>, \<open>Session_Properties\<close>
    (\<open>sessions/src\<close>, and the project identity of \<open>core/src/lib.rs\<close>).
  \<^item> \<open>Surface_Recovery\<close>, \<open>Surface_Owner\<close>, \<open>Surface_Runtime\<close>, \<open>Surface_Actions\<close>
    (\<open>control/src/surface_recovery.rs\<close>, \<open>surface_owner.rs\<close>, \<open>surface_liveness.rs\<close>,
    \<open>resource_runtime.rs\<close>): the surface handlers as interleaved stages. \<open>Surface_Safety\<close> has the
    invariant of the pins and claims, \<open>Surface_Slots\<close> the one of the governor slots;
    \<open>Surface_Properties\<close>, \<open>Recovery_Properties\<close>, \<open>Executor_Properties\<close> state the properties.

  Conventions. An operation is a function of its arguments and the state; a fallible one returns
  \<open>error + value\<close>; a panic the code rules out (\<open>unreachable!\<close>, \<open>expect\<close>) is \<open>None\<close> and is proved
  impossible or stays visible. Every operation runs while its lock or gate is held and is atomic;
  where code holds a lock, releases it and takes another, the parts are separate operations or
  stages, and a run is any sequence of them. A future that is dropped is a step of its own
  (\<open>Cancel\<close>). \<open>Uuid::new_v4\<close>, \<open>Utc::now\<close> and \<open>Instant::now\<close> are inputs; a theorem that needs
  fresh identifiers says so. The file system is a map from paths to bytes, and which call fails,
  after how many bytes, is an argument, so a theorem over all arguments covers all faults.
  \<open>usize\<close> is 64 bits; a count that cannot reach its bound is a natural number. The iteration order
  of a \<open>HashMap\<close> is an argument where it shows.

  Parameters. \<open>serde_json\<close>, \<open>Uuid\<close>'s display, SHA-256, HMAC, \<open>url\<close>, Unicode lower-casing, the
  default hasher and paths are arguments (\<open>externals\<close>, \<open>serde\<close>, \<open>companion_codec\<close>,
  \<open>registry_codec\<close>, \<open>surface_env\<close>, \<open>host_env\<close>). What a theorem relies on of them is a named
  hypothesis about the values at hand (\<open>encodes\<close>, \<open>encodes_event\<close>, \<open>reads_back\<close>): a text without
  a newline, decoded to what was encoded.

  What the lemmas show. For each component an invariant and that every operation keeps it
  (\<open>journal_wf\<close>, the bridge invariant, \<open>surface_inv\<close>, \<open>slots_inv\<close>, \<open>records_ok\<close>); for runs, what can
  never happen (a second dispatch, a dispatch after an observation, an answer to an action that was
  cancelled, a surface with two claimants, a slot without a holder); for stored forms, round trips
  and crash consistency; for algorithms, equivalence with their specification (schedules, shortest
  paths, collection of garbage, the recovery inventory). The lemmas that exhibit defects are the
  ones the findings of the manifest name.

  Bounds. Recursion of the code is structural or ends by a measure (the pruning of tombstones, the
  dependency closure, the path search, \<open>replace\<close>), so no fuel is used. A journal sequence number
  and a pin count are exact below \<open>2 ^ 64 - 1\<close>; theorems about runs assume fewer steps than that
  (\<open>within_capacity\<close>, the length of the run), as a 64-bit process cannot make more.

  Not modelled. The coordinators of \<open>control\<close> that drive a consequential action through journal,
  bridge and provider (\<open>managed_consequential.rs\<close>, \<open>windows_consequential.rs\<close>) and
  \<open>windows-observe-runtime\<close>: their atomic parts are modelled, their asynchronous order is not.
  HTTP routing and JSON decoding of requests, the desktop shell, the command line, the daemon, the
  platform providers (foreign calls) and the page instrumentation (generated JavaScript) are input
  and output. The analyses (visual, layout, quality, accessibility, source mapping, verification
  planning, the validation lab) are heuristics without authority over actions. Weak pointers and
  the process-wide tables keyed by the address of a session manager are represented by the one
  entry of a manager that is alive.
\<close>

end
